(* ===== verification/Go_Prelude.thy ===== *)
theory Go_Prelude
  imports
    Main
    "HOL-Library.AList"
    "HOL-Library.Word"
    "HOL-Library.Char_ord"
    "HOL-Library.List_Lexorder"
    "HOL-Library.Product_Lexorder"
    "HOL-Library.Signed_Division"
    "HOL-Library.Multiset"
begin

text \<open>
  What the Go sources use of the language and of its standard library, shared by every
  component of the development.

  \<^item> Machine integers. Go's \<open>int\<close>, \<open>int64\<close> and \<open>time.Duration\<close> are 64 bit two's
    complement on the supported servers. They are \<open>int\<close> here, and \<open>i64\<close> writes the
    wrap-around out wherever the code computes a value that can leave the range. Byte
    counters are \<open>64 word\<close>.
  \<^item> Time. An instant is the number of nanoseconds since the Unix epoch; an operation that
    calls \<open>time.Now()\<close> takes it as an argument.
  \<^item> Maps. A Go map or \<open>sync.Map\<close> is an association list with distinct keys. The position
    of an entry is the (arbitrary) order in which \<open>range\<close> visits it. The laws clients rely on
    are the locale \<open>go_map_spec\<close>, interpreted on the lists as \<open>gm\<close>.
  \<^item> Strings. A string is its list of bytes. The functions of package \<open>strings\<close> are modelled
    on ASCII text, which is what addresses, tags and identifiers are made of.
  \<^item> A run-time panic is the value \<open>None\<close> of \<open>'a go\<close>.
\<close>

named_theorems go_map_simps \<open>lookup laws of the map operations\<close>
named_theorems go_map_wf \<open>preservation of distinct keys\<close>
named_theorems go_eval \<open>equations that evaluate closed terms\<close>

type_synonym 'a go = "'a option"


section \<open>Integers\<close>

definition i64 :: "int \<Rightarrow> int" where
  "i64 x = (x + 2 ^ 63) mod 2 ^ 64 - 2 ^ 63"

definition max_i64 :: int where "max_i64 = 2 ^ 63 - 1"

definition min_i64 :: int where "min_i64 = - (2 ^ 63)"

definition in_i64 :: "int \<Rightarrow> bool" where
  "in_i64 x \<longleftrightarrow> min_i64 \<le> x \<and> x \<le> max_i64"

lemmas i64_range_defs = in_i64_def min_i64_def max_i64_def

lemma i64_id [simp]: "in_i64 x \<Longrightarrow> i64 x = x"
  by (simp add: i64_def i64_range_defs)

lemma i64_in_range [simp]: "in_i64 (i64 x)"
proof -
  have "0 \<le> (x + 2 ^ 63) mod 2 ^ 64" and "(x + 2 ^ 63) mod 2 ^ 64 < 2 ^ 64"
    by simp_all
  then show ?thesis by (simp add: i64_def i64_range_defs)
qed

lemma i64_idem [simp]: "i64 (i64 x) = i64 x"
  by simp

text \<open>Go's integer division truncates towards zero, as \<open>sdiv\<close> of HOL-Library does.\<close>

definition go_div :: "int \<Rightarrow> int \<Rightarrow> int" where
  "go_div a b = a sdiv b"

lemma go_div_nonneg: "0 \<le> a \<Longrightarrow> 0 < b \<Longrightarrow> go_div a b = a div b"
  by (cases "a = 0") (simp_all add: go_div_def signed_divide_int_def)

section \<open>Time\<close>

type_synonym gotime = int

type_synonym duration = int

definition time_Second :: duration where "time_Second = 1000000000"

definition time_Minute :: duration where "time_Minute = 60 * time_Second"

definition time_Hour :: duration where "time_Hour = 60 * time_Minute"

lemmas time_consts = time_Second_def time_Minute_def time_Hour_def

definition time_Add :: "gotime \<Rightarrow> duration \<Rightarrow> gotime" where
  "time_Add t d = t + d"

text \<open>\<open>Time.Sub\<close> saturates at the bounds of \<open>time.Duration\<close>.\<close>

definition time_Sub :: "gotime \<Rightarrow> gotime \<Rightarrow> duration" where
  "time_Sub t u = max min_i64 (min max_i64 (t - u))"

definition time_Before :: "gotime \<Rightarrow> gotime \<Rightarrow> bool" where
  "time_Before t u \<longleftrightarrow> t < u"

definition time_Unix :: "gotime \<Rightarrow> int" where
  "time_Unix t = t div 1000000000"

lemmas time_defs = time_Add_def time_Before_def time_Unix_def

lemma time_Sub_gt_iff: "d < max_i64 \<Longrightarrow> min_i64 \<le> d \<Longrightarrow> time_Sub t u > d \<longleftrightarrow> t - u > d"
  by (auto simp: time_Sub_def)

lemma time_Unix_mono: "t \<le> u \<Longrightarrow> time_Unix t \<le> time_Unix u"
  by (simp add: time_Unix_def zdiv_mono1)


section \<open>Maps\<close>

type_synonym ('k, 'v) gomap = "('k \<times> 'v) list"

definition mload :: "('k, 'v) gomap \<Rightarrow> 'k \<Rightarrow> 'v option" where
  "mload m k = map_of m k"

definition mstore :: "('k, 'v) gomap \<Rightarrow> 'k \<Rightarrow> 'v \<Rightarrow> ('k, 'v) gomap" where
  "mstore m k v = AList.update k v m"

definition mdelete :: "('k, 'v) gomap \<Rightarrow> 'k \<Rightarrow> ('k, 'v) gomap" where
  "mdelete m k = AList.delete k m"

definition mwf :: "('k, 'v) gomap \<Rightarrow> bool" where
  "mwf m \<longleftrightarrow> distinct (map fst m)"

text \<open>A read with a default: indexing a Go map yields the zero value of a missing key.\<close>

definition mget :: "'v \<Rightarrow> ('k, 'v) gomap \<Rightarrow> 'k \<Rightarrow> 'v" where
  "mget z m k = (case mload m k of None \<Rightarrow> z | Some v \<Rightarrow> v)"

text \<open>The loop \<open>for k, v := range m { if p(k, v) { delete(m, k) } }\<close>.\<close>

definition mrange_delete :: "('k \<Rightarrow> 'v \<Rightarrow> bool) \<Rightarrow> ('k, 'v) gomap \<Rightarrow> ('k, 'v) gomap" where
  "mrange_delete p m = fold (\<lambda>(k, v) acc. if p k v then mdelete acc k else acc) m m"

text \<open>The loop \<open>for k, v := range m { out[k] = v }\<close>.\<close>

definition mcopy_into :: "('k, 'v) gomap \<Rightarrow> ('k, 'v) gomap \<Rightarrow> ('k, 'v) gomap" where
  "mcopy_into m out = fold (\<lambda>(k, v) acc. mstore acc k v) m out"

subsection \<open>The contract of a Go map\<close>

locale go_map_spec =
  fixes empty :: 'm
    and lookup :: "'m \<Rightarrow> 'k \<Rightarrow> 'v option"
    and update :: "'m \<Rightarrow> 'k \<Rightarrow> 'v \<Rightarrow> 'm"
    and remove :: "'m \<Rightarrow> 'k \<Rightarrow> 'm"
    and entries :: "'m \<Rightarrow> ('k \<times> 'v) list"
    and wf :: "'m \<Rightarrow> bool"
  assumes lookup_empty: "lookup empty k = None"
    and lookup_update: "lookup (update m k v) k' = (if k' = k then Some v else lookup m k')"
    and lookup_remove: "lookup (remove m k) k' = (if k' = k then None else lookup m k')"
    and wf_empty: "wf empty"
    and wf_update: "wf m \<Longrightarrow> wf (update m k v)"
    and wf_remove: "wf m \<Longrightarrow> wf (remove m k)"
    and lookup_entries: "lookup m k = map_of (entries m) k"
    and distinct_entries: "wf m \<Longrightarrow> distinct (map fst (entries m))"
begin

lemma fold_remove_lookup:
  "lookup (fold (\<lambda>(k, v) acc. if p k v then remove acc k else acc) kvs m) k =
     (if \<exists>v. (k, v) \<in> set kvs \<and> p k v then None else lookup m k)"
  by (induction kvs arbitrary: m) (auto simp: lookup_remove)

lemma fold_remove_wf:
  "wf m \<Longrightarrow> wf (fold (\<lambda>(k, v) acc. if p k v then remove acc k else acc) kvs m)"
  by (induction kvs arbitrary: m) (auto simp: wf_remove)

lemma sweep_lookup:
  assumes "wf m"
  shows "lookup (fold (\<lambda>(k, v) acc. if p k v then remove acc k else acc) (entries m) m) k =
     (case lookup m k of None \<Rightarrow> None | Some v \<Rightarrow> if p k v then None else Some v)"
proof -
  have "(k, v) \<in> set (entries m) \<longleftrightarrow> lookup m k = Some v" for v
    using distinct_entries [OF assms] by (simp add: lookup_entries)
  then show ?thesis by (auto simp: fold_remove_lookup split: option.splits)
qed

lemma fold_update_lookup:
  "distinct (map fst kvs) \<Longrightarrow>
   lookup (fold (\<lambda>(k, v) acc. update acc k v) kvs m) k =
     (case map_of kvs k of None \<Rightarrow> lookup m k | Some v \<Rightarrow> Some v)"
proof (induction kvs arbitrary: m)
  case Nil
  then show ?case by simp
next
  case (Cons a kvs)
  obtain j w where a: "a = (j, w)" by (cases a)
  with Cons.prems have "map_of kvs j = None"
    by (simp add: map_of_eq_None_iff)
  with Cons a show ?case by (auto simp: lookup_update split: option.split)
qed

lemma fold_update_wf: "wf m \<Longrightarrow> wf (fold (\<lambda>(k, v) acc. update acc k v) kvs m)"
  by (induction kvs arbitrary: m) (auto simp: wf_update)

lemma copy_lookup:
  assumes "wf m"
  shows "lookup (fold (\<lambda>(k, v) acc. update acc k v) (entries m) empty) k = lookup m k"
  using fold_update_lookup [OF distinct_entries [OF assms], of empty k]
  by (simp add: lookup_entries [of m] lookup_empty split: option.splits)

end

interpretation gm: go_map_spec "[]" mload mstore mdelete "\<lambda>m. m" mwf
  by unfold_locales
    (auto simp: mload_def mstore_def mdelete_def mwf_def update_conv' delete_conv'
      intro: distinct_update distinct_delete)

lemmas gomap_laws [simp, go_map_simps] = gm.lookup_empty gm.lookup_update gm.lookup_remove

lemmas gomap_wf_laws [simp, go_map_wf] = gm.wf_empty gm.wf_update gm.wf_remove

lemma mload_range_delete [simp, go_map_simps]:
  "mwf m \<Longrightarrow> mload (mrange_delete p m) k =
     (case mload m k of None \<Rightarrow> None | Some v \<Rightarrow> if p k v then None else Some v)"
  unfolding mrange_delete_def by (rule gm.sweep_lookup)

lemma mwf_range_delete [simp, go_map_wf]: "mwf m \<Longrightarrow> mwf (mrange_delete p m)"
  unfolding mrange_delete_def by (rule gm.fold_remove_wf)

lemma mload_copy_into [simp]: "mwf m \<Longrightarrow> mload (mcopy_into m []) k = mload m k"
  unfolding mcopy_into_def by (rule gm.copy_lookup)

lemma mwf_copy_into [simp, go_map_wf]: "mwf out \<Longrightarrow> mwf (mcopy_into m out)"
  unfolding mcopy_into_def by (rule gm.fold_update_wf)

lemma mload_Some_iff: "mwf m \<Longrightarrow> mload m k = Some v \<longleftrightarrow> (k, v) \<in> set m"
  by (simp add: mload_def mwf_def)

lemma mload_SomeD: "mload m k = Some v \<Longrightarrow> (k, v) \<in> set m"
  by (simp add: mload_def map_of_SomeD)

lemma mload_None_iff: "mload m k = None \<longleftrightarrow> k \<notin> fst ` set m"
  by (simp add: mload_def map_of_eq_None_iff)

lemma mget_simps [simp]:
  "mget z [] k = z"
  "mget z (mstore m k v) k' = (if k' = k then v else mget z m k')"
  "mget z (mdelete m k) k' = (if k' = k then z else mget z m k')"
  by (simp_all add: mget_def)

lemma length_mstore:
  "length (mstore m k v) = (if mload m k = None then Suc (length m) else length m)"
  by (induction m) (auto simp: mstore_def mload_def)

lemma mstore_nonempty [simp]: "mstore m k v \<noteq> []"
  by (cases m) (auto simp: mstore_def)

lemmas mstore_nonempty' [simp] = mstore_nonempty [symmetric]

lemma length_mdelete_le: "length (mdelete m k) \<le> length m"
  by (simp add: mdelete_def length_delete_le)

lemma length_mdelete:
  "mwf m \<Longrightarrow> length (mdelete m k) = (if mload m k = None then length m else length m - 1)"
proof (induction m)
  case Nil
  then show ?case by (simp add: mdelete_def mload_def)
next
  case (Cons a m)
  then show ?case
    by (cases m; cases "fst a = k")
      (auto simp: mdelete_def mload_def mwf_def delete_notin_dom image_iff map_of_eq_None_iff
        split: if_splits)
qed

lemma mwf_filter: "mwf m \<Longrightarrow> mwf (filter p m)"
  by (simp add: mwf_def distinct_map_filter)

lemma mdelete_eq_filter: "mdelete m k = filter (\<lambda>e. fst e \<noteq> k) m"
  by (induction m) (auto simp: mdelete_def)

lemma fold_mdelete_eq_filter:
  "fold (\<lambda>(k, v) acc. if p k v then mdelete acc k else acc) kvs m =
     filter (\<lambda>e. \<not> (\<exists>v. (fst e, v) \<in> set kvs \<and> p (fst e) v)) m"
  by (induction kvs arbitrary: m)
    (auto simp: mdelete_eq_filter split_def intro!: filter_cong)

text \<open>The deleting loop over a map with distinct keys is a filter.\<close>

lemma mrange_delete_eq_filter:
  assumes "mwf m"
  shows "mrange_delete p m = filter (\<lambda>(k, v). \<not> p k v) m"
proof -
  have "(\<exists>w. (fst e, w) \<in> set m \<and> p (fst e) w) \<longleftrightarrow> p (fst e) (snd e)" if "e \<in> set m" for e
    using that assms by (metis mload_Some_iff option.inject prod.collapse)
  then show ?thesis
    unfolding mrange_delete_def fold_mdelete_eq_filter
    by (intro filter_cong) (auto simp: split_def)
qed


section \<open>Sorting\<close>

text \<open>
  \<open>sort.Slice\<close> is not stable. Where the key determines the element, the result is still a
  function of the multiset of elements.
\<close>

lemma sort_key_inj_mset:
  assumes "inj f" and "mset xs = mset ys"
  shows "sort_key f xs = sort_key f ys"
proof (rule properties_for_sort_key)
  show "mset (sort_key f ys) = mset xs" using assms(2) by simp
  show "sorted (map f (sort_key f ys))" by simp
  fix k
  have "filter (\<lambda>x. f k = f x) zs = replicate (count (mset zs) k) k" for zs
    using assms(1) by (auto simp: replicate_count_mset_eq_filter_eq inj_eq intro!: filter_cong)
  then show "filter (\<lambda>x. f k = f x) (sort_key f ys) = filter (\<lambda>x. f k = f x) xs"
    using assms(2) by simp
qed

end
