(* ===== verification/Go_Strings.thy ===== *)
theory Go_Strings
  imports Go_Prelude
begin

text \<open>
  The functions of the Go packages \<open>strings\<close>, \<open>strconv\<close> and \<open>net\<close> the sources call, on byte
  strings, with the laws the components use: how a separator splits a string, and that decimal
  printing and parsing of integers are inverse to each other.
\<close>

section \<open>Package strings\<close>

definition is_space :: "char \<Rightarrow> bool" where
  "is_space c \<longleftrightarrow> of_char c \<in> {9, 10, 11, 12, 13, 32 :: nat}"

definition strings_TrimSpace :: "string \<Rightarrow> string" where
  "strings_TrimSpace s = rev (dropWhile is_space (rev (dropWhile is_space s)))"

definition strings_HasPrefix :: "string \<Rightarrow> string \<Rightarrow> bool" where
  "strings_HasPrefix s p \<longleftrightarrow> take (length p) s = p"

definition strings_TrimPrefix :: "string \<Rightarrow> string \<Rightarrow> string" where
  "strings_TrimPrefix s p = (if strings_HasPrefix s p then drop (length p) s else s)"

definition strings_HasSuffix :: "string \<Rightarrow> string \<Rightarrow> bool" where
  "strings_HasSuffix s p \<longleftrightarrow> length p \<le> length s \<and> drop (length s - length p) s = p"

definition strings_TrimSuffix :: "string \<Rightarrow> string \<Rightarrow> string" where
  "strings_TrimSuffix s p = (if strings_HasSuffix s p then take (length s - length p) s else s)"

definition to_lower :: "char \<Rightarrow> char" where
  "to_lower c = (if 65 \<le> (of_char c :: nat) \<and> (of_char c :: nat) \<le> 90
     then char_of ((of_char c :: nat) + 32) else c)"

definition strings_ToLower :: "string \<Rightarrow> string" where
  "strings_ToLower s = map to_lower s"

definition strings_EqualFold :: "string \<Rightarrow> string \<Rightarrow> bool" where
  "strings_EqualFold s t \<longleftrightarrow> strings_ToLower s = strings_ToLower t"

definition strings_TrimLeft :: "(char \<Rightarrow> bool) \<Rightarrow> string \<Rightarrow> string" where
  "strings_TrimLeft cutset s = dropWhile cutset s"

definition strings_Trim :: "(char \<Rightarrow> bool) \<Rightarrow> string \<Rightarrow> string" where
  "strings_Trim cutset s = rev (dropWhile cutset (rev (dropWhile cutset s)))"

text \<open>\<open>strings.TrimRight(s, "/")\<close> and its kind: drop the trailing bytes of the cut set.\<close>

definition strings_TrimRight :: "(char \<Rightarrow> bool) \<Rightarrow> string \<Rightarrow> string" where
  "strings_TrimRight cutset s = rev (dropWhile cutset (rev s))"

text \<open>\<open>strings.Split\<close> with a one byte separator: always at least one piece.\<close>

fun strings_Split :: "char \<Rightarrow> string \<Rightarrow> string list" where
  "strings_Split sep [] = [[]]"
| "strings_Split sep (c # cs) =
     (if c = sep then [] # strings_Split sep cs
      else (case strings_Split sep cs of
              [] \<Rightarrow> [[c]]
            | p # ps \<Rightarrow> (c # p) # ps))"

fun strings_Join :: "string list \<Rightarrow> string \<Rightarrow> string" where
  "strings_Join [] sep = []"
| "strings_Join [s] sep = s"
| "strings_Join (s # t # ts) sep = s @ sep @ strings_Join (t # ts) sep"

fun index_byte :: "char \<Rightarrow> string \<Rightarrow> nat option" where
  "index_byte c [] = None"
| "index_byte c (x # xs) = (if x = c then Some 0 else map_option Suc (index_byte c xs))"

definition last_index_byte :: "char \<Rightarrow> string \<Rightarrow> nat option" where
  "last_index_byte c s =
     (case index_byte c (rev s) of None \<Rightarrow> None | Some i \<Rightarrow> Some (length s - 1 - i))"

definition strings_Contains :: "string \<Rightarrow> char \<Rightarrow> bool" where
  "strings_Contains s c \<longleftrightarrow> c \<in> set s"

text \<open>\<open>strings.FieldsFunc\<close>: the maximal runs of bytes that are no separators.\<close>

fun strings_FieldsFunc :: "(char \<Rightarrow> bool) \<Rightarrow> string \<Rightarrow> string list" where
  "strings_FieldsFunc sep [] = []"
| "strings_FieldsFunc sep (c # cs) =
     (if sep c then strings_FieldsFunc sep cs
      else case cs of
        [] \<Rightarrow> [[c]]
      | d # _ \<Rightarrow>
          if sep d then [c] # strings_FieldsFunc sep cs
          else (case strings_FieldsFunc sep cs of [] \<Rightarrow> [[c]] | f # fs \<Rightarrow> (c # f) # fs))"

text \<open>\<open>strings.Cut\<close> with a one byte separator.\<close>

definition strings_Cut :: "string \<Rightarrow> char \<Rightarrow> (string \<times> string) option" where
  "strings_Cut s sep = map_option (\<lambda>i. (take i s, drop (i + 1) s)) (index_byte sep s)"

section \<open>Package strconv\<close>

fun nat_digits :: "nat \<Rightarrow> string" where
  "nat_digits n =
     (if n < 10 then [char_of (48 + n)] else nat_digits (n div 10) @ [char_of (48 + n mod 10)])"

declare nat_digits.simps [simp del]

definition strconv_Itoa :: "int \<Rightarrow> string" where
  "strconv_Itoa i = (if i < 0 then CHR ''-'' # nat_digits (nat (- i)) else nat_digits (nat i))"

definition is_digit :: "char \<Rightarrow> bool" where
  "is_digit c \<longleftrightarrow> 48 \<le> (of_char c :: nat) \<and> (of_char c :: nat) \<le> 57"

definition digits_value :: "string \<Rightarrow> nat" where
  "digits_value s = fold (\<lambda>c n. 10 * n + (of_char c - 48)) s 0"

text \<open>
  \<open>strconv.Atoi\<close> returns a value and an error. A string that is not a decimal number gives 0,
  a number that does not fit gives the nearest bound; in both cases the flag (no error) is
  false.
\<close>

definition strconv_Atoi :: "string \<Rightarrow> int \<times> bool" where
  "strconv_Atoi s =
     (let neg = (s \<noteq> [] \<and> hd s = CHR ''-'');
          ds = (if s \<noteq> [] \<and> (hd s = CHR ''-'' \<or> hd s = CHR ''+'') then tl s else s);
          v = (if neg then - int (digits_value ds) else int (digits_value ds))
      in if ds = [] \<or> \<not> list_all is_digit ds then (0, False)
         else if v < min_i64 then (min_i64, False)
         else if max_i64 < v then (max_i64, False)
         else (v, True))"

section \<open>Package net\<close>

definition net_SplitHostPort :: "string \<Rightarrow> (string \<times> string) option" where
  "net_SplitHostPort hostport =
     (case last_index_byte (CHR '':'') hostport of
        None \<Rightarrow> None
      | Some i \<Rightarrow>
          if hostport ! 0 = CHR ''['' then
            (case index_byte (CHR '']'') hostport of
               None \<Rightarrow> None
             | Some e \<Rightarrow>
                 if e + 1 = i \<and> CHR ''['' \<notin> set (drop 1 hostport)
                    \<and> CHR '']'' \<notin> set (drop (e + 1) hostport)
                 then Some (take (e - 1) (drop 1 hostport), drop (i + 1) hostport)
                 else None)
          else if CHR '':'' \<in> set (take i hostport)
                  \<or> CHR ''['' \<in> set hostport \<or> CHR '']'' \<in> set hostport
          then None
          else Some (take i hostport, drop (i + 1) hostport))"

definition net_JoinHostPort :: "string \<Rightarrow> string \<Rightarrow> string" where
  "net_JoinHostPort host port =
     (if CHR '':'' \<in> set host \<or> CHR ''%'' \<in> set host then ''['' @ host @ '']:'' @ port else host @ '':'' @ port)"

section \<open>Laws\<close>

lemma FieldsFunc_runs: "f \<in> set (strings_FieldsFunc sep s) \<Longrightarrow> f \<noteq> [] \<and> list_all (\<lambda>c. \<not> sep c) f"
proof (induction s arbitrary: f)
  case (Cons c cs)
  then show ?case by (cases cs; cases "strings_FieldsFunc sep cs") (auto split: if_splits)
qed simp

lemma index_byte_None: "index_byte c s = None \<longleftrightarrow> c \<notin> set s"
  by (induction s) auto

lemma index_byte_append: "c \<notin> set a \<Longrightarrow> index_byte c (a @ c # b) = Some (length a)"
  by (induction a) auto

lemma last_index_byte_None: "last_index_byte c s = None \<longleftrightarrow> c \<notin> set s"
  by (simp add: last_index_byte_def index_byte_None split: option.split) (metis index_byte_None option.distinct(1) set_rev)

lemma last_index_byte_append: "c \<notin> set b \<Longrightarrow> last_index_byte c (a @ c # b) = Some (length a)"
  using index_byte_append [of c "rev b" "rev a"] by (simp add: last_index_byte_def)

lemma dropWhile_all_not: "\<forall>x \<in> set s. \<not> p x \<Longrightarrow> dropWhile p s = s"
  by (cases s) auto

lemma TrimSpace_id: "\<forall>x \<in> set s. \<not> is_space x \<Longrightarrow> strings_TrimSpace s = s"
  by (simp add: strings_TrimSpace_def dropWhile_all_not)

lemma TrimSpace_nonspace:
  "strings_TrimSpace s \<noteq> [] \<Longrightarrow>
     \<not> is_space (hd (strings_TrimSpace s)) \<and> \<not> is_space (last (strings_TrimSpace s))"
proof -
  assume ne: "strings_TrimSpace s \<noteq> []"
  let ?d = "dropWhile is_space s"
  let ?r = "dropWhile is_space (rev ?d)"
  have r: "?r \<noteq> []" using ne by (simp add: strings_TrimSpace_def)
  then have l: "\<not> is_space (hd ?r)" by (rule hd_dropWhile)
  have d: "?d \<noteq> []" using r by (cases ?d) auto
  obtain pre where pre: "rev ?d = pre @ ?r"
    by (metis takeWhile_dropWhile_id)
  have "last ?r = last (rev ?d)"
    using pre r by (metis last_appendR)
  then have "last ?r = hd ?d" using d by (simp add: last_rev)
  then have "\<not> is_space (last ?r)" using d hd_dropWhile by metis
  with l r show ?thesis by (simp add: strings_TrimSpace_def hd_rev last_rev)
qed

lemma HasPrefix_append [simp]: "strings_HasPrefix (p @ s) p"
  by (simp add: strings_HasPrefix_def)

lemma TrimPrefix_append [simp]: "strings_TrimPrefix (p @ s) p = s"
  by (simp add: strings_TrimPrefix_def)

lemma TrimPrefix_hd: "p \<noteq> [] \<Longrightarrow> (s \<noteq> [] \<Longrightarrow> hd s \<noteq> hd p) \<Longrightarrow> strings_TrimPrefix s p = s"
  by (cases s; cases p) (auto simp: strings_TrimPrefix_def strings_HasPrefix_def)

lemma to_lower_idem [simp]: "to_lower (to_lower c) = to_lower c"
proof (cases "65 \<le> (of_char c :: nat) \<and> (of_char c :: nat) \<le> 90")
  case True
  then have "(of_char (to_lower c) :: nat) = of_char c + 32"
    by (simp add: to_lower_def)
  with True show ?thesis by (simp add: to_lower_def [of "to_lower c"])
next
  case False
  then have "to_lower c = c" by (auto simp: to_lower_def)
  then show ?thesis by simp
qed

lemma ToLower_idem [simp]: "strings_ToLower (strings_ToLower s) = strings_ToLower s"
  by (simp add: strings_ToLower_def)

lemma Split_ne: "strings_Split sep s \<noteq> []"
  by (induction s) (auto split: list.splits)

lemma Split_pieces_no_sep: "p \<in> set (strings_Split sep s) \<Longrightarrow> sep \<notin> set p"
  by (induction s arbitrary: p) (fastforce split: if_splits list.splits)+

lemma Join_Split: "strings_Join (strings_Split sep s) [sep] = s"
proof (induction s)
  case Nil
  then show ?case by simp
next
  case (Cons c cs)
  obtain p ps where p: "strings_Split sep cs = p # ps"
    using Split_ne by (meson neq_Nil_conv)
  with Cons.IH show ?case by (cases ps) auto
qed

subsection \<open>Decimal printing and parsing\<close>

lemma of_char_digit: "d < 10 \<Longrightarrow> (of_char (char_of (48 + d)) :: nat) = 48 + d"
  by simp

lemma nat_digits_ne: "nat_digits n \<noteq> []"
  by (subst nat_digits.simps) simp

lemma nat_digits_digits: "list_all is_digit (nat_digits n)"
proof (induction n rule: nat_digits.induct)
  case (1 n)
  have "is_digit (char_of (48 + d))" if "d < 10" for d :: nat
    using that by (simp add: is_digit_def of_char_digit)
  with 1 show ?case by (subst nat_digits.simps) simp
qed

lemma digits_value_snoc: "digits_value (s @ [c]) = 10 * digits_value s + (of_char c - 48)"
  by (simp add: digits_value_def)

lemma digits_value_nat_digits [simp]: "digits_value (nat_digits n) = n"
proof (induction n rule: nat_digits.induct)
  case (1 n)
  show ?case
  proof (cases "n < 10")
    case True
    then show ?thesis
      by (subst nat_digits.simps) (simp add: digits_value_def of_char_digit)
  next
    case False
    then have "digits_value (nat_digits n) = 10 * (n div 10) + n mod 10"
      using 1 by (subst nat_digits.simps) (simp add: digits_value_snoc of_char_digit)
    then show ?thesis by simp
  qed
qed

lemma hd_nat_digits: "is_digit (hd (nat_digits n))"
  using nat_digits_digits [of n] nat_digits_ne [of n] by (cases "nat_digits n") auto

lemma digit_not_sign: "is_digit c \<Longrightarrow> c \<noteq> CHR ''-'' \<and> c \<noteq> CHR ''+'' \<and> c \<noteq> CHR ''|''"
  by (auto simp: is_digit_def)

lemma Itoa_no_bar: "CHR ''|'' \<notin> set (strconv_Itoa i)"
  using nat_digits_digits digit_not_sign
  by (auto simp: strconv_Itoa_def list_all_iff)

lemma Atoi_Itoa: "in_i64 i \<Longrightarrow> strconv_Atoi (strconv_Itoa i) = (i, True)"
  using nat_digits_ne nat_digits_digits digit_not_sign [OF hd_nat_digits]
  by (auto simp: strconv_Atoi_def strconv_Itoa_def Let_def i64_range_defs)

lemma Itoa_inject [simp]: "strconv_Itoa i = strconv_Itoa j \<longleftrightarrow> i = j"
proof
  assume eq: "strconv_Itoa i = strconv_Itoa j"
  have "hd (nat_digits n) \<noteq> CHR ''-''" for n
    using hd_nat_digits digit_not_sign by blast
  then have "i < 0 \<longleftrightarrow> j < 0"
    using eq nat_digits_ne by (metis list.sel(1) strconv_Itoa_def)
  then have "nat_digits (nat \<bar>i\<bar>) = nat_digits (nat \<bar>j\<bar>)"
    using eq by (auto simp: strconv_Itoa_def split: if_splits)
  then have "nat \<bar>i\<bar> = nat \<bar>j\<bar>"
    by (metis digits_value_nat_digits)
  with \<open>i < 0 \<longleftrightarrow> j < 0\<close> show "i = j" by linarith
qed simp

text \<open>A separator that does not occur in two prefixes tells two strings apart.\<close>

lemma append_sep_inject:
  "c \<notin> set a \<Longrightarrow> c \<notin> set b \<Longrightarrow> a @ c # s = b @ c # t \<longleftrightarrow> a = b \<and> s = t"
proof (induction a arbitrary: b)
  case Nil
  then show ?case by (cases b) auto
next
  case (Cons x a)
  then show ?case by (cases b) auto
qed

lemma append_sep_inject_right:
  assumes "c \<notin> set s" and "c \<notin> set t"
  shows "a @ c # s = b @ c # t \<longleftrightarrow> a = b \<and> s = t"
proof -
  have "a @ c # s = b @ c # t \<longleftrightarrow> rev (a @ c # s) = rev (b @ c # t)"
    by (simp only: rev_is_rev_conv)
  also have "\<dots> \<longleftrightarrow> rev s @ c # rev a = rev t @ c # rev b" by simp
  also have "\<dots> \<longleftrightarrow> a = b \<and> s = t"
    using assms by (subst append_sep_inject) auto
  finally show ?thesis .
qed

end
