(* ===== verification/Conf.thy ===== *)
theory Conf
  imports Go_Strings
begin

text \<open>
  Package \<open>conf\<close>: the configuration structs the other components read, with the defaults the
  decoders start from and the decisions made after decoding (which core a block belongs to, which
  outbound file is loaded, how large the Xray buffer is, when the watcher reloads). A pointer that
  may be nil is an \<open>option\<close>. Decoding JSON text into a struct is done by a JSON package; the
  operations that call it take the decoder as an argument.
\<close>

section \<open>Limits (\<open>conf/limit.go\<close>)\<close>

record RecorderConfig =
  rc_Url :: string
  rc_Token :: string
  rc_Timeout :: int

record RedisConfig =
  rd_Address :: string
  rd_Password :: string
  rd_Db :: int
  rd_Expiry :: int

record IpReportConfig =
  irc_Periodic :: int
  irc_Type :: string
  irc_RecorderConfig :: "RecorderConfig option"
  irc_RedisConfig :: "RedisConfig option"
  irc_EnableIpSync :: bool

record DynamicSpeedLimitConfig =
  dsl_Periodic :: int
  dsl_Traffic :: int
  dsl_SpeedLimit :: int
  dsl_ExpireTime :: int

record LimitConfig =
  lc_EnableRealtime :: bool
  lc_SpeedLimit :: int
  lc_IPLimit :: int
  lc_ConnLimit :: int
  lc_OnlineTimeout :: int
  lc_EnableIpRecorder :: bool
  lc_IpRecorderConfig :: "IpReportConfig option"
  lc_EnableDynamicSpeedLimit :: bool
  lc_DynamicSpeedLimitConfig :: "DynamicSpeedLimitConfig option"

section \<open>Certificates (\<open>conf/cert.go\<close>)\<close>

record CertConfig =
  cc_CertMode :: string
  cc_RejectUnknownSni :: bool
  cc_CertDomain :: string
  cc_CertFile :: string
  cc_KeyFile :: string
  cc_Provider :: string
  cc_Email :: string
  cc_DNSEnv :: "(string, string) gomap"

definition NewCertConfig :: CertConfig where
  "NewCertConfig = \<lparr>cc_CertMode = ''none'', cc_RejectUnknownSni = False, cc_CertDomain = '''',
     cc_CertFile = '''', cc_KeyFile = '''', cc_Provider = '''', cc_Email = '''', cc_DNSEnv = []\<rparr>"

section \<open>Cores (\<open>conf/xray.go\<close>, \<open>conf/sing.go\<close>, \<open>conf/hy.go\<close>, \<open>conf/core.go\<close>)\<close>

definition sysmem_MiB :: int where "sysmem_MiB = 1048576"

text \<open>The per connection buffer in KB, by the memory budget of the machine in bytes.\<close>

definition defaultXrayBufferSize :: "int \<Rightarrow> int" where
  "defaultXrayBufferSize budget =
     (if budget = 0 then 64
      else if budget \<le> 512 * sysmem_MiB then 8
      else if budget \<le> 1024 * sysmem_MiB then 16
      else if budget \<le> 2048 * sysmem_MiB then 32
      else 64)"

record XrayLogConfig =
  xl_Level :: string
  xl_AccessPath :: string
  xl_ErrorPath :: string

record XrayConnectionConfig =
  xcc_Handshake :: int
  xcc_ConnIdle :: int
  xcc_UplinkOnly :: int
  xcc_DownlinkOnly :: int
  xcc_BufferSize :: int

record XrayConfig =
  xc_LogConfig :: "XrayLogConfig option"
  xc_AssetPath :: string
  xc_DnsConfigPath :: string
  xc_RouteConfigPath :: string
  xc_ConnectionConfig :: "XrayConnectionConfig option"
  xc_InboundConfigPath :: string
  xc_OutboundConfigPath :: string
  xc_outboundConfigPathSet :: bool

text \<open>\<open>NewXrayConfig\<close> reads the memory budget of the machine, here the argument.\<close>

definition NewXrayConfig :: "int \<Rightarrow> XrayConfig" where
  "NewXrayConfig budget =
     \<lparr>xc_LogConfig = Some \<lparr>xl_Level = ''warning'', xl_AccessPath = '''', xl_ErrorPath = ''''\<rparr>,
      xc_AssetPath = ''/etc/V2bX/'', xc_DnsConfigPath = '''', xc_RouteConfigPath = '''',
      xc_ConnectionConfig = Some \<lparr>xcc_Handshake = 4, xcc_ConnIdle = 30, xcc_UplinkOnly = 2,
        xcc_DownlinkOnly = 4, xcc_BufferSize = defaultXrayBufferSize budget\<rparr>,
      xc_InboundConfigPath = '''', xc_OutboundConfigPath = '''', xc_outboundConfigPathSet = False\<rparr>"

text \<open>
  \<open>ResolveOutboundConfigPath\<close>: \<open>join\<close> is \<open>filepath.Join\<close> of two elements and \<open>regular p\<close> says that
  \<open>os.Stat\<close> finds \<open>p\<close> and it is not a directory.
\<close>

definition ResolveOutboundConfigPath ::
  "(string \<Rightarrow> string \<Rightarrow> string) \<Rightarrow> (string \<Rightarrow> bool) \<Rightarrow> XrayConfig \<Rightarrow> string \<times> bool" where
  "ResolveOutboundConfigPath join regular c =
     (if xc_outboundConfigPathSet c then (xc_OutboundConfigPath c, False)
      else if xc_AssetPath c = '''' then ('''', False)
      else let sidecar = join (xc_AssetPath c) ''custom_outbound.json''
           in if \<not> regular sidecar then ('''', False) else (sidecar, True))"

text \<open>
  \<open>XrayConfig.UnmarshalJSON\<close>: \<open>members\<close> decodes the document into its raw members, \<open>dec\<close> into the
  struct as declared. Whether the key is there decides about the side file.
\<close>

definition XrayConfig_UnmarshalJSON ::
  "('raw \<Rightarrow> string + (string, 'raw) gomap) \<Rightarrow> ('raw \<Rightarrow> XrayConfig \<Rightarrow> string option \<times> XrayConfig) \<Rightarrow> 'raw \<Rightarrow> XrayConfig
   \<Rightarrow> string option \<times> XrayConfig" where
  "XrayConfig_UnmarshalJSON members dec data c =
     (case members data of
        Inl err \<Rightarrow> (Some err, c)
      | Inr raw \<Rightarrow>
          (case dec data c of
             (Some err, c) \<Rightarrow> (Some err, c)
           | (None, c) \<Rightarrow> (None, c\<lparr>xc_outboundConfigPathSet := mload raw ''OutboundConfigPath'' \<noteq> None\<rparr>)))"

record FallBackConfigForXray =
  fbx_SNI :: string
  fbx_Alpn :: string
  fbx_Path :: string
  fbx_Dest :: string
  fbx_ProxyProtocolVer :: nat

record XrayOptions =
  xo_EnableProxyProtocol :: bool
  xo_EnableDNS :: bool
  xo_DNSType :: string
  xo_EnableUot :: bool
  xo_EnableTFO :: bool
  xo_DisableIVCheck :: bool
  xo_DisableSniffing :: bool
  xo_EnableFallback :: bool
  xo_FallBackConfigs :: "FallBackConfigForXray list option"

definition NewXrayOptions :: XrayOptions where
  "NewXrayOptions = \<lparr>xo_EnableProxyProtocol = False, xo_EnableDNS = False, xo_DNSType = ''AsIs'',
     xo_EnableUot = False, xo_EnableTFO = False, xo_DisableIVCheck = False,
     xo_DisableSniffing = False, xo_EnableFallback = False, xo_FallBackConfigs = None\<rparr>"

record SingLogConfig =
  sl_Disabled :: bool
  sl_Level :: string
  sl_Output :: string
  sl_Timestamp :: bool

record SingNtpConfig =
  sn_Enable :: bool
  sn_Server :: string
  sn_ServerPort :: nat

record SingConfig =
  sc_LogConfig :: SingLogConfig
  sc_NtpConfig :: SingNtpConfig
  sc_OriginalPath :: string

definition NewSingConfig :: SingConfig where
  "NewSingConfig = \<lparr>sc_LogConfig = \<lparr>sl_Disabled = False, sl_Level = ''error'', sl_Output = '''',
     sl_Timestamp = True\<rparr>, sc_NtpConfig = \<lparr>sn_Enable = False, sn_Server = ''time.apple.com'',
     sn_ServerPort = 0\<rparr>, sc_OriginalPath = ''''\<rparr>"

record FallBack =
  fb_Server :: string
  fb_ServerPort :: string

record FallBackConfigForSing =
  fbs_FallBack :: FallBack
  fbs_FallBackForALPN :: "(string, FallBack) gomap"

record BrutalOptions =
  bo_Enabled :: bool
  bo_UpMbps :: int
  bo_DownMbps :: int

record MultiplexConfig =
  mx_Enabled :: bool
  mx_Padding :: bool
  mx_Brutal :: BrutalOptions

record SingOptions =
  so_TCPFastOpen :: bool
  so_SniffEnabled :: bool
  so_SniffOverrideDestination :: bool
  so_EnableDNS :: bool
  so_DomainStrategy :: nat
  so_FallBackConfigs :: "FallBackConfigForSing option"
  so_Multiplex :: "MultiplexConfig option"

definition NewSingOptions :: SingOptions where
  "NewSingOptions = \<lparr>so_TCPFastOpen = False, so_SniffEnabled = True,
     so_SniffOverrideDestination = True, so_EnableDNS = False, so_DomainStrategy = 0,
     so_FallBackConfigs = Some \<lparr>fbs_FallBack = \<lparr>fb_Server = '''', fb_ServerPort = ''''\<rparr>,
       fbs_FallBackForALPN = []\<rparr>,
     so_Multiplex = Some \<lparr>mx_Enabled = False, mx_Padding = False,
       mx_Brutal = \<lparr>bo_Enabled = False, bo_UpMbps = 0, bo_DownMbps = 0\<rparr>\<rparr>\<rparr>"

record Hysteria2LogConfig =
  hlc_Level :: string

record Hysteria2Config =
  hc_LogConfig :: Hysteria2LogConfig

definition NewHysteria2Config :: Hysteria2Config where
  "NewHysteria2Config = \<lparr>hc_LogConfig = \<lparr>hlc_Level = ''error''\<rparr>\<rparr>"

record CoreConfig =
  co_Type :: string
  co_Name :: string
  co_XrayConfig :: "XrayConfig option"
  co_SingConfig :: "SingConfig option"
  co_Hysteria2Config :: "Hysteria2Config option"

text \<open>
  \<open>CoreConfig.UnmarshalJSON\<close>: the base fields first, then the block of the named type, decoded over
  its defaults. A decoder takes the value to decode into and returns the error (\<open>Inl\<close>) with the
  value as far as it was filled.
\<close>

definition CoreConfig_UnmarshalJSON ::
  "(CoreConfig \<Rightarrow> string option \<times> CoreConfig) \<Rightarrow> (XrayConfig \<Rightarrow> string option \<times> XrayConfig)
   \<Rightarrow> (SingConfig \<Rightarrow> string option \<times> SingConfig)
   \<Rightarrow> (Hysteria2Config \<Rightarrow> string option \<times> Hysteria2Config)
   \<Rightarrow> int \<Rightarrow> CoreConfig \<Rightarrow> string option \<times> CoreConfig" where
  "CoreConfig_UnmarshalJSON dec_base dec_xray dec_sing dec_hy budget c0 =
     (let (err, c) = dec_base c0 in
      if err \<noteq> None then (err, c)
      else if co_Type c = ''xray'' then
        (let (e, x) = dec_xray (NewXrayConfig budget) in (e, c\<lparr>co_XrayConfig := Some x\<rparr>))
      else if co_Type c = ''sing'' then
        (let (e, x) = dec_sing NewSingConfig in (e, c\<lparr>co_SingConfig := Some x\<rparr>))
      else if co_Type c = ''hysteria2'' then
        (let (e, x) = dec_hy NewHysteria2Config in (e, c\<lparr>co_Hysteria2Config := Some x\<rparr>))
      else (None, c))"

section \<open>Nodes (\<open>conf/node.go\<close>)\<close>

record ApiConfig =
  ac_PanelType :: string
  ac_APIHost :: string
  ac_NodeID :: int
  ac_Key :: string
  ac_NodeType :: string
  ac_Timeout :: int
  ac_RuleListPath :: string

record 'raw Options =
  op_Name :: string
  op_Core :: string
  op_CoreName :: string
  op_ListenIP :: string
  op_SendIP :: string
  op_DeviceOnlineMinTraffic :: int
  op_LimitConfig :: LimitConfig
  op_RawOptions :: "'raw option"
  op_XrayOptions :: "XrayOptions option"
  op_SingOptions :: "SingOptions option"
  op_Hysteria2ConfigPath :: string
  op_CertConfig :: "CertConfig option"

text \<open>\<open>Options.UnmarshalJSON\<close> over \<open>data\<close>, which may itself be nil (\<open>None\<close>).\<close>

definition Options_UnmarshalJSON ::
  "('raw option \<Rightarrow> 'raw Options \<Rightarrow> string option \<times> 'raw Options)
   \<Rightarrow> ('raw option \<Rightarrow> XrayOptions \<Rightarrow> string option \<times> XrayOptions)
   \<Rightarrow> ('raw option \<Rightarrow> SingOptions \<Rightarrow> string option \<times> SingOptions)
   \<Rightarrow> 'raw option \<Rightarrow> 'raw Options \<Rightarrow> string option \<times> 'raw Options" where
  "Options_UnmarshalJSON dec_opt dec_xray dec_sing data o0 =
     (let (err, opt) = dec_opt data o0 in
      if err \<noteq> None then (err, opt)
      else if op_Core opt = ''xray'' then
        (let (e, x) = dec_xray data NewXrayOptions in (e, opt\<lparr>op_XrayOptions := Some x\<rparr>))
      else if op_Core opt = ''sing'' then
        (let (e, x) = dec_sing data NewSingOptions in (e, opt\<lparr>op_SingOptions := Some x\<rparr>))
      else if op_Core opt = ''hysteria2'' then (None, opt\<lparr>op_RawOptions := data\<rparr>)
      else (None, opt\<lparr>op_Core := '''', op_RawOptions := data\<rparr>))"

record 'raw NodeConfig =
  nc_ApiConfig :: ApiConfig
  nc_Options :: "'raw Options"


section \<open>Lemmas\<close>

lemma defaultXrayBufferSize_range: "defaultXrayBufferSize b \<in> {8, 16, 32, 64}"
  by (simp add: defaultXrayBufferSize_def)

lemma defaultXrayBufferSize_mono:
  "0 < a \<Longrightarrow> a \<le> b \<Longrightarrow> defaultXrayBufferSize a \<le> defaultXrayBufferSize b"
  by (auto simp: defaultXrayBufferSize_def sysmem_MiB_def)

text \<open>An explicit key always wins over the detected side file, even when it is empty.\<close>

lemma ResolveOutboundConfigPath_explicit:
  "xc_outboundConfigPathSet c \<Longrightarrow>
     ResolveOutboundConfigPath join regular c = (xc_OutboundConfigPath c, False)"
  by (simp add: ResolveOutboundConfigPath_def)

lemma ResolveOutboundConfigPath_detected:
  "ResolveOutboundConfigPath join regular c = (p, True) \<Longrightarrow>
     \<not> xc_outboundConfigPathSet c \<and> xc_AssetPath c \<noteq> '''' \<and> regular p
     \<and> p = join (xc_AssetPath c) ''custom_outbound.json''"
  by (auto simp: ResolveOutboundConfigPath_def Let_def split: if_splits)

end
