(* ===== verification/Netutil.thy ===== *)
theory Netutil
  imports Go_Strings
begin

text \<open>
  \<open>common/netutil/ip.go\<close> and \<open>common/format/user.go\<close>: the canonical form of a client address
  and the key "tag|uuid" of a user of a node. Every device count of the limiter is keyed by
  these two strings, so the spellings of one address must agree and the keys of two users must
  not.
\<close>

definition NormalizeIP :: "string \<Rightarrow> string" where
  "NormalizeIP ip =
     (let ip = strings_TrimSpace ip in
      if ip = [] then []
      else
        let ip = (case last_index_byte (CHR ''%'') ip of None \<Rightarrow> ip | Some i \<Rightarrow> take i ip);
            ip = (case net_SplitHostPort ip of None \<Rightarrow> ip | Some (host, _) \<Rightarrow> host);
            ip = strings_TrimPrefix ip ''::ffff:'';
            ip = strings_TrimPrefix ip ''::FFFF:''
        in strings_ToLower ip)"

definition UserTag :: "string \<Rightarrow> string \<Rightarrow> string" where
  "UserTag tag uuid = tag @ ''|'' @ uuid"

text \<open>The characters of a dotted quad, and those of any textual address.\<close>

definition plain_v4 :: "string \<Rightarrow> bool" where
  "plain_v4 h \<longleftrightarrow> h \<noteq> [] \<and> list_all (\<lambda>c. is_digit c \<or> c = CHR ''.'') h"

definition addr_char :: "char \<Rightarrow> bool" where
  "addr_char c \<longleftrightarrow> is_digit c \<or> c \<in> set ''abcdefABCDEF.:''"

text \<open>The part of \<^const>\<open>NormalizeIP\<close> after port and zone are gone.\<close>

definition unmap_v4 :: "string \<Rightarrow> string" where
  "unmap_v4 a =
     strings_ToLower (strings_TrimPrefix (strings_TrimPrefix a ''::ffff:'') ''::FFFF:'')"

definition is_v6 :: "string \<Rightarrow> bool" where
  "is_v6 a \<longleftrightarrow> list_all addr_char a \<and> 2 \<le> length (filter (\<lambda>c. c = CHR '':'') a)"


section \<open>Addresses\<close>

lemma is_digit_cases:
  "is_digit c \<Longrightarrow> \<not> is_space c \<and> c \<noteq> CHR ''%'' \<and> c \<noteq> CHR '':'' \<and> c \<noteq> CHR ''['' \<and> c \<noteq> CHR '']''
     \<and> to_lower c = c"
  by (auto simp: is_digit_def is_space_def to_lower_def)

lemma addr_char_cases:
  "addr_char c \<Longrightarrow> \<not> is_space c \<and> c \<noteq> CHR ''%'' \<and> c \<noteq> CHR ''['' \<and> c \<noteq> CHR '']''"
  by (auto simp: addr_char_def is_space_def dest: is_digit_cases)

lemma digits_facts:
  assumes "list_all is_digit p"
  shows "\<forall>c \<in> set p. \<not> is_space c" and "CHR ''%'' \<notin> set p" and "CHR '':'' \<notin> set p"
    and "CHR ''['' \<notin> set p" and "CHR '']'' \<notin> set p"
  using assms by (auto simp: list_all_iff dest: is_digit_cases)

lemma addr_facts:
  assumes "list_all addr_char a"
  shows "\<forall>c \<in> set a. \<not> is_space c" and "CHR ''%'' \<notin> set a"
    and "CHR ''['' \<notin> set a" and "CHR '']'' \<notin> set a"
  using assms by (auto simp: list_all_iff dest: addr_char_cases)

lemma plain_v4_facts:
  assumes "plain_v4 h"
  shows "h \<noteq> []" and "list_all addr_char h" and "CHR '':'' \<notin> set h"
    and "strings_ToLower h = h" and "strings_TrimPrefix h ''::ffff:'' = h"
    and "strings_TrimPrefix h ''::FFFF:'' = h"
proof -
  have ch: "is_digit c \<or> c = CHR ''.''" if "c \<in> set h" for c
    using assms that by (auto simp: plain_v4_def list_all_iff)
  show ne: "h \<noteq> []" using assms by (simp add: plain_v4_def)
  show "list_all addr_char h"
    using assms by (auto simp: plain_v4_def addr_char_def elim!: list.pred_mono_strong)
  show colon: "CHR '':'' \<notin> set h"
    using ch [of "CHR '':''"] is_digit_cases [of "CHR '':''"] by auto
  have "to_lower c = c" if "c \<in> set h" for c
    using ch [OF that] is_digit_cases [of c] by (auto simp: to_lower_def)
  then show "strings_ToLower h = h" by (simp add: strings_ToLower_def map_idI)
  have "hd h \<noteq> CHR '':''" using colon ne by (metis list.set_sel(1))
  then show "strings_TrimPrefix h ''::ffff:'' = h" and "strings_TrimPrefix h ''::FFFF:'' = h"
    by (simp_all add: TrimPrefix_hd)
qed

lemma NormalizeIP_core:
  assumes "s \<noteq> []" and "\<forall>c \<in> set s. \<not> is_space c" and "CHR ''%'' \<notin> set s"
  shows "NormalizeIP s =
     unmap_v4 (case net_SplitHostPort s of None \<Rightarrow> s | Some (host, _) \<Rightarrow> host)"
  using assms last_index_byte_None [of "CHR ''%''" s]
  by (simp add: NormalizeIP_def unmap_v4_def TrimSpace_id)

lemma SplitHostPort_none: "CHR '':'' \<notin> set s \<Longrightarrow> net_SplitHostPort s = None"
  by (simp add: net_SplitHostPort_def last_index_byte_None [symmetric])

lemma SplitHostPort_plain:
  assumes "h \<noteq> []" and "list_all addr_char h" and "CHR '':'' \<notin> set h" and "list_all is_digit p"
  shows "net_SplitHostPort (h @ CHR '':'' # p) = Some (h, p)"
proof -
  note hf = addr_facts [OF assms(2)] and pf = digits_facts [OF assms(4)]
  have "hd h \<noteq> CHR ''[''" using assms(1) hf(3) by (metis list.set_sel(1))
  then have "(h @ CHR '':'' # p) ! 0 \<noteq> CHR ''[''"
    using assms(1) by (simp add: hd_conv_nth nth_append)
  then show ?thesis
    using hf pf assms(3)
    by (simp add: net_SplitHostPort_def last_index_byte_append)
qed

lemma SplitHostPort_bracket:
  assumes "list_all addr_char a" and "list_all is_digit p"
  shows "net_SplitHostPort (CHR ''['' # a @ CHR '']'' # CHR '':'' # p) = Some (a, p)"
proof -
  let ?s = "CHR ''['' # a @ CHR '']'' # CHR '':'' # p"
  note af = addr_facts [OF assms(1)] and pf = digits_facts [OF assms(2)]
  have i: "last_index_byte (CHR '':'') ?s = Some (length a + 2)"
    using last_index_byte_append [OF pf(3), of "CHR ''['' # a @ [CHR '']'']"] by simp
  have e: "index_byte (CHR '']'') (a @ CHR '']'' # CHR '':'' # p) = Some (length a)"
    using af(4) by (rule index_byte_append)
  show ?thesis
    using af pf i by (simp add: net_SplitHostPort_def e)
qed

lemma two_colons_split:
  "2 \<le> length (filter (\<lambda>c. c = x) a) \<Longrightarrow>
     \<exists>u v. a = u @ x # v \<and> x \<in> set u \<and> x \<notin> set v"
proof (induction a rule: rev_induct)
  case Nil
  then show ?case by simp
next
  case (snoc c a)
  show ?case
  proof (cases "c = x")
    case True
    with snoc.prems have "filter (\<lambda>c. c = x) a \<noteq> []" by auto
    then have "x \<in> set a" by (auto simp: filter_empty_conv)
    with True show ?thesis by (intro exI [of _ a] exI [of _ "[]"]) auto
  next
    case False
    with snoc obtain u v where "a = u @ x # v" "x \<in> set u" "x \<notin> set v" by auto
    with False show ?thesis by (intro exI [of _ u] exI [of _ "v @ [c]"]) auto
  qed
qed

lemma SplitHostPort_v6:
  assumes "is_v6 a"
  shows "net_SplitHostPort a = None"
proof -
  obtain u v where a: "a = u @ CHR '':'' # v" "CHR '':'' \<in> set u" "CHR '':'' \<notin> set v"
    using assms two_colons_split [of "CHR '':''" a] by (auto simp: is_v6_def)
  have "u \<noteq> []" using a(2) by auto
  moreover have "CHR ''['' \<notin> set u"
    using assms a(1) addr_facts(3) [of a] by (simp add: is_v6_def)
  ultimately have "a ! 0 \<noteq> CHR ''[''"
    using a(1) by (metis hd_conv_nth hd_append2 hd_in_set append_is_Nil_conv)
  then show ?thesis
    using a by (simp add: net_SplitHostPort_def last_index_byte_append)
qed

lemma UserTag_inject: "UserTag tag uuid = UserTag tag uuid' \<longleftrightarrow> uuid = uuid'"
  by (simp add: UserTag_def)

lemma NormalizeIP_zone:
  assumes "s \<noteq> []" and "\<forall>c \<in> set s. \<not> is_space c" and "\<forall>c \<in> set z. \<not> is_space c"
    and "CHR ''%'' \<notin> set z"
  shows "NormalizeIP (s @ CHR ''%'' # z) =
     unmap_v4 (case net_SplitHostPort s of None \<Rightarrow> s | Some (host, _) \<Rightarrow> host)"
proof -
  have "strings_TrimSpace (s @ CHR ''%'' # z) = s @ CHR ''%'' # z"
    using assms(2,3) by (intro TrimSpace_id) (auto simp: is_space_def)
  then show ?thesis
    using assms(1,4) by (simp add: NormalizeIP_def unmap_v4_def last_index_byte_append)
qed

lemma bracket_nonspace:
  assumes "list_all addr_char a" and "list_all is_digit p"
  shows "\<forall>c \<in> set (CHR ''['' # a @ CHR '']'' # CHR '':'' # p). \<not> is_space c"
    and "CHR ''%'' \<notin> set (CHR ''['' # a @ CHR '']'' # CHR '':'' # p)"
  using addr_facts [OF assms(1)] digits_facts [OF assms(2)] by (auto simp: is_space_def)

lemma NormalizeIP_bracket:
  assumes "list_all addr_char a" and "list_all is_digit p"
  shows "NormalizeIP (CHR ''['' # a @ CHR '']'' # CHR '':'' # p) = unmap_v4 a"
  using NormalizeIP_core [OF _ bracket_nonspace [OF assms]] SplitHostPort_bracket [OF assms]
  by simp

lemma unmap_v4_plain:
  assumes "plain_v4 h"
  shows "unmap_v4 h = h" and "unmap_v4 (''::ffff:'' @ h) = h" and "unmap_v4 (''::FFFF:'' @ h) = h"
proof -
  note hf = plain_v4_facts [OF assms]
  have "strings_TrimPrefix (''::FFFF:'' @ h) ''::ffff:'' = ''::FFFF:'' @ h"
    by (simp add: strings_TrimPrefix_def strings_HasPrefix_def)
  then show "unmap_v4 h = h" and "unmap_v4 (''::ffff:'' @ h) = h"
    and "unmap_v4 (''::FFFF:'' @ h) = h"
    by (simp_all add: unmap_v4_def hf TrimPrefix_append del: append.simps)
qed

lemma mapped_is_v6:
  assumes "plain_v4 h" and "pre \<in> {''::ffff:'', ''::FFFF:''}"
  shows "is_v6 (pre @ h)"
  using assms plain_v4_facts(2) [OF assms(1)] by (auto simp: is_v6_def addr_char_def)

lemma NormalizeIP_v6_bare:
  assumes "is_v6 a"
  shows "NormalizeIP a = unmap_v4 a"
proof -
  have "a \<noteq> []" using assms by (auto simp: is_v6_def)
  moreover have "list_all addr_char a" using assms by (simp add: is_v6_def)
  ultimately show ?thesis
    using NormalizeIP_core [of a] addr_facts [of a] SplitHostPort_v6 [OF assms] by simp
qed


section \<open>Properties\<close>

text \<open>
  The spellings of an IPv4 client address that the comment of \<open>NormalizeIP\<close> lists (bare, with
  a port, mapped into IPv6 in either case, mapped and bracketed with a port) all normalise to the
  bare dotted quad, so one client is one device.
\<close>

theorem NormalizeIP_same_device:
  assumes "plain_v4 h" and "list_all is_digit p"
  shows "NormalizeIP h = h \<and> NormalizeIP (h @ '':'' @ p) = h
     \<and> NormalizeIP (''::ffff:'' @ h) = h \<and> NormalizeIP (''::FFFF:'' @ h) = h
     \<and> NormalizeIP (''[::ffff:'' @ h @ '']:'' @ p) = h"
proof (intro conjI)
  note hf = plain_v4_facts [OF assms(1)] and un = unmap_v4_plain [OF assms(1)]
  note ha = addr_facts [OF hf(2)] and pf = digits_facts [OF assms(2)]
  show "NormalizeIP h = h"
    using NormalizeIP_core [OF hf(1) ha(1,2)] SplitHostPort_none [OF hf(3)] un by simp
  have "\<forall>c \<in> set (h @ CHR '':'' # p). \<not> is_space c"
    using ha pf by (auto simp: is_space_def)
  then show "NormalizeIP (h @ '':'' @ p) = h"
    using NormalizeIP_core [of "h @ CHR '':'' # p"] ha pf un
      SplitHostPort_plain [OF hf(1,2,3) assms(2)] by simp
  show "NormalizeIP (''::ffff:'' @ h) = h" and "NormalizeIP (''::FFFF:'' @ h) = h"
    using un mapped_is_v6 [OF assms(1)] NormalizeIP_v6_bare by force+
  show "NormalizeIP (''[::ffff:'' @ h @ '']:'' @ p) = h"
    using NormalizeIP_bracket [of "''::ffff:'' @ h" p] hf(2) assms(2) un
    by (simp add: addr_char_def)
qed

theorem NormalizeIP_same_device_witness:
  "NormalizeIP ''1.2.3.4'' = ''1.2.3.4'' \<and> NormalizeIP ''1.2.3.4:443'' = ''1.2.3.4''
     \<and> NormalizeIP ''[::ffff:1.2.3.4]:443'' = ''1.2.3.4''"
proof -
  have h: "plain_v4 ''1.2.3.4''" and p: "list_all is_digit ''443''"
    by (simp_all add: plain_v4_def is_digit_def)
  show ?thesis using NormalizeIP_same_device [OF h p] by simp
qed

text \<open>
  An IPv6 address keeps one identity whether it comes bare, bracketed with a port, or with a
  zone id: all three normalise to the lower-case address with an IPv4 mapping removed.
\<close>

theorem NormalizeIP_v6_same_device:
  assumes "is_v6 a" and "list_all is_digit p"
    and "\<forall>c \<in> set z. \<not> is_space c" and "CHR ''%'' \<notin> set z"
  shows "NormalizeIP a = unmap_v4 a
     \<and> NormalizeIP (''['' @ a @ '']:'' @ p) = unmap_v4 a
     \<and> NormalizeIP (a @ ''%'' @ z) = unmap_v4 a"
proof -
  have ac: "list_all addr_char a" and "a \<noteq> []" using assms(1) by (auto simp: is_v6_def)
  then show ?thesis
    using NormalizeIP_v6_bare [OF assms(1)] NormalizeIP_bracket [OF ac assms(2)]
      NormalizeIP_zone [OF _ addr_facts(1) [OF ac] assms(3,4)] SplitHostPort_v6 [OF assms(1)]
    by simp
qed

theorem NormalizeIP_v6_same_device_witness:
  "NormalizeIP ''2001:DB8::1'' = ''2001:db8::1'' \<and> NormalizeIP ''[2001:DB8::1]:443'' = ''2001:db8::1''
     \<and> NormalizeIP ''2001:DB8::1%eth0'' = ''2001:db8::1''"
proof -
  have a: "is_v6 ''2001:DB8::1''" and p: "list_all is_digit ''443''"
    and z: "\<forall>c \<in> set ''eth0''. \<not> is_space c" "CHR ''%'' \<notin> set ''eth0''"
    by (simp_all add: is_v6_def addr_char_def is_digit_def is_space_def)
  have "unmap_v4 ''2001:DB8::1'' = ''2001:db8::1''" by code_simp
  then show ?thesis using NormalizeIP_v6_same_device [OF a p z] by simp
qed

text \<open>
  The doc comment promises the same for an address that carries both a zone id and a port.
  The code cuts the string at the percent sign before it looks for the port, so it is left with
  an opening bracket that is never removed: such an address is a different device from the bare
  one.
\<close>

theorem NormalizeIP_zone_port_keeps_bracket:
  assumes "is_v6 a" and "list_all is_digit p"
    and "\<forall>c \<in> set z. \<not> is_space c" and "CHR ''%'' \<notin> set z"
  shows "NormalizeIP (''['' @ a @ ''%'' @ z @ '']:'' @ p) = CHR ''['' # strings_ToLower a"
proof -
  have ac: "list_all addr_char a" using assms(1) by (simp add: is_v6_def)
  let ?z = "z @ CHR '']'' # CHR '':'' # p"
  have z: "\<forall>c \<in> set ?z. \<not> is_space c" "CHR ''%'' \<notin> set ?z"
    using assms(3,4) digits_facts [OF assms(2)] by (auto simp: is_space_def)
  have "CHR '']'' \<notin> set (CHR ''['' # a)" using addr_facts [OF ac] by simp
  then have split: "net_SplitHostPort (CHR ''['' # a) = None"
    using index_byte_None [of "CHR '']''" "CHR ''['' # a"]
    by (simp add: net_SplitHostPort_def split: option.split)
  have "NormalizeIP ((CHR ''['' # a) @ CHR ''%'' # ?z) = unmap_v4 (CHR ''['' # a)"
    using NormalizeIP_zone [of "CHR ''['' # a" ?z] z addr_facts(1) [OF ac] split
    by (simp add: is_space_def)
  moreover have "unmap_v4 (CHR ''['' # a) = CHR ''['' # strings_ToLower a"
    by (simp add: unmap_v4_def TrimPrefix_hd strings_ToLower_def to_lower_def)
  ultimately show ?thesis by simp
qed

theorem NormalizeIP_zone_port_keeps_bracket_witness:
  "NormalizeIP ''[fe80::1%eth0]:443'' = ''[fe80::1'' \<and> NormalizeIP ''fe80::1%eth0'' = ''fe80::1''"
proof -
  have a: "is_v6 ''fe80::1''" and p: "list_all is_digit ''443''"
    and z: "\<forall>c \<in> set ''eth0''. \<not> is_space c" "CHR ''%'' \<notin> set ''eth0''"
    by (simp_all add: is_v6_def addr_char_def is_digit_def is_space_def)
  have "strings_ToLower ''fe80::1'' = ''fe80::1''" "NormalizeIP ''fe80::1%eth0'' = ''fe80::1''"
    by code_simp+
  then show ?thesis using NormalizeIP_zone_port_keeps_bracket [OF a p z] by simp
qed

end
