(* ===== verification/Panel_Types.thy ===== *)
theory Panel_Types
  imports Complex_Main Go_Strings
begin

text \<open>
  The data of package \<open>api/panel\<close>: users, devices, traffic samples, and the node description a
  panel sends (\<open>api/panel/node.go\<close>, \<open>api/panel/user.go\<close>). A \<open>json.RawMessage\<close> that is only passed on
  is a value of the type variable \<open>'raw\<close>. A value of type \<open>interface{}\<close> is an \<open>anyval\<close>: what a JSON
  decoder or a caller can put there, by its dynamic type.
\<close>

datatype anyval =
    AnyNil
  | AnyBool bool
  | AnyInt int
  | AnyUint nat
  | AnyFloat rat
  | AnyString string
  | AnyStrings "string list"
  | AnyList "anyval list"
  | AnyMap "(string \<times> anyval) list"

section \<open>Users (\<open>api/panel/user.go\<close>)\<close>

record OnlineUser =
  ou_UID :: int
  ou_IP :: string

record UserInfo =
  ui_Id :: int
  ui_Uuid :: string
  ui_SpeedLimit :: int
  ui_DeviceLimit :: int

record UserListBody =
  ulb_Users :: "UserInfo list"

record AliveMap =
  am_Alive :: "(int, int) gomap option"

record UserTraffic =
  ut_UID :: int
  ut_Upload :: "64 word"
  ut_Download :: "64 word"
  ut_Key :: string

section \<open>Nodes (\<open>api/panel/node.go\<close>)\<close>

definition Security_None :: int where "Security_None = 0"

definition Security_Tls :: int where "Security_Tls = 1"

definition Security_Reality :: int where "Security_Reality = 2"

record BasicConfig =
  bc_PushInterval :: anyval
  bc_PullInterval :: anyval

record Route =
  rt_Id :: int
  rt_Match :: anyval
  rt_Action :: string
  rt_ActionValue :: string

record BaseConfig =
  bs_PushInterval :: anyval
  bs_PullInterval :: anyval

record CommonNode =
  cn_Host :: string
  cn_ServerPort :: int
  cn_ServerName :: string
  cn_Routes :: "Route list"
  cn_BaseConfig :: "BaseConfig option"

record ECHSettings =
  ech_Enabled :: bool
  ech_Config :: string
  ech_ConfigList :: string
  ech_ForceQuery :: string
  ech_QueryServerName :: string
  ech_PrivateKey :: string
  ech_ServerKeys :: string

text \<open>
  \<open>echSettingsJSON\<close>: for the last five settings the panel may use any of four keys; the four
  values are listed in the order the code tries them.
\<close>

record echSettingsJSON =
  ej_Enabled :: bool
  ej_Config :: string
  ej_ConfigList :: "string list"
  ej_ForceQuery :: "string list"
  ej_QueryServerName :: "string list"
  ej_PrivateKey :: "string list"
  ej_ServerKeys :: "string list"

record TlsSettings =
  ts_ServerName :: string
  ts_Dest :: string
  ts_ServerPort :: string
  ts_ShortId :: string
  ts_PrivateKey :: string
  ts_Xver :: nat
  ts_ECH :: ECHSettings

record RealityConfig =
  rl_Xver :: nat
  rl_MinClientVer :: string
  rl_MaxClientVer :: string
  rl_MaxTimeDiff :: string

record 'raw VAllssNode =
  va_CommonNode :: CommonNode
  va_Tls :: int
  va_TlsSettings :: TlsSettings
  va_TlsSettingsBack :: "TlsSettings option"
  va_ECH :: ECHSettings
  va_Network :: string
  va_NetworkSettings :: "'raw option"
  va_NetworkSettingsBack :: "'raw option"
  va_ServerName :: string
  va_Encryption :: string
  va_Decryption :: string
  va_Flow :: string
  va_RealityConfig :: RealityConfig

record ShadowsocksNode =
  ss_CommonNode :: CommonNode
  ss_Cipher :: string
  ss_ServerKey :: string

record 'raw TrojanNode =
  tj_CommonNode :: CommonNode
  tj_Network :: string
  tj_NetworkSettings :: "'raw option"
  tj_NetworkSettingsBack :: "'raw option"
  tj_TlsSettings :: TlsSettings
  tj_TlsSettingsBack :: "TlsSettings option"
  tj_ECH :: ECHSettings

record TuicNode =
  tu_CommonNode :: CommonNode
  tu_CongestionControl :: string
  tu_ZeroRTTHandshake :: bool

record 'raw AnyTLSNode =
  at_CommonNode :: CommonNode
  at_PaddingScheme :: "'raw option"
  at_Tls :: int
  at_TlsSettings :: TlsSettings
  at_TlsSettingsBack :: "TlsSettings option"
  at_RealityConfig :: RealityConfig

record 'raw NaiveNode =
  nv_CommonNode :: CommonNode
  nv_Network :: string
  nv_NetworkSettings :: "'raw option"
  nv_NetworkSettingsBack :: "'raw option"
  nv_Tls :: int
  nv_TlsSettings :: TlsSettings
  nv_TlsSettingsBack :: "TlsSettings option"

record HysteriaNode =
  hy_CommonNode :: CommonNode
  hy_UpMbps :: int
  hy_DownMbps :: int
  hy_Obfs :: string

record Hysteria2Node =
  h2_CommonNode :: CommonNode
  h2_Ignore_Client_Bandwidth :: bool
  h2_UpMbps :: int
  h2_DownMbps :: int
  h2_ObfsType :: string
  h2_ObfsPassword :: string

text \<open>
  \<open>RawDNS\<close>: the map from the index of a route (in decimal) to its DNS server and domains, and the
  bytes of a complete DNS document.
\<close>

record DNSEntry =
  de_address :: string
  de_domains :: "string list"

record RawDNS =
  dns_DNSMap :: "(string, DNSEntry) gomap"
  dns_DNSJson :: string

record Rules =
  ru_Regexp :: "string list"
  ru_Protocol :: "string list"

record 'raw NodeInfo =
  ni_Id :: int
  ni_Type :: string
  ni_Protocol :: string
  ni_Security :: int
  ni_PushInterval :: duration
  ni_PullInterval :: duration
  ni_RawDNS :: RawDNS
  ni_Rules :: Rules
  ni_Config :: "'raw option"
  ni_VAllss :: "'raw VAllssNode option"
  ni_Shadowsocks :: "ShadowsocksNode option"
  ni_Trojan :: "'raw TrojanNode option"
  ni_Tuic :: "TuicNode option"
  ni_AnyTLS :: "'raw AnyTLSNode option"
  ni_Naive :: "'raw NaiveNode option"
  ni_Hysteria :: "HysteriaNode option"
  ni_Hysteria2 :: "Hysteria2Node option"
  ni_Common :: "CommonNode option"
  ni_Basic :: "BasicConfig option"

text \<open>The order in which devices are reported: by user id, then by address.\<close>

definition online_key :: "OnlineUser \<Rightarrow> int \<times> string" where
  "online_key u = (ou_UID u, ou_IP u)"

lemma online_key_inject: "online_key u = online_key v \<longleftrightarrow> u = v"
  by (cases u; cases v) (auto simp: online_key_def)

lemma inj_online_key: "inj_on online_key A"
  by (auto simp: inj_on_def online_key_inject)

end
