(* ===== verification/Online_Registry.thy ===== *)
theory Online_Registry
  imports Netutil Panel_Types "HOL-Library.Multiset"
begin

text \<open>
  \<open>limiter/online_registry.go\<close>: the registry of online devices, one entry per user key and
  normalised address. Connections reference-count their entry; an entry disappears when it is
  neither referenced nor recently seen. The interface the cores use (open, close, activity, sweep)
  is the locale \<open>device_registry\<close>; it is interpreted on the operations of the code as \<open>reg\<close>, and the
  accounting of a whole run of connections is proved once inside it.
\<close>

record OnlineEntry =
  oe_UID :: int
  oe_IP :: string
  oe_Refs :: int
  oe_LastSeen :: gotime

text \<open>\<open>onlineKey\<close>: the user key and the normalised address.\<close>

type_synonym onlineKey = "string \<times> string"

record OnlineRegistry =
  or_ttl :: duration
  or_m :: "(onlineKey, OnlineEntry) gomap"

definition defaultOnlineTTL :: duration where
  "defaultOnlineTTL = 5 * time_Minute"

definition minOnlineTTL :: duration where
  "minOnlineTTL = 90 * time_Second"

definition newOnlineRegistry :: "duration \<Rightarrow> OnlineRegistry" where
  "newOnlineRegistry ttl = \<lparr>or_ttl = (if ttl < minOnlineTTL then minOnlineTTL else ttl), or_m = []\<rparr>"

definition onlineTTLFromSeconds :: "int \<Rightarrow> duration" where
  "onlineTTLFromSeconds seconds =
     (if seconds \<le> 0 then defaultOnlineTTL else i64 (seconds * time_Second))"

definition normalizeOnlineKey :: "string \<Rightarrow> string \<Rightarrow> onlineKey option" where
  "normalizeOnlineKey taguuid ip =
     (if taguuid = [] then None
      else let ip = NormalizeIP ip in if ip = [] then None else Some (taguuid, ip))"

definition OnlineRegistry_SetTTL :: "OnlineRegistry \<Rightarrow> duration \<Rightarrow> OnlineRegistry" where
  "OnlineRegistry_SetTTL r ttl = r\<lparr>or_ttl := (if ttl < minOnlineTTL then minOnlineTTL else ttl)\<rparr>"

definition OnlineRegistry_TTL :: "OnlineRegistry \<Rightarrow> duration" where
  "OnlineRegistry_TTL r = or_ttl r"

text \<open>The zero \<open>time.Time\<close> (1 January of year 1) of a freshly allocated entry.\<close>

definition time_Zero :: gotime where
  "time_Zero = - 62135596800000000000"

text \<open>
  \<open>entry\<close> returns a pointer into the map: the model returns the entry itself, and the callers
  store it back after they changed it.
\<close>

definition OnlineRegistry_entry :: "OnlineRegistry \<Rightarrow> onlineKey \<Rightarrow> int \<Rightarrow> OnlineEntry" where
  "OnlineRegistry_entry r key uid =
     (let e = (case mload (or_m r) key of
                 Some e \<Rightarrow> e
               | None \<Rightarrow> \<lparr>oe_UID = uid, oe_IP = snd key, oe_Refs = 0, oe_LastSeen = time_Zero\<rparr>)
      in if uid \<noteq> 0 then e\<lparr>oe_UID := uid\<rparr> else e)"

definition OnlineRegistry_Touch ::
  "gotime \<Rightarrow> OnlineRegistry \<Rightarrow> string \<Rightarrow> string \<Rightarrow> int \<Rightarrow> OnlineRegistry" where
  "OnlineRegistry_Touch now r taguuid ip uid =
     (if uid = 0 then r
      else case normalizeOnlineKey taguuid ip of
        None \<Rightarrow> r
      | Some key \<Rightarrow>
          let e = OnlineRegistry_entry r key uid
          in r\<lparr>or_m := mstore (or_m r) key (e\<lparr>oe_LastSeen := now\<rparr>)\<rparr>)"

definition OnlineRegistry_Add ::
  "gotime \<Rightarrow> OnlineRegistry \<Rightarrow> string \<Rightarrow> string \<Rightarrow> int \<Rightarrow> OnlineRegistry" where
  "OnlineRegistry_Add now r taguuid ip uid =
     (if uid = 0 then r
      else case normalizeOnlineKey taguuid ip of
        None \<Rightarrow> r
      | Some key \<Rightarrow>
          let e = OnlineRegistry_entry r key uid
          in r\<lparr>or_m := mstore (or_m r) key
                 (e\<lparr>oe_Refs := oe_Refs e + 1, oe_LastSeen := now\<rparr>)\<rparr>)"

definition OnlineRegistry_Del ::
  "gotime \<Rightarrow> OnlineRegistry \<Rightarrow> string \<Rightarrow> string \<Rightarrow> OnlineRegistry" where
  "OnlineRegistry_Del now r taguuid ip =
     (case normalizeOnlineKey taguuid ip of
        None \<Rightarrow> r
      | Some key \<Rightarrow>
          (case mload (or_m r) key of
             None \<Rightarrow> r
           | Some e \<Rightarrow>
               let e = (if oe_Refs e > 0 then e\<lparr>oe_Refs := oe_Refs e - 1\<rparr> else e)
               in r\<lparr>or_m := mstore (or_m r) key (e\<lparr>oe_LastSeen := now\<rparr>)\<rparr>))"

definition OnlineRegistry_DeleteUser :: "OnlineRegistry \<Rightarrow> string \<Rightarrow> OnlineRegistry" where
  "OnlineRegistry_DeleteUser r taguuid =
     r\<lparr>or_m := mrange_delete (\<lambda>key _. fst key = taguuid) (or_m r)\<rparr>"

definition OnlineRegistry_Sweep :: "gotime \<Rightarrow> OnlineRegistry \<Rightarrow> OnlineRegistry" where
  "OnlineRegistry_Sweep now r =
     (let cutoff = time_Add now (- or_ttl r)
      in r\<lparr>or_m := mrange_delete
             (\<lambda>_ e. oe_Refs e \<le> 0 \<and> time_Before (oe_LastSeen e) cutoff) (or_m r)\<rparr>)"

text \<open>
  \<open>sort.Slice\<close> is not stable, but the comparison is a total order in which equal elements are
  identical, so its result is the sorted list.
\<close>

definition OnlineRegistry_Snapshot :: "OnlineRegistry \<Rightarrow> OnlineUser list" where
  "OnlineRegistry_Snapshot r =
     sort_key online_key
       (map (\<lambda>(_, e). \<lparr>ou_UID = oe_UID e, ou_IP = oe_IP e\<rparr>)
         (filter (\<lambda>(_, e). \<not> (oe_UID e = 0 \<or> oe_IP e = [])) (or_m r)))"


section \<open>The invariant of the registry\<close>

definition registry_inv :: "OnlineRegistry \<Rightarrow> bool" where
  "registry_inv r \<longleftrightarrow> mwf (or_m r) \<and> minOnlineTTL \<le> or_ttl r
     \<and> (\<forall>k e. mload (or_m r) k = Some e \<longrightarrow>
          fst k \<noteq> [] \<and> snd k \<noteq> [] \<and> oe_IP e = snd k \<and> oe_UID e \<noteq> 0 \<and> 0 \<le> oe_Refs e)"

named_theorems registry_defs \<open>operations of the registry\<close>

lemmas [registry_defs] = OnlineRegistry_Touch_def OnlineRegistry_Add_def OnlineRegistry_Del_def
  OnlineRegistry_DeleteUser_def OnlineRegistry_Sweep_def OnlineRegistry_SetTTL_def
  OnlineRegistry_entry_def

lemma registry_invD:
  assumes "registry_inv r"
  shows "mwf (or_m r)" and "minOnlineTTL \<le> or_ttl r"
    and "mload (or_m r) k = Some e \<Longrightarrow>
           fst k \<noteq> [] \<and> snd k \<noteq> [] \<and> oe_IP e = snd k \<and> oe_UID e \<noteq> 0 \<and> 0 \<le> oe_Refs e"
  using assms unfolding registry_inv_def by blast+

lemma normalizeOnlineKey_Some:
  "normalizeOnlineKey t ip = Some k \<longleftrightarrow> t \<noteq> [] \<and> NormalizeIP ip \<noteq> [] \<and> k = (t, NormalizeIP ip)"
  by (auto simp: normalizeOnlineKey_def Let_def)

lemma newOnlineRegistry_inv [simp]: "registry_inv (newOnlineRegistry ttl)"
  by (simp add: registry_inv_def newOnlineRegistry_def)

lemma SetTTL_inv [simp]: "registry_inv r \<Longrightarrow> registry_inv (OnlineRegistry_SetTTL r ttl)"
  by (simp add: registry_inv_def OnlineRegistry_SetTTL_def)

lemma Touch_inv [simp]: "registry_inv r \<Longrightarrow> registry_inv (OnlineRegistry_Touch now r t ip uid)"
  by (auto simp: registry_inv_def registry_defs normalizeOnlineKey_Some Let_def
      split: option.splits)

lemma Add_inv [simp]: "registry_inv r \<Longrightarrow> registry_inv (OnlineRegistry_Add now r t ip uid)"
  by (auto simp: registry_inv_def registry_defs normalizeOnlineKey_Some Let_def
      split: option.splits)

lemma Del_inv [simp]: "registry_inv r \<Longrightarrow> registry_inv (OnlineRegistry_Del now r t ip)"
  by (auto simp: registry_inv_def registry_defs Let_def split: option.splits)

lemma DeleteUser_inv [simp]: "registry_inv r \<Longrightarrow> registry_inv (OnlineRegistry_DeleteUser r t)"
  by (auto simp: registry_inv_def registry_defs split: option.splits if_splits)

lemma Sweep_inv [simp]: "registry_inv r \<Longrightarrow> registry_inv (OnlineRegistry_Sweep now r)"
  by (auto simp: registry_inv_def registry_defs Let_def split: option.splits if_splits)

lemma mload_Sweep:
  "registry_inv r \<Longrightarrow> mload (or_m (OnlineRegistry_Sweep now r)) k =
     (case mload (or_m r) k of
        None \<Rightarrow> None
      | Some e \<Rightarrow> if oe_Refs e \<le> 0 \<and> oe_LastSeen e < now - or_ttl r then None else Some e)"
  by (simp add: OnlineRegistry_Sweep_def time_defs registry_invD)

lemma mload_DeleteUser:
  "registry_inv r \<Longrightarrow> mload (or_m (OnlineRegistry_DeleteUser r t)) k =
     (if fst k = t then None else mload (or_m r) k)"
  by (simp add: OnlineRegistry_DeleteUser_def registry_invD split: option.splits)

lemma Snapshot_members:
  assumes "registry_inv r"
  shows "u \<in> set (OnlineRegistry_Snapshot r) \<longleftrightarrow>
     (\<exists>k e. mload (or_m r) k = Some e \<and> u = \<lparr>ou_UID = oe_UID e, ou_IP = snd k\<rparr>)"
proof -
  note inv = registry_invD [OF assms]
  have "u \<in> set (OnlineRegistry_Snapshot r) \<longleftrightarrow>
     (\<exists>k e. (k, e) \<in> set (or_m r) \<and> oe_UID e \<noteq> 0 \<and> oe_IP e \<noteq> []
            \<and> u = \<lparr>ou_UID = oe_UID e, ou_IP = oe_IP e\<rparr>)"
    by (auto simp: OnlineRegistry_Snapshot_def)
  then show ?thesis
    unfolding mload_Some_iff [OF inv(1), symmetric] by (metis inv(3))
qed

lemma length_Snapshot:
  assumes "registry_inv r"
  shows "length (OnlineRegistry_Snapshot r) = length (or_m r)"
proof -
  note inv = registry_invD [OF assms]
  have "filter (\<lambda>(_, e). \<not> (oe_UID e = 0 \<or> oe_IP e = [])) (or_m r) = or_m r"
    using inv(3) by (intro filter_True) (auto simp: mload_Some_iff [OF inv(1)])
  then show ?thesis by (simp add: OnlineRegistry_Snapshot_def)
qed


section \<open>The device accounting interface\<close>

text \<open>
  What the cores do with the registry: a connection opens and later closes, traffic is seen,
  the sweep runs. \<open>key\<close> is the identity of a device, \<open>None\<close> for a device the registry ignores.
\<close>

datatype 'd dev_event = Opened gotime 'd | Closed gotime 'd | Seen gotime 'd | Swept gotime

fun dev_step ::
  "(gotime \<Rightarrow> 'd \<Rightarrow> 'r \<Rightarrow> 'r) \<Rightarrow> (gotime \<Rightarrow> 'd \<Rightarrow> 'r \<Rightarrow> 'r) \<Rightarrow> (gotime \<Rightarrow> 'd \<Rightarrow> 'r \<Rightarrow> 'r)
   \<Rightarrow> (gotime \<Rightarrow> 'r \<Rightarrow> 'r) \<Rightarrow> 'd dev_event \<Rightarrow> 'r \<Rightarrow> 'r" where
  "dev_step add del touch sweep (Opened t d) r = add t d r"
| "dev_step add del touch sweep (Closed t d) r = del t d r"
| "dev_step add del touch sweep (Seen t d) r = touch t d r"
| "dev_step add del touch sweep (Swept t) r = sweep t r"

text \<open>The number of open connections of each device, and that no closed one closes again.\<close>

fun live_step :: "('d \<Rightarrow> 'k option) \<Rightarrow> 'd dev_event \<Rightarrow> ('k \<Rightarrow> int) \<Rightarrow> 'k \<Rightarrow> int" where
  "live_step key (Opened t d) n =
     (case key d of None \<Rightarrow> n | Some k \<Rightarrow> n(k := n k + 1))"
| "live_step key (Closed t d) n =
     (case key d of None \<Rightarrow> n | Some k \<Rightarrow> n(k := n k - 1))"
| "live_step key (Seen t d) n = n"
| "live_step key (Swept t) n = n"

fun closes_ok :: "('d \<Rightarrow> 'k option) \<Rightarrow> ('k \<Rightarrow> int) \<Rightarrow> 'd dev_event list \<Rightarrow> bool" where
  "closes_ok key n [] \<longleftrightarrow> True"
| "closes_ok key n (e # es) \<longleftrightarrow>
     (case e of Closed t d \<Rightarrow> (case key d of None \<Rightarrow> False | Some k \<Rightarrow> 0 < n k) | _ \<Rightarrow> True)
     \<and> closes_ok key (live_step key e n) es"

locale device_registry =
  fixes key :: "'d \<Rightarrow> 'k option"
    and refs :: "'r \<Rightarrow> 'k \<Rightarrow> int option"
    and add del touch :: "gotime \<Rightarrow> 'd \<Rightarrow> 'r \<Rightarrow> 'r"
    and sweep :: "gotime \<Rightarrow> 'r \<Rightarrow> 'r"
    and inv :: "'r \<Rightarrow> bool"
  assumes inv_add: "inv r \<Longrightarrow> inv (add t d r)"
    and inv_del: "inv r \<Longrightarrow> inv (del t d r)"
    and inv_touch: "inv r \<Longrightarrow> inv (touch t d r)"
    and inv_sweep: "inv r \<Longrightarrow> inv (sweep t r)"
    and refs_nonneg: "inv r \<Longrightarrow> refs r k = Some n \<Longrightarrow> 0 \<le> n"
    and refs_add: "inv r \<Longrightarrow> refs (add t d r) k =
      (if key d = Some k then Some (case refs r k of None \<Rightarrow> 1 | Some n \<Rightarrow> n + 1) else refs r k)"
    and refs_touch: "inv r \<Longrightarrow> refs (touch t d r) k =
      (if key d = Some k then Some (case refs r k of None \<Rightarrow> 0 | Some n \<Rightarrow> n) else refs r k)"
    and refs_del: "inv r \<Longrightarrow> key d = Some k' \<Longrightarrow> refs (del t d r) k =
      (if k = k' then map_option (\<lambda>n. if 0 < n then n - 1 else n) (refs r k) else refs r k)"
    and refs_sweep: "inv r \<Longrightarrow> refs (sweep t r) k = refs r k
      \<or> (refs (sweep t r) k = None \<and> refs r k = Some 0)"
begin

lemma step_inv: "inv r \<Longrightarrow> inv (dev_step add del touch sweep e r)"
  by (cases e) (simp_all add: inv_add inv_del inv_touch inv_sweep)

lemma run_inv: "inv r \<Longrightarrow> inv (fold (dev_step add del touch sweep) es r)"
  by (induction es arbitrary: r) (simp_all add: step_inv)

lemma step_live:
  assumes "inv r" and "\<And>k. (case refs r k of None \<Rightarrow> 0 | Some n \<Rightarrow> n) = L k"
    and "closes_ok key L [e]"
  shows "(case refs (dev_step add del touch sweep e r) k of None \<Rightarrow> 0 | Some n \<Rightarrow> n) =
     live_step key e L k"
proof (cases e)
  case (Opened t d)
  then show ?thesis
    using assms(2) [of k, symmetric] by (auto simp: refs_add [OF assms(1)] split: option.splits)
next
  case (Closed t d)
  then obtain k' where k': "key d = Some k'" "0 < L k'"
    using assms(3) by (auto split: option.splits)
  then obtain n where "refs r k' = Some n" "n = L k'"
    using assms(2) [of k'] by (cases "refs r k'") auto
  then show ?thesis
    using Closed k' assms(2) [of k] refs_del [OF assms(1) k'(1)] by auto
next
  case (Seen t d)
  then show ?thesis
    using assms(2) [of k, symmetric] by (auto simp: refs_touch [OF assms(1)])
next
  case (Swept t)
  then show ?thesis
    using refs_sweep [OF assms(1), of t k] assms(2) [of k] by auto
qed

lemma run_live:
  assumes "inv r" and "\<And>k. (case refs r k of None \<Rightarrow> 0 | Some n \<Rightarrow> n) = L k"
    and "closes_ok key L es"
  shows "(case refs (fold (dev_step add del touch sweep) es r) k of None \<Rightarrow> 0 | Some n \<Rightarrow> n) =
     fold (live_step key) es L k"
  using assms
proof (induction es arbitrary: r L)
  case Nil
  then show ?case by simp
next
  case (Cons e es)
  let ?r = "dev_step add del touch sweep e r"
  have "closes_ok key L [e]" and rest: "closes_ok key (live_step key e L) es"
    using Cons.prems(3) by auto
  then have "(case refs ?r k of None \<Rightarrow> 0 | Some n \<Rightarrow> n) = live_step key e L k" for k
    using Cons.prems(1,2) by (intro step_live)
  then show ?case
    using Cons.IH [of ?r "live_step key e L"] step_inv [OF Cons.prems(1)] rest by simp
qed

text \<open>A device with an open connection is never dropped, however long the sweep runs.\<close>

lemma live_device_kept:
  assumes "inv r" and "\<And>k. (case refs r k of None \<Rightarrow> 0 | Some n \<Rightarrow> n) = L k"
    and "closes_ok key L es" and "0 < fold (live_step key) es L k"
  shows "\<exists>n > 0. refs (fold (dev_step add del touch sweep) es r) k = Some n"
  using run_live [OF assms(1-3), of k] assms(4) by (auto split: option.splits)

end

text \<open>The interface on the code: a device is the user key, the raw address and the user id.\<close>

definition device_key :: "string \<times> string \<times> int \<Rightarrow> onlineKey option" where
  "device_key d = (case d of (t, ip, uid) \<Rightarrow> if uid = 0 then None else normalizeOnlineKey t ip)"

definition device_refs :: "OnlineRegistry \<Rightarrow> onlineKey \<Rightarrow> int option" where
  "device_refs r k = map_option oe_Refs (mload (or_m r) k)"

definition reg_add :: "gotime \<Rightarrow> string \<times> string \<times> int \<Rightarrow> OnlineRegistry \<Rightarrow> OnlineRegistry" where
  "reg_add now d r = (case d of (t, ip, uid) \<Rightarrow> OnlineRegistry_Add now r t ip uid)"

definition reg_touch :: "gotime \<Rightarrow> string \<times> string \<times> int \<Rightarrow> OnlineRegistry \<Rightarrow> OnlineRegistry" where
  "reg_touch now d r = (case d of (t, ip, uid) \<Rightarrow> OnlineRegistry_Touch now r t ip uid)"

definition reg_del :: "gotime \<Rightarrow> string \<times> string \<times> int \<Rightarrow> OnlineRegistry \<Rightarrow> OnlineRegistry" where
  "reg_del now d r = (case d of (t, ip, uid) \<Rightarrow> OnlineRegistry_Del now r t ip)"

lemmas device_defs = device_key_def device_refs_def reg_add_def reg_touch_def reg_del_def

lemma device_refs_nonneg:
  assumes "registry_inv r" and "device_refs r k = Some n"
  shows "0 \<le> n"
  using assms(2) registry_invD(3) [OF assms(1), of k] by (auto simp: device_refs_def)

lemma device_refs_add:
  "device_refs (reg_add t d r) k =
     (if device_key d = Some k then Some (case device_refs r k of None \<Rightarrow> 1 | Some n \<Rightarrow> n + 1)
      else device_refs r k)"
  by (cases d) (auto simp: device_defs registry_defs Let_def split: option.splits)

lemma device_refs_touch:
  "device_refs (reg_touch t d r) k =
     (if device_key d = Some k then Some (case device_refs r k of None \<Rightarrow> 0 | Some n \<Rightarrow> n)
      else device_refs r k)"
  by (cases d) (auto simp: device_defs registry_defs Let_def split: option.splits)

lemma device_refs_del:
  "device_key d = Some k' \<Longrightarrow> device_refs (reg_del t d r) k =
     (if k = k' then map_option (\<lambda>n. if 0 < n then n - 1 else n) (device_refs r k)
      else device_refs r k)"
  by (cases d) (auto simp: device_defs registry_defs Let_def split: option.splits if_splits)

lemma device_refs_sweep:
  assumes "registry_inv r"
  shows "device_refs (OnlineRegistry_Sweep t r) k = device_refs r k
     \<or> (device_refs (OnlineRegistry_Sweep t r) k = None \<and> device_refs r k = Some 0)"
  using registry_invD(3) [OF assms, of k]
  by (auto simp: device_refs_def mload_Sweep [OF assms] split: option.splits)

lemma reg_ops_inv:
  assumes "registry_inv r"
  shows "registry_inv (reg_add t d r)" "registry_inv (reg_touch t d r)"
    "registry_inv (reg_del t d r)"
  using assms by (cases d; simp add: reg_add_def reg_touch_def reg_del_def)+

interpretation reg: device_registry device_key device_refs reg_add reg_del reg_touch
    OnlineRegistry_Sweep registry_inv
  by unfold_locales
    (fact reg_ops_inv Sweep_inv device_refs_nonneg | rule device_refs_add device_refs_touch
      device_refs_del device_refs_sweep, assumption?)+


section \<open>Properties\<close>

abbreviation registry_run :: "(string \<times> string \<times> int) dev_event list \<Rightarrow> OnlineRegistry \<Rightarrow> OnlineRegistry" where
  "registry_run \<equiv> fold (dev_step reg_add reg_del reg_touch OnlineRegistry_Sweep)"

lemma refs_newOnlineRegistry:
  "(case device_refs (newOnlineRegistry ttl) k of None \<Rightarrow> 0 | Some n \<Rightarrow> n) = 0"
  by (simp add: device_refs_def newOnlineRegistry_def)

text \<open>
  C4. However connections of any devices open and close, traffic is seen and the sweep runs, in
  any order and at any times, a device that still has an open connection is in the snapshot that
  is reported to the panel, with the address of its key and a user id.
\<close>

theorem open_device_is_reported:
  assumes "closes_ok device_key (\<lambda>_. 0) es" and "0 < fold (live_step device_key) es (\<lambda>_. 0) k"
  shows "\<exists>u. u \<in> set (OnlineRegistry_Snapshot (registry_run es (newOnlineRegistry ttl)))
     \<and> ou_IP u = snd k \<and> ou_UID u \<noteq> 0"
proof -
  let ?r = "registry_run es (newOnlineRegistry ttl)"
  have inv: "registry_inv ?r"
    by (rule reg.run_inv) simp
  obtain n where "device_refs ?r k = Some n"
    using reg.live_device_kept [OF newOnlineRegistry_inv refs_newOnlineRegistry assms] by blast
  then obtain e where "mload (or_m ?r) k = Some e"
    by (auto simp: device_refs_def)
  then show ?thesis
    using Snapshot_members [OF inv, of "\<lparr>ou_UID = oe_UID e, ou_IP = snd k\<rparr>"]
      registry_invD(3) [OF inv, of k e]
    by (intro exI [of _ "\<lparr>ou_UID = oe_UID e, ou_IP = snd k\<rparr>"])
      (auto simp del: split_paired_Ex)
qed

theorem open_device_is_reported_witness:
  "\<exists>u. u \<in> set (OnlineRegistry_Snapshot (registry_run
       [Opened 0 (''u'', ''1.2.3.4'', 7), Opened 1 (''u'', ''1.2.3.4:99'', 7),
        Closed 2 (''u'', ''1.2.3.4'', 7), Swept 900000000000000] (newOnlineRegistry 0)))
     \<and> ou_IP u = snd (''u'', ''1.2.3.4'') \<and> ou_UID u \<noteq> 0"
  by (rule open_device_is_reported; code_simp)

text \<open>
  The sweep keeps exactly the devices that have an open connection or were seen within the
  TTL, and the snapshot taken after it lists exactly these.
\<close>

theorem Sweep_Snapshot_exact:
  assumes "registry_inv r"
  shows "u \<in> set (OnlineRegistry_Snapshot (OnlineRegistry_Sweep now r)) \<longleftrightarrow>
     (\<exists>k e. mload (or_m r) k = Some e \<and> u = \<lparr>ou_UID = oe_UID e, ou_IP = snd k\<rparr>
        \<and> (0 < oe_Refs e \<or> now - or_ttl r \<le> oe_LastSeen e))"
proof -
  have "mload (or_m (OnlineRegistry_Sweep now r)) k = Some e \<longleftrightarrow>
      mload (or_m r) k = Some e \<and> (0 < oe_Refs e \<or> now - or_ttl r \<le> oe_LastSeen e)" for k e
    unfolding mload_Sweep [OF assms] by (auto split: option.splits)
  then show ?thesis
    unfolding Snapshot_members [OF Sweep_inv [OF assms]] by blast
qed

theorem Sweep_Snapshot_exact_witness:
  "\<lparr>ou_UID = 7, ou_IP = ''1.2.3.4''\<rparr> \<in> set (OnlineRegistry_Snapshot
     (OnlineRegistry_Sweep 60000000000 (OnlineRegistry_Touch 0 (newOnlineRegistry 0) ''u'' ''1.2.3.4'' 7)))"
  by (subst Sweep_Snapshot_exact, simp,
      intro exI [of _ "(''u'', ''1.2.3.4'')"]
        exI [of _ "\<lparr>oe_UID = 7, oe_IP = ''1.2.3.4'', oe_Refs = 0, oe_LastSeen = 0\<rparr>"]) code_simp

text \<open>
  The snapshot does not depend on the order in which the map is iterated: two registries
  with the same entries give the same list, sorted by user id and address.
\<close>

theorem Snapshot_deterministic:
  assumes "mset (or_m r) = mset (or_m r')"
  shows "OnlineRegistry_Snapshot r = OnlineRegistry_Snapshot r'
     \<and> sorted (map online_key (OnlineRegistry_Snapshot r))"
proof -
  let ?l = "\<lambda>r. map (\<lambda>(_, e). \<lparr>ou_UID = oe_UID e, ou_IP = oe_IP e\<rparr>)
         (filter (\<lambda>(_, e). \<not> (oe_UID e = 0 \<or> oe_IP e = [])) (or_m r))"
  have "mset (?l r) = mset (?l r')"
    using assms by simp
  then have "sort_key online_key (?l r) = sort_key online_key (?l r')"
    by (intro sort_key_inj_mset) (auto intro!: injI simp: online_key_inject)
  then show ?thesis
    by (simp add: OnlineRegistry_Snapshot_def)
qed

theorem Snapshot_deterministic_witness:
  "OnlineRegistry_Snapshot \<lparr>or_ttl = 0, or_m =
       [((''u'', ''b''), \<lparr>oe_UID = 2, oe_IP = ''b'', oe_Refs = 1, oe_LastSeen = 0\<rparr>),
        ((''v'', ''a''), \<lparr>oe_UID = 1, oe_IP = ''a'', oe_Refs = 0, oe_LastSeen = 0\<rparr>)]\<rparr>
   = OnlineRegistry_Snapshot \<lparr>or_ttl = 0, or_m =
       [((''v'', ''a''), \<lparr>oe_UID = 1, oe_IP = ''a'', oe_Refs = 0, oe_LastSeen = 0\<rparr>),
        ((''u'', ''b''), \<lparr>oe_UID = 2, oe_IP = ''b'', oe_Refs = 1, oe_LastSeen = 0\<rparr>)]\<rparr>"
  by (rule conjunct1 [OF Snapshot_deterministic]) (simp add: add_mset_commute)

text \<open>
  After a connection of a device closes, the device stays in the registry for at least ninety
  seconds whatever TTL the panel configured, including one whose conversion to nanoseconds
  overflows.
\<close>

theorem Del_grace_period:
  assumes "registry_inv r" and "normalizeOnlineKey t ip = Some k" and "mload (or_m r) k \<noteq> None"
    and "now \<le> t0 + 90 * time_Second"
  shows "mload (or_m (OnlineRegistry_Sweep now (OnlineRegistry_Del t0
           (OnlineRegistry_SetTTL r (onlineTTLFromSeconds seconds)) t ip))) k \<noteq> None"
proof -
  let ?r = "OnlineRegistry_Del t0 (OnlineRegistry_SetTTL r (onlineTTLFromSeconds seconds)) t ip"
  have inv: "registry_inv ?r" using assms(1) by simp
  obtain e where "mload (or_m ?r) k = Some e" "oe_LastSeen e = t0"
    using assms(2,3) by (auto simp: registry_defs Let_def)
  then show ?thesis
    using registry_invD(2) [OF inv] assms(4)
    by (simp add: mload_Sweep [OF inv] minOnlineTTL_def)
qed

theorem Del_grace_period_witness:
  "mload (or_m (OnlineRegistry_Sweep 90000000000 (OnlineRegistry_Del 0
     (OnlineRegistry_SetTTL (OnlineRegistry_Add 0 (newOnlineRegistry 0) ''u'' ''1.2.3.4'' 7)
        (onlineTTLFromSeconds 9223372037)) ''u'' ''1.2.3.4''))) (''u'', ''1.2.3.4'') \<noteq> None"
  by (rule Del_grace_period; (simp; fail)?; code_simp)

end
