(* ===== verification/Conn_Limiter.thy ===== *)
theory Conn_Limiter
  imports Go_Prelude
begin

text \<open>
  \<open>limiter/conn.go\<close>: the connection counter and the address table of each user. The values of the
  inner \<open>sync.Map\<close> are a count on realtime nodes and a time stamp otherwise; the code reads them
  with type assertions, so a wrong kind of value is a panic (\<open>None\<close>). A map that the code mutates
  through a shared pointer is stored back under its user.
\<close>

datatype ip_value = IPCount int | IPTime gotime

record ConnLimiter =
  cl_realtime :: bool
  cl_ipLimit :: int
  cl_connLimit :: int
  cl_onlineTTL :: duration
  cl_count :: "(string, int) gomap"
  cl_ip :: "(string, (string, ip_value) gomap) gomap"

definition nonRealtimeOnlineTTL :: duration where
  "nonRealtimeOnlineTTL = 5 * time_Minute"

definition addConnCount :: "ConnLimiter \<Rightarrow> string \<Rightarrow> bool \<Rightarrow> ConnLimiter" where
  "addConnCount c user isTcp =
     (if cl_connLimit c = 0 \<or> \<not> isTcp then c
      else case mload (cl_count c) user of
        Some v \<Rightarrow> c\<lparr>cl_count := mstore (cl_count c) user (v + 1)\<rparr>
      | None \<Rightarrow> c\<lparr>cl_count := mstore (cl_count c) user 1\<rparr>)"

definition delConnCount :: "ConnLimiter \<Rightarrow> string \<Rightarrow> ConnLimiter" where
  "delConnCount c user =
     (if cl_connLimit c = 0 then c
      else case mload (cl_count c) user of
        Some n \<Rightarrow> if n \<le> 1 then c\<lparr>cl_count := mdelete (cl_count c) user\<rparr>
                  else c\<lparr>cl_count := mstore (cl_count c) user (n - 1)\<rparr>
      | None \<Rightarrow> c)"

definition NewConnLimiter :: "int \<Rightarrow> int \<Rightarrow> bool \<Rightarrow> duration \<Rightarrow> ConnLimiter" where
  "NewConnLimiter conn ip realtime onlineTTL =
     \<lparr>cl_realtime = realtime, cl_ipLimit = ip, cl_connLimit = conn,
      cl_onlineTTL = (if onlineTTL \<le> 0 then nonRealtimeOnlineTTL else onlineTTL),
      cl_count = [], cl_ip = []\<rparr>"

definition ConnLimiter_SetOnlineTTL :: "ConnLimiter \<Rightarrow> duration \<Rightarrow> ConnLimiter" where
  "ConnLimiter_SetOnlineTTL c ttl = (if ttl \<le> 0 then c else c\<lparr>cl_onlineTTL := ttl\<rparr>)"

text \<open>
  \<open>storeIP\<close> returns the updated table and whether the address limit rejects the connection. The
  counting \<open>Range\<close> stops at the limit, so it asks whether the table has at least that many entries.
\<close>

definition storeIP ::
  "gotime \<Rightarrow> ConnLimiter \<Rightarrow> (string, ip_value) gomap \<Rightarrow> string \<Rightarrow> bool
   \<Rightarrow> ((string, ip_value) gomap \<times> bool) go" where
  "storeIP now c ips ip isTcp =
     (case mload ips ip of
        Some online \<Rightarrow>
          if cl_realtime c then
            (if isTcp then
               (case online of IPCount n \<Rightarrow> Some (mstore ips ip (IPCount (n + 2)), False)
                | IPTime _ \<Rightarrow> None)
             else Some (ips, False))
          else Some (mstore ips ip (IPTime now), False)
      | None \<Rightarrow>
          if cl_ipLimit c > 0 \<and> int (length ips) \<ge> cl_ipLimit c then Some (ips, True)
          else if cl_realtime c then Some (mstore ips ip (IPCount (if isTcp then 2 else 1)), False)
          else Some (mstore ips ip (IPTime now), False))"

definition AddConnCount ::
  "gotime \<Rightarrow> ConnLimiter \<Rightarrow> string \<Rightarrow> string \<Rightarrow> bool \<Rightarrow> (ConnLimiter \<times> bool) go" where
  "AddConnCount now c user ip isTcp =
     (if cl_connLimit c \<noteq> 0
         \<and> (case mload (cl_count c) user of Some v \<Rightarrow> v \<ge> cl_connLimit c | None \<Rightarrow> False)
      then Some (c, True)
      else
        let c = (if cl_connLimit c \<noteq> 0 then addConnCount c user isTcp else c);
            ips = (case mload (cl_ip c) user of Some v \<Rightarrow> v | None \<Rightarrow> [])
        in case storeIP now c ips ip isTcp of
             None \<Rightarrow> None
           | Some (ips, limit) \<Rightarrow>
               let c = c\<lparr>cl_ip := mstore (cl_ip c) user ips\<rparr>
               in if limit then Some (delConnCount c user, True) else Some (c, False))"

definition isSyncMapEmpty :: "('k, 'v) gomap \<Rightarrow> bool" where
  "isSyncMapEmpty m \<longleftrightarrow> m = []"

definition DelConnCount :: "ConnLimiter \<Rightarrow> string \<Rightarrow> string \<Rightarrow> ConnLimiter go" where
  "DelConnCount c user ip =
     (let c = delConnCount c user
      in if \<not> cl_realtime c then Some c
         else if cl_ipLimit c = 0 then Some c
         else case mload (cl_ip c) user of
           None \<Rightarrow> Some c
         | Some is \<Rightarrow>
             (case mload is ip of
                None \<Rightarrow> Some c
              | Some (IPTime _) \<Rightarrow> None
              | Some (IPCount i) \<Rightarrow>
                  let is = (if i = 2 then mdelete is ip else mstore is ip (IPCount (i - 2)))
                  in Some (c\<lparr>cl_ip := (if isSyncMapEmpty is then mdelete (cl_ip c) user
                                       else mstore (cl_ip c) user is)\<rparr>)))"

text \<open>The inner loop of \<open>ClearOnlineIP\<close>: the table after the loop and the flag \<open>notDel\<close>.\<close>

definition clear_user_ips ::
  "gotime \<Rightarrow> ConnLimiter \<Rightarrow> (string, ip_value) gomap \<Rightarrow> (string, ip_value) gomap \<times> bool" where
  "clear_user_ips now c ips =
     fold (\<lambda>(ip, v) (userIp, notDel).
        case v of
          IPCount n \<Rightarrow> if n = 1 then (mdelete userIp ip, notDel) else (userIp, True)
        | IPTime t \<Rightarrow>
            if time_Before t (time_Add now (- cl_onlineTTL c)) then (mdelete userIp ip, notDel)
            else (userIp, True)) ips (ips, False)"

definition ConnLimiter_ClearOnlineIP :: "gotime \<Rightarrow> ConnLimiter \<Rightarrow> ConnLimiter" where
  "ConnLimiter_ClearOnlineIP now c =
     c\<lparr>cl_ip := fold (\<lambda>(u, ips) m.
        case clear_user_ips now c ips of
          (userIp, notDel) \<Rightarrow>
            if \<not> notDel \<or> isSyncMapEmpty userIp then mdelete m u else mstore m u userIp)
        (cl_ip c) (cl_ip c)\<rparr>"


section \<open>The invariant\<close>

text \<open>
  Every stored value has the kind the node's mode expects (a count is two for each TCP connection,
  plus one when a packet came first), no user has an empty table, and the configured limits bound
  the counters and the tables.
\<close>

fun value_kind :: "bool \<Rightarrow> ip_value \<Rightarrow> bool" where
  "value_kind realtime (IPCount n) \<longleftrightarrow> realtime \<and> (2 \<le> n \<or> odd n)"
| "value_kind realtime (IPTime t) \<longleftrightarrow> \<not> realtime"

definition ips_ok :: "ConnLimiter \<Rightarrow> (string, ip_value) gomap \<Rightarrow> bool" where
  "ips_ok c ips \<longleftrightarrow> mwf ips \<and> (\<forall>ip v. mload ips ip = Some v \<longrightarrow> value_kind (cl_realtime c) v)
     \<and> (0 < cl_ipLimit c \<longrightarrow> int (length ips) \<le> cl_ipLimit c)"

definition conn_inv :: "ConnLimiter \<Rightarrow> bool" where
  "conn_inv c \<longleftrightarrow> mwf (cl_count c) \<and> mwf (cl_ip c)
     \<and> (\<forall>u n. mload (cl_count c) u = Some n \<longrightarrow>
          0 < n \<and> (0 < cl_connLimit c \<longrightarrow> n \<le> cl_connLimit c))
     \<and> (\<forall>u ips. mload (cl_ip c) u = Some ips \<longrightarrow> ips \<noteq> [] \<and> ips_ok c ips)"

named_theorems conn_defs \<open>counter operations of the connection limiter\<close>

lemmas [conn_defs] = addConnCount_def delConnCount_def

lemma conn_invD:
  assumes "conn_inv c"
  shows "mwf (cl_count c)" and "mwf (cl_ip c)"
    and "mload (cl_count c) u = Some n \<Longrightarrow> 0 < n"
    and "mload (cl_count c) u = Some n \<Longrightarrow> 0 < cl_connLimit c \<Longrightarrow> n \<le> cl_connLimit c"
    and "mload (cl_ip c) u = Some ips \<Longrightarrow> ips \<noteq> []"
    and "mload (cl_ip c) u = Some ips \<Longrightarrow> ips_ok c ips"
  using assms unfolding conn_inv_def by blast+

lemma conn_count_frame [simp]:
  "cl_realtime (addConnCount c u b) = cl_realtime c" "cl_ipLimit (addConnCount c u b) = cl_ipLimit c"
  "cl_connLimit (addConnCount c u b) = cl_connLimit c" "cl_ip (addConnCount c u b) = cl_ip c"
  "cl_onlineTTL (addConnCount c u b) = cl_onlineTTL c"
  "cl_realtime (delConnCount c u) = cl_realtime c" "cl_ipLimit (delConnCount c u) = cl_ipLimit c"
  "cl_connLimit (delConnCount c u) = cl_connLimit c" "cl_ip (delConnCount c u) = cl_ip c"
  "cl_onlineTTL (delConnCount c u) = cl_onlineTTL c"
  by (simp_all add: conn_defs split: option.splits)

lemma ips_ok_cong:
  "cl_realtime c = cl_realtime c' \<Longrightarrow> cl_ipLimit c = cl_ipLimit c' \<Longrightarrow> ips_ok c ips = ips_ok c' ips"
  by (simp add: ips_ok_def)

lemma count_addConnCount:
  "mload (cl_count (addConnCount c u isTcp)) u' =
     (if cl_connLimit c \<noteq> 0 \<and> isTcp \<and> u' = u then Some (mget 0 (cl_count c) u + 1)
      else mload (cl_count c) u')"
  by (auto simp: conn_defs mget_def split: option.splits)

lemma count_delConnCount:
  "mload (cl_count (delConnCount c u)) u' =
     (if cl_connLimit c \<noteq> 0 \<and> u' = u
      then (case mload (cl_count c) u of
              None \<Rightarrow> None | Some n \<Rightarrow> if n \<le> 1 then None else Some (n - 1))
      else mload (cl_count c) u')"
  by (auto simp: conn_defs split: option.splits)

lemma mwf_conn_counts [simp]:
  "mwf (cl_count c) \<Longrightarrow> mwf (cl_count (addConnCount c u b))"
  "mwf (cl_count c) \<Longrightarrow> mwf (cl_count (delConnCount c u))"
  by (auto simp: conn_defs split: option.splits)

lemma value_kind_add: "value_kind rt (IPCount n) \<Longrightarrow> value_kind rt (IPCount (n + 2))"
  by auto

lemma value_kind_sub: "value_kind rt (IPCount n) \<Longrightarrow> n \<noteq> 2 \<Longrightarrow> value_kind rt (IPCount (n - 2))"
  by (cases "even n") (auto elim!: evenE)

lemma ips_ok_kind: "ips_ok c ips \<Longrightarrow> mload ips ip = Some v \<Longrightarrow> value_kind (cl_realtime c) v"
  unfolding ips_ok_def by blast

lemma ips_ok_store:
  assumes "ips_ok c ips" and "value_kind (cl_realtime c) v"
    and "mload ips ip = None \<Longrightarrow> 0 < cl_ipLimit c \<Longrightarrow> int (length ips) < cl_ipLimit c"
  shows "ips_ok c (mstore ips ip v)"
  using assms by (auto simp: ips_ok_def length_mstore)

lemma ips_ok_delete: "ips_ok c ips \<Longrightarrow> ips_ok c (mdelete ips ip)"
  using length_mdelete_le [of ips ip] by (auto simp: ips_ok_def)

lemma ips_ok_Nil [simp]: "ips_ok c []"
  by (simp add: ips_ok_def)

lemma storeIP_ok:
  assumes "ips_ok c ips"
  shows "\<exists>ips' limit. storeIP now c ips ip isTcp = Some (ips', limit) \<and> ips_ok c ips'
     \<and> ips' \<noteq> [] \<and> (limit \<longrightarrow> ips' = ips)"
proof (cases "mload ips ip")
  case None
  show ?thesis
  proof (cases "cl_ipLimit c > 0 \<and> int (length ips) \<ge> cl_ipLimit c")
    case True
    then show ?thesis using None assms by (auto simp: storeIP_def)
  next
    case False
    let ?v = "if cl_realtime c then IPCount (if isTcp then 2 else 1) else IPTime now"
    have "ips_ok c (mstore ips ip ?v)"
      using assms False by (intro ips_ok_store) auto
    moreover have "storeIP now c ips ip isTcp = Some (mstore ips ip ?v, False)"
      using None False by (simp add: storeIP_def)
    ultimately show ?thesis by (metis mstore_nonempty)
  qed
next
  case (Some v)
  have st: "ips_ok c (mstore ips ip w)" if "value_kind (cl_realtime c) w" for w
    using assms that Some by (intro ips_ok_store) auto
  have ne: "ips \<noteq> []" using Some by auto
  have kind: "value_kind (cl_realtime c) v" using ips_ok_kind [OF assms Some] .
  show ?thesis
  proof (cases v)
    case (IPCount n)
    then have "ips_ok c (mstore ips ip (IPCount (n + 2)))"
      using kind value_kind_add by (intro st) blast
    then show ?thesis using assms Some IPCount ne kind by (simp add: storeIP_def) blast
  next
    case (IPTime t)
    then show ?thesis using Some kind st [of "IPTime now"] by (simp add: storeIP_def) blast
  qed
qed

lemma storeIP_cong:
  "cl_realtime c = cl_realtime c' \<Longrightarrow> cl_ipLimit c = cl_ipLimit c' \<Longrightarrow>
   storeIP now c ips ip isTcp = storeIP now c' ips ip isTcp"
  unfolding storeIP_def by (simp only:)

lemma conn_inv_new [simp]: "conn_inv (NewConnLimiter conn ip rt ttl)"
  by (simp add: conn_inv_def NewConnLimiter_def)

lemma mget_if_empty:
  "mget [] (if ips = [] then mdelete m u else mstore m u ips) u' = (if u' = u then ips else mget [] m u')"
  by simp

lemma conn_inv_ip_store:
  assumes "conn_inv c" and "ips \<noteq> []" and "ips_ok c ips"
  shows "conn_inv (c\<lparr>cl_ip := mstore (cl_ip c) u ips\<rparr>)"
  using assms by (simp add: conn_inv_def ips_ok_def)

lemma conn_inv_ip_delete: "conn_inv c \<Longrightarrow> conn_inv (c\<lparr>cl_ip := mdelete (cl_ip c) u\<rparr>)"
  by (simp add: conn_inv_def ips_ok_def)

lemma conn_inv_add:
  assumes "conn_inv c" and "0 < cl_connLimit c \<Longrightarrow> mget 0 (cl_count c) u < cl_connLimit c"
  shows "conn_inv (addConnCount c u isTcp)"
proof -
  have "0 \<le> mget 0 (cl_count c) u"
    using conn_invD(3) [OF assms(1), of u] by (auto simp: mget_def less_imp_le split: option.splits)
  then show ?thesis
    using assms
    by (auto simp: conn_inv_def count_addConnCount ips_ok_cong [of "addConnCount c u isTcp" c]
        split: if_splits)
qed

lemma conn_inv_del: "conn_inv c \<Longrightarrow> conn_inv (delConnCount c u)"
  by (fastforce simp: conn_inv_def count_delConnCount ips_ok_cong [of "delConnCount c u" c]
      split: option.splits if_splits)

definition over_conn_limit :: "ConnLimiter \<Rightarrow> string \<Rightarrow> bool" where
  "over_conn_limit c u \<longleftrightarrow> cl_connLimit c \<noteq> 0
     \<and> (case mload (cl_count c) u of Some v \<Rightarrow> v \<ge> cl_connLimit c | None \<Rightarrow> False)"

text \<open>
  The three outcomes of \<open>AddConnCount\<close>: over the connection limit, over the address limit, accepted.
\<close>

lemma AddConnCount_outcomes:
  assumes "conn_inv c"
  obtains (conn_limit) "over_conn_limit c u" "AddConnCount now c u ip isTcp = Some (c, True)"
  | (ip_limit) ips where "\<not> over_conn_limit c u" "mload (cl_ip c) u = Some ips"
      "AddConnCount now c u ip isTcp = Some (delConnCount
         ((addConnCount c u isTcp)\<lparr>cl_ip := mstore (cl_ip c) u ips\<rparr>) u, True)"
  | (accepted) ips where "\<not> over_conn_limit c u" "ips \<noteq> []" "ips_ok c ips"
      "storeIP now c (mget [] (cl_ip c) u) ip isTcp = Some (ips, False)"
      "AddConnCount now c u ip isTcp =
         Some ((addConnCount c u isTcp)\<lparr>cl_ip := mstore (cl_ip c) u ips\<rparr>, False)"
proof (cases "over_conn_limit c u")
  case True
  then show ?thesis by (intro conn_limit) (simp_all add: AddConnCount_def over_conn_limit_def)
next
  case False
  let ?ips = "mget [] (cl_ip c) u"
  have "ips_ok c ?ips"
    using conn_invD(6) [OF assms] by (auto simp: mget_def split: option.splits)
  then obtain ips limit where st: "storeIP now c ?ips ip isTcp = Some (ips, limit)"
    and ok: "ips_ok c ips" "ips \<noteq> []" "limit \<longrightarrow> ips = ?ips"
    using storeIP_ok by blast
  have same: "storeIP now (addConnCount c u isTcp) ?ips ip isTcp = Some (ips, limit)"
    unfolding st [symmetric] by (rule storeIP_cong) simp_all
  have c0: "cl_connLimit c = 0 \<Longrightarrow> addConnCount c u isTcp = c" by (simp add: addConnCount_def)
  show ?thesis
  proof (cases limit)
    case True
    moreover then have "mload (cl_ip c) u = Some ips"
      using ok by (auto simp: mget_def split: option.splits)
    ultimately show ?thesis
      using False same c0
      by (intro ip_limit [of ips]) (auto simp: AddConnCount_def over_conn_limit_def mget_def)
  next
    case nl: False
    then show ?thesis
      using False same c0 st ok
      by (intro accepted [of ips])
        (auto simp: AddConnCount_def over_conn_limit_def mget_def Let_def)
  qed
qed

lemma AddConnCount_inv:
  assumes "conn_inv c" and "AddConnCount now c u ip isTcp = Some (c', reject)"
  shows "conn_inv c'"
proof -
  have lim: "0 < cl_connLimit c \<Longrightarrow> mget 0 (cl_count c) u < cl_connLimit c"
    if "\<not> over_conn_limit c u"
    using that by (auto simp: over_conn_limit_def mget_def split: option.splits)
  have upd: "conn_inv ((addConnCount c u isTcp)\<lparr>cl_ip := mstore (cl_ip c) u ips\<rparr>)"
    if "\<not> over_conn_limit c u" "ips \<noteq> []" "ips_ok c ips" for ips
    using conn_inv_ip_store [OF conn_inv_add [OF assms(1) lim [OF that(1)]] that(2), of isTcp u]
      that(3) by (simp add: ips_ok_cong [of "addConnCount c u isTcp" c])
  show ?thesis
    using assms(1)
  proof (cases rule: AddConnCount_outcomes [where u = u and now = now and ip = ip and isTcp = isTcp])
    case (ip_limit ips)
    then show ?thesis
      using assms conn_inv_del [OF upd] conn_invD(5,6) [OF assms(1)] by auto
  qed (use assms upd in auto)
qed

lemma DelConnCount_total:
  assumes "conn_inv c"
  shows "\<exists>c'. DelConnCount c u ip = Some c' \<and> conn_inv c' \<and> cl_count c' = cl_count (delConnCount c u)"
proof -
  let ?c = "delConnCount c u"
  note inv = conn_inv_del [OF assms, of u]
  show ?thesis
  proof (cases "cl_realtime c \<and> cl_ipLimit c \<noteq> 0 \<and> (\<exists>is i. mload (cl_ip c) u = Some is \<and> mload is ip = Some i)")
    case False
    then show ?thesis
      using inv by (auto simp: DelConnCount_def Let_def split: option.splits)
  next
    case True
    then obtain "is" i where l: "mload (cl_ip c) u = Some is" "mload is ip = Some i" by blast
    have ok: "ips_ok ?c is" using conn_invD(6) [OF inv] l(1) by simp
    then obtain n where n: "i = IPCount n"
      using True ips_ok_kind [OF ok l(2)] by (cases i) auto
    let ?is = "if n = 2 then mdelete is ip else mstore is ip (IPCount (n - 2))"
    have "n \<noteq> 2 \<Longrightarrow> value_kind (cl_realtime ?c) (IPCount (n - 2))"
      using ips_ok_kind [OF ok l(2)] n value_kind_sub by simp
    then have "ips_ok ?c ?is" using ok l by (auto intro: ips_ok_delete ips_ok_store)
    then show ?thesis
      using True l n conn_inv_ip_store [OF inv, of ?is u] conn_inv_ip_delete [OF inv, of u]
      by (simp add: DelConnCount_def isSyncMapEmpty_def Let_def)
  qed
qed

lemma DelConnCount_table:
  assumes "DelConnCount c u ip = Some c'" and "mload (mget [] (cl_ip c) u) ip = Some (IPCount i)"
    and "cl_realtime c" and "cl_ipLimit c \<noteq> 0"
  shows "mget [] (cl_ip c') u' =
     (if u' = u then if i = 2 then mdelete (mget [] (cl_ip c) u) ip
                     else mstore (mget [] (cl_ip c) u) ip (IPCount (i - 2))
      else mget [] (cl_ip c) u')"
proof -
  obtain "is" where l: "mload (cl_ip c) u = Some is"
    using assms(2) by (cases "mload (cl_ip c) u") (auto simp: mget_def)
  let ?is = "if i = 2 then mdelete is ip else mstore is ip (IPCount (i - 2))"
  have "cl_ip c' = (if ?is = [] then mdelete (cl_ip c) u else mstore (cl_ip c) u ?is)"
    using assms l by (auto simp: DelConnCount_def isSyncMapEmpty_def mget_def Let_def)
  then show ?thesis
    using l by (simp only: mget_if_empty) (simp add: mget_def)
qed

lemma conn_table_kind:
  "conn_inv c \<Longrightarrow> mload (mget [] (cl_ip c) u) ip = Some v \<Longrightarrow> value_kind (cl_realtime c) v"
  using conn_invD(6) [of c u] ips_ok_kind [of c _ ip v] by (auto simp: mget_def split: option.splits)

section \<open>The periodic clean-up\<close>

text \<open>What the clean-up keeps: counted addresses with a TCP connection, and recent time stamps.\<close>

fun keep_ip :: "gotime \<Rightarrow> ConnLimiter \<Rightarrow> ip_value \<Rightarrow> bool" where
  "keep_ip now c (IPCount n) \<longleftrightarrow> n \<noteq> 1"
| "keep_ip now c (IPTime t) \<longleftrightarrow> now - cl_onlineTTL c \<le> t"

lemma clear_user_ips_fold:
  "fold (\<lambda>(ip, v) (userIp, notDel).
        case v of
          IPCount n \<Rightarrow> if n = 1 then (mdelete userIp ip, notDel) else (userIp, True)
        | IPTime t \<Rightarrow>
            if time_Before t (time_Add now (- cl_onlineTTL c)) then (mdelete userIp ip, notDel)
            else (userIp, True)) kvs (m, b) =
   (fold (\<lambda>(ip, v) acc. if \<not> keep_ip now c v then mdelete acc ip else acc) kvs m,
    b \<or> (\<exists>(ip, v) \<in> set kvs. keep_ip now c v))"
  by (induction kvs arbitrary: m b)
    (auto simp: time_defs not_less split: ip_value.splits)

lemma clear_user_ips_eq:
  assumes "mwf ips"
  shows "clear_user_ips now c ips =
     (filter (\<lambda>(_, v). keep_ip now c v) ips, \<exists>(ip, v) \<in> set ips. keep_ip now c v)"
  using mrange_delete_eq_filter [OF assms, of "\<lambda>_ v. \<not> keep_ip now c v"]
  by (simp add: clear_user_ips_def clear_user_ips_fold mrange_delete_def)

text \<open>The outer loop: each user's table is replaced by what is kept of it, or removed.\<close>

lemma fold_clear_lookup:
  assumes "distinct (map fst kvs)" and "\<forall>(u, ips) \<in> set kvs. mwf ips"
  shows "mload (fold (\<lambda>(u, ips) m.
        case clear_user_ips now c ips of
          (userIp, notDel) \<Rightarrow>
            if \<not> notDel \<or> isSyncMapEmpty userIp then mdelete m u else mstore m u userIp) kvs m) u =
     (case map_of kvs u of
        None \<Rightarrow> mload m u
      | Some ips \<Rightarrow>
          let kept = filter (\<lambda>(_, v). keep_ip now c v) ips in if kept = [] then None else Some kept)"
  using assms
proof (induction kvs arbitrary: m)
  case Nil
  then show ?case by simp
next
  case (Cons a kvs)
  obtain j ips where a: "a = (j, ips)" by (cases a)
  have "map_of kvs j = None"
    using Cons.prems(1) a by (simp add: map_of_eq_None_iff)
  moreover have "filter (\<lambda>(_, v). keep_ip now c v) ips = [] \<longleftrightarrow>
      \<not> (\<exists>(ip, v) \<in> set ips. keep_ip now c v)"
    by (auto simp: filter_empty_conv)
  ultimately show ?case
    using Cons a
    by (auto simp: clear_user_ips_eq isSyncMapEmpty_def Let_def split: option.split)
qed

lemma mload_ClearOnlineIP:
  assumes "conn_inv c"
  shows "mload (cl_ip (ConnLimiter_ClearOnlineIP now c)) u =
     (case mload (cl_ip c) u of
        None \<Rightarrow> None
      | Some ips \<Rightarrow>
          let kept = filter (\<lambda>(_, v). keep_ip now c v) ips in if kept = [] then None else Some kept)"
proof -
  note inv = conn_invD [OF assms]
  have "\<forall>(u, ips) \<in> set (cl_ip c). mwf ips"
    using inv(2,6) by (auto simp: ips_ok_def mload_Some_iff)
  then show ?thesis
    using fold_clear_lookup [of "cl_ip c" now c "cl_ip c" u] inv(2)
    by (simp add: ConnLimiter_ClearOnlineIP_def mwf_def mload_def split: option.splits)
qed

lemma mwf_ClearOnlineIP: "mwf (cl_ip c) \<Longrightarrow> mwf (cl_ip (ConnLimiter_ClearOnlineIP now c))"
proof -
  assume m: "mwf (cl_ip c)"
  have "mwf m \<Longrightarrow> mwf (fold (\<lambda>(u, ips) m.
        case clear_user_ips now c ips of
          (userIp, notDel) \<Rightarrow>
            if \<not> notDel \<or> isSyncMapEmpty userIp then mdelete m u else mstore m u userIp) kvs m)"
    for kvs m
    by (induction kvs arbitrary: m) (auto split: prod.splits)
  with m show ?thesis by (simp add: ConnLimiter_ClearOnlineIP_def)
qed

lemma ips_ok_filter:
  assumes "ips_ok c ips"
  shows "ips_ok c (filter P ips)"
proof -
  have m: "mwf ips" using assms by (simp add: ips_ok_def)
  have "value_kind (cl_realtime c) v" if "mload (filter P ips) ip = Some v" for ip v
    using ips_ok_kind [OF assms, of ip v] mload_SomeD [OF that] mload_Some_iff [OF m] by simp
  then show ?thesis
    using assms order_trans [OF of_nat_mono [OF length_filter_le [of P ips]], of "cl_ipLimit c"]
      mwf_filter [OF m] unfolding ips_ok_def by blast
qed

lemma conn_inv_clear:
  assumes "conn_inv c"
  shows "conn_inv (ConnLimiter_ClearOnlineIP now c)"
proof -
  let ?c = "ConnLimiter_ClearOnlineIP now c"
  have f: "cl_count ?c = cl_count c" "cl_connLimit ?c = cl_connLimit c" "ips_ok ?c = ips_ok c"
    by (auto simp: ConnLimiter_ClearOnlineIP_def ips_ok_def fun_eq_iff)
  have "ips \<noteq> [] \<and> ips_ok c ips" if "mload (cl_ip ?c) u = Some ips" for u ips
    using that conn_invD(6) [OF assms, of u]
    by (auto simp: mload_ClearOnlineIP [OF assms] Let_def ips_ok_filter split: option.splits if_splits)
  then show ?thesis
    using assms mwf_ClearOnlineIP [of c now] unfolding conn_inv_def f by blast
qed



section \<open>Runs\<close>

datatype conn_op =
    ConnOpen gotime string string bool
  | ConnClose string string
  | ConnClean gotime

fun conn_step :: "conn_op \<Rightarrow> ConnLimiter \<Rightarrow> ConnLimiter go" where
  "conn_step (ConnOpen now u ip isTcp) c = map_option fst (AddConnCount now c u ip isTcp)"
| "conn_step (ConnClose u ip) c = DelConnCount c u ip"
| "conn_step (ConnClean now) c = Some (ConnLimiter_ClearOnlineIP now c)"

fun conn_run :: "conn_op list \<Rightarrow> ConnLimiter \<Rightarrow> ConnLimiter go" where
  "conn_run [] c = Some c"
| "conn_run (e # es) c = Option.bind (conn_step e c) (conn_run es)"

lemma AddConnCount_frame:
  assumes "AddConnCount now c u ip isTcp = Some (c', r)"
  shows "cl_connLimit c' = cl_connLimit c \<and> cl_ipLimit c' = cl_ipLimit c"
  using assms by (auto simp: AddConnCount_def Let_def split: if_splits option.splits)

lemma DelConnCount_frame:
  assumes "DelConnCount c u ip = Some c'"
  shows "cl_connLimit c' = cl_connLimit c \<and> cl_ipLimit c' = cl_ipLimit c"
  using assms
  by (auto simp: DelConnCount_def Let_def split: if_splits option.splits ip_value.splits)

lemma conn_step_inv:
  assumes "conn_inv c"
  shows "\<exists>c'. conn_step e c = Some c' \<and> conn_inv c' \<and> cl_connLimit c' = cl_connLimit c
     \<and> cl_ipLimit c' = cl_ipLimit c"
proof (cases e)
  case (ConnOpen now u ip isTcp)
  obtain c' r where a: "AddConnCount now c u ip isTcp = Some (c', r)"
    using AddConnCount_outcomes [OF assms, of u now ip isTcp] by metis
  then show ?thesis
    using ConnOpen AddConnCount_inv [OF assms a] AddConnCount_frame [OF a] by simp
next
  case (ConnClose u ip)
  then show ?thesis
    using DelConnCount_total [OF assms, of u ip] DelConnCount_frame [of c u ip] by auto
next
  case (ConnClean now)
  then show ?thesis
    using conn_inv_clear [OF assms, of now] by (simp add: ConnLimiter_ClearOnlineIP_def)
qed

lemma conn_run_inv:
  assumes "conn_inv c"
  shows "\<exists>c'. conn_run es c = Some c' \<and> conn_inv c' \<and> cl_connLimit c' = cl_connLimit c
     \<and> cl_ipLimit c' = cl_ipLimit c"
  using assms
proof (induction es arbitrary: c)
  case (Cons e es)
  then obtain c1 where "conn_step e c = Some c1" "conn_inv c1" "cl_connLimit c1 = cl_connLimit c"
      "cl_ipLimit c1 = cl_ipLimit c"
    using conn_step_inv by blast
  then show ?case using Cons.IH [of c1] by simp
qed simp

text \<open>
  TCP connections of any users that open and close, UDP packets that are accepted, and the
  clean-up, with the number of open accepted connections of each user beside the state.
\<close>

inductive tcp_reach :: "ConnLimiter \<Rightarrow> ConnLimiter \<Rightarrow> (string \<Rightarrow> int) \<Rightarrow> bool" for c0 where
  tr_init: "tcp_reach c0 c0 (\<lambda>_. 0)"
| tr_accept: "tcp_reach c0 c n \<Longrightarrow> AddConnCount now c u ip True = Some (c', False)
    \<Longrightarrow> tcp_reach c0 c' (n(u := n u + 1))"
| tr_reject: "tcp_reach c0 c n \<Longrightarrow> AddConnCount now c u ip True = Some (c', True)
    \<Longrightarrow> tcp_reach c0 c' n"
| tr_packet: "tcp_reach c0 c n \<Longrightarrow> AddConnCount now c u ip False = Some (c', False)
    \<Longrightarrow> tcp_reach c0 c' n"
| tr_close: "tcp_reach c0 c n \<Longrightarrow> 0 < n u \<Longrightarrow> DelConnCount c u ip = Some c'
    \<Longrightarrow> tcp_reach c0 c' (n(u := n u - 1))"
| tr_clean: "tcp_reach c0 c n \<Longrightarrow> tcp_reach c0 (ConnLimiter_ClearOnlineIP now c) n"

lemma AddConnCount_accept_count:
  assumes "conn_inv c" and "AddConnCount now c u ip isTcp = Some (c', False)"
  shows "mload (cl_count c') u' = mload (cl_count (addConnCount c u isTcp)) u'"
  using assms(1)
proof (cases rule: AddConnCount_outcomes [where u = u and now = now and ip = ip and isTcp = isTcp])
qed (use assms(2) in auto)

lemma AddConnCount_reject_tcp:
  assumes "conn_inv c" and "AddConnCount now c u ip True = Some (c', True)"
  shows "mload (cl_count c') u' = mload (cl_count c) u' \<and> mload (cl_ip c') u' = mload (cl_ip c) u'"
  using assms(1)
proof (cases rule: AddConnCount_outcomes [where u = u and now = now and ip = ip and isTcp = True])
  case (ip_limit ips)
  have "0 < n" if "mload (cl_count c) u = Some n" for n
    using conn_invD(3) [OF assms(1) that] .
  then show ?thesis
    using ip_limit assms(2)
    by (auto simp: count_delConnCount count_addConnCount mget_def split: option.splits)
qed (use assms(2) in auto)

lemma tcp_reach_count:
  assumes "tcp_reach c0 c n" and "conn_inv c0" and "cl_count c0 = []" and "cl_connLimit c0 \<noteq> 0"
  shows "conn_inv c \<and> cl_connLimit c = cl_connLimit c0 \<and> (\<forall>u. mget 0 (cl_count c) u = n u)"
  using assms
proof (induction rule: tcp_reach.induct)
  case tr_init
  then show ?case by simp
next
  case (tr_accept c n now u ip c')
  then show ?case
    using AddConnCount_inv [OF _ tr_accept.hyps(2)] AddConnCount_frame [OF tr_accept.hyps(2)]
      AddConnCount_accept_count [OF _ tr_accept.hyps(2)]
    by (simp add: mget_def count_addConnCount)
next
  case (tr_reject c n now u ip c')
  then show ?case
    using AddConnCount_inv [OF _ tr_reject.hyps(2)] AddConnCount_frame [OF tr_reject.hyps(2)]
      AddConnCount_reject_tcp [OF _ tr_reject.hyps(2)]
    by (simp add: mget_def)
next
  case (tr_packet c n now u ip c')
  then show ?case
    using AddConnCount_inv [OF _ tr_packet.hyps(2)] AddConnCount_frame [OF tr_packet.hyps(2)]
      AddConnCount_accept_count [OF _ tr_packet.hyps(2)]
    by (simp add: mget_def count_addConnCount)
next
  case (tr_close c n u ip c')
  then have ih: "conn_inv c" "cl_connLimit c = cl_connLimit c0" "mget 0 (cl_count c) u' = n u'" for u'
    by auto
  obtain v where "mload (cl_count c) u = Some v" "v = n u" "0 < v"
    using ih(3) [of u] tr_close.hyps(2) by (auto simp: mget_def split: option.splits)
  moreover have "conn_inv c'" "cl_count c' = cl_count (delConnCount c u)"
    using DelConnCount_total [OF ih(1), of u ip] tr_close.hyps(3) by auto
  ultimately show ?case
    using ih tr_close.prems DelConnCount_frame [OF tr_close.hyps(3)]
    by (auto simp: mget_def count_delConnCount)
next
  case (tr_clean c n now)
  then show ?case
    using conn_inv_clear [of c now] by (simp add: ConnLimiter_ClearOnlineIP_def)
qed


section \<open>Properties\<close>





text \<open>
  Closing an accepted TCP connection undoes its admission: every counter is as before, and on
  a realtime node with an address limit every address table too.
\<close>

theorem AddConnCount_DelConnCount:
  assumes "conn_inv c" and "AddConnCount now c u ip True = Some (c', False)"
  shows "\<exists>c''. DelConnCount c' u ip = Some c''
     \<and> (\<forall>u'. mload (cl_count c'') u' = mload (cl_count c) u')
     \<and> (cl_realtime c \<and> cl_ipLimit c \<noteq> 0 \<longrightarrow>
          (\<forall>u' ip'. mload (mget [] (cl_ip c'') u') ip' = mload (mget [] (cl_ip c) u') ip'))"
  using assms(1)
proof (cases rule: AddConnCount_outcomes [where u = u and now = now and ip = ip and isTcp = True])
  case (accepted ips)
  then have c': "c' = (addConnCount c u True)\<lparr>cl_ip := mstore (cl_ip c) u ips\<rparr>"
    using assms(2) by simp
  obtain c'' where del: "DelConnCount c' u ip = Some c''" "cl_count c'' = cl_count (delConnCount c' u)"
    using DelConnCount_total [OF AddConnCount_inv [OF assms], of u ip] by blast
  have count: "mload (cl_count c'') u' = mload (cl_count c) u'" for u'
    using conn_invD(3) [OF assms(1), of u]
    by (fastforce simp: del(2) c' count_delConnCount count_addConnCount mget_def split: option.splits)
  have "mload (mget [] (cl_ip c'') u') ip' = mload (mget [] (cl_ip c) u') ip'"
    if rt: "cl_realtime c" "cl_ipLimit c \<noteq> 0" for u' ip'
  proof (cases "mload (mget [] (cl_ip c) u) ip")
    case None
    then have "ips = mstore (mget [] (cl_ip c) u) ip (IPCount 2)"
      using accepted(4) rt by (auto simp: storeIP_def split: if_splits)
    then show ?thesis
      using DelConnCount_table [OF del(1), of 2] None rt by (simp add: c')
  next
    case (Some v)
    then obtain n where n: "v = IPCount n" "ips = mstore (mget [] (cl_ip c) u) ip (IPCount (n + 2))"
      using accepted(4) rt by (auto simp: storeIP_def split: ip_value.splits)
    moreover have "n \<noteq> 0"
      using conn_table_kind [OF assms(1) Some] n(1) by auto
    ultimately show ?thesis
      using DelConnCount_table [OF del(1), of "n + 2"] Some rt by (simp add: c')
  qed
  then show ?thesis using del(1) count by blast
qed (use assms(2) in auto)

theorem AddConnCount_DelConnCount_witness:
  "\<exists>c' c''. AddConnCount 0 (NewConnLimiter 2 2 True 0) ''u'' ''a'' True = Some (c', False)
     \<and> DelConnCount c' ''u'' ''a'' = Some c''
     \<and> mload (cl_count c'') ''u'' = None \<and> mload (mget [] (cl_ip c'') ''u'') ''a'' = None"
proof -
  let ?c = "NewConnLimiter 2 2 True 0"
  obtain c' where c': "AddConnCount 0 ?c ''u'' ''a'' True = Some (c', False)"
    by (simp add: AddConnCount_def NewConnLimiter_def storeIP_def)
  show ?thesis
    using AddConnCount_DelConnCount [OF conn_inv_new c'] c' by (auto simp: NewConnLimiter_def)
qed

text \<open>
  A UDP packet is never counted, but when the address limit rejects it the roll-back
  decrements the user's TCP connection counter all the same: the counter falls below the number
  of open connections, and further connections pass the limit.
\<close>

theorem udp_reject_releases_tcp_count:
  assumes "mload (cl_count c) u = Some n" and "1 < n" and "n < cl_connLimit c"
    and "mload (cl_ip c) u = Some ips" and "mload ips ip = None"
    and "0 < cl_ipLimit c" and "cl_ipLimit c \<le> int (length ips)"
  shows "\<exists>c'. AddConnCount now c u ip False = Some (c', True) \<and> mload (cl_count c') u = Some (n - 1)"
  using assms by (simp add: AddConnCount_def addConnCount_def storeIP_def count_delConnCount)

theorem udp_reject_releases_tcp_count_witness:
  "\<exists>c c'. conn_run [ConnOpen 0 ''u'' ''a'' True, ConnOpen 1 ''u'' ''a'' True] (NewConnLimiter 3 1 True 0)
        = Some c \<and> mload (cl_count c) ''u'' = Some 2
     \<and> AddConnCount 2 c ''u'' ''b'' False = Some (c', True) \<and> mload (cl_count c') ''u'' = Some (2 - 1)"
proof -
  let ?c = "\<lparr>cl_realtime = True, cl_ipLimit = 1, cl_connLimit = 3, cl_onlineTTL = 300000000000,
      cl_count = [(''u'', 2)], cl_ip = [(''u'', [(''a'', IPCount 4)])]\<rparr>"
  have "conn_run [ConnOpen 0 ''u'' ''a'' True, ConnOpen 1 ''u'' ''a'' True] (NewConnLimiter 3 1 True 0)
     = Some ?c" by code_simp
  moreover have l: "mload (cl_count ?c) ''u'' = Some 2" "mload (cl_ip ?c) ''u'' = Some [(''a'', IPCount 4)]"
      "mload [(''a'', IPCount 4)] ''b'' = None" by code_simp+
  ultimately show ?thesis
    using udp_reject_releases_tcp_count [OF l(1) _ _ l(2,3), of 2] by auto
qed

text \<open>
  The clean-up keeps of every user's table exactly the addresses that have a TCP connection
  (realtime) or were seen within the TTL (otherwise), drops users with nothing left, and does not
  touch the counters.
\<close>

theorem ConnLimiter_ClearOnlineIP_exact:
  assumes "conn_inv c"
  shows "cl_count (ConnLimiter_ClearOnlineIP now c) = cl_count c
     \<and> (mload (cl_ip (ConnLimiter_ClearOnlineIP now c)) u = Some ips \<longleftrightarrow>
         (\<exists>old. mload (cl_ip c) u = Some old \<and> ips \<noteq> []
            \<and> ips = filter (\<lambda>(_, v). case v of IPCount n \<Rightarrow> n \<noteq> 1
                                 | IPTime t \<Rightarrow> now - cl_onlineTTL c \<le> t) old))"
proof -
  have keep: "keep_ip now c = (\<lambda>v. case v of IPCount n \<Rightarrow> n \<noteq> 1 | IPTime t \<Rightarrow> now - cl_onlineTTL c \<le> t)"
    by (simp add: fun_eq_iff split: ip_value.split)
  show ?thesis
    unfolding mload_ClearOnlineIP [OF assms] keep
    by (auto simp: ConnLimiter_ClearOnlineIP_def Let_def split: option.splits)
qed

theorem ConnLimiter_ClearOnlineIP_exact_witness:
  "mload (cl_ip (ConnLimiter_ClearOnlineIP 400000000000 \<lparr>cl_realtime = False, cl_ipLimit = 1,
      cl_connLimit = 0, cl_onlineTTL = 300000000000, cl_count = [],
      cl_ip = [(''u'', [(''a'', IPTime 200000000000)])]\<rparr>)) ''u'' = Some [(''a'', IPTime 200000000000)]"
proof -
  have "conn_inv \<lparr>cl_realtime = False, cl_ipLimit = 1,
      cl_connLimit = 0, cl_onlineTTL = 300000000000, cl_count = [],
      cl_ip = [(''u'', [(''a'', IPTime 200000000000)])]\<rparr>"
    by (auto simp: conn_inv_def ips_ok_def mwf_def mload_def split: if_splits)
  from ConnLimiter_ClearOnlineIP_exact [OF this, of 400000000000 "''u''"] show ?thesis
    by (auto simp: mload_def)
qed

end
