(* ===== verification/Limiter.thy ===== *)
theory Limiter
  imports Conf Online_Registry Conn_Limiter
begin

text \<open>
  \<open>limiter/limiter.go\<close>, \<open>dynamic.go\<close>, \<open>rule.go\<close> and \<open>clear.go\<close>: one limiter per node tag, holding
  the users' limits, the device window, the connection limiter and the online registry. The token
  bucket constructor (package \<open>ratelimit\<close>) and the regular expression compiler and matcher (package
  \<open>regexp\<close>) are arguments of the operations that call them. The compare-and-swap loops are modelled
  by their effect: a swap of the entry that was read.
\<close>

section \<open>Speed limits (\<open>dynamic.go\<close>)\<close>

definition determineSpeedLimit :: "int \<Rightarrow> int \<Rightarrow> int" where
  "determineSpeedLimit limit1 limit2 =
     (if limit1 = 0 \<or> limit2 = 0 then
        (if limit1 > limit2 then limit1 else if limit1 < limit2 then limit2 else 0)
      else (if limit1 > limit2 then limit2 else if limit1 < limit2 then limit1 else limit1))"


section \<open>The state (\<open>limiter.go\<close>)\<close>

record oldOnlineEntry =
  oo_uid :: int
  oo_seenAt :: gotime

record 'b speedBucket =
  sb_Limit :: int
  sb_Bucket :: 'b

record UserLimitInfo =
  ul_UID :: int
  ul_SpeedLimit :: int
  ul_DeviceLimit :: int
  ul_DynamicSpeedLimit :: int
  ul_ExpireTime :: int
  ul_OverLimit :: bool

record ('re, 'b) Limiter =
  li_DomainRules :: "'re list"
  li_ProtocolRules :: "string list"
  li_SpeedLimit :: int
  li_UserOnlineIP :: "(string, (string, int) gomap) gomap"
  li_OldUserOnline :: "(string, oldOnlineEntry) gomap"
  li_UserLimitInfo :: "(string, UserLimitInfo) gomap"
  li_ConnLimiter :: ConnLimiter
  li_SpeedLimiter :: "(string, 'b speedBucket) gomap"
  li_Online :: OnlineRegistry
  li_AliveList :: "(int, int) gomap"
  li_oldOnlineTTL :: duration

definition defaultOldOnlineTTL :: duration where
  "defaultOldOnlineTTL = 10 * time_Minute"

datatype limiter_error = LimiterNotFound

text \<open>The limit entry \<open>AddLimiter\<close> and \<open>UpdateUser\<close> store for a user.\<close>

definition user_limit_of :: "UserInfo \<Rightarrow> UserLimitInfo" where
  "user_limit_of u =
     \<lparr>ul_UID = ui_Id u,
      ul_SpeedLimit = (if ui_SpeedLimit u \<noteq> 0 then ui_SpeedLimit u else 0),
      ul_DeviceLimit = (if ui_DeviceLimit u \<noteq> 0 then ui_DeviceLimit u else 0),
      ul_DynamicSpeedLimit = 0, ul_ExpireTime = 0, ul_OverLimit = False\<rparr>"

definition store_user :: "string \<Rightarrow> UserInfo \<Rightarrow> ('re, 'b) Limiter \<Rightarrow> ('re, 'b) Limiter" where
  "store_user tag u l =
     l\<lparr>li_UserLimitInfo := mstore (li_UserLimitInfo l) (UserTag tag (ui_Uuid u)) (user_limit_of u)\<rparr>"

definition SetAliveList :: "('re, 'b) Limiter \<Rightarrow> (int, int) gomap \<Rightarrow> ('re, 'b) Limiter" where
  "SetAliveList l aliveList = l\<lparr>li_AliveList := mcopy_into aliveList []\<rparr>"

definition DeleteAlive :: "('re, 'b) Limiter \<Rightarrow> int \<Rightarrow> ('re, 'b) Limiter" where
  "DeleteAlive l uid = l\<lparr>li_AliveList := mdelete (li_AliveList l) uid\<rparr>"

definition GetAlive :: "('re, 'b) Limiter \<Rightarrow> int \<Rightarrow> int" where
  "GetAlive l uid = mget 0 (li_AliveList l) uid"

definition UserID :: "('re, 'b) Limiter \<Rightarrow> string \<Rightarrow> int" where
  "UserID l taguuid = (case mload (li_UserLimitInfo l) taguuid of Some u \<Rightarrow> ul_UID u | None \<Rightarrow> 0)"

definition Limiter_SetOnlineTTL :: "('re, 'b) Limiter \<Rightarrow> duration \<Rightarrow> ('re, 'b) Limiter" where
  "Limiter_SetOnlineTTL l ttl =
     l\<lparr>li_Online := OnlineRegistry_SetTTL (li_Online l) ttl,
       li_ConnLimiter := ConnLimiter_SetOnlineTTL (li_ConnLimiter l) ttl\<rparr>"

text \<open>
  The package variable \<open>limiter\<close> is the table of all limiters. \<open>AddLimiter\<close> returns the new
  limiter and the table that holds it; a nil table behaves as an empty one.
\<close>

type_synonym ('re, 'b) limiters = "(string, ('re, 'b) Limiter) gomap"

definition AddLimiter ::
  "('re, 'b) limiters \<Rightarrow> string \<Rightarrow> LimitConfig \<Rightarrow> UserInfo list \<Rightarrow> (int, int) gomap
   \<Rightarrow> ('re, 'b) Limiter \<times> ('re, 'b) limiters" where
  "AddLimiter limiter tag l users aliveList =
     (let info = \<lparr>li_DomainRules = [], li_ProtocolRules = [], li_SpeedLimit = lc_SpeedLimit l,
                  li_UserOnlineIP = [], li_OldUserOnline = [], li_UserLimitInfo = [],
                  li_ConnLimiter = NewConnLimiter (lc_ConnLimit l) (lc_IPLimit l)
                     (lc_EnableRealtime l) (onlineTTLFromSeconds (lc_OnlineTimeout l)),
                  li_SpeedLimiter = [],
                  li_Online = newOnlineRegistry (onlineTTLFromSeconds (lc_OnlineTimeout l)),
                  li_AliveList = [], li_oldOnlineTTL = defaultOldOnlineTTL\<rparr>;
          info = SetAliveList info aliveList;
          info = fold (store_user tag) users info
      in (info, mstore limiter tag info))"

definition GetLimiter ::
  "('re, 'b) limiters \<Rightarrow> string \<Rightarrow> limiter_error + ('re, 'b) Limiter" where
  "GetLimiter limiter tag =
     (case mload limiter tag of None \<Rightarrow> Inl LimiterNotFound | Some info \<Rightarrow> Inr info)"

definition DeleteLimiter :: "('re, 'b) limiters \<Rightarrow> string \<Rightarrow> ('re, 'b) limiters" where
  "DeleteLimiter limiter tag = mdelete limiter tag"

definition remove_user :: "string \<Rightarrow> UserInfo \<Rightarrow> ('re, 'b) Limiter \<Rightarrow> ('re, 'b) Limiter" where
  "remove_user tag u l =
     (let t = UserTag tag (ui_Uuid u);
          l = l\<lparr>li_UserLimitInfo := mdelete (li_UserLimitInfo l) t,
                li_UserOnlineIP := mdelete (li_UserOnlineIP l) t,
                li_SpeedLimiter := mdelete (li_SpeedLimiter l) t\<rparr>;
          l = DeleteAlive l (ui_Id u)
      in l\<lparr>li_Online := OnlineRegistry_DeleteUser (li_Online l) t\<rparr>)"

definition UpdateUser ::
  "('re, 'b) Limiter \<Rightarrow> string \<Rightarrow> UserInfo list \<Rightarrow> UserInfo list \<Rightarrow> ('re, 'b) Limiter" where
  "UpdateUser l tag added deleted =
     fold (store_user tag) added (fold (remove_user tag) deleted l)"

definition updateUserLimit ::
  "('re, 'b) Limiter \<Rightarrow> string \<Rightarrow> (UserLimitInfo \<Rightarrow> UserLimitInfo)
   \<Rightarrow> limiter_error + ('re, 'b) Limiter" where
  "updateUserLimit l taguuid mutate =
     (case mload (li_UserLimitInfo l) taguuid of
        None \<Rightarrow> Inl LimiterNotFound
      | Some old \<Rightarrow> Inr (l\<lparr>li_UserLimitInfo := mstore (li_UserLimitInfo l) taguuid (mutate old)\<rparr>))"

definition UpdateDynamicSpeedLimit ::
  "('re, 'b) Limiter \<Rightarrow> string \<Rightarrow> string \<Rightarrow> int \<Rightarrow> gotime
   \<Rightarrow> limiter_error + ('re, 'b) Limiter" where
  "UpdateDynamicSpeedLimit l tag uuid limit expire =
     (let taguuid = UserTag tag uuid
      in case updateUserLimit l taguuid
           (\<lambda>u. u\<lparr>ul_DynamicSpeedLimit := limit, ul_ExpireTime := time_Unix expire\<rparr>) of
           Inl e \<Rightarrow> Inl e
         | Inr l \<Rightarrow> Inr (l\<lparr>li_SpeedLimiter := mdelete (li_SpeedLimiter l) taguuid\<rparr>))"

definition SetOverLimit :: "('re, 'b) Limiter \<Rightarrow> string \<Rightarrow> bool \<Rightarrow> ('re, 'b) Limiter" where
  "SetOverLimit l taguuid over =
     (case updateUserLimit l taguuid (\<lambda>u. u\<lparr>ul_OverLimit := over\<rparr>) of Inl _ \<Rightarrow> l | Inr l \<Rightarrow> l)"

definition ConsumeOverLimit :: "('re, 'b) Limiter \<Rightarrow> string \<Rightarrow> ('re, 'b) Limiter \<times> bool" where
  "ConsumeOverLimit l taguuid =
     (case mload (li_UserLimitInfo l) taguuid of
        None \<Rightarrow> (l, False)
      | Some old \<Rightarrow>
          if \<not> ul_OverLimit old then (l, False)
          else (l\<lparr>li_UserLimitInfo :=
                  mstore (li_UserLimitInfo l) taguuid (old\<lparr>ul_OverLimit := False\<rparr>)\<rparr>, True))"

definition AddDynamicSpeedLimit ::
  "gotime \<Rightarrow> ('re, 'b) Limiter \<Rightarrow> string \<Rightarrow> UserInfo \<Rightarrow> int \<Rightarrow> int \<Rightarrow> ('re, 'b) Limiter" where
  "AddDynamicSpeedLimit now l tag userInfo limitNum expire =
     (let taguuid = UserTag tag (ui_Uuid userInfo);
          expireTime = time_Unix (time_Add now (i64 (expire * time_Second)));
          l = (case updateUserLimit l taguuid
                 (\<lambda>u. u\<lparr>ul_DynamicSpeedLimit := limitNum, ul_ExpireTime := expireTime\<rparr>) of
                 Inr l \<Rightarrow> l
               | Inl _ \<Rightarrow> l\<lparr>li_UserLimitInfo := mstore (li_UserLimitInfo l) taguuid
                     \<lparr>ul_UID = ui_Id userInfo, ul_SpeedLimit = 0, ul_DeviceLimit = 0,
                      ul_DynamicSpeedLimit = limitNum, ul_ExpireTime = expireTime,
                      ul_OverLimit = False\<rparr>\<rparr>)
      in l\<lparr>li_SpeedLimiter := mdelete (li_SpeedLimiter l) taguuid\<rparr>)"


section \<open>The device window\<close>

definition oldOnlineTTLValue :: "('re, 'b) Limiter \<Rightarrow> duration" where
  "oldOnlineTTLValue l = (if li_oldOnlineTTL l \<le> 0 then defaultOldOnlineTTL else li_oldOnlineTTL l)"

definition oldOnlineExpired :: "('re, 'b) Limiter \<Rightarrow> oldOnlineEntry \<Rightarrow> gotime \<Rightarrow> bool" where
  "oldOnlineExpired l entry now \<longleftrightarrow> time_Sub now (oo_seenAt entry) > oldOnlineTTLValue l"

definition oldOnlineLookup ::
  "gotime \<Rightarrow> ('re, 'b) Limiter \<Rightarrow> string \<Rightarrow> ('re, 'b) Limiter \<times> int option" where
  "oldOnlineLookup now l ip =
     (case mload (li_OldUserOnline l) ip of
        None \<Rightarrow> (l, None)
      | Some entry \<Rightarrow>
          if oldOnlineExpired l entry now
          then (l\<lparr>li_OldUserOnline := mdelete (li_OldUserOnline l) ip\<rparr>, None)
          else (l, Some (oo_uid entry)))"

definition sweepOldOnline :: "gotime \<Rightarrow> ('re, 'b) Limiter \<Rightarrow> ('re, 'b) Limiter" where
  "sweepOldOnline now l =
     l\<lparr>li_OldUserOnline := mrange_delete (\<lambda>_ entry. oldOnlineExpired l entry now)
         (li_OldUserOnline l)\<rparr>"

definition remember_ips ::
  "gotime \<Rightarrow> (string, int) gomap \<Rightarrow> (string, oldOnlineEntry) gomap \<Rightarrow> (string, oldOnlineEntry) gomap" where
  "remember_ips now ipMap old =
     fold (\<lambda>(key, uid) old.
        let ip = NormalizeIP key
        in if ip = [] then old else mstore old ip \<lparr>oo_uid = uid, oo_seenAt = now\<rparr>) ipMap old"

definition rotate_user ::
  "gotime \<Rightarrow> string \<times> (string, int) gomap \<Rightarrow> ('re, 'b) Limiter \<Rightarrow> ('re, 'b) Limiter" where
  "rotate_user now e l =
     (case e of (taguuid, ipMap) \<Rightarrow>
        l\<lparr>li_OldUserOnline := remember_ips now ipMap (li_OldUserOnline l),
          li_UserOnlineIP := mdelete (li_UserOnlineIP l) taguuid\<rparr>)"

definition rotateDeviceWindow :: "gotime \<Rightarrow> ('re, 'b) Limiter \<Rightarrow> ('re, 'b) Limiter" where
  "rotateDeviceWindow now l = fold (rotate_user now) (li_UserOnlineIP l) l"

definition GetOnlineDevice ::
  "gotime \<Rightarrow> ('re, 'b) Limiter \<Rightarrow> ('re, 'b) Limiter \<times> OnlineUser list" where
  "GetOnlineDevice now l =
     (let onlineUser = OnlineRegistry_Snapshot (li_Online l)
      in (rotateDeviceWindow now l, onlineUser))"

definition GetOnlineIPMap :: "('re, 'b) Limiter \<Rightarrow> (int, string list) gomap" where
  "GetOnlineIPMap l =
     fold (\<lambda>u data. mstore data (ou_UID u) (mget [] data (ou_UID u) @ [ou_IP u]))
       (OnlineRegistry_Snapshot (li_Online l)) []"


section \<open>Admission of a connection\<close>

text \<open>
  The parts of \<open>checkLimit\<close>: the speed limit of the user (an expired dynamic limit is dropped),
  the device limit, and the bucket of the user.
\<close>

definition user_speed_limit ::
  "gotime \<Rightarrow> ('re, 'b) Limiter \<Rightarrow> string \<Rightarrow> UserLimitInfo \<Rightarrow> ('re, 'b) Limiter \<times> int" where
  "user_speed_limit now l taguuid u =
     (if ul_ExpireTime u < time_Unix now \<and> ul_ExpireTime u \<noteq> 0 then
        (if ul_SpeedLimit u \<noteq> 0 then
           (case updateUserLimit l taguuid
                (\<lambda>u. u\<lparr>ul_DynamicSpeedLimit := 0, ul_ExpireTime := 0\<rparr>) of
              Inl _ \<Rightarrow> (l, ul_SpeedLimit u)
            | Inr l \<Rightarrow> (l, ul_SpeedLimit u))
         else (l\<lparr>li_UserLimitInfo := mdelete (li_UserLimitInfo l) taguuid\<rparr>, 0))
      else (l, determineSpeedLimit (ul_SpeedLimit u) (ul_DynamicSpeedLimit u)))"

definition check_device ::
  "gotime \<Rightarrow> ('re, 'b) Limiter \<Rightarrow> string \<Rightarrow> string \<Rightarrow> int \<Rightarrow> int \<Rightarrow> ('re, 'b) Limiter \<times> bool" where
  "check_device now l taguuid ip uid deviceLimit =
     (let aliveIp = GetAlive l uid;
          full = (deviceLimit > 0 \<and> deviceLimit \<le> aliveIp)
      in case mload (li_UserOnlineIP l) taguuid of
           Some ipMap \<Rightarrow>
             (case mload ipMap ip of
                Some _ \<Rightarrow> (l, False)
              | None \<Rightarrow>
                  let ipMap = mstore ipMap ip uid
                  in if full
                     then (l\<lparr>li_UserOnlineIP := mstore (li_UserOnlineIP l) taguuid (mdelete ipMap ip)\<rparr>, True)
                     else (l\<lparr>li_UserOnlineIP := mstore (li_UserOnlineIP l) taguuid ipMap\<rparr>, False))
         | None \<Rightarrow>
             let l = l\<lparr>li_UserOnlineIP := mstore (li_UserOnlineIP l) taguuid (mstore [] ip uid)\<rparr>
             in case oldOnlineLookup now l ip of
                  (l, Some seenUID) \<Rightarrow>
                    if seenUID = uid
                    then (l\<lparr>li_OldUserOnline := mdelete (li_OldUserOnline l) ip\<rparr>, False)
                    else (l, False)
                | (l, None) \<Rightarrow>
                    if full
                    then (l\<lparr>li_UserOnlineIP := mdelete (li_UserOnlineIP l) taguuid\<rparr>, True)
                    else (l, False))"

definition speed_bucket ::
  "(duration \<Rightarrow> int \<Rightarrow> int \<Rightarrow> 'b) \<Rightarrow> ('re, 'b) Limiter \<Rightarrow> string \<Rightarrow> int
   \<Rightarrow> ('re, 'b) Limiter \<times> 'b option" where
  "speed_bucket newBucket l taguuid userLimit =
     (let limit = go_div (i64 (determineSpeedLimit (li_SpeedLimit l) userLimit * 1000000)) 8
      in if limit > 0 then
           (case (case mload (li_SpeedLimiter l) taguuid of
                    Some cached \<Rightarrow> if sb_Limit cached = limit then Some (sb_Bucket cached) else None
                  | None \<Rightarrow> None) of
              Some b \<Rightarrow> (l, Some b)
            | None \<Rightarrow>
                let b = newBucket time_Second limit limit
                in (l\<lparr>li_SpeedLimiter := mstore (li_SpeedLimiter l) taguuid
                        \<lparr>sb_Limit = limit, sb_Bucket = b\<rparr>\<rparr>, Some b))
         else (l\<lparr>li_SpeedLimiter := mdelete (li_SpeedLimiter l) taguuid\<rparr>, None))"

definition checkLimit ::
  "(duration \<Rightarrow> int \<Rightarrow> int \<Rightarrow> 'b) \<Rightarrow> gotime \<Rightarrow> ('re, 'b) Limiter \<Rightarrow> string \<Rightarrow> string \<Rightarrow> bool \<Rightarrow> bool
   \<Rightarrow> (('re, 'b) Limiter \<times> 'b option \<times> bool) go" where
  "checkLimit newBucket now l taguuid ip isTcp noSSUDP =
     (let ip = NormalizeIP ip
      in case AddConnCount now (li_ConnLimiter l) taguuid ip isTcp of
           None \<Rightarrow> None
         | Some (cl, limited) \<Rightarrow>
             let l = l\<lparr>li_ConnLimiter := cl\<rparr>
             in if limited then Some (l, None, True)
                else case mload (li_UserLimitInfo l) taguuid of
                  None \<Rightarrow> Some (l, None, True)
                | Some u \<Rightarrow>
                    (case user_speed_limit now l taguuid u of
                       (l, userLimit) \<Rightarrow>
                         (case (if noSSUDP
                                then check_device now l taguuid ip (ul_UID u) (ul_DeviceLimit u)
                                else (l, False)) of
                            (l, True) \<Rightarrow> Some (l, None, True)
                          | (l, False) \<Rightarrow>
                              (case speed_bucket newBucket l taguuid userLimit of
                                 (l, b) \<Rightarrow> Some (l, b, False)))))"

definition CheckLimit ::
  "(duration \<Rightarrow> int \<Rightarrow> int \<Rightarrow> 'b) \<Rightarrow> gotime \<Rightarrow> ('re, 'b) Limiter \<Rightarrow> string \<Rightarrow> string \<Rightarrow> bool \<Rightarrow> bool
   \<Rightarrow> (('re, 'b) Limiter \<times> 'b option \<times> bool) go" where
  "CheckLimit newBucket now l taguuid ip isTcp noSSUDP =
     (case checkLimit newBucket now l taguuid ip isTcp noSSUDP of
        None \<Rightarrow> None
      | Some (l, bucket, reject) \<Rightarrow>
          Some (if reject then l
                else l\<lparr>li_Online := OnlineRegistry_Touch now (li_Online l) taguuid ip (UserID l taguuid)\<rparr>,
                bucket, reject))"


section \<open>Rules (\<open>rule.go\<close>) and the sweep (\<open>clear.go\<close>)\<close>

fun CheckDomainRule_loop :: "('re \<Rightarrow> string \<Rightarrow> bool) \<Rightarrow> 're list \<Rightarrow> string \<Rightarrow> bool" where
  "CheckDomainRule_loop MatchString [] destination = False"
| "CheckDomainRule_loop MatchString (r # rs) destination =
     (if MatchString r destination then True else CheckDomainRule_loop MatchString rs destination)"

definition CheckDomainRule :: "('re \<Rightarrow> string \<Rightarrow> bool) \<Rightarrow> ('re, 'b) Limiter \<Rightarrow> string \<Rightarrow> bool" where
  "CheckDomainRule MatchString l destination =
     CheckDomainRule_loop MatchString (li_DomainRules l) destination"

fun CheckProtocolRule_loop :: "string list \<Rightarrow> string \<Rightarrow> bool" where
  "CheckProtocolRule_loop [] protocol = False"
| "CheckProtocolRule_loop (p # ps) protocol =
     (if p = protocol then True else CheckProtocolRule_loop ps protocol)"

definition CheckProtocolRule :: "('re, 'b) Limiter \<Rightarrow> string \<Rightarrow> bool" where
  "CheckProtocolRule l protocol = CheckProtocolRule_loop (li_ProtocolRules l) protocol"

text \<open>\<open>MustCompile\<close> panics on a pattern that does not compile.\<close>

definition UpdateRule ::
  "(string \<Rightarrow> 're option) \<Rightarrow> ('re, 'b) Limiter \<Rightarrow> Rules \<Rightarrow> ('re, 'b) Limiter go" where
  "UpdateRule compile l rule =
     (case those (map compile (ru_Regexp rule)) of
        None \<Rightarrow> None
      | Some rs \<Rightarrow> Some (l\<lparr>li_DomainRules := rs, li_ProtocolRules := ru_Protocol rule\<rparr>))"

definition sweep_limiter :: "gotime \<Rightarrow> ('re, 'b) Limiter \<Rightarrow> ('re, 'b) Limiter" where
  "sweep_limiter now l =
     (let l = l\<lparr>li_ConnLimiter := ConnLimiter_ClearOnlineIP now (li_ConnLimiter l)\<rparr>;
          l = l\<lparr>li_Online := OnlineRegistry_Sweep now (li_Online l)\<rparr>
      in sweepOldOnline now l)"

text \<open>The limiters are pointers: sweeping the copied list updates the entries of the table.\<close>

definition ClearOnlineIP :: "gotime \<Rightarrow> ('re, 'b) limiters \<Rightarrow> ('re, 'b) limiters" where
  "ClearOnlineIP now limiter = map (\<lambda>(tag, l). (tag, sweep_limiter now l)) limiter"


section \<open>The invariant of a limiter\<close>

definition limiter_inv :: "('re, 'b) Limiter \<Rightarrow> bool" where
  "limiter_inv l \<longleftrightarrow> conn_inv (li_ConnLimiter l) \<and> registry_inv (li_Online l)
     \<and> mwf (li_UserLimitInfo l) \<and> mwf (li_UserOnlineIP l) \<and> mwf (li_OldUserOnline l)
     \<and> mwf (li_SpeedLimiter l) \<and> mwf (li_AliveList l)"

lemma limiter_invD:
  assumes "limiter_inv l"
  shows "conn_inv (li_ConnLimiter l)" "registry_inv (li_Online l)" "mwf (li_UserLimitInfo l)"
    "mwf (li_UserOnlineIP l)" "mwf (li_OldUserOnline l)" "mwf (li_SpeedLimiter l)" "mwf (li_AliveList l)"
  using assms by (simp_all add: limiter_inv_def)

named_theorems limiter_defs \<open>operations of the limiter\<close>

lemmas [limiter_defs] = updateUserLimit_def SetOverLimit_def ConsumeOverLimit_def
  UpdateDynamicSpeedLimit_def AddDynamicSpeedLimit_def SetAliveList_def DeleteAlive_def
  user_speed_limit_def oldOnlineLookup_def sweepOldOnline_def

lemma user_speed_limit_inv:
  "limiter_inv l \<Longrightarrow> user_speed_limit now l t u = (l', n) \<Longrightarrow> limiter_inv l'"
  by (auto simp: limiter_inv_def limiter_defs split: if_splits option.splits)

lemma oldOnlineLookup_inv: "limiter_inv l \<Longrightarrow> oldOnlineLookup now l ip = (l', r) \<Longrightarrow> limiter_inv l'"
  by (auto simp: limiter_inv_def oldOnlineLookup_def split: if_splits option.splits)

lemma check_device_inv:
  assumes "limiter_inv l" and "check_device now l t ip uid d = (l', r)"
  shows "limiter_inv l'"
proof -
  let ?l = "l\<lparr>li_UserOnlineIP := mstore (li_UserOnlineIP l) t (mstore [] ip uid)\<rparr>"
  have "limiter_inv ?l" using assms(1) by (simp add: limiter_inv_def)
  then have "limiter_inv l1" if "oldOnlineLookup now ?l ip = (l1, x)" for l1 x
    using oldOnlineLookup_inv that by blast
  then show ?thesis
    using assms
    by (fastforce simp: check_device_def limiter_inv_def Let_def
        split: option.splits if_splits prod.splits)
qed

lemma speed_bucket_inv:
  "limiter_inv l \<Longrightarrow> speed_bucket nb l t n = (l', b) \<Longrightarrow> limiter_inv l'"
  by (auto simp: limiter_inv_def speed_bucket_def Let_def split: if_splits option.splits)

lemma AddConnCount_total:
  "conn_inv c \<Longrightarrow> \<exists>c' r. AddConnCount now c u ip isTcp = Some (c', r) \<and> conn_inv c'"
  using AddConnCount_outcomes [of c u now ip isTcp] AddConnCount_inv [of c now u ip isTcp] by metis

lemma checkLimit_total:
  assumes "limiter_inv l"
  shows "\<exists>l' b r. checkLimit nb now l t ip isTcp noSSUDP = Some (l', b, r) \<and> limiter_inv l'"
proof -
  obtain cl lim where add: "AddConnCount now (li_ConnLimiter l) t (NormalizeIP ip) isTcp = Some (cl, lim)"
    and cl: "conn_inv cl"
    using AddConnCount_total [OF limiter_invD(1) [OF assms]] by blast
  let ?l = "l\<lparr>li_ConnLimiter := cl\<rparr>"
  have inv: "limiter_inv ?l" using assms cl by (simp add: limiter_inv_def)
  show ?thesis
  proof (cases "lim \<or> mload (li_UserLimitInfo l) t = None")
    case True
    then show ?thesis using add inv by (auto simp: checkLimit_def Let_def)
  next
    case False
    then obtain u where u: "mload (li_UserLimitInfo l) t = Some u" "\<not> lim" by auto
    obtain l1 n where 1: "user_speed_limit now ?l t u = (l1, n)" by fastforce
    obtain l2 r where 2: "(if noSSUDP then check_device now l1 t (NormalizeIP ip) (ul_UID u) (ul_DeviceLimit u)
        else (l1, False)) = (l2, r)" by fastforce
    obtain l3 b where 3: "speed_bucket nb l2 t n = (l3, b)" by fastforce
    have "limiter_inv l2"
      using user_speed_limit_inv [OF inv 1] check_device_inv 2 by (auto split: if_splits)
    then show ?thesis
      using add u 1 2 3 speed_bucket_inv [OF _ 3] by (cases r) (auto simp: checkLimit_def Let_def)
  qed
qed

lemma CheckLimit_total:
  assumes "limiter_inv l"
  shows "\<exists>l' b r. CheckLimit nb now l t ip isTcp noSSUDP = Some (l', b, r) \<and> limiter_inv l'"
  using checkLimit_total [OF assms, of nb now t ip isTcp noSSUDP]
  by (auto simp: CheckLimit_def limiter_inv_def)


section \<open>The other operations keep the invariant\<close>

lemma fold_limiter_inv:
  "(\<And>x l. limiter_inv l \<Longrightarrow> limiter_inv (f x l)) \<Longrightarrow> limiter_inv l \<Longrightarrow> limiter_inv (fold f xs l)"
  by (induction xs arbitrary: l) simp_all

lemma AddLimiter_inv: "limiter_inv (fst (AddLimiter limiter tag lc users alive))"
  by (auto simp: AddLimiter_def Let_def SetAliveList_def
      intro!: fold_limiter_inv) (simp_all add: limiter_inv_def store_user_def)

lemma UpdateUser_inv: "limiter_inv l \<Longrightarrow> limiter_inv (UpdateUser l tag added deleted)"
  unfolding UpdateUser_def
  by (intro fold_limiter_inv)
    (auto simp: limiter_inv_def DeleteAlive_def store_user_def remove_user_def Let_def)

lemma remember_ips_mwf: "mwf old \<Longrightarrow> mwf (remember_ips now ipMap old)"
  unfolding remember_ips_def by (induction ipMap arbitrary: old) (auto simp: Let_def)

lemma rotateDeviceWindow_inv: "limiter_inv l \<Longrightarrow> limiter_inv (rotateDeviceWindow now l)"
  unfolding rotateDeviceWindow_def
  by (intro fold_limiter_inv)
    (auto simp: limiter_inv_def rotate_user_def remember_ips_mwf)

lemma AddDynamicSpeedLimit_inv: "limiter_inv l \<Longrightarrow> limiter_inv (AddDynamicSpeedLimit now l tag u n e)"
  by (auto simp: limiter_inv_def limiter_defs Let_def split: option.splits)

lemma SetOverLimit_inv: "limiter_inv l \<Longrightarrow> limiter_inv (SetOverLimit l t b)"
  by (auto simp: limiter_inv_def limiter_defs split: option.splits)

lemma ConsumeOverLimit_inv: "limiter_inv l \<Longrightarrow> limiter_inv (fst (ConsumeOverLimit l t))"
  by (auto simp: limiter_inv_def limiter_defs split: option.splits)

lemma SetAliveList_inv: "limiter_inv l \<Longrightarrow> limiter_inv (SetAliveList l a)"
  by (simp add: limiter_inv_def SetAliveList_def)

lemma sweep_limiter_inv: "limiter_inv l \<Longrightarrow> limiter_inv (sweep_limiter now l)"
  by (simp add: sweep_limiter_def limiter_inv_def sweepOldOnline_def conn_inv_clear Let_def)

text \<open>The states a limiter reaches under the calls of the controller, the cores and the sweep.\<close>

inductive limiter_step :: "(duration \<Rightarrow> int \<Rightarrow> int \<Rightarrow> 'b) \<Rightarrow> ('re, 'b) Limiter \<Rightarrow> ('re, 'b) Limiter \<Rightarrow> bool"
  for nb where
  ls_check: "CheckLimit nb now l t ip isTcp noSSUDP = Some (l', b, r) \<Longrightarrow> limiter_step nb l l'"
| ls_release: "DelConnCount (li_ConnLimiter l) t ip = Some c \<Longrightarrow>
    limiter_step nb l (l\<lparr>li_ConnLimiter := c\<rparr>)"
| ls_open: "limiter_step nb l (l\<lparr>li_Online := OnlineRegistry_Add now (li_Online l) t ip uid\<rparr>)"
| ls_close: "limiter_step nb l (l\<lparr>li_Online := OnlineRegistry_Del now (li_Online l) t ip\<rparr>)"
| ls_report: "limiter_step nb l (fst (GetOnlineDevice now l))"
| ls_sweep: "limiter_step nb l (sweep_limiter now l)"
| ls_users: "limiter_step nb l (UpdateUser l tag added deleted)"
| ls_alive: "limiter_step nb l (SetAliveList l alive)"
| ls_dynamic: "limiter_step nb l (AddDynamicSpeedLimit now l tag u n e)"
| ls_over: "limiter_step nb l (SetOverLimit l t over)"
| ls_consume: "limiter_step nb l (fst (ConsumeOverLimit l t))"

inductive_cases limiter_stepE: "limiter_step nb l l'"

lemma limiter_step_inv:
  assumes "limiter_step nb l l'" and "limiter_inv l"
  shows "limiter_inv l'"
  using assms
proof (cases rule: limiter_step.cases)
  case (ls_check now t ip isTcp noSSUDP b r)
  then show ?thesis using CheckLimit_total [OF assms(2), of nb now t ip isTcp noSSUDP] by auto
next
  case (ls_release t ip c)
  then show ?thesis
    using DelConnCount_total [OF limiter_invD(1) [OF assms(2)], of t ip] assms(2)
    by (auto simp: limiter_inv_def)
next
  case (ls_report now)
  then show ?thesis using assms(2) by (simp add: GetOnlineDevice_def Let_def rotateDeviceWindow_inv)
qed (use assms(2) in \<open>simp_all add: sweep_limiter_inv UpdateUser_inv SetAliveList_inv
  AddDynamicSpeedLimit_inv SetOverLimit_inv ConsumeOverLimit_inv, simp_all add: limiter_inv_def\<close>)

lemma limiter_reach_inv:
  assumes "(limiter_step nb)\<^sup>*\<^sup>* l l'" and "limiter_inv l"
  shows "limiter_inv l'"
  using assms by (induction rule: rtranclp_induct) (simp_all add: limiter_step_inv)



section \<open>Who is admitted\<close>

text \<open>What decides about a new connection: the three reasons for a rejection.\<close>

definition device_full :: "gotime \<Rightarrow> ('re, 'b) Limiter \<Rightarrow> string \<Rightarrow> string \<Rightarrow> UserLimitInfo \<Rightarrow> bool" where
  "device_full now l t ip u \<longleftrightarrow> 0 < ul_DeviceLimit u \<and> ul_DeviceLimit u \<le> GetAlive l (ul_UID u)
     \<and> (case mload (li_UserOnlineIP l) t of
          Some ipMap \<Rightarrow> mload ipMap ip = None
        | None \<Rightarrow> snd (oldOnlineLookup now l ip) = None)"

lemma user_speed_limit_frame:
  assumes "user_speed_limit now l t u = (l', n)"
  shows "li_UserOnlineIP l' = li_UserOnlineIP l" "li_OldUserOnline l' = li_OldUserOnline l"
    "li_AliveList l' = li_AliveList l" "li_oldOnlineTTL l' = li_oldOnlineTTL l"
    "li_Online l' = li_Online l" "li_ConnLimiter l' = li_ConnLimiter l"
    "li_SpeedLimit l' = li_SpeedLimit l" "li_SpeedLimiter l' = li_SpeedLimiter l"
  using assms by (auto simp: limiter_defs split: if_splits option.splits)

lemma oldOnlineLookup_frame:
  assumes "oldOnlineLookup now l ip = (l', r)"
  shows "li_UserOnlineIP l' = li_UserOnlineIP l" "li_UserLimitInfo l' = li_UserLimitInfo l"
    "li_Online l' = li_Online l" "li_ConnLimiter l' = li_ConnLimiter l"
    "li_SpeedLimit l' = li_SpeedLimit l" "li_SpeedLimiter l' = li_SpeedLimiter l"
  using assms by (auto simp: oldOnlineLookup_def split: if_splits option.splits)

lemma oldOnlineLookup_cong:
  "li_OldUserOnline l = li_OldUserOnline l' \<Longrightarrow> li_oldOnlineTTL l = li_oldOnlineTTL l' \<Longrightarrow>
   snd (oldOnlineLookup now l ip) = snd (oldOnlineLookup now l' ip)"
  by (simp add: oldOnlineLookup_def oldOnlineExpired_def oldOnlineTTLValue_def split: option.split)

lemma check_device_reject:
  assumes "check_device now l t ip (ul_UID u) (ul_DeviceLimit u) = (l', r)"
  shows "r \<longleftrightarrow> device_full now l t ip u"
proof (cases "mload (li_UserOnlineIP l) t")
  case None
  let ?l = "l\<lparr>li_UserOnlineIP := mstore (li_UserOnlineIP l) t (mstore [] ip (ul_UID u))\<rparr>"
  obtain l1 x where x: "oldOnlineLookup now ?l ip = (l1, x)" by fastforce
  then have "snd (oldOnlineLookup now l ip) = x"
    using oldOnlineLookup_cong [of l ?l now ip] by simp
  then show ?thesis
    using assms None x
    by (auto simp: check_device_def device_full_def Let_def split: option.splits if_splits)
qed (use assms in \<open>auto simp: check_device_def device_full_def Let_def split: option.splits if_splits\<close>)

lemma check_device_frame:
  assumes "check_device now l t ip uid d = (l', r)"
  shows "li_Online l' = li_Online l \<and> li_ConnLimiter l' = li_ConnLimiter l
     \<and> li_UserLimitInfo l' = li_UserLimitInfo l \<and> li_SpeedLimit l' = li_SpeedLimit l
     \<and> li_SpeedLimiter l' = li_SpeedLimiter l"
  using assms
  by (auto simp: check_device_def Let_def split: option.splits if_splits prod.splits
      dest: oldOnlineLookup_frame)

lemma check_device_rejected_devices:
  assumes "check_device now l t ip uid d = (l', True)"
  shows "mload (mget [] (li_UserOnlineIP l') t') ip' = mload (mget [] (li_UserOnlineIP l) t') ip'"
  using assms
  by (auto simp: check_device_def mget_def Let_def split: option.splits if_splits prod.splits
      dest: oldOnlineLookup_frame)

lemma check_device_accepted_device:
  assumes "check_device now l t ip uid d = (l', False)"
  shows "mload (mget [] (li_UserOnlineIP l') t) ip \<noteq> None"
  using assms
  by (auto simp: check_device_def oldOnlineLookup_def mget_def Let_def
      split: option.splits if_splits)

lemma speed_bucket_frame:
  assumes "speed_bucket nb l t n = (l', b)"
  shows "li_Online l' = li_Online l" "li_UserOnlineIP l' = li_UserOnlineIP l"
    "li_ConnLimiter l' = li_ConnLimiter l" "li_UserLimitInfo l' = li_UserLimitInfo l"
    "li_SpeedLimit l' = li_SpeedLimit l"
  using assms by (auto simp: speed_bucket_def Let_def split: option.splits if_splits)

text \<open>The stages of one admission, as a rule for case analysis.\<close>

lemma CheckLimit_stages:
  assumes "CheckLimit nb now l t ip isTcp noSSUDP = Some (l', b, r)"
  obtains (conn_limited) cl where "r" "b = None"
      "AddConnCount now (li_ConnLimiter l) t (NormalizeIP ip) isTcp = Some (cl, True)"
      "l' = l\<lparr>li_ConnLimiter := cl\<rparr>"
  | (unknown_user) cl where "r" "b = None" "mload (li_UserLimitInfo l) t = None"
      "AddConnCount now (li_ConnLimiter l) t (NormalizeIP ip) isTcp = Some (cl, False)"
      "l' = l\<lparr>li_ConnLimiter := cl\<rparr>"
  | (too_many_devices) cl u l1 n where "r" "b = None" "mload (li_UserLimitInfo l) t = Some u"
      "AddConnCount now (li_ConnLimiter l) t (NormalizeIP ip) isTcp = Some (cl, False)"
      "user_speed_limit now (l\<lparr>li_ConnLimiter := cl\<rparr>) t u = (l1, n)" "noSSUDP"
      "check_device now l1 t (NormalizeIP ip) (ul_UID u) (ul_DeviceLimit u) = (l', True)"
  | (admitted) cl u l1 n l2 l3 where "\<not> r" "mload (li_UserLimitInfo l) t = Some u"
      "AddConnCount now (li_ConnLimiter l) t (NormalizeIP ip) isTcp = Some (cl, False)"
      "user_speed_limit now (l\<lparr>li_ConnLimiter := cl\<rparr>) t u = (l1, n)"
      "noSSUDP \<Longrightarrow> check_device now l1 t (NormalizeIP ip) (ul_UID u) (ul_DeviceLimit u) = (l2, False)"
      "\<not> noSSUDP \<Longrightarrow> l2 = l1" "speed_bucket nb l2 t n = (l3, b)"
      "l' = l3\<lparr>li_Online := OnlineRegistry_Touch now (li_Online l3) t ip (UserID l3 t)\<rparr>"
  using assms
  by (fastforce simp: CheckLimit_def checkLimit_def Let_def
      split: option.splits if_splits prod.splits bool.splits)


lemma CheckLimit_verdict:
  assumes "CheckLimit nb now l t ip isTcp noSSUDP = Some (l', b, r)"
  shows "r \<longleftrightarrow> (\<exists>cl. AddConnCount now (li_ConnLimiter l) t (NormalizeIP ip) isTcp = Some (cl, True))
     \<or> mload (li_UserLimitInfo l) t = None
     \<or> (\<exists>u. mload (li_UserLimitInfo l) t = Some u \<and> noSSUDP \<and> device_full now l t (NormalizeIP ip) u)"
proof -
  have same: "device_full now l1 t (NormalizeIP ip) u = device_full now l t (NormalizeIP ip) u"
    if "user_speed_limit now (l\<lparr>li_ConnLimiter := cl\<rparr>) t u = (l1, n)" for l1 n u cl
    using user_speed_limit_frame [OF that] oldOnlineLookup_cong [of l1 l now "NormalizeIP ip"]
    by (simp add: device_full_def GetAlive_def split: option.split)
  from assms show ?thesis
  proof (cases rule: CheckLimit_stages)
    case (too_many_devices cl u l1 n)
    then show ?thesis using same [OF too_many_devices(5)] check_device_reject by blast
  next
    case (admitted cl u l1 n l2 l3)
    then have "noSSUDP \<Longrightarrow> \<not> device_full now l t (NormalizeIP ip) u"
      using same [OF admitted(4)] check_device_reject by blast
    then show ?thesis using admitted by auto
  qed auto
qed


section \<open>Properties of the admission\<close>


definition example_limits :: LimitConfig where
  "example_limits = \<lparr>lc_EnableRealtime = True, lc_SpeedLimit = 0, lc_IPLimit = 0, lc_ConnLimit = 10,
     lc_OnlineTimeout = 0, lc_EnableIpRecorder = False, lc_IpRecorderConfig = None,
     lc_EnableDynamicSpeedLimit = False, lc_DynamicSpeedLimitConfig = None\<rparr>"

definition example_user :: UserInfo where
  "example_user = \<lparr>ui_Id = 7, ui_Uuid = ''u'', ui_SpeedLimit = 0, ui_DeviceLimit = 2\<rparr>"

definition example_limiter :: "(string, int) Limiter" where
  "example_limiter = fst (AddLimiter [] ''n'' example_limits [example_user] [(7, 2)])"

lemma example_limiter_inv: "limiter_inv example_limiter"
  by (simp add: example_limiter_def AddLimiter_inv)


text \<open>
  C6. Exactly when a connection is rejected: the connection limiter rejects it, the user is not a
  user of the node, or (for traffic that counts devices) the user has a device limit, the panel
  reports that many devices alive, and the address is neither in the current device window nor,
  for the first device of a window, remembered from the previous one.
\<close>

theorem CheckLimit_reject_iff:
  assumes "CheckLimit nb now l t ip isTcp noSSUDP = Some (l', b, r)"
  shows "r \<longleftrightarrow> (\<exists>cl. AddConnCount now (li_ConnLimiter l) t (NormalizeIP ip) isTcp = Some (cl, True))
     \<or> mload (li_UserLimitInfo l) t = None
     \<or> (\<exists>u. mload (li_UserLimitInfo l) t = Some u \<and> noSSUDP
           \<and> 0 < ul_DeviceLimit u \<and> ul_DeviceLimit u \<le> GetAlive l (ul_UID u)
           \<and> (case mload (li_UserOnlineIP l) t of
                Some ipMap \<Rightarrow> mload ipMap (NormalizeIP ip) = None
              | None \<Rightarrow> snd (oldOnlineLookup now l (NormalizeIP ip)) = None))"
  using CheckLimit_verdict [OF assms] unfolding device_full_def .

theorem CheckLimit_reject_iff_witness:
  "\<exists>l' b. CheckLimit (\<lambda>_ n _. n) 0 example_limiter ''n|u'' ''1.2.3.4'' True True = Some (l', b, True)"
proof -
  obtain l' b r where c: "CheckLimit (\<lambda>_ n _. n) 0 example_limiter ''n|u'' ''1.2.3.4'' True True
      = Some (l', b, r)"
    using CheckLimit_total [OF example_limiter_inv] by blast
  have "mload (li_UserLimitInfo example_limiter) ''n|u'' = Some (user_limit_of example_user)"
    "GetAlive example_limiter 7 = 2" "mload (li_UserOnlineIP example_limiter) ''n|u'' = None"
    "li_OldUserOnline example_limiter = []" by code_simp+
  then have r using CheckLimit_reject_iff [OF c]
    by (auto simp: user_limit_of_def example_user_def oldOnlineLookup_def)
  then show ?thesis using c by auto
qed

text \<open>
  C7. A rejected connection leaves no device behind: the online registry and every user's device
  window read as before.
\<close>

theorem CheckLimit_rejected_records_nothing:
  assumes "CheckLimit nb now l t ip isTcp noSSUDP = Some (l', b, True)"
  shows "b = None \<and> li_Online l' = li_Online l
     \<and> mload (mget [] (li_UserOnlineIP l') t') ip' = mload (mget [] (li_UserOnlineIP l) t') ip'"
  using assms
proof (cases rule: CheckLimit_stages)
  case (too_many_devices cl u l1 n)
  then show ?thesis
    using check_device_frame [OF too_many_devices(7)] check_device_rejected_devices [OF too_many_devices(7)]
      user_speed_limit_frame [OF too_many_devices(5)] by simp
qed auto

theorem CheckLimit_rejected_records_nothing_witness:
  "\<exists>l' b. CheckLimit (\<lambda>_ n _. n) 0 example_limiter ''n|v'' ''1.2.3.4'' True True = Some (l', b, True)
     \<and> li_Online l' = li_Online example_limiter"
proof -
  obtain l' b r where c: "CheckLimit (\<lambda>_ n _. n) 0 example_limiter ''n|v'' ''1.2.3.4'' True True
      = Some (l', b, r)"
    using CheckLimit_total [OF example_limiter_inv] by blast
  have "r = snd (snd (the (CheckLimit (\<lambda>_ n _. n) 0 example_limiter ''n|v'' ''1.2.3.4'' True True)))"
    using c by simp
  also have "\<dots> = True" by code_simp
  finally show ?thesis using CheckLimit_rejected_records_nothing c by blast
qed



text \<open>
  A connection that the connection limiter admitted but a later check rejects (unknown user,
  device limit) stays in the connection counter of the user: nothing releases it, so each such
  rejection brings the user one step closer to the connection limit.
\<close>

theorem CheckLimit_reject_leaks_connection:
  assumes "limiter_inv l" and "CheckLimit nb now l t ip True noSSUDP = Some (l', b, True)"
    and "AddConnCount now (li_ConnLimiter l) t (NormalizeIP ip) True = Some (cl, False)"
    and "cl_connLimit (li_ConnLimiter l) \<noteq> 0"
  shows "mget 0 (cl_count (li_ConnLimiter l')) t = mget 0 (cl_count (li_ConnLimiter l)) t + 1"
proof -
  have count: "mget 0 (cl_count cl) t = mget 0 (cl_count (li_ConnLimiter l)) t + 1"
    using AddConnCount_accept_count [OF limiter_invD(1) [OF assms(1)] assms(3), of t] assms(4)
    by (simp add: mget_def count_addConnCount)
  from assms(2) show ?thesis
  proof (cases rule: CheckLimit_stages)
    case (too_many_devices cl' u l1 n)
    then show ?thesis
      using count assms(3) check_device_frame [OF too_many_devices(7)]
        user_speed_limit_frame(6) [OF too_many_devices(5)] by simp
  qed (use count assms(3) in auto)
qed

theorem CheckLimit_reject_leaks_connection_witness:
  "\<exists>l' b. CheckLimit (\<lambda>_ n _. n) 0 example_limiter ''n|u'' ''1.2.3.4'' True True = Some (l', b, True)
     \<and> mget 0 (cl_count (li_ConnLimiter l')) ''n|u''
       = mget 0 (cl_count (li_ConnLimiter example_limiter)) ''n|u'' + 1"
proof -
  obtain l' b r where c: "CheckLimit (\<lambda>_ n _. n) 0 example_limiter ''n|u'' ''1.2.3.4'' True True
      = Some (l', b, r)"
    using CheckLimit_total [OF example_limiter_inv] by blast
  obtain cl lim where a: "AddConnCount 0 (li_ConnLimiter example_limiter) ''n|u''
      (NormalizeIP ''1.2.3.4'') True = Some (cl, lim)"
    using AddConnCount_total [OF limiter_invD(1) [OF example_limiter_inv]] by blast
  have "snd (snd (the (CheckLimit (\<lambda>_ n _. n) 0 example_limiter ''n|u'' ''1.2.3.4'' True True)))"
    "\<not> snd (the (AddConnCount 0 (li_ConnLimiter example_limiter) ''n|u'' (NormalizeIP ''1.2.3.4'') True))"
    "cl_connLimit (li_ConnLimiter example_limiter) \<noteq> 0"
    by code_simp+
  then have "r" "\<not> lim" "cl_connLimit (li_ConnLimiter example_limiter) \<noteq> 0" using c a by simp_all
  then show ?thesis
    using CheckLimit_reject_leaks_connection [OF example_limiter_inv _ _] a c by auto
qed

text \<open>
  When the dynamic speed limit of a user without a plan speed limit has expired, the next
  connection drops the whole entry of the user, and every later connection of the user is rejected
  as that of an unknown user until the panel sends the user again.
\<close>

theorem expired_dynamic_limit_removes_user:
  assumes "mload (li_UserLimitInfo l) t = Some u" and "ul_SpeedLimit u = 0"
    and "ul_ExpireTime u \<noteq> 0" and "ul_ExpireTime u < time_Unix now"
    and "CheckLimit nb now l t ip isTcp noSSUDP = Some (l1, b1, False)"
    and "CheckLimit nb now' l1 t ip' isTcp' noSSUDP' = Some (l2, b2, r2)"
  shows "mload (li_UserLimitInfo l1) t = None \<and> r2"
  using assms(5)
proof (cases rule: CheckLimit_stages)
  case (admitted cl u' l0 n l2' l3)
  then have "mload (li_UserLimitInfo l0) t = None"
    using assms(1-4) by (auto simp: user_speed_limit_def)
  moreover have "li_UserLimitInfo l2' = li_UserLimitInfo l0"
    using check_device_frame [OF admitted(5)] admitted(6) by (cases noSSUDP) simp_all
  ultimately have gone: "mload (li_UserLimitInfo l1) t = None"
    using speed_bucket_frame(4) [OF admitted(7)] admitted(8) by simp
  from assms(6) have r2
    by (cases rule: CheckLimit_stages) (use gone in auto)
  with gone show ?thesis by blast
qed auto

definition example_throttled :: "(string, int) Limiter" where
  "example_throttled =
     AddDynamicSpeedLimit 0 (SetAliveList example_limiter []) ''n'' example_user 10 60"

theorem expired_dynamic_limit_removes_user_witness:
  "\<exists>l1 b1 l2 b2. CheckLimit (\<lambda>_ n _. n) 61000000000 example_throttled ''n|u'' ''1.2.3.4'' True True
       = Some (l1, b1, False)
     \<and> CheckLimit (\<lambda>_ n _. n) 62000000000 l1 ''n|u'' ''1.2.3.4'' True True = Some (l2, b2, True)"
proof -
  have inv: "limiter_inv example_throttled"
    by (simp add: example_throttled_def AddDynamicSpeedLimit_inv SetAliveList_inv example_limiter_inv)
  obtain l1 b1 r1 where c1: "CheckLimit (\<lambda>_ n _. n) 61000000000 example_throttled ''n|u'' ''1.2.3.4''
      True True = Some (l1, b1, r1)" and inv1: "limiter_inv l1"
    using CheckLimit_total [OF inv] by blast
  obtain l2 b2 r2 where c2: "CheckLimit (\<lambda>_ n _. n) 62000000000 l1 ''n|u'' ''1.2.3.4'' True True
      = Some (l2, b2, r2)"
    using CheckLimit_total [OF inv1] by blast
  have "\<not> snd (snd (the (CheckLimit (\<lambda>_ n _. n) 61000000000 example_throttled ''n|u'' ''1.2.3.4'' True True)))"
    by code_simp
  then have r1: "r1 = False" using c1 by simp
  have u: "mload (li_UserLimitInfo example_throttled) ''n|u''
     = Some \<lparr>ul_UID = 7, ul_SpeedLimit = 0, ul_DeviceLimit = 2, ul_DynamicSpeedLimit = 10,
             ul_ExpireTime = 60, ul_OverLimit = False\<rparr>" by code_simp
  show ?thesis
    using expired_dynamic_limit_removes_user [OF u _ _ _ c1 [unfolded r1] c2] c1 c2 r1
    by (simp add: time_Unix_def)
qed


section \<open>Properties of the device window\<close>

lemma remember_ips_seen:
  assumes "ip \<noteq> []"
    and "(\<exists>e. mload old ip = Some e \<and> oo_seenAt e = now) \<or> (\<exists>(key, uid) \<in> set ipMap. NormalizeIP key = ip)"
  shows "\<exists>e. mload (remember_ips now ipMap old) ip = Some e \<and> oo_seenAt e = now"
  using assms(2)
proof (induction ipMap arbitrary: old)
  case (Cons kv ipMap)
  obtain key uid where kv: "kv = (key, uid)" by (cases kv)
  let ?old = "let ip = NormalizeIP key
      in if ip = [] then old else mstore old ip \<lparr>oo_uid = uid, oo_seenAt = now\<rparr>"
  have "(\<exists>e. mload ?old ip = Some e \<and> oo_seenAt e = now) \<or> (\<exists>(key, uid) \<in> set ipMap. NormalizeIP key = ip)"
    using Cons.prems kv assms(1) by (auto simp: Let_def)
  then show ?case using Cons.IH [of ?old] kv by (simp add: remember_ips_def)
qed (auto simp: remember_ips_def)

lemma fold_rotate_seen:
  assumes "ip \<noteq> []" and "(\<exists>e. mload (li_OldUserOnline l) ip = Some e \<and> oo_seenAt e = now)
       \<or> (\<exists>(t, m) \<in> set kvs. \<exists>(key, uid) \<in> set m. NormalizeIP key = ip)"
  shows "\<exists>e. mload (li_OldUserOnline (fold (rotate_user now) kvs l)) ip = Some e \<and> oo_seenAt e = now"
  using assms(2)
proof (induction kvs arbitrary: l)
  case (Cons kv kvs)
  obtain t m where kv: "kv = (t, m)" by (cases kv)
  have "(\<exists>e. mload (li_OldUserOnline (rotate_user now kv l)) ip = Some e \<and> oo_seenAt e = now)
       \<or> (\<exists>(t, m) \<in> set kvs. \<exists>(key, uid) \<in> set m. NormalizeIP key = ip)"
    using Cons.prems remember_ips_seen [OF assms(1), of "li_OldUserOnline l" now m]
    by (auto simp: kv rotate_user_def)
  then show ?case using Cons.IH [of "rotate_user now kv l"] by simp
qed auto

lemma fold_rotate_window:
  "mload (li_UserOnlineIP (fold (rotate_user now) kvs l)) t =
     (if t \<in> fst ` set kvs then None else mload (li_UserOnlineIP l) t)"
  by (induction kvs arbitrary: l) (auto simp: rotate_user_def)

lemma rotate_frame:
  "li_UserLimitInfo (rotateDeviceWindow now l) = li_UserLimitInfo l
     \<and> li_AliveList (rotateDeviceWindow now l) = li_AliveList l
     \<and> li_ConnLimiter (rotateDeviceWindow now l) = li_ConnLimiter l
     \<and> li_oldOnlineTTL (rotateDeviceWindow now l) = li_oldOnlineTTL l
     \<and> li_Online (rotateDeviceWindow now l) = li_Online l"
proof -
  have "li_UserLimitInfo (fold (rotate_user now) kvs l') = li_UserLimitInfo l'
     \<and> li_AliveList (fold (rotate_user now) kvs l') = li_AliveList l'
     \<and> li_ConnLimiter (fold (rotate_user now) kvs l') = li_ConnLimiter l'
     \<and> li_oldOnlineTTL (fold (rotate_user now) kvs l') = li_oldOnlineTTL l'
     \<and> li_Online (fold (rotate_user now) kvs l') = li_Online l'" for kvs and l' :: "('a, 'b) Limiter"
    by (induction kvs arbitrary: l') (simp_all add: rotate_user_def split_def)
  then show ?thesis unfolding rotateDeviceWindow_def .
qed

lemma rotate_window_empty: "mload (li_UserOnlineIP (rotateDeviceWindow now l)) t = None"
  using mload_None_iff [of "li_UserOnlineIP l" t]
  by (simp add: rotateDeviceWindow_def fold_rotate_window)

lemma rotate_remembers:
  assumes "mload (mget [] (li_UserOnlineIP l) t) ip = Some uid" and "NormalizeIP ip = ip" and "ip \<noteq> []"
  shows "\<exists>e. mload (li_OldUserOnline (rotateDeviceWindow now l)) ip = Some e \<and> oo_seenAt e = now"
proof -
  obtain m where "mload (li_UserOnlineIP l) t = Some m" "mload m ip = Some uid"
    using assms(1) by (auto simp: mget_def split: option.splits)
  then have "(t, m) \<in> set (li_UserOnlineIP l)" "(ip, uid) \<in> set m" by (simp_all add: mload_SomeD)
  then have "\<exists>(t, m) \<in> set (li_UserOnlineIP l). \<exists>(key, uid) \<in> set m. NormalizeIP key = ip"
    using assms(2) by blast
  then show ?thesis
    unfolding rotateDeviceWindow_def using fold_rotate_seen [OF assms(3)] by blast
qed

lemma oldOnlineLookup_recent:
  assumes "mload (li_OldUserOnline l) ip = Some e" and "now \<le> oo_seenAt e + oldOnlineTTLValue l"
    and "oldOnlineTTLValue l < max_i64"
  shows "snd (oldOnlineLookup now l ip) \<noteq> None"
proof -
  have "min_i64 \<le> oldOnlineTTLValue l"
    by (simp add: oldOnlineTTLValue_def min_i64_def defaultOldOnlineTTL_def time_consts)
  then show ?thesis
    using assms by (simp add: oldOnlineLookup_def oldOnlineExpired_def time_Sub_gt_iff)
qed

text \<open>
  A device that was online when a window ended can come back: while it is remembered (ten
  minutes by default), the first connection of its user in the new window is not rejected by the
  device limit, whatever number of devices the panel reports.
\<close>

theorem first_reconnect_admitted:
  assumes "limiter_inv l" and "mload (mget [] (li_UserOnlineIP l) t) (NormalizeIP ip) = Some uid"
    and "NormalizeIP (NormalizeIP ip) = NormalizeIP ip" and "NormalizeIP ip \<noteq> []"
    and "mload (li_UserLimitInfo l) t \<noteq> None"
    and "now \<le> rotated + oldOnlineTTLValue l" and "oldOnlineTTLValue l < max_i64"
    and "AddConnCount now (li_ConnLimiter l) t (NormalizeIP ip) isTcp = Some (cl, False)"
  shows "\<exists>l' b. CheckLimit nb now (rotateDeviceWindow rotated l) t ip isTcp noSSUDP = Some (l', b, False)"
proof -
  let ?l = "rotateDeviceWindow rotated l"
  obtain l' b r where c: "CheckLimit nb now ?l t ip isTcp noSSUDP = Some (l', b, r)"
    using CheckLimit_total [OF rotateDeviceWindow_inv [OF assms(1)]] by blast
  have ttl: "oldOnlineTTLValue ?l = oldOnlineTTLValue l"
    using rotate_frame [of rotated l] by (simp add: oldOnlineTTLValue_def)
  have "snd (oldOnlineLookup now ?l (NormalizeIP ip)) \<noteq> None"
    using rotate_remembers [OF assms(2-4), of rotated] oldOnlineLookup_recent [of ?l "NormalizeIP ip" _ now] assms(6,7)
    unfolding ttl by auto
  then have "\<not> r"
    using CheckLimit_verdict [OF c] rotate_window_empty [of rotated l t] rotate_frame [of rotated l]
      assms(5,8) by (auto simp: device_full_def)
  then show ?thesis using c by auto
qed

definition example_two_devices :: "(string, int) Limiter" where
  "example_two_devices = example_limiter\<lparr>li_UserOnlineIP := [(''n|u'', [(''1.1.1.1'', 7), (''2.2.2.2'', 7)])],
     li_ConnLimiter := NewConnLimiter 0 0 True 0\<rparr>"

lemma example_two_devices_inv: "limiter_inv example_two_devices"
  using example_limiter_inv by (simp add: limiter_inv_def example_two_devices_def mwf_def)

lemma example_two_devices_facts:
  "mload (mget [] (li_UserOnlineIP example_two_devices) ''n|u'') (NormalizeIP ''1.1.1.1'') = Some 7"
  "mload (mget [] (li_UserOnlineIP example_two_devices) ''n|u'') (NormalizeIP ''2.2.2.2'') = Some 7"
  "NormalizeIP (NormalizeIP ''1.1.1.1'') = NormalizeIP ''1.1.1.1''" "NormalizeIP ''1.1.1.1'' \<noteq> []"
  "NormalizeIP (NormalizeIP ''2.2.2.2'') = NormalizeIP ''2.2.2.2''" "NormalizeIP ''2.2.2.2'' \<noteq> []"
  "NormalizeIP ''1.1.1.1'' \<noteq> NormalizeIP ''2.2.2.2''"
  "oldOnlineTTLValue example_two_devices = 600000000000"
  "mload (li_UserLimitInfo example_two_devices) ''n|u'' = Some (user_limit_of example_user)"
  "GetAlive example_two_devices 7 = 2"
  by code_simp+

lemma example_unlimited:
  "cl_connLimit (li_ConnLimiter example_two_devices) = 0" "cl_ipLimit (li_ConnLimiter example_two_devices) = 0"
  by (simp_all add: example_two_devices_def NewConnLimiter_def)

text \<open>Without a connection limit and without an address limit the connection limiter admits.\<close>

lemma AddConnCount_unlimited:
  assumes "conn_inv c" and "cl_connLimit c = 0" and "cl_ipLimit c = 0"
  shows "\<exists>c'. AddConnCount now c u ip isTcp = Some (c', False) \<and> cl_connLimit c' = 0 \<and> cl_ipLimit c' = 0"
proof -
  obtain c' r where a: "AddConnCount now c u ip isTcp = Some (c', r)"
    using AddConnCount_total [OF assms(1)] by blast
  then have "\<not> r"
    using assms(2,3)
    by (auto simp: AddConnCount_def storeIP_def split: option.splits if_splits ip_value.splits)
  then show ?thesis using a AddConnCount_frame [OF a] assms(2,3) by simp
qed

theorem first_reconnect_admitted_witness:
  "\<exists>l' b. CheckLimit (\<lambda>_ n _. n) 60000000000 (rotateDeviceWindow 0 example_two_devices) ''n|u'' ''1.1.1.1''
     True True = Some (l', b, False)"
proof -
  obtain cl where a: "AddConnCount 60000000000 (li_ConnLimiter example_two_devices) ''n|u''
      (NormalizeIP ''1.1.1.1'') True = Some (cl, False)"
    using AddConnCount_unlimited [OF limiter_invD(1) [OF example_two_devices_inv] example_unlimited] by blast
  show ?thesis
    by (rule first_reconnect_admitted [OF example_two_devices_inv example_two_devices_facts(1,3,4) _ _ _ a])
      (simp_all add: example_two_devices_facts max_i64_def)
qed

lemma admitted_limits_kept:
  assumes "CheckLimit nb now l t ip isTcp noSSUDP = Some (l', b, False)"
    and "mload (li_UserLimitInfo l) t = Some u" and "ul_ExpireTime u = 0"
  shows "mload (li_UserLimitInfo l') t = Some u \<and> li_AliveList l' = li_AliveList l"
  using assms(1)
proof (cases rule: CheckLimit_stages)
  case (admitted cl u' l1 n l2 l3)
  then have "l1 = l\<lparr>li_ConnLimiter := cl\<rparr>"
    using assms(2,3) by (auto simp: user_speed_limit_def)
  moreover have "li_UserLimitInfo l2 = li_UserLimitInfo l1 \<and> li_AliveList l2 = li_AliveList l1"
  proof (cases noSSUDP)
    case True
    then show ?thesis
      using admitted(5)
      by (auto simp: check_device_def oldOnlineLookup_def Let_def split: option.splits if_splits)
  qed (use admitted(6) in simp)
  moreover have "li_AliveList l3 = li_AliveList l2"
    using admitted(7) by (auto simp: speed_bucket_def Let_def split: option.splits if_splits)
  ultimately show ?thesis
    using speed_bucket_frame(4) [OF admitted(7)] admitted(8) assms(2) by simp
qed auto

lemma check_device_first:
  assumes "mload (li_UserOnlineIP l) t = None" and "check_device now l t ip uid d = (l', False)"
  shows "mload (li_UserOnlineIP l') t = Some (mstore [] ip uid)"
  using assms
  by (auto simp: check_device_def oldOnlineLookup_def Let_def split: option.splits if_splits)

lemma admitted_first_device:
  assumes "CheckLimit nb now l t ip isTcp True = Some (l', b, False)"
    and "mload (li_UserOnlineIP l) t = None" and "mload (li_UserLimitInfo l) t = Some u"
  shows "mload (li_UserOnlineIP l') t = Some (mstore [] (NormalizeIP ip) (ul_UID u))"
  using assms(1)
proof (cases rule: CheckLimit_stages)
  case (admitted cl u' l1 n l2 l3)
  then show ?thesis
    using check_device_first [OF _ admitted(5)] user_speed_limit_frame(1) [OF admitted(4)] assms(2,3)
      speed_bucket_frame(2) [OF admitted(7)] by simp
qed auto

text \<open>
  The window forgives only one device per user: of two devices that were both online when it
  ended, the first to reconnect is admitted and the second is rejected as one device too many,
  although it is remembered and the user never exceeded the device limit.
\<close>

theorem second_reconnect_rejected:
  assumes "limiter_inv l" and "cl_connLimit (li_ConnLimiter l) = 0" and "cl_ipLimit (li_ConnLimiter l) = 0"
    and "mload (li_UserLimitInfo l) t = Some u" and "ul_ExpireTime u = 0"
    and "0 < ul_DeviceLimit u" and "ul_DeviceLimit u = GetAlive l (ul_UID u)"
    and "mload (mget [] (li_UserOnlineIP l) t) (NormalizeIP a) = Some uid"
    and "NormalizeIP (NormalizeIP a) = NormalizeIP a" and "NormalizeIP a \<noteq> []"
    and "NormalizeIP a \<noteq> NormalizeIP b"
    and "now \<le> rotated + oldOnlineTTLValue l" and "oldOnlineTTLValue l < max_i64"
  shows "\<exists>l1 x l2 y. CheckLimit nb now (rotateDeviceWindow rotated l) t a True True = Some (l1, x, False)
     \<and> CheckLimit nb now l1 t b True True = Some (l2, y, True)"
proof -
  let ?l = "rotateDeviceWindow rotated l"
  have inv: "limiter_inv ?l" by (rule rotateDeviceWindow_inv [OF assms(1)])
  have fr: "li_ConnLimiter ?l = li_ConnLimiter l" "li_UserLimitInfo ?l = li_UserLimitInfo l"
      "li_AliveList ?l = li_AliveList l" "oldOnlineTTLValue ?l = oldOnlineTTLValue l"
    using rotate_frame [of rotated l] by (simp_all add: oldOnlineTTLValue_def)
  obtain l1 x r1 where c1: "CheckLimit nb now ?l t a True True = Some (l1, x, r1)" and inv1: "limiter_inv l1"
    using CheckLimit_total [OF inv] by blast
  obtain cl where acc: "AddConnCount now (li_ConnLimiter l) t (NormalizeIP a) True = Some (cl, False)"
    using AddConnCount_unlimited [OF limiter_invD(1) [OF assms(1)] assms(2,3)] by blast
  have "snd (oldOnlineLookup now ?l (NormalizeIP a)) \<noteq> None"
    using rotate_remembers [OF assms(8-10), of rotated] oldOnlineLookup_recent [of ?l "NormalizeIP a" _ now]
      assms(12,13) fr(4) by auto
  then have r1: "r1 = False"
    using CheckLimit_verdict [OF c1] acc assms(4) fr rotate_window_empty [of rotated l t]
    by (auto simp: device_full_def)
  note c1 = c1 [unfolded r1]
  have "mload (li_UserLimitInfo l1) t = Some u" "li_AliveList l1 = li_AliveList l"
      "mload (li_UserOnlineIP l1) t = Some (mstore [] (NormalizeIP a) (ul_UID u))"
    using admitted_limits_kept [OF c1, of u] admitted_first_device [OF c1 rotate_window_empty, of u]
      assms(4,5) fr by simp_all
  then have "device_full now l1 t (NormalizeIP b) u" "mload (li_UserLimitInfo l1) t = Some u"
    using assms(6,7,11) by (simp_all add: device_full_def GetAlive_def)
  moreover obtain l2 y r2 where c2: "CheckLimit nb now l1 t b True True = Some (l2, y, r2)"
    using CheckLimit_total [OF inv1] by blast
  ultimately have "r2 = True" using CheckLimit_verdict [OF c2] by blast
  then show ?thesis using c1 c2 by blast
qed

theorem second_reconnect_rejected_witness:
  "\<exists>l1 x l2 y. CheckLimit (\<lambda>_ n _. n) 60000000000 (rotateDeviceWindow 0 example_two_devices) ''n|u'' ''1.1.1.1''
       True True = Some (l1, x, False)
     \<and> CheckLimit (\<lambda>_ n _. n) 60000000000 l1 ''n|u'' ''2.2.2.2'' True True = Some (l2, y, True)"
  by (rule second_reconnect_rejected [OF example_two_devices_inv _ _ example_two_devices_facts(9) _ _ _
        example_two_devices_facts(1,3,4,7)])
    (simp_all add: example_two_devices_facts example_unlimited max_i64_def user_limit_of_def
      example_user_def)


section \<open>Speed limits\<close>

text \<open>The smaller of two limits, where zero means unlimited.\<close>

definition min_limit :: "int \<Rightarrow> int \<Rightarrow> int" where
  "min_limit a b = (if a = 0 then b else if b = 0 then a else min a b)"

lemma determineSpeedLimit_min:
  "0 \<le> a \<Longrightarrow> 0 \<le> b \<Longrightarrow> determineSpeedLimit a b = min_limit a b"
  by (auto simp: determineSpeedLimit_def min_limit_def)

lemma speed_bucket_cases:
  assumes "speed_bucket nb l t n = (l', b)"
    and "0 < go_div (i64 (determineSpeedLimit (li_SpeedLimit l) n * 1000000)) 8" (is "0 < ?lim")
  shows "\<exists>k. b = Some k \<and> mload (li_SpeedLimiter l') t = Some \<lparr>sb_Limit = ?lim, sb_Bucket = k\<rparr>
     \<and> (mload (li_SpeedLimiter l) t = mload (li_SpeedLimiter l') t \<or> k = nb time_Second ?lim ?lim)"
proof (cases "\<exists>c. mload (li_SpeedLimiter l) t = Some c \<and> sb_Limit c = ?lim")
  case True
  then obtain c where c: "mload (li_SpeedLimiter l) t = Some c" "sb_Limit c = ?lim" by blast
  then have "l' = l" "b = Some (sb_Bucket c)"
    using assms by (simp_all add: speed_bucket_def Let_def)
  moreover have "c = \<lparr>sb_Limit = ?lim, sb_Bucket = sb_Bucket c\<rparr>" using c(2) by simp
  ultimately show ?thesis using c(1) by auto
next
  case False
  then have "(case mload (li_SpeedLimiter l) t of
      Some cached \<Rightarrow> if sb_Limit cached = ?lim then Some (sb_Bucket cached) else None | None \<Rightarrow> None) = None"
    by (auto split: option.splits)
  then show ?thesis using assms by (auto simp: speed_bucket_def Let_def)
qed

text \<open>
  The bucket of an admitted connection: none when neither node nor user is limited; otherwise
  its rate is the smaller non-zero limit in bytes per second, a bucket of that rate that exists
  already is shared, and the next connection of the user gets the very same bucket.
\<close>

theorem speed_bucket_rate_and_sharing:
  assumes "0 \<le> li_SpeedLimit l" "0 \<le> n" "li_SpeedLimit l \<le> 9000000000000" "n \<le> 9000000000000"
    and "speed_bucket nb l t n = (l', b)"
  shows "(b = None \<longleftrightarrow> li_SpeedLimit l = 0 \<and> n = 0)
     \<and> (\<forall>k. b = Some k \<longrightarrow>
          mload (li_SpeedLimiter l') t = Some \<lparr>sb_Limit = 125000 * min_limit (li_SpeedLimit l) n, sb_Bucket = k\<rparr>
          \<and> (mload (li_SpeedLimiter l) t = mload (li_SpeedLimiter l') t
              \<or> k = nb time_Second (125000 * min_limit (li_SpeedLimit l) n) (125000 * min_limit (li_SpeedLimit l) n)))
     \<and> snd (speed_bucket nb l' t n) = b"
proof -
  let ?m = "min_limit (li_SpeedLimit l) n"
  have m: "0 \<le> ?m" "?m \<le> 9000000000000" "?m = 0 \<longleftrightarrow> li_SpeedLimit l = 0 \<and> n = 0"
    using assms(1-4) by (auto simp: min_limit_def)
  then have "i64 (?m * 1000000) = ?m * 1000000" by (simp add: i64_range_defs)
  then have lim: "go_div (i64 (determineSpeedLimit (li_SpeedLimit l) n * 1000000)) 8 = 125000 * ?m"
    using m determineSpeedLimit_min [OF assms(1,2)] go_div_nonneg [of "?m * 1000000" 8] by simp
  have same: "li_SpeedLimit l' = li_SpeedLimit l" using speed_bucket_frame(5) [OF assms(5)] .
  show ?thesis
  proof (cases "?m = 0")
    case True
    then have "b = None" using assms(5) by (simp add: speed_bucket_def lim)
    moreover have "snd (speed_bucket nb l' t n) = None"
      using True by (simp add: speed_bucket_def same lim)
    ultimately show ?thesis using True m(3) by simp
  next
    case False
    then have pos: "0 < 125000 * ?m" using m(1) by simp
    obtain k where b: "b = Some k"
        "mload (li_SpeedLimiter l') t = Some \<lparr>sb_Limit = 125000 * ?m, sb_Bucket = k\<rparr>"
        "mload (li_SpeedLimiter l) t = mload (li_SpeedLimiter l') t
          \<or> k = nb time_Second (125000 * ?m) (125000 * ?m)"
      using speed_bucket_cases [OF assms(5)] pos unfolding lim by blast
    moreover have "snd (speed_bucket nb l' t n) = Some k"
      using b(2) pos by (simp add: speed_bucket_def same lim)
    ultimately show ?thesis using False m(3) by simp
  qed
qed

theorem speed_bucket_rate_and_sharing_witness:
  "snd (speed_bucket (\<lambda>_ n _. n) example_limiter ''n|u'' 8) = Some 1000000"
proof -
  obtain l' b where s: "speed_bucket (\<lambda>_ n _. n) example_limiter ''n|u'' 8 = (l', b)" by fastforce
  have z: "li_SpeedLimit example_limiter = 0" "mload (li_SpeedLimiter example_limiter) ''n|u'' = None"
    by code_simp+
  show ?thesis
    using speed_bucket_rate_and_sharing [OF _ _ _ _ s] s z by (auto simp: min_limit_def)
qed


section \<open>Users and rules\<close>

lemma fold_store_users:
  "mload (li_UserLimitInfo (fold (store_user tag) added l)) (UserTag tag uuid) =
   (case map_of (rev (map (\<lambda>u. (ui_Uuid u, u)) added)) uuid of
      Some u \<Rightarrow> Some (user_limit_of u) | None \<Rightarrow> mload (li_UserLimitInfo l) (UserTag tag uuid))"
  by (induction added arbitrary: l)
    (auto simp: store_user_def UserTag_inject map_add_def split: option.splits)

lemma fold_remove_users:
  assumes "registry_inv (li_Online l)"
  shows "mload (li_UserLimitInfo (fold (remove_user tag) deleted l)) (UserTag tag uuid) =
       (if uuid \<in> ui_Uuid ` set deleted then None else mload (li_UserLimitInfo l) (UserTag tag uuid))
     \<and> mload (or_m (li_Online (fold (remove_user tag) deleted l))) (UserTag tag uuid, ip) =
       (if uuid \<in> ui_Uuid ` set deleted then None else mload (or_m (li_Online l)) (UserTag tag uuid, ip))"
  using assms
proof (induction deleted arbitrary: l)
  case (Cons u deleted)
  have "registry_inv (li_Online (remove_user tag u l))"
    using Cons.prems by (simp add: remove_user_def DeleteAlive_def Let_def)
  then show ?case
    using Cons.IH [of "remove_user tag u l"] Cons.prems
    by (auto simp: remove_user_def DeleteAlive_def Let_def UserTag_inject mload_DeleteUser)
qed simp

lemma fold_store_users_online: "li_Online (fold (store_user tag) added l) = li_Online l"
  by (induction added arbitrary: l) (simp_all add: store_user_def)

text \<open>
  A panel update takes effect exactly: an added user has the limits of its last entry, a
  deleted user is gone together with its online devices, everyone else keeps limits and devices.
\<close>

theorem UpdateUser_exact:
  assumes "limiter_inv l"
  shows "mload (li_UserLimitInfo (UpdateUser l tag added deleted)) (UserTag tag uuid) =
       (case map_of (rev (map (\<lambda>u. (ui_Uuid u, u)) added)) uuid of
          Some u \<Rightarrow> Some (user_limit_of u)
        | None \<Rightarrow> if uuid \<in> ui_Uuid ` set deleted then None else mload (li_UserLimitInfo l) (UserTag tag uuid))
     \<and> mload (or_m (li_Online (UpdateUser l tag added deleted))) (UserTag tag uuid, ip) =
       (if uuid \<in> ui_Uuid ` set deleted then None else mload (or_m (li_Online l)) (UserTag tag uuid, ip))"
  unfolding UpdateUser_def fold_store_users fold_store_users_online
  using fold_remove_users [OF limiter_invD(2) [OF assms], of tag deleted uuid ip]
  by (simp split: option.split)

theorem UpdateUser_exact_witness:
  "mload (li_UserLimitInfo (UpdateUser example_limiter ''n'' [example_user\<lparr>ui_SpeedLimit := 5\<rparr>] [example_user]))
     (UserTag ''n'' ''u'') = Some (user_limit_of (example_user\<lparr>ui_SpeedLimit := 5\<rparr>))"
  using UpdateUser_exact [OF example_limiter_inv, of "''n''" "[example_user\<lparr>ui_SpeedLimit := 5\<rparr>]"
      "[example_user]" "''u''"] by (simp add: example_user_def)

text \<open>
  The table of addresses by user that is pushed to the panel lists for every user id exactly
  the addresses of the snapshot, in its order.
\<close>

theorem GetOnlineIPMap_groups_snapshot:
  "mget [] (GetOnlineIPMap l) uid =
     map ou_IP (filter (\<lambda>u. ou_UID u = uid) (OnlineRegistry_Snapshot (li_Online l)))"
proof -
  have "mget [] (fold (\<lambda>u data. mstore data (ou_UID u) (mget [] data (ou_UID u) @ [ou_IP u])) us m) uid =
      mget [] m uid @ map ou_IP (filter (\<lambda>u. ou_UID u = uid) us)"
    for us :: "OnlineUser list" and m
    by (induction us arbitrary: m) auto
  then show ?thesis by (simp add: GetOnlineIPMap_def)
qed

lemma CheckDomainRule_loop_iff: "CheckDomainRule_loop match rs d \<longleftrightarrow> (\<exists>r \<in> set rs. match r d)"
  by (induction rs) auto

lemma CheckProtocolRule_loop_iff: "CheckProtocolRule_loop ps p \<longleftrightarrow> p \<in> set ps"
  by (induction ps) auto

lemma those_map_Some: "those (map f xs) = Some ys \<longleftrightarrow> map f xs = map Some ys"
proof (induction xs arbitrary: ys)
  case (Cons x xs)
  then show ?case by (cases ys) (auto split: option.splits)
qed auto

lemma map_Some_ex:
  "map f xs = map Some ys \<Longrightarrow> (\<exists>y \<in> set ys. P y) \<longleftrightarrow> (\<exists>x \<in> set xs. \<exists>y. f x = Some y \<and> P y)"
proof (induction xs arbitrary: ys)
  case (Cons x xs)
  then show ?case by (cases ys) auto
qed simp

lemma those_map_None: "those (map f xs) = None \<longleftrightarrow> (\<exists>x \<in> set xs. f x = None)"
  by (induction xs) (auto split: option.splits)

text \<open>
  Installing the rules of the panel: if every pattern compiles, a destination is then rejected
  exactly when one of the patterns matches it, and a protocol exactly when it is listed; one pattern
  that does not compile panics instead of being reported as an error.
\<close>

theorem UpdateRule_exact:
  "(UpdateRule compile l rule = None \<longleftrightarrow> (\<exists>p \<in> set (ru_Regexp rule). compile p = None))
   \<and> (UpdateRule compile l rule = Some l' \<longrightarrow>
        (CheckDomainRule match l' d \<longleftrightarrow> (\<exists>p \<in> set (ru_Regexp rule). \<exists>re. compile p = Some re \<and> match re d))
        \<and> (CheckProtocolRule l' q \<longleftrightarrow> q \<in> set (ru_Protocol rule)))"
proof -
  show ?thesis
  proof (cases "those (map compile (ru_Regexp rule))")
    case None
    then show ?thesis using those_map_None [of compile "ru_Regexp rule"] by (simp add: UpdateRule_def)
  next
    case (Some rs)
    then have u: "UpdateRule compile l rule = Some (l\<lparr>li_DomainRules := rs, li_ProtocolRules := ru_Protocol rule\<rparr>)"
      by (simp add: UpdateRule_def)
    have "\<not> (\<exists>p \<in> set (ru_Regexp rule). compile p = None)"
      using those_map_None [of compile "ru_Regexp rule"] Some by simp
    then show ?thesis
      using u map_Some_ex [OF Some [unfolded those_map_Some], of "\<lambda>re. match re d"]
      by (auto simp: CheckDomainRule_def CheckProtocolRule_def
          CheckDomainRule_loop_iff CheckProtocolRule_loop_iff)
  qed
qed

theorem UpdateRule_exact_witness:
  "\<exists>l'. UpdateRule (\<lambda>p. if p = ''('' then None else Some p) example_limiter
       \<lparr>ru_Regexp = [''a'', ''b''], ru_Protocol = [''bittorrent'']\<rparr> = Some l'
     \<and> CheckDomainRule (=) l' ''b'' \<and> \<not> CheckDomainRule (=) l' ''c'' \<and> CheckProtocolRule l' ''bittorrent''"
proof -
  let ?r = "\<lparr>ru_Regexp = [''a'', ''b''], ru_Protocol = [''bittorrent'']\<rparr>"
  let ?c = "\<lambda>p. if p = ''('' then None else Some p"
  obtain l' where l': "UpdateRule ?c example_limiter ?r = Some l'"
    by (simp add: UpdateRule_def)
  show ?thesis
    using UpdateRule_exact [of ?c example_limiter ?r l' "(=)"] l' by auto
qed

end
