(* ===== verification/Counter.thy ===== *)
theory Counter
  imports Panel_Types
begin

text \<open>
  \<open>common/counter\<close>: the byte counters of the users of a node (\<open>traffic.go\<close>) and the connection
  wrappers that feed them (\<open>conn.go\<close>). An \<open>atomic.Int64\<close> is a \<open>64 word\<close>; the comparisons of the code
  are signed. A wrapper holds a pointer to the storage of its user; entries are never replaced, so
  the pointer is the identity of the entry. The interface the reporting task uses is the locale
  \<open>core_traffic\<close>, with the read-and-put-back protocol of the task proved inside it.
\<close>

unbundle bit_operations_syntax

record TrafficStorage =
  ts_UpCounter :: "64 word"
  ts_DownCounter :: "64 word"

record TrafficCounter =
  tc_counters :: "(string, TrafficStorage) gomap"

definition new_storage :: TrafficStorage where
  "new_storage = \<lparr>ts_UpCounter = 0, ts_DownCounter = 0\<rparr>"

definition NewTrafficCounter :: TrafficCounter where
  "NewTrafficCounter = \<lparr>tc_counters = []\<rparr>"

text \<open>\<open>GetCounter\<close> makes sure that the entry exists; the pointer it returns is the entry of \<open>ident\<close>.\<close>

definition GetCounter :: "TrafficCounter \<Rightarrow> string \<Rightarrow> TrafficCounter" where
  "GetCounter c ident =
     (case mload (tc_counters c) ident of
        Some _ \<Rightarrow> c
      | None \<Rightarrow> c\<lparr>tc_counters := mstore (tc_counters c) ident new_storage\<rparr>)"

definition GetUpCount :: "TrafficCounter \<Rightarrow> string \<Rightarrow> 64 word" where
  "GetUpCount c ident = (case mload (tc_counters c) ident of Some cts \<Rightarrow> ts_UpCounter cts | None \<Rightarrow> 0)"

definition GetDownCount :: "TrafficCounter \<Rightarrow> string \<Rightarrow> 64 word" where
  "GetDownCount c ident = (case mload (tc_counters c) ident of Some cts \<Rightarrow> ts_DownCounter cts | None \<Rightarrow> 0)"

definition TrafficCounter_Len :: "TrafficCounter \<Rightarrow> int" where
  "TrafficCounter_Len c = int (length (tc_counters c))"

definition TrafficCounter_Reset :: "TrafficCounter \<Rightarrow> string \<Rightarrow> TrafficCounter" where
  "TrafficCounter_Reset c ident =
     (case mload (tc_counters c) ident of
        Some cts \<Rightarrow> c\<lparr>tc_counters := mstore (tc_counters c) ident
                      (cts\<lparr>ts_UpCounter := 0, ts_DownCounter := 0\<rparr>)\<rparr>
      | None \<Rightarrow> c)"

definition TrafficCounter_Delete :: "TrafficCounter \<Rightarrow> string \<Rightarrow> TrafficCounter" where
  "TrafficCounter_Delete c ident = c\<lparr>tc_counters := mdelete (tc_counters c) ident\<rparr>"

definition TrafficCounter_Restore ::
  "TrafficCounter \<Rightarrow> string \<Rightarrow> 64 word \<Rightarrow> 64 word \<Rightarrow> TrafficCounter" where
  "TrafficCounter_Restore c ident up down =
     (if up \<le>s 0 \<and> down \<le>s 0 then c
      else case mload (tc_counters c) ident of
        None \<Rightarrow> c
      | Some storage \<Rightarrow>
          let storage = (if 0 <s up then storage\<lparr>ts_UpCounter := ts_UpCounter storage + up\<rparr> else storage);
              storage = (if 0 <s down then storage\<lparr>ts_DownCounter := ts_DownCounter storage + down\<rparr>
                         else storage)
          in c\<lparr>tc_counters := mstore (tc_counters c) ident storage\<rparr>)"

text \<open>\<open>UpCounter.Add\<close> and \<open>DownCounter.Add\<close> on the storage of \<open>ident\<close>.\<close>

definition add_up :: "TrafficCounter \<Rightarrow> string \<Rightarrow> 64 word \<Rightarrow> TrafficCounter" where
  "add_up c ident n =
     (case mload (tc_counters c) ident of
        Some s \<Rightarrow> c\<lparr>tc_counters := mstore (tc_counters c) ident (s\<lparr>ts_UpCounter := ts_UpCounter s + n\<rparr>)\<rparr>
      | None \<Rightarrow> c)"

definition add_down :: "TrafficCounter \<Rightarrow> string \<Rightarrow> 64 word \<Rightarrow> TrafficCounter" where
  "add_down c ident n =
     (case mload (tc_counters c) ident of
        Some s \<Rightarrow> c\<lparr>tc_counters := mstore (tc_counters c) ident (s\<lparr>ts_DownCounter := ts_DownCounter s + n\<rparr>)\<rparr>
      | None \<Rightarrow> c)"

definition TrafficCounter_Rx :: "TrafficCounter \<Rightarrow> string \<Rightarrow> 64 word \<Rightarrow> TrafficCounter" where
  "TrafficCounter_Rx c ident n = add_down (GetCounter c ident) ident n"

definition TrafficCounter_Tx :: "TrafficCounter \<Rightarrow> string \<Rightarrow> 64 word \<Rightarrow> TrafficCounter" where
  "TrafficCounter_Tx c ident n = add_up (GetCounter c ident) ident n"


section \<open>Counting connections (\<open>conn.go\<close>)\<close>

text \<open>
  A wrapped connection counts the result of the inner call: the number of bytes of a read or
  write (which may be short), or the length of the buffer when the inner call succeeded. \<open>ident\<close> is
  the user whose storage the connection holds; the inner result is an argument.
\<close>

definition ConnCounter_Read :: "TrafficCounter \<Rightarrow> string \<Rightarrow> nat \<Rightarrow> TrafficCounter" where
  "ConnCounter_Read c ident n = (if n > 0 then add_up c ident (of_nat n) else c)"

definition ConnCounter_Write :: "TrafficCounter \<Rightarrow> string \<Rightarrow> nat \<Rightarrow> TrafficCounter" where
  "ConnCounter_Write c ident n = (if n > 0 then add_down c ident (of_nat n) else c)"

definition ConnCounter_ReadBuffer :: "TrafficCounter \<Rightarrow> string \<Rightarrow> nat option \<Rightarrow> TrafficCounter" where
  "ConnCounter_ReadBuffer c ident r =
     (case r of None \<Rightarrow> c | Some len \<Rightarrow> if len > 0 then add_up c ident (of_nat len) else c)"

definition ConnCounter_WriteBuffer ::
  "TrafficCounter \<Rightarrow> string \<Rightarrow> nat \<Rightarrow> bool \<Rightarrow> TrafficCounter" where
  "ConnCounter_WriteBuffer c ident dataLen ok =
     (if \<not> ok then c else if dataLen > 0 then add_down c ident (of_nat dataLen) else c)"

definition PacketConnCounter_ReadPacket ::
  "TrafficCounter \<Rightarrow> string \<Rightarrow> nat option \<Rightarrow> TrafficCounter" where
  "PacketConnCounter_ReadPacket c ident r =
     (case r of None \<Rightarrow> c | Some len \<Rightarrow> add_up c ident (of_nat len))"

definition PacketConnCounter_WritePacket ::
  "TrafficCounter \<Rightarrow> string \<Rightarrow> nat \<Rightarrow> bool \<Rightarrow> TrafficCounter" where
  "PacketConnCounter_WritePacket c ident n ok =
     (if \<not> ok then c else if n > 0 then add_down c ident (of_nat n) else c)"

text \<open>The count functions that \<open>NewConnCounter\<close> and \<open>NewPacketConnCounter\<close> hand to the splicing copy.\<close>

definition ConnCounter_readFunc :: "TrafficCounter \<Rightarrow> string \<Rightarrow> 64 word \<Rightarrow> TrafficCounter" where
  "ConnCounter_readFunc c ident n = add_up c ident n"

definition ConnCounter_writeFunc :: "TrafficCounter \<Rightarrow> string \<Rightarrow> 64 word \<Rightarrow> TrafficCounter" where
  "ConnCounter_writeFunc c ident n = add_down c ident n"


section \<open>Laws of the counters\<close>

definition has_counter :: "TrafficCounter \<Rightarrow> string \<Rightarrow> bool" where
  "has_counter c ident \<longleftrightarrow> mload (tc_counters c) ident \<noteq> None"

named_theorems counter_defs \<open>operations of the traffic counter\<close>

lemmas [counter_defs] = GetCounter_def GetUpCount_def GetDownCount_def TrafficCounter_Reset_def
  TrafficCounter_Restore_def add_up_def add_down_def new_storage_def has_counter_def
  TrafficCounter_Rx_def TrafficCounter_Tx_def

lemma Reset_counts [simp]:
  "GetUpCount (TrafficCounter_Reset c ident) ident' = (if ident' = ident then 0 else GetUpCount c ident')"
  "GetDownCount (TrafficCounter_Reset c ident) ident' = (if ident' = ident then 0 else GetDownCount c ident')"
  "has_counter (TrafficCounter_Reset c ident) ident' = has_counter c ident'"
  by (auto simp: counter_defs split: option.splits)

lemma Restore_counts [simp]:
  "GetUpCount (TrafficCounter_Restore c ident up down) ident' =
     (if ident' = ident \<and> has_counter c ident \<and> 0 <s up then GetUpCount c ident' + up else GetUpCount c ident')"
  "GetDownCount (TrafficCounter_Restore c ident up down) ident' =
     (if ident' = ident \<and> has_counter c ident \<and> 0 <s down then GetDownCount c ident' + down else GetDownCount c ident')"
  "has_counter (TrafficCounter_Restore c ident up down) ident' = has_counter c ident'"
  by (auto simp: counter_defs Let_def word_sless_alt word_sle_eq split: option.splits)

lemma add_counts [simp]:
  "GetUpCount (add_up c ident n) ident' = (if ident' = ident \<and> has_counter c ident then GetUpCount c ident' + n else GetUpCount c ident')"
  "GetDownCount (add_up c ident n) ident' = GetDownCount c ident'"
  "GetUpCount (add_down c ident n) ident' = GetUpCount c ident'"
  "GetDownCount (add_down c ident n) ident' =
     (if ident' = ident \<and> has_counter c ident then GetDownCount c ident' + n else GetDownCount c ident')"
  "has_counter (add_up c ident n) ident' = has_counter c ident'"
  "has_counter (add_down c ident n) ident' = has_counter c ident'"
  by (auto simp: counter_defs split: option.splits)

lemma GetCounter_counts [simp]:
  "GetUpCount (GetCounter c ident) ident' = GetUpCount c ident'"
  "GetDownCount (GetCounter c ident) ident' = GetDownCount c ident'"
  "has_counter (GetCounter c ident) ident' \<longleftrightarrow> ident' = ident \<or> has_counter c ident'"
  by (auto simp: counter_defs split: option.splits)

lemma no_counter_zero: "\<not> has_counter c ident \<Longrightarrow> GetUpCount c ident = 0 \<and> GetDownCount c ident = 0"
  by (simp add: counter_defs)

end
