(* ===== verification/Core_Traffic.thy ===== *)
theory Core_Traffic
  imports Counter
begin

text \<open>
  The part of the interface \<open>core.Core\<close> that bills users: \<open>GetUserTraffic\<close> and
  \<open>RestoreUserTraffic\<close>. The locale \<open>core_traffic\<close> states what the reporting task relies on, and the
  read-report-restore protocol of \<open>node/user.go\<close> is proved once inside it. The counters of sing
  (\<open>core/sing/user.go\<close>) and of hysteria2 (\<open>core/hy2/user.go\<close>) interpret it.
\<close>

section \<open>The protocol of the reporting task\<close>

text \<open>
  The loop of \<open>reportUserTrafficTask\<close> that reads every user's counters with reset and keeps the
  samples that hold usage, and the loop that puts them back.
\<close>

record readUserUsage =
  ru_uuid :: string
  ru_up :: "64 word"
  ru_down :: "64 word"

fun collect_usage ::
  "('s \<Rightarrow> string \<Rightarrow> string \<Rightarrow> bool \<Rightarrow> 's \<times> 64 word \<times> 64 word) \<Rightarrow> string \<Rightarrow> UserInfo list \<Rightarrow> 's
   \<Rightarrow> 's \<times> (UserInfo \<times> readUserUsage) list" where
  "collect_usage get tag [] s = (s, [])"
| "collect_usage get tag (u # users) s =
     (case get s tag (ui_Uuid u) True of
        (s, up, down) \<Rightarrow>
          (case collect_usage get tag users s of
             (s, rest) \<Rightarrow>
               (s, if 0 <s up \<or> 0 <s down
                   then (u, \<lparr>ru_uuid = ui_Uuid u, ru_up = up, ru_down = down\<rparr>) # rest else rest)))"

definition restore_usage ::
  "('s \<Rightarrow> string \<Rightarrow> string \<Rightarrow> 64 word \<Rightarrow> 64 word \<Rightarrow> 's) \<Rightarrow> string \<Rightarrow> readUserUsage list \<Rightarrow> 's \<Rightarrow> 's" where
  "restore_usage restore tag readUsage s =
     fold (\<lambda>r s. restore s tag (ru_uuid r) (ru_up r) (ru_down r)) readUsage s"

definition nonneg_usage :: "64 word \<times> 64 word \<Rightarrow> bool" where
  "nonneg_usage x \<longleftrightarrow> 0 \<le>s fst x \<and> 0 \<le>s snd x"

lemma nonneg_cases: "0 \<le>s a \<Longrightarrow> \<not> 0 <s a \<Longrightarrow> a = 0" for a :: "64 word"
  by (auto simp: word_sless_eq)

text \<open>
  \<open>usage\<close> are the values of the two counters of a user, \<open>tracked\<close> says which of them exist, and \<open>apart\<close>
  relates tags whose users never share a counter.
\<close>

locale core_traffic =
  fixes get :: "'s \<Rightarrow> string \<Rightarrow> string \<Rightarrow> bool \<Rightarrow> 's \<times> 64 word \<times> 64 word"
    and restore :: "'s \<Rightarrow> string \<Rightarrow> string \<Rightarrow> 64 word \<Rightarrow> 64 word \<Rightarrow> 's"
    and usage :: "'s \<Rightarrow> string \<Rightarrow> string \<Rightarrow> 64 word \<times> 64 word"
    and tracked :: "'s \<Rightarrow> string \<Rightarrow> string \<Rightarrow> bool \<times> bool"
    and apart :: "string \<Rightarrow> string \<Rightarrow> bool"
  assumes get_value: "snd (get s t u r) = usage s t u"
    and get_reset: "t' = t \<or> apart t t' \<Longrightarrow>
      usage (fst (get s t u True)) t' u' = (if t' = t \<and> u' = u then (0, 0) else usage s t' u')"
    and get_tracked: "tracked (fst (get s t u r)) t' u' = tracked s t' u'"
    and restore_adds: "t' = t \<or> apart t t' \<Longrightarrow>
      usage (restore s t u a b) t' u' =
      (if t' = t \<and> u' = u
       then (fst (usage s t u) + (if fst (tracked s t u) \<and> 0 <s a then a else 0),
             snd (usage s t u) + (if snd (tracked s t u) \<and> 0 <s b then b else 0))
       else usage s t' u')"
    and restore_tracked: "tracked (restore s t u a b) t' u' = tracked s t' u'"
    and untracked_zero: "\<not> fst (tracked s t u) \<Longrightarrow> fst (usage s t u) = 0"
      "\<not> snd (tracked s t u) \<Longrightarrow> snd (usage s t u) = 0"
begin

lemma collect_tracked: "tracked (fst (collect_usage get tag users s)) t u = tracked s t u"
proof (induction users arbitrary: s)
  case (Cons x users)
  obtain s1 a b where "get s tag (ui_Uuid x) True = (s1, a, b)" by (metis prod_cases3)
  then show ?case
    using Cons.IH [of s1] get_tracked [of s tag "ui_Uuid x" True t u] by (simp add: split_def)
qed simp

lemma collect_counters:
  "t = tag \<or> apart tag t \<Longrightarrow>
   usage (fst (collect_usage get tag users s)) t u =
     (if t = tag \<and> u \<in> ui_Uuid ` set users then (0, 0) else usage s t u)"
proof (induction users arbitrary: s)
  case (Cons x users)
  obtain s1 a b where "get s tag (ui_Uuid x) True = (s1, a, b)" by (metis prod_cases3)
  then show ?case
    using Cons.IH [of s1] Cons.prems get_reset [of t tag s "ui_Uuid x" u] by (auto simp: split_def)
qed simp

text \<open>What was read is, for each user once, exactly the usage the counters had.\<close>

lemma collect_samples:
  assumes "distinct (map ui_Uuid users)"
  shows "snd (collect_usage get tag users s) =
     map (\<lambda>x. (x, \<lparr>ru_uuid = ui_Uuid x, ru_up = fst (usage s tag (ui_Uuid x)),
                   ru_down = snd (usage s tag (ui_Uuid x))\<rparr>))
       (filter (\<lambda>x. 0 <s fst (usage s tag (ui_Uuid x)) \<or> 0 <s snd (usage s tag (ui_Uuid x))) users)"
  using assms
proof (induction users arbitrary: s)
  case (Cons x users)
  obtain s1 a b where g: "get s tag (ui_Uuid x) True = (s1, a, b)" by (metis prod_cases3)
  then have v: "usage s tag (ui_Uuid x) = (a, b)" using get_value [of s tag "ui_Uuid x" True] by simp
  have "usage s1 tag (ui_Uuid y) = usage s tag (ui_Uuid y)" if "y \<in> set users" for y
  proof -
    have "ui_Uuid y \<noteq> ui_Uuid x" using that Cons.prems by (auto simp: image_iff)
    then show ?thesis using g get_reset [of tag tag s "ui_Uuid x" "ui_Uuid y"] by simp
  qed
  then have "snd (collect_usage get tag users s1) =
     map (\<lambda>x. (x, \<lparr>ru_uuid = ui_Uuid x, ru_up = fst (usage s tag (ui_Uuid x)),
                   ru_down = snd (usage s tag (ui_Uuid x))\<rparr>))
       (filter (\<lambda>x. 0 <s fst (usage s tag (ui_Uuid x)) \<or> 0 <s snd (usage s tag (ui_Uuid x))) users)"
    using Cons.IH [of s1] Cons.prems
    by (simp cong: filter_cong)
  then show ?case using g v by (simp add: split_def)
qed simp

lemma restore_all:
  assumes "distinct (map ru_uuid rs)" and "t = tag \<or> apart tag t"
  shows "usage (restore_usage restore tag rs s) t u =
     (case find (\<lambda>r. ru_uuid r = u) rs of
        Some r \<Rightarrow> if t = tag
                  then (fst (usage s t u) + (if fst (tracked s tag u) \<and> 0 <s ru_up r then ru_up r else 0),
                        snd (usage s t u) + (if snd (tracked s tag u) \<and> 0 <s ru_down r then ru_down r else 0))
                  else usage s t u
      | None \<Rightarrow> usage s t u)"
  using assms(1)
proof (induction rs arbitrary: s)
  case (Cons r rs)
  let ?s = "restore s tag (ru_uuid r) (ru_up r) (ru_down r)"
  have "find (\<lambda>r. ru_uuid r = u) rs = None" if "ru_uuid r = u"
    using that Cons.prems by (auto simp: find_None_iff image_iff)
  then show ?case
    using Cons.IH [of ?s] Cons.prems
      restore_adds [OF assms(2), of s "ru_uuid r" "ru_up r" "ru_down r"] restore_tracked [of s tag "ru_uuid r"]
    by (auto simp: restore_usage_def split: option.splits)
qed (simp add: restore_usage_def)

lemma nonneg_pos: "0 \<le>s a \<Longrightarrow> (if 0 <s a then a else 0) = a" for a :: "64 word"
  using nonneg_cases by auto

lemma find_sample:
  assumes "distinct (map ui_Uuid users)" and "x \<in> set users"
  shows "find (\<lambda>r. ru_uuid r = ui_Uuid x) (map snd (snd (collect_usage get tag users s))) =
     (if 0 <s fst (usage s tag (ui_Uuid x)) \<or> 0 <s snd (usage s tag (ui_Uuid x))
      then Some \<lparr>ru_uuid = ui_Uuid x, ru_up = fst (usage s tag (ui_Uuid x)),
                 ru_down = snd (usage s tag (ui_Uuid x))\<rparr> else None)"
  unfolding collect_samples [OF assms(1)]
  using assms
  by (induction users) (auto simp: find_None_iff image_iff)

lemma find_no_sample:
  assumes "distinct (map ui_Uuid users)" and "u \<notin> ui_Uuid ` set users"
  shows "find (\<lambda>r. ru_uuid r = u) (map snd (snd (collect_usage get tag users s))) = None"
  unfolding collect_samples [OF assms(1)] using assms(2) by (auto simp: find_None_iff)

lemma distinct_samples:
  "distinct (map ui_Uuid users) \<Longrightarrow> distinct (map ru_uuid (map snd (snd (collect_usage get tag users s))))"
  by (simp add: collect_samples comp_def distinct_map_filter)

text \<open>
  A failed report loses nothing: whatever traffic arrived between the reading and the putting
  back (the state \<open>s'\<close>), every counter ends as what it holds then plus what was read.
\<close>

lemma failed_report_restores:
  assumes "distinct (map ui_Uuid users)"
    and "\<And>x. x \<in> set users \<Longrightarrow> nonneg_usage (usage s tag (ui_Uuid x))"
    and "\<And>u. (fst (tracked s tag u) \<longrightarrow> fst (tracked s' tag u)) \<and> (snd (tracked s tag u) \<longrightarrow> snd (tracked s' tag u))"
    and "t = tag \<or> apart tag t"
  shows "usage (restore_usage restore tag (map snd (snd (collect_usage get tag users s))) s') t u =
     (if t = tag \<and> u \<in> ui_Uuid ` set users
      then (fst (usage s' t u) + fst (usage s t u), snd (usage s' t u) + snd (usage s t u))
      else usage s' t u)"
proof -
  note all = restore_all [where tag = tag and s = s' and t = t and u = u,
      OF distinct_samples [OF assms(1)] assms(4), of tag s]
  have zero: "fst (usage s tag u) = 0 \<or> fst (tracked s' tag u)" "snd (usage s tag u) = 0 \<or> snd (tracked s' tag u)"
    using untracked_zero [of s tag u] assms(3) [of u] by blast+
  show ?thesis
  proof (cases "u \<in> ui_Uuid ` set users")
    case False
    then show ?thesis using all find_no_sample [OF assms(1)] by simp
  next
    case True
    then obtain x where x: "x \<in> set users" "u = ui_Uuid x" by blast
    have nn: "0 \<le>s fst (usage s tag u)" "0 \<le>s snd (usage s tag u)"
      using assms(2) [OF x(1)] x(2) by (simp_all add: nonneg_usage_def)
    show ?thesis
      using all find_sample [OF assms(1) x(1), of tag s] True zero nonneg_cases [OF nn(1)] nonneg_cases [OF nn(2)]
      by (auto simp: prod_eq_iff x(2) [symmetric])
  qed
qed

end


section \<open>The counters of sing (\<open>core/sing/user.go\<close>)\<close>

text \<open>\<open>HookServer.counter\<close>: the traffic counter of every inbound, by tag.\<close>

type_synonym hook_counters = "(string, TrafficCounter) gomap"

definition Sing_GetUserTraffic ::
  "hook_counters \<Rightarrow> string \<Rightarrow> string \<Rightarrow> bool \<Rightarrow> hook_counters \<times> 64 word \<times> 64 word" where
  "Sing_GetUserTraffic counter tag uuid reset =
     (case mload counter tag of
        Some c \<Rightarrow>
          let up = GetUpCount c uuid;
              down = GetDownCount c uuid
          in (if reset then mstore counter tag (TrafficCounter_Reset c uuid) else counter, up, down)
      | None \<Rightarrow> (counter, 0, 0))"

definition Sing_RestoreUserTraffic ::
  "hook_counters \<Rightarrow> string \<Rightarrow> string \<Rightarrow> 64 word \<Rightarrow> 64 word \<Rightarrow> hook_counters" where
  "Sing_RestoreUserTraffic counter tag uuid up down =
     (case mload counter tag of
        Some c \<Rightarrow> mstore counter tag (TrafficCounter_Restore c uuid up down)
      | None \<Rightarrow> counter)"

definition hook_usage :: "hook_counters \<Rightarrow> string \<Rightarrow> string \<Rightarrow> 64 word \<times> 64 word" where
  "hook_usage counter tag uuid =
     (case mload counter tag of Some c \<Rightarrow> (GetUpCount c uuid, GetDownCount c uuid) | None \<Rightarrow> (0, 0))"

definition hook_tracked :: "hook_counters \<Rightarrow> string \<Rightarrow> string \<Rightarrow> bool \<times> bool" where
  "hook_tracked counter tag uuid =
     (case mload counter tag of Some c \<Rightarrow> (has_counter c uuid, has_counter c uuid) | None \<Rightarrow> (False, False))"

lemmas hook_defs = Sing_GetUserTraffic_def Sing_RestoreUserTraffic_def hook_usage_def hook_tracked_def

interpretation sing: core_traffic Sing_GetUserTraffic Sing_RestoreUserTraffic hook_usage hook_tracked "(\<noteq>)"
  by unfold_locales (auto simp: hook_defs no_counter_zero Let_def split: option.splits)


section \<open>The counters of hysteria2 (\<open>core/hy2/user.go\<close>)\<close>

text \<open>
  A node of the core; \<open>None\<close> for a traffic logger of another type. The server handle and the zap
  logger have no part in the accounting.
\<close>

record HookServer =
  hs_Tag :: string
  hs_Counter :: hook_counters

record Hysteria2node =
  hn_Tag :: string
  hn_TrafficLogger :: "HookServer option"

type_synonym hy2_nodes = "(string, Hysteria2node) gomap"

definition Hy2_getNode :: "hy2_nodes \<Rightarrow> string \<Rightarrow> Hysteria2node option" where
  "Hy2_getNode Hy2nodes tag = mload Hy2nodes tag"

definition Hy2_setNode :: "hy2_nodes \<Rightarrow> string \<Rightarrow> Hysteria2node \<Rightarrow> hy2_nodes" where
  "Hy2_setNode Hy2nodes tag n = mstore Hy2nodes tag n"

definition Hy2_deleteNode :: "hy2_nodes \<Rightarrow> string \<Rightarrow> hy2_nodes" where
  "Hy2_deleteNode Hy2nodes tag = mdelete Hy2nodes tag"

definition Hy2_GetUserTraffic ::
  "hy2_nodes \<Rightarrow> string \<Rightarrow> string \<Rightarrow> bool \<Rightarrow> hy2_nodes \<times> 64 word \<times> 64 word" where
  "Hy2_GetUserTraffic h tag uuid reset =
     (case Hy2_getNode h tag of
        None \<Rightarrow> (h, 0, 0)
      | Some node \<Rightarrow>
          (case hn_TrafficLogger node of
             None \<Rightarrow> (h, 0, 0)
           | Some logger \<Rightarrow>
               (case mload (hs_Counter logger) tag of
                  Some c \<Rightarrow>
                    let up = GetUpCount c uuid;
                        down = GetDownCount c uuid
                    in (if reset
                        then Hy2_setNode h tag (node\<lparr>hn_TrafficLogger := Some (logger\<lparr>hs_Counter :=
                               mstore (hs_Counter logger) tag (TrafficCounter_Reset c uuid)\<rparr>)\<rparr>)
                        else h, up, down)
                | None \<Rightarrow> (h, 0, 0))))"

definition Hy2_RestoreUserTraffic ::
  "hy2_nodes \<Rightarrow> string \<Rightarrow> string \<Rightarrow> 64 word \<Rightarrow> 64 word \<Rightarrow> hy2_nodes" where
  "Hy2_RestoreUserTraffic h tag uuid up down =
     (case Hy2_getNode h tag of
        None \<Rightarrow> h
      | Some node \<Rightarrow>
          (case hn_TrafficLogger node of
             None \<Rightarrow> h
           | Some logger \<Rightarrow>
               (case mload (hs_Counter logger) tag of
                  Some c \<Rightarrow>
                    Hy2_setNode h tag (node\<lparr>hn_TrafficLogger := Some (logger\<lparr>hs_Counter :=
                      mstore (hs_Counter logger) tag (TrafficCounter_Restore c uuid up down)\<rparr>)\<rparr>)
                | None \<Rightarrow> h)))"

text \<open>The counter of a node of hysteria2, and what it holds for a user.\<close>

definition hy2_counter :: "hy2_nodes \<Rightarrow> string \<Rightarrow> TrafficCounter option" where
  "hy2_counter h tag =
     Option.bind (mload h tag) (\<lambda>node. Option.bind (hn_TrafficLogger node) (\<lambda>logger. mload (hs_Counter logger) tag))"

definition hy2_usage :: "hy2_nodes \<Rightarrow> string \<Rightarrow> string \<Rightarrow> 64 word \<times> 64 word" where
  "hy2_usage h tag uuid =
     (case hy2_counter h tag of Some c \<Rightarrow> (GetUpCount c uuid, GetDownCount c uuid) | None \<Rightarrow> (0, 0))"

definition hy2_tracked :: "hy2_nodes \<Rightarrow> string \<Rightarrow> string \<Rightarrow> bool \<times> bool" where
  "hy2_tracked h tag uuid =
     (case hy2_counter h tag of Some c \<Rightarrow> (has_counter c uuid, has_counter c uuid) | None \<Rightarrow> (False, False))"

lemma hy2_counter_ops:
  "hy2_counter (fst (Hy2_GetUserTraffic h tag uuid True)) t =
     (if t = tag then map_option (\<lambda>c. TrafficCounter_Reset c uuid) (hy2_counter h t) else hy2_counter h t)"
  "fst (Hy2_GetUserTraffic h tag uuid False) = h"
  "hy2_counter (Hy2_RestoreUserTraffic h tag uuid a b) t =
     (if t = tag then map_option (\<lambda>c. TrafficCounter_Restore c uuid a b) (hy2_counter h t) else hy2_counter h t)"
  "snd (Hy2_GetUserTraffic h tag uuid r) = hy2_usage h tag uuid"
  by (auto simp: hy2_counter_def hy2_usage_def Hy2_GetUserTraffic_def Hy2_RestoreUserTraffic_def
      Hy2_getNode_def Hy2_setNode_def Let_def split: option.splits)

lemma hy2_get_counter:
  "hy2_counter (fst (Hy2_GetUserTraffic h tag uuid r)) t =
     (if r \<and> t = tag then map_option (\<lambda>c. TrafficCounter_Reset c uuid) (hy2_counter h t) else hy2_counter h t)"
  by (cases r) (simp_all add: hy2_counter_ops)

interpretation hy2: core_traffic Hy2_GetUserTraffic Hy2_RestoreUserTraffic hy2_usage hy2_tracked "(\<noteq>)"
  by unfold_locales
    (auto simp: hy2_counter_ops hy2_get_counter, auto simp: hy2_usage_def hy2_tracked_def hy2_counter_ops
      hy2_get_counter no_counter_zero split: option.splits if_splits)

end
