(* ===== verification/Hy2.thy ===== *)
theory Hy2
  imports Limiter Core_Traffic
begin

text \<open>
  \<open>core/hy2\<close>: authentication, the traffic logger and the event logger of the hysteria2 core. The
  hysteria server calls these hooks; the limiters are the table of package \<open>limiter\<close>, keyed by node
  tag. Log output is left out; \<open>Logger.Panic\<close> is a panic (\<open>None\<close>).
\<close>

section \<open>Users (\<open>user.go\<close>)\<close>

text \<open>\<open>V2bX.usersMap\<close>: one map for all nodes of the core.\<close>

type_synonym hy2_auth = "(string, int) gomap"

definition Hy2_Authenticate :: "hy2_auth \<Rightarrow> string \<Rightarrow> bool \<times> string" where
  "Hy2_Authenticate usersMap auth = (if mload usersMap auth \<noteq> None then (True, auth) else (False, []))"

definition Hy2_AddUsers :: "hy2_auth \<Rightarrow> UserInfo list \<Rightarrow> hy2_auth \<times> int" where
  "Hy2_AddUsers usersMap users =
     (fold (\<lambda>user m. mstore m (ui_Uuid user) (ui_Id user)) users usersMap, int (length users))"

definition Hy2_DelUsers :: "hy2_auth \<Rightarrow> UserInfo list \<Rightarrow> hy2_auth" where
  "Hy2_DelUsers usersMap users = fold (\<lambda>user m. mdelete m (ui_Uuid user)) users usersMap"


section \<open>Traffic (\<open>hook.go\<close>)\<close>

text \<open>The limiter of a tag after a change through its pointer.\<close>

definition put_limiter :: "('re, 'b) limiters \<Rightarrow> string \<Rightarrow> ('re, 'b) Limiter \<Rightarrow> ('re, 'b) limiters" where
  "put_limiter limiter tag l = mstore limiter tag l"

definition LogTraffic ::
  "('re, 'b) limiters \<Rightarrow> HookServer \<Rightarrow> string \<Rightarrow> 64 word \<Rightarrow> 64 word
   \<Rightarrow> ('re, 'b) limiters \<times> HookServer \<times> bool" where
  "LogTraffic limiter h uuid tx rx =
     (case GetLimiter limiter (hs_Tag h) of
        Inl _ \<Rightarrow> (limiter, h, False)
      | Inr limiterinfo \<Rightarrow>
          (case ConsumeOverLimit limiterinfo (UserTag (hs_Tag h) uuid) of
             (limiterinfo, over) \<Rightarrow>
               let limiter = put_limiter limiter (hs_Tag h) limiterinfo
               in if over then (limiter, h, False)
                  else
                    let c = (case mload (hs_Counter h) (hs_Tag h) of Some c \<Rightarrow> c | None \<Rightarrow> NewTrafficCounter);
                        tc = TrafficCounter_Tx (TrafficCounter_Rx c uuid rx) uuid tx
                    in (limiter, h\<lparr>hs_Counter := mstore (hs_Counter h) (hs_Tag h) tc\<rparr>, True)))"


section \<open>Events (\<open>logger.go\<close>)\<close>

datatype net_addr = TCPAddr string | UDPAddr string | IPAddr string | OtherAddr string

fun addr_Network :: "net_addr \<Rightarrow> string" where
  "addr_Network (TCPAddr ip) = ''tcp''"
| "addr_Network (UDPAddr ip) = ''udp''"
| "addr_Network (IPAddr ip) = ''ip''"
| "addr_Network (OtherAddr network) = network"

fun extractIPFromAddr :: "net_addr \<Rightarrow> string" where
  "extractIPFromAddr (TCPAddr ip) = ip"
| "extractIPFromAddr (UDPAddr ip) = ip"
| "extractIPFromAddr (IPAddr ip) = ip"
| "extractIPFromAddr (OtherAddr _) = []"

definition serverLogger_Connect ::
  "(duration \<Rightarrow> int \<Rightarrow> int \<Rightarrow> 'b) \<Rightarrow> gotime \<Rightarrow> ('re, 'b) limiters \<Rightarrow> string \<Rightarrow> net_addr \<Rightarrow> string
   \<Rightarrow> ('re, 'b) limiters go" where
  "serverLogger_Connect nb now limiter tag addr uuid =
     (case GetLimiter limiter tag of
        Inl _ \<Rightarrow> None
      | Inr limiterinfo \<Rightarrow>
          let taguuid = UserTag tag uuid;
              ip = extractIPFromAddr addr
          in case CheckLimit nb now limiterinfo taguuid ip (addr_Network addr = ''tcp'') True of
               None \<Rightarrow> None
             | Some (limiterinfo, _, r) \<Rightarrow>
                 if r then Some (put_limiter limiter tag (SetOverLimit limiterinfo taguuid True))
                 else
                   let limiterinfo = SetOverLimit limiterinfo taguuid False
                   in Some (put_limiter limiter tag (limiterinfo\<lparr>li_Online :=
                        OnlineRegistry_Add now (li_Online limiterinfo) taguuid ip (UserID limiterinfo taguuid)\<rparr>)))"

definition serverLogger_Disconnect ::
  "gotime \<Rightarrow> ('re, 'b) limiters \<Rightarrow> string \<Rightarrow> net_addr \<Rightarrow> string \<Rightarrow> ('re, 'b) limiters" where
  "serverLogger_Disconnect now limiter tag addr uuid =
     (case GetLimiter limiter tag of
        Inl _ \<Rightarrow> limiter
      | Inr limiterinfo \<Rightarrow>
          put_limiter limiter tag (limiterinfo\<lparr>li_Online :=
            OnlineRegistry_Del now (li_Online limiterinfo) (UserTag tag uuid) (extractIPFromAddr addr)\<rparr>))"

text \<open>\<open>TCPRequest\<close> and \<open>UDPRequest\<close> differ only in what they log.\<close>

definition serverLogger_Request ::
  "(duration \<Rightarrow> int \<Rightarrow> int \<Rightarrow> 'b) \<Rightarrow> gotime \<Rightarrow> ('re, 'b) limiters \<Rightarrow> string \<Rightarrow> net_addr \<Rightarrow> string
   \<Rightarrow> ('re, 'b) limiters go" where
  "serverLogger_Request nb now limiter tag addr uuid =
     (case GetLimiter limiter tag of
        Inl _ \<Rightarrow> None
      | Inr limiterinfo \<Rightarrow>
          let taguuid = UserTag tag uuid
          in case CheckLimit nb now limiterinfo taguuid (extractIPFromAddr addr) (addr_Network addr = ''tcp'') True of
               None \<Rightarrow> None
             | Some (limiterinfo, _, r) \<Rightarrow> Some (put_limiter limiter tag (SetOverLimit limiterinfo taguuid r)))"

definition serverLogger_TCPRequest ::
  "(duration \<Rightarrow> int \<Rightarrow> int \<Rightarrow> 'b) \<Rightarrow> gotime \<Rightarrow> ('re, 'b) limiters \<Rightarrow> string \<Rightarrow> net_addr \<Rightarrow> string
   \<Rightarrow> ('re, 'b) limiters go" where
  "serverLogger_TCPRequest = serverLogger_Request"

definition serverLogger_UDPRequest ::
  "(duration \<Rightarrow> int \<Rightarrow> int \<Rightarrow> 'b) \<Rightarrow> gotime \<Rightarrow> ('re, 'b) limiters \<Rightarrow> string \<Rightarrow> net_addr \<Rightarrow> string
   \<Rightarrow> ('re, 'b) limiters go" where
  "serverLogger_UDPRequest = serverLogger_Request"


section \<open>Lemmas\<close>

lemma Authenticate_added:
  "fst (Hy2_Authenticate (fst (Hy2_AddUsers m users)) auth) \<longleftrightarrow>
     auth \<in> ui_Uuid ` set users \<or> mload m auth \<noteq> None"
  unfolding Hy2_Authenticate_def Hy2_AddUsers_def fst_conv
  by (induction users arbitrary: m) (auto split: if_splits)

lemma Authenticate_deleted:
  "fst (Hy2_Authenticate (Hy2_DelUsers m users) auth) \<longleftrightarrow> auth \<notin> ui_Uuid ` set users \<and> mload m auth \<noteq> None"
  unfolding Hy2_Authenticate_def Hy2_DelUsers_def
  by (induction users arbitrary: m) (auto split: if_splits)

lemma GetLimiter_put [simp]: "GetLimiter (put_limiter ls tag l) tag = Inr l"
  by (simp add: GetLimiter_def put_limiter_def)

lemma put_put [simp]: "GetLimiter ls tag = Inr x \<Longrightarrow> GetLimiter (put_limiter ls tag' l) tag =
    Inr (if tag = tag' then l else x)"
  by (auto simp: GetLimiter_def put_limiter_def split: option.splits)

text \<open>A known user keeps its entry when a connection is rejected, unless it is being dropped.\<close>

lemma rejected_entry_kept:
  assumes "CheckLimit nb now l t ip isTcp noSSUDP = Some (l', b, True)"
    and "mload (li_UserLimitInfo l) t = Some u" and "ul_ExpireTime u = 0"
  shows "mload (li_UserLimitInfo l') t = Some u"
  using assms(1)
proof (cases rule: CheckLimit_stages)
  case (too_many_devices cl u' l1 n)
  then have "l1 = l\<lparr>li_ConnLimiter := cl\<rparr>" using assms(2,3) by (auto simp: user_speed_limit_def)
  then show ?thesis using check_device_frame [OF too_many_devices(7)] assms(2) by simp
qed (use assms in auto)

lemma unknown_user_rejected:
  assumes "CheckLimit nb now l t ip isTcp noSSUDP = Some (l', b, r)" and "mload (li_UserLimitInfo l) t = None"
  shows "r \<and> mload (li_UserLimitInfo l') t = None"
  using assms(1) by (cases rule: CheckLimit_stages) (use assms(2) in auto)

lemma Consume_Set:
  "mload (li_UserLimitInfo l) t = Some u \<Longrightarrow> snd (ConsumeOverLimit (SetOverLimit l t over) t) = over"
  by (simp add: limiter_defs)


section \<open>Properties\<close>

text \<open>
  A connection of a known user that the limits reject is cut by the next traffic log: the
  flag set by the event makes \<open>LogTraffic\<close> answer false once, without counting the bytes.
\<close>

theorem hy2_rejected_connection_is_cut:
  assumes "GetLimiter ls tag = Inr l" and "mload (li_UserLimitInfo l) (UserTag tag uuid) = Some u"
    and "ul_ExpireTime u = 0"
    and "CheckLimit nb now l (UserTag tag uuid) (extractIPFromAddr addr) (addr_Network addr = ''tcp'') True
       = Some (l', b, True)"
    and "hs_Tag h = tag"
  shows "\<exists>ls1 ls2. serverLogger_Connect nb now ls tag addr uuid = Some ls1
     \<and> LogTraffic ls1 h uuid tx rx = (ls2, h, False)"
proof -
  let ?l = "SetOverLimit l' (UserTag tag uuid) True"
  have "mload (li_UserLimitInfo l') (UserTag tag uuid) = Some u"
    by (rule rejected_entry_kept [OF assms(4,2,3)])
  then have "snd (ConsumeOverLimit ?l (UserTag tag uuid))" by (simp add: Consume_Set)
  then show ?thesis
    using assms(1,4,5)
    by (auto simp: serverLogger_Connect_def LogTraffic_def Let_def split: prod.splits)
qed

theorem hy2_rejected_connection_is_cut_witness:
  "\<exists>ls1 ls2. serverLogger_Connect (\<lambda>_ n _. n) 0 [(''n'', example_limiter)] ''n'' (UDPAddr ''1.2.3.4'') ''u'' = Some ls1
     \<and> LogTraffic ls1 \<lparr>hs_Tag = ''n'', hs_Counter = []\<rparr> ''u'' 1 2 = (ls2, \<lparr>hs_Tag = ''n'', hs_Counter = []\<rparr>, False)"
proof -
  obtain l' b r where c: "CheckLimit (\<lambda>_ n _. n) 0 example_limiter (UserTag ''n'' ''u'')
      (extractIPFromAddr (UDPAddr ''1.2.3.4'')) (addr_Network (UDPAddr ''1.2.3.4'') = ''tcp'') True = Some (l', b, r)"
    using CheckLimit_total [OF example_limiter_inv] by blast
  have "snd (snd (the (CheckLimit (\<lambda>_ n _. n) 0 example_limiter (UserTag ''n'' ''u'')
      (extractIPFromAddr (UDPAddr ''1.2.3.4'')) (addr_Network (UDPAddr ''1.2.3.4'') = ''tcp'') True)))"
    by code_simp
  then have r: "r = True" using c by simp
  have u: "GetLimiter [(''n'', example_limiter)] ''n'' = Inr example_limiter"
      "mload (li_UserLimitInfo example_limiter) (UserTag ''n'' ''u'') = Some (user_limit_of example_user)"
    by (simp add: GetLimiter_def mload_def) code_simp
  show ?thesis
    by (rule hy2_rejected_connection_is_cut [OF u _ c [unfolded r]]) (simp_all add: user_limit_of_def)
qed

text \<open>
  A user of one hysteria2 node is served by every other node of the core: the nodes share
  one table of users, so the user authenticates everywhere; on a node that does not know the user
  the limiter rejects the connection, but there is no entry to flag, so the traffic is let through.
\<close>

theorem hy2_foreign_user_is_served:
  assumes "v \<in> set others" and "ui_Uuid v = uuid"
    and "GetLimiter ls tag = Inr l" and "limiter_inv l" and "mload (li_UserLimitInfo l) (UserTag tag uuid) = None"
    and "hs_Tag h = tag"
  shows "fst (Hy2_Authenticate (fst (Hy2_AddUsers m others)) uuid)
     \<and> (\<exists>l1 b. CheckLimit nb now l (UserTag tag uuid) (extractIPFromAddr addr) (addr_Network addr = ''tcp'') True
           = Some (l1, b, True))
     \<and> (\<exists>ls1 ls2 h'. serverLogger_Connect nb now ls tag addr uuid = Some ls1
          \<and> LogTraffic ls1 h uuid tx rx = (ls2, h', True))"
proof -
  obtain l1 b r where c: "CheckLimit nb now l (UserTag tag uuid) (extractIPFromAddr addr)
      (addr_Network addr = ''tcp'') True = Some (l1, b, r)"
    using CheckLimit_total [OF assms(4)] by blast
  have r: r and gone: "mload (li_UserLimitInfo l1) (UserTag tag uuid) = None"
    using unknown_user_rejected [OF c assms(5)] by simp_all
  have "SetOverLimit l1 (UserTag tag uuid) True = l1" "ConsumeOverLimit l1 (UserTag tag uuid) = (l1, False)"
    using gone by (simp_all add: limiter_defs)
  then show ?thesis
    using assms(1,2,3,6) c r
    by (auto simp: Authenticate_added serverLogger_Connect_def LogTraffic_def Let_def)
qed

theorem hy2_foreign_user_is_served_witness:
  "fst (Hy2_Authenticate (fst (Hy2_AddUsers [] [example_user\<lparr>ui_Uuid := ''v''\<rparr>])) ''v'')
     \<and> (\<exists>ls1 ls2 h'. serverLogger_Connect (\<lambda>_ n _. n) 0 [(''n'', example_limiter)] ''n'' (UDPAddr ''1.2.3.4'') ''v'' = Some ls1
          \<and> LogTraffic ls1 \<lparr>hs_Tag = ''n'', hs_Counter = []\<rparr> ''v'' 1 2 = (ls2, h', True))"
proof -
  have "GetLimiter [(''n'', example_limiter)] ''n'' = Inr example_limiter" by (simp add: GetLimiter_def mload_def)
  moreover have "mload (li_UserLimitInfo example_limiter) (UserTag ''n'' ''v'') = None" by code_simp
  ultimately show ?thesis
    using hy2_foreign_user_is_served [of "example_user\<lparr>ui_Uuid := ''v''\<rparr>" "[example_user\<lparr>ui_Uuid := ''v''\<rparr>]" "''v''"
        "[(''n'', example_limiter)]" "''n''" example_limiter "\<lparr>hs_Tag = ''n'', hs_Counter = []\<rparr>" "[]"
        "\<lambda>_ n _. n" 0 "UDPAddr ''1.2.3.4''" 1 2] example_limiter_inv by auto
qed

text \<open>
  The disconnect of a rejected connection releases a reference it never took: a device that
  has an open connection loses it from its count, and is dropped as idle while still connected.
\<close>

theorem hy2_rejected_disconnect_unrefs:
  assumes "GetLimiter ls tag = Inr l"
    and "CheckLimit nb now l (UserTag tag uuid) (extractIPFromAddr addr) (addr_Network addr = ''tcp'') True
       = Some (l', b, True)"
    and "normalizeOnlineKey (UserTag tag uuid) (extractIPFromAddr addr) = Some k"
    and "device_refs (li_Online l) k = Some n" and "0 < n"
  shows "\<exists>ls1 l2. serverLogger_Connect nb now ls tag addr uuid = Some ls1
     \<and> GetLimiter (serverLogger_Disconnect later ls1 tag addr uuid) tag = Inr l2
     \<and> device_refs (li_Online l2) k = Some (n - 1)"
proof -
  let ?t = "UserTag tag uuid" and ?ip = "extractIPFromAddr addr"
  have same: "li_Online (SetOverLimit l' ?t True) = li_Online l"
  proof -
    have "li_Online (SetOverLimit l' ?t True) = li_Online l'"
      by (simp add: limiter_defs split: option.splits)
    also have "\<dots> = li_Online l"
      using assms(2)
    proof (cases rule: CheckLimit_stages)
      case (too_many_devices cl u l1 m)
      then show ?thesis
        using check_device_frame [OF too_many_devices(7)] user_speed_limit_frame(5) [OF too_many_devices(5)] by simp
    qed auto
    finally show ?thesis .
  qed
  have "device_refs (OnlineRegistry_Del later (li_Online l) ?t ?ip) k = Some (n - 1)"
    using device_refs_del [of "(?t, ?ip, 1)" k later "li_Online l" k] assms(3-5)
    by (simp add: device_key_def reg_del_def)
  then show ?thesis
    using assms(1,2) same by (simp add: serverLogger_Connect_def serverLogger_Disconnect_def Let_def)
qed

theorem hy2_rejected_disconnect_unrefs_witness:
  "\<exists>ls1 l2. serverLogger_Connect (\<lambda>_ n _. n) 0
       [(''n'', example_limiter\<lparr>li_Online := OnlineRegistry_Add 0 (li_Online example_limiter) ''n|u'' ''1.2.3.4'' 7\<rparr>)]
       ''n'' (UDPAddr ''1.2.3.4'') ''u'' = Some ls1
     \<and> GetLimiter (serverLogger_Disconnect 5 ls1 ''n'' (UDPAddr ''1.2.3.4'') ''u'') ''n'' = Inr l2
     \<and> device_refs (li_Online l2) (''n|u'', ''1.2.3.4'') = Some (1 - 1)"
proof -
  let ?l = "example_limiter\<lparr>li_Online := OnlineRegistry_Add 0 (li_Online example_limiter) ''n|u'' ''1.2.3.4'' 7\<rparr>"
  have inv: "limiter_inv ?l" using example_limiter_inv by (simp add: limiter_inv_def)
  obtain l' b r where c: "CheckLimit (\<lambda>_ n _. n) 0 ?l (UserTag ''n'' ''u'')
      (extractIPFromAddr (UDPAddr ''1.2.3.4'')) (addr_Network (UDPAddr ''1.2.3.4'') = ''tcp'') True = Some (l', b, r)"
    using CheckLimit_total [OF inv] by blast
  have "snd (snd (the (CheckLimit (\<lambda>_ n _. n) 0 ?l (UserTag ''n'' ''u'')
      (extractIPFromAddr (UDPAddr ''1.2.3.4'')) (addr_Network (UDPAddr ''1.2.3.4'') = ''tcp'') True)))"
    by code_simp
  then have r: "r = True" using c by simp
  have g: "GetLimiter [(''n'', ?l)] ''n'' = Inr ?l" by (simp add: GetLimiter_def mload_def)
  have d: "normalizeOnlineKey (UserTag ''n'' ''u'') (extractIPFromAddr (UDPAddr ''1.2.3.4'')) = Some (''n|u'', ''1.2.3.4'')"
    "device_refs (li_Online ?l) (''n|u'', ''1.2.3.4'') = Some 1" by code_simp+
  show ?thesis
    using hy2_rejected_disconnect_unrefs [OF g c [unfolded r] d] by simp
qed
end
