(* ===== verification/Sing_Hook.thy ===== *)
theory Sing_Hook
  imports Hy2
begin

text \<open>
  \<open>core/sing/hook.go\<close>: what happens to a connection that the sing router passes to the tracker.
  The connection itself is not modelled, only what the hook decides about it and what it does to
  the limiter and to the counters; the limiter is reached by the tag of the inbound.
\<close>

record InboundContext =
  ic_Inbound :: string
  ic_User :: string
  ic_SourceAddr :: string
  ic_DestAddr :: string
  ic_DestNetwork :: string

text \<open>
  The connection that is returned: the original one (no limiter), a closed one, or a wrapped one
  with its bucket, whose \<open>onClose\<close> releases what the hook took.
\<close>

datatype 'b routed = Untracked | ClosedByLimit | ClosedByRule | Tracked "'b option"

definition rejected_by_rule ::
  "('re \<Rightarrow> string \<Rightarrow> bool) \<Rightarrow> ('re, 'b) Limiter \<Rightarrow> InboundContext \<Rightarrow> bool" where
  "rejected_by_rule MatchString l m =
     (if CheckDomainRule MatchString l (ic_DestAddr m) then True
      else if ic_DestNetwork m \<noteq> [] then CheckProtocolRule l (ic_DestNetwork m) else False)"

definition hook_counter :: "hook_counters \<Rightarrow> InboundContext \<Rightarrow> hook_counters" where
  "hook_counter counter m =
     (let t = (case mload counter (ic_Inbound m) of None \<Rightarrow> NewTrafficCounter | Some c \<Rightarrow> c)
      in mstore counter (ic_Inbound m) (GetCounter t (ic_User m)))"

definition RoutedConnection ::
  "(duration \<Rightarrow> int \<Rightarrow> int \<Rightarrow> 'b) \<Rightarrow> ('re \<Rightarrow> string \<Rightarrow> bool) \<Rightarrow> gotime \<Rightarrow> ('re, 'b) limiters \<Rightarrow> hook_counters
   \<Rightarrow> InboundContext \<Rightarrow> (('re, 'b) limiters \<times> hook_counters \<times> 'b routed) go" where
  "RoutedConnection nb MatchString now limiter counter m =
     (case GetLimiter limiter (ic_Inbound m) of
        Inl _ \<Rightarrow> Some (limiter, counter, Untracked)
      | Inr l \<Rightarrow>
          let taguuid = UserTag (ic_Inbound m) (ic_User m);
              ip = ic_SourceAddr m
          in case CheckLimit nb now l taguuid ip True True of
               None \<Rightarrow> None
             | Some (l, b, r) \<Rightarrow>
                 if r then Some (put_limiter limiter (ic_Inbound m) l, counter, ClosedByLimit)
                 else if rejected_by_rule MatchString l m
                 then Some (put_limiter limiter (ic_Inbound m) l, counter, ClosedByRule)
                 else
                   let counter = hook_counter counter m;
                       l = l\<lparr>li_Online := OnlineRegistry_Add now (li_Online l) taguuid ip (UserID l taguuid)\<rparr>
                   in Some (put_limiter limiter (ic_Inbound m) l, counter, Tracked b))"

definition RoutedPacketConnection ::
  "(duration \<Rightarrow> int \<Rightarrow> int \<Rightarrow> 'b) \<Rightarrow> ('re \<Rightarrow> string \<Rightarrow> bool) \<Rightarrow> gotime \<Rightarrow> ('re, 'b) limiters \<Rightarrow> hook_counters
   \<Rightarrow> InboundContext \<Rightarrow> (('re, 'b) limiters \<times> hook_counters \<times> 'b routed) go" where
  "RoutedPacketConnection nb MatchString now limiter counter m =
     (case GetLimiter limiter (ic_Inbound m) of
        Inl _ \<Rightarrow> Some (limiter, counter, Untracked)
      | Inr l \<Rightarrow>
          let taguuid = UserTag (ic_Inbound m) (ic_User m);
              ip = ic_SourceAddr m
          in case CheckLimit nb now l taguuid ip False False of
               None \<Rightarrow> None
             | Some (l, b, r) \<Rightarrow>
                 if r then Some (put_limiter limiter (ic_Inbound m) l, counter, ClosedByLimit)
                 else if rejected_by_rule MatchString l m
                 then Some (put_limiter limiter (ic_Inbound m) l, counter, ClosedByRule)
                 else
                   let counter = hook_counter counter m;
                       l = l\<lparr>li_Online := OnlineRegistry_Add now (li_Online l) taguuid ip (UserID l taguuid)\<rparr>
                   in Some (put_limiter limiter (ic_Inbound m) l, counter, Tracked None))"

text \<open>The \<open>onClose\<close> functions of the two kinds of connection.\<close>

definition conn_onClose :: "gotime \<Rightarrow> ('re, 'b) limiters \<Rightarrow> InboundContext \<Rightarrow> ('re, 'b) limiters go" where
  "conn_onClose now limiter m =
     (case GetLimiter limiter (ic_Inbound m) of
        Inl _ \<Rightarrow> Some limiter
      | Inr l \<Rightarrow>
          let taguuid = UserTag (ic_Inbound m) (ic_User m);
              l = l\<lparr>li_Online := OnlineRegistry_Del now (li_Online l) taguuid (ic_SourceAddr m)\<rparr>
          in map_option (\<lambda>c. put_limiter limiter (ic_Inbound m) (l\<lparr>li_ConnLimiter := c\<rparr>))
               (DelConnCount (li_ConnLimiter l) taguuid (ic_SourceAddr m)))"

definition packet_onClose :: "gotime \<Rightarrow> ('re, 'b) limiters \<Rightarrow> InboundContext \<Rightarrow> ('re, 'b) limiters" where
  "packet_onClose now limiter m =
     (case GetLimiter limiter (ic_Inbound m) of
        Inl _ \<Rightarrow> limiter
      | Inr l \<Rightarrow>
          put_limiter limiter (ic_Inbound m) (l\<lparr>li_Online :=
            OnlineRegistry_Del now (li_Online l) (UserTag (ic_Inbound m) (ic_User m)) (ic_SourceAddr m)\<rparr>))"

text \<open>\<open>trackedConn.Close\<close>: \<open>sync.Once\<close> runs \<open>onClose\<close> on the first call only.\<close>

definition trackedConn_Close :: "('s \<Rightarrow> 's go) \<Rightarrow> bool \<times> 's \<Rightarrow> (bool \<times> 's) go" where
  "trackedConn_Close onClose st =
     (case st of (once, s) \<Rightarrow> if once then Some (once, s) else map_option (Pair True) (onClose s))"

fun close_times :: "nat \<Rightarrow> ('s \<Rightarrow> 's go) \<Rightarrow> bool \<times> 's \<Rightarrow> (bool \<times> 's) go" where
  "close_times 0 onClose st = Some st"
| "close_times (Suc n) onClose st = Option.bind (trackedConn_Close onClose st) (close_times n onClose)"

lemma close_times_once: "close_times (Suc n) onClose (False, s) = map_option (Pair True) (onClose s)"
proof -
  have "close_times n onClose (True, s') = Some (True, s')" for s'
    by (induction n) (simp_all add: trackedConn_Close_def)
  then show ?thesis by (simp add: trackedConn_Close_def map_option_case Option.bind_def split: option.splits)
qed

lemma admitted_count:
  assumes "limiter_inv l" and "CheckLimit nb now l t ip True noSSUDP = Some (l', b, False)"
    and "cl_connLimit (li_ConnLimiter l) \<noteq> 0"
  shows "cl_connLimit (li_ConnLimiter l') = cl_connLimit (li_ConnLimiter l)
     \<and> mload (cl_count (li_ConnLimiter l')) u =
        (if u = t then Some (mget 0 (cl_count (li_ConnLimiter l)) t + 1) else mload (cl_count (li_ConnLimiter l)) u)"
  using assms(2)
proof (cases rule: CheckLimit_stages)
  case (admitted cl u' l1 n l2 l3)
  have "li_ConnLimiter l2 = li_ConnLimiter l1"
    using check_device_frame [OF admitted(5)] admitted(6) by (cases noSSUDP) simp_all
  then have "li_ConnLimiter l' = cl"
    using admitted(8) speed_bucket_frame(3) [OF admitted(7)] user_speed_limit_frame(6) [OF admitted(4)] by simp
  then show ?thesis
    using AddConnCount_accept_count [OF limiter_invD(1) [OF assms(1)] admitted(3), of u]
      AddConnCount_frame [OF admitted(3)] assms(3)
    by (simp add: count_addConnCount)
qed auto

lemma routed_admitted:
  assumes "RoutedConnection nb match now ls cs m = Some (ls', cs', res)" and "res = ClosedByRule \<or> (\<exists>b. res = Tracked b)"
  shows "\<exists>l l' b. GetLimiter ls (ic_Inbound m) = Inr l
     \<and> CheckLimit nb now l (UserTag (ic_Inbound m) (ic_User m)) (ic_SourceAddr m) True True = Some (l', b, False)
     \<and> (\<exists>l2. GetLimiter ls' (ic_Inbound m) = Inr l2 \<and> li_ConnLimiter l2 = li_ConnLimiter l')"
  using assms
  by (auto simp: RoutedConnection_def Let_def split: sum.splits option.splits if_splits)


section \<open>Properties\<close>

text \<open>
  C13. A tracked TCP connection gives back its connection slot when it is closed, however often
  \<open>Close\<close> is called: every connection counter is as before the connection was admitted.
\<close>

theorem tracked_conn_releases_slot:
  assumes "GetLimiter ls (ic_Inbound m) = Inr l" and "limiter_inv l"
    and "cl_connLimit (li_ConnLimiter l) \<noteq> 0"
    and "RoutedConnection nb match now ls cs m = Some (ls1, cs1, Tracked b)"
  shows "\<exists>ls2 l2. close_times (Suc n) (\<lambda>s. conn_onClose later s m) (False, ls1) = Some (True, ls2)
     \<and> GetLimiter ls2 (ic_Inbound m) = Inr l2
     \<and> (\<forall>u. mload (cl_count (li_ConnLimiter l2)) u = mload (cl_count (li_ConnLimiter l)) u)"
proof -
  let ?t = "UserTag (ic_Inbound m) (ic_User m)"
  obtain l' b' l1 where c: "CheckLimit nb now l ?t (ic_SourceAddr m) True True = Some (l', b', False)"
    and g: "GetLimiter ls1 (ic_Inbound m) = Inr l1" "li_ConnLimiter l1 = li_ConnLimiter l'"
    using routed_admitted [OF assms(4)] assms(1) by auto
  have inv: "conn_inv (li_ConnLimiter l1)"
    using CheckLimit_total [OF assms(2)] c g(2) limiter_invD(1) by (metis option.inject prod.inject)
  obtain c2 where d: "DelConnCount (li_ConnLimiter l1) ?t (ic_SourceAddr m) = Some c2"
      "cl_count c2 = cl_count (delConnCount (li_ConnLimiter l1) ?t)"
    using DelConnCount_total [OF inv] by blast
  have "mload (cl_count c2) u = mload (cl_count (li_ConnLimiter l)) u" for u
    using admitted_count [OF assms(2) c assms(3)] conn_invD(3) [OF limiter_invD(1) [OF assms(2)], of ?t]
    by (fastforce simp: d(2) g(2) count_delConnCount mget_def assms(3) split: option.splits)
  moreover have "conn_onClose later ls1 m = Some (put_limiter ls1 (ic_Inbound m)
      (l1\<lparr>li_Online := OnlineRegistry_Del later (li_Online l1) ?t (ic_SourceAddr m), li_ConnLimiter := c2\<rparr>))"
    using g(1) d(1) by (simp add: conn_onClose_def Let_def)
  ultimately show ?thesis
    unfolding close_times_once by simp
qed

definition example_conn :: InboundContext where
  "example_conn = \<lparr>ic_Inbound = ''n'', ic_User = ''u'', ic_SourceAddr = ''1.2.3.4'', ic_DestAddr = ''ads'',
     ic_DestNetwork = []\<rparr>"

definition example_open_limiter :: "(string, int) Limiter" where
  "example_open_limiter = SetAliveList example_limiter []"

lemma example_open_facts:
  "limiter_inv example_open_limiter" "cl_connLimit (li_ConnLimiter example_open_limiter) \<noteq> 0"
  "GetLimiter [(''n'', example_open_limiter)] (ic_Inbound example_conn) = Inr example_open_limiter"
  subgoal by (simp add: example_open_limiter_def SetAliveList_inv example_limiter_inv)
  subgoal by code_simp
  subgoal by (simp add: GetLimiter_def mload_def example_conn_def)
  done

theorem tracked_conn_releases_slot_witness:
  "\<exists>ls1 cs1 b ls2. RoutedConnection (\<lambda>_ n _. n) (=) 0 [(''n'', example_open_limiter)] [] example_conn
       = Some (ls1, cs1, Tracked b)
     \<and> close_times (Suc 1) (\<lambda>s. conn_onClose 9 s example_conn) (False, ls1) = Some (True, ls2)"
proof -
  let ?r = "RoutedConnection (\<lambda>_ n _. n) (=) 0 [(''n'', example_open_limiter)] [] example_conn"
  have "case ?r of Some (_, _, Tracked _) \<Rightarrow> True | _ \<Rightarrow> False" by code_simp
  then obtain ls1 cs1 b where r: "?r = Some (ls1, cs1, Tracked b)"
    by (auto split: option.splits prod.splits routed.splits)
  show ?thesis
    using tracked_conn_releases_slot [OF example_open_facts(3,1,2) r, of 1 9] r by blast
qed

text \<open>
  A connection that passes the limits and is then closed by a domain or protocol rule keeps
  its connection slot for ever: the hook closes it without the \<open>onClose\<close> that would release it.
\<close>

theorem rule_rejected_conn_leaks_slot:
  assumes "GetLimiter ls (ic_Inbound m) = Inr l" and "limiter_inv l"
    and "cl_connLimit (li_ConnLimiter l) \<noteq> 0"
    and "RoutedConnection nb match now ls cs m = Some (ls1, cs1, ClosedByRule)"
  shows "\<exists>l1. GetLimiter ls1 (ic_Inbound m) = Inr l1
     \<and> mget 0 (cl_count (li_ConnLimiter l1)) (UserTag (ic_Inbound m) (ic_User m)) =
       mget 0 (cl_count (li_ConnLimiter l)) (UserTag (ic_Inbound m) (ic_User m)) + 1"
proof -
  let ?t = "UserTag (ic_Inbound m) (ic_User m)"
  obtain l' b' l1 where c: "CheckLimit nb now l ?t (ic_SourceAddr m) True True = Some (l', b', False)"
    and g: "GetLimiter ls1 (ic_Inbound m) = Inr l1" "li_ConnLimiter l1 = li_ConnLimiter l'"
    using routed_admitted [OF assms(4)] assms(1) by auto
  show ?thesis
    using admitted_count [OF assms(2) c assms(3), of ?t] g by (simp add: mget_def)
qed

theorem rule_rejected_conn_leaks_slot_witness:
  "\<exists>ls1 cs1 l1. RoutedConnection (\<lambda>_ n _. n) (=) 0
       [(''n'', example_open_limiter\<lparr>li_DomainRules := [''ads'']\<rparr>)] [] example_conn = Some (ls1, cs1, ClosedByRule)
     \<and> GetLimiter ls1 ''n'' = Inr l1 \<and> mget 0 (cl_count (li_ConnLimiter l1)) ''n|u'' = 1"
proof -
  let ?l = "example_open_limiter\<lparr>li_DomainRules := [''ads'']\<rparr>"
  let ?r = "RoutedConnection (\<lambda>_ n _. n) (=) 0 [(''n'', ?l)] [] example_conn"
  have "case ?r of Some (_, _, ClosedByRule) \<Rightarrow> True | _ \<Rightarrow> False" by code_simp
  then obtain ls1 cs1 where r: "?r = Some (ls1, cs1, ClosedByRule)"
    by (auto split: option.splits prod.splits routed.splits)
  have g: "GetLimiter [(''n'', ?l)] (ic_Inbound example_conn) = Inr ?l"
    by (simp add: GetLimiter_def mload_def example_conn_def)
  have i: "limiter_inv ?l" "cl_connLimit (li_ConnLimiter ?l) \<noteq> 0"
    using example_open_facts(1,2) by (simp_all add: limiter_inv_def)
  have z: "mget 0 (cl_count (li_ConnLimiter ?l)) ''n|u'' = 0" "UserTag ''n'' ''u'' = ''n|u''" by code_simp+
  show ?thesis
    using rule_rejected_conn_leaks_slot [OF g i r] r z by (simp add: example_conn_def)
qed
end
