(* ===== verification/Node_User.thy ===== *)
theory Node_User
  imports Limiter Core_Traffic
begin

text \<open>
  \<open>node/user.go\<close> and \<open>node/online.go\<close>: what a node reports to its panel (traffic and online
  devices) and how two user lists are compared. The requests to the panel and the core are
  arguments; their outcome decides which branch runs.
\<close>

section \<open>Comparing user lists\<close>

definition userCompareKey :: "UserInfo \<Rightarrow> string" where
  "userCompareKey user =
     strconv_Itoa (ui_Id user) @ ''|'' @ ui_Uuid user @ ''|'' @ strconv_Itoa (ui_SpeedLimit user)
       @ ''|'' @ strconv_Itoa (ui_DeviceLimit user)"

text \<open>The first loop: the index of the last user with each key.\<close>

fun index_users :: "UserInfo list \<Rightarrow> nat \<Rightarrow> (string, nat) gomap \<Rightarrow> (string, nat) gomap" where
  "index_users [] i oldMap = oldMap"
| "index_users (user # users) i oldMap = index_users users (Suc i) (mstore oldMap (userCompareKey user) i)"

text \<open>The second loop: new users, and what is left of the index.\<close>

fun match_users :: "UserInfo list \<Rightarrow> (string, nat) gomap \<Rightarrow> UserInfo list \<Rightarrow> (string, nat) gomap \<times> UserInfo list" where
  "match_users [] oldMap added = (oldMap, added)"
| "match_users (user # users) oldMap added =
     (let key = userCompareKey user
      in if mload oldMap key = None then match_users users oldMap (added @ [user])
         else match_users users (mdelete oldMap key) added)"

text \<open>\<open>old[index]\<close> is in range: the indices come from the first loop.\<close>

definition compareUserList :: "UserInfo list \<Rightarrow> UserInfo list \<Rightarrow> UserInfo list \<times> UserInfo list" where
  "compareUserList old new =
     (case match_users new (index_users old 0 []) [] of
        (oldMap, added) \<Rightarrow> (map (\<lambda>(_, index). old ! index) oldMap, added))"

lemma userCompareKey_inject: "userCompareKey u = userCompareKey v \<longleftrightarrow> u = v"
proof
  assume eq: "userCompareKey u = userCompareKey v"
  let ?rest = "\<lambda>w. ui_Uuid w @ ''|'' @ strconv_Itoa (ui_SpeedLimit w) @ ''|'' @ strconv_Itoa (ui_DeviceLimit w)"
  have 1: "ui_Id u = ui_Id v" "?rest u = ?rest v"
    using eq append_sep_inject [OF Itoa_no_bar [of "ui_Id u"] Itoa_no_bar [of "ui_Id v"]]
    by (simp_all add: userCompareKey_def)
  have 2: "ui_DeviceLimit u = ui_DeviceLimit v"
      "ui_Uuid u @ ''|'' @ strconv_Itoa (ui_SpeedLimit u) = ui_Uuid v @ ''|'' @ strconv_Itoa (ui_SpeedLimit v)"
    using 1(2) append_sep_inject_right [OF Itoa_no_bar [of "ui_DeviceLimit u"] Itoa_no_bar [of "ui_DeviceLimit v"],
        of "ui_Uuid u @ ''|'' @ strconv_Itoa (ui_SpeedLimit u)" "ui_Uuid v @ ''|'' @ strconv_Itoa (ui_SpeedLimit v)"]
    by simp_all
  have "ui_Uuid u = ui_Uuid v" "ui_SpeedLimit u = ui_SpeedLimit v"
    using 2(2) append_sep_inject_right [OF Itoa_no_bar [of "ui_SpeedLimit u"] Itoa_no_bar [of "ui_SpeedLimit v"]]
    by simp_all
  with 1 2 show "u = v" by simp
qed simp

lemma index_users_lookup:
  "mload (index_users users i m) k =
     (case map_of (rev (zip (map userCompareKey users) [i..<i + length users])) k of
        Some j \<Rightarrow> Some j | None \<Rightarrow> mload m k)"
  by (induction users arbitrary: i m)
    (auto simp: upt_conv_Cons map_add_def simp del: upt_Suc split: option.splits)

lemma index_users_wf: "mwf m \<Longrightarrow> mwf (index_users users i m)"
  by (induction users arbitrary: i m) simp_all

lemma index_users_Some:
  assumes "mload (index_users users 0 []) k = Some j"
  shows "j < length users \<and> userCompareKey (users ! j) = k"
proof -
  have "(k, j) \<in> set (rev (zip (map userCompareKey users) [0..<length users]))"
    using assms by (auto simp: index_users_lookup split: option.splits dest!: map_of_SomeD)
  then show ?thesis by (auto simp: in_set_zip)
qed

lemma index_users_None:
  "mload (index_users users i m) k = None \<longleftrightarrow> k \<notin> userCompareKey ` set users \<and> mload m k = None"
  by (induction users arbitrary: i m) auto

lemma index_users_key: "mload (index_users users 0 []) (userCompareKey u) = None \<longleftrightarrow> u \<notin> set users"
  by (auto simp: index_users_None image_iff userCompareKey_inject)

lemma match_users_spec:
  assumes "distinct new"
  shows "snd (match_users new m added) = added @ filter (\<lambda>u. mload m (userCompareKey u) = None) new
     \<and> (\<forall>k. mload (fst (match_users new m added)) k =
          (if k \<in> userCompareKey ` set new then None else mload m k))
     \<and> (mwf m \<longrightarrow> mwf (fst (match_users new m added)))"
  using assms
proof (induction new arbitrary: m added)
  case (Cons u new)
  have "userCompareKey v \<noteq> userCompareKey u" if "v \<in> set new" for v
    using that Cons.prems by (auto simp: userCompareKey_inject)
  then have "filter (\<lambda>v. mload (mdelete m (userCompareKey u)) (userCompareKey v) = None) new
      = filter (\<lambda>v. mload m (userCompareKey v) = None) new"
    by (intro filter_cong) auto
  then show ?case
    using Cons.IH [of m "added @ [u]"] Cons.IH [of "mdelete m (userCompareKey u)" added] Cons.prems
    by (auto simp: Let_def)
qed simp

lemma compareUserList_sets:
  assumes "distinct new" and "compareUserList old new = (deleted, added)"
  shows "set deleted = set old - set new \<and> distinct deleted \<and> added = filter (\<lambda>u. u \<notin> set old) new"
proof -
  let ?m = "index_users old 0 []"
  obtain m ad where m: "match_users new ?m [] = (m, ad)" by fastforce
  have d: "deleted = map (\<lambda>(_, i). old ! i) m" and a: "added = ad"
    using assms(2) m by (auto simp: compareUserList_def)
  have ad: "ad = filter (\<lambda>u. mload ?m (userCompareKey u) = None) new"
    and look: "mload m k = (if k \<in> userCompareKey ` set new then None else mload ?m k)"
    and wf: "mwf m" for k
    using match_users_spec [OF assms(1), of ?m "[]"] m index_users_wf [of "[]" old 0] by auto
  have key: "i < length old \<and> userCompareKey (old ! i) = k \<and> k \<notin> userCompareKey ` set new" if "(k, i) \<in> set m" for k i
    using that look [of k] index_users_Some [of old k i] mload_Some_iff [OF wf, of k i]
    by (auto split: if_splits)
  have keys: "map userCompareKey deleted = map fst m"
    unfolding d using key by (auto simp: comp_def)
  then have "distinct deleted"
    using wf unfolding mwf_def by (metis distinct_map)
  moreover have "set deleted = set old - set new"
  proof (intro set_eqI iffI)
    fix u assume "u \<in> set deleted"
    then obtain k i where "(k, i) \<in> set m" "u = old ! i" by (auto simp: d)
    then show "u \<in> set old - set new" using key by fastforce
  next
    fix u assume u: "u \<in> set old - set new"
    then obtain i where i: "mload ?m (userCompareKey u) = Some i" using index_users_key by fastforce
    then have "(userCompareKey u, i) \<in> set m"
      using u look [of "userCompareKey u"] mload_Some_iff [OF wf] by (auto simp: image_iff userCompareKey_inject)
    moreover have "old ! i = u" using index_users_Some [OF i] by (simp add: userCompareKey_inject)
    ultimately show "u \<in> set deleted" by (force simp: d)
  qed
  ultimately show ?thesis unfolding a ad by (simp add: index_users_key)
qed


section \<open>Online devices\<close>

text \<open>\<open>lastOnlineUIDs\<close> is a set of user ids: a map to the unit value.\<close>

type_synonym uid_set = "(int, unit) gomap"

definition trackOnlineTransition :: "uid_set \<Rightarrow> OnlineUser list \<Rightarrow> uid_set \<times> int list" where
  "trackOnlineTransition lastOnlineUIDs current =
     (let nxt = fold (\<lambda>u nxt. if ou_UID u > 0 then mstore nxt (ou_UID u) () else nxt) current [];
          stale = sort (map fst (filter (\<lambda>(uid, _). mload nxt uid = None) lastOnlineUIDs))
      in (nxt, stale))"

fun dedupe_loop :: "OnlineUser list \<Rightarrow> (int \<times> string) list \<Rightarrow> OnlineUser list \<Rightarrow> OnlineUser list" where
  "dedupe_loop [] seen result = result"
| "dedupe_loop (onlineUser # users) seen result =
     (let ip = NormalizeIP (ou_IP onlineUser)
      in if ip = [] then dedupe_loop users seen result
         else
           let key = (ou_UID onlineUser, ip)
           in if key \<in> set seen then dedupe_loop users seen result
              else dedupe_loop users (key # seen) (result @ [\<lparr>ou_UID = ou_UID onlineUser, ou_IP = ip\<rparr>]))"

definition dedupeOnlineUsersByIP :: "OnlineUser list \<Rightarrow> OnlineUser list" where
  "dedupeOnlineUsersByIP users = sort_key online_key (dedupe_loop users [] [])"

text \<open>The inner loop over the addresses of one user, then \<open>sort.Strings(result[uid])\<close>.\<close>

fun dedupe_ips ::
  "int \<Rightarrow> string list \<Rightarrow> (int \<times> string) list \<Rightarrow> (int, string list) gomap
   \<Rightarrow> (int \<times> string) list \<times> (int, string list) gomap" where
  "dedupe_ips uid [] seen result = (seen, result)"
| "dedupe_ips uid (ip # ips) seen result =
     (let ip = NormalizeIP ip
      in if ip = [] then dedupe_ips uid ips seen result
         else if (uid, ip) \<in> set seen then dedupe_ips uid ips seen result
         else dedupe_ips uid ips ((uid, ip) # seen) (mstore result uid (mget [] result uid @ [ip])))"

definition dedupeOnlineIPMapByIP :: "(int, string list) gomap \<Rightarrow> (int, string list) gomap" where
  "dedupeOnlineIPMapByIP data =
     snd (fold (\<lambda>uid (seen, result).
        case dedupe_ips uid (mget [] data uid) seen result of
          (seen, result) \<Rightarrow>
            (seen, case mload result uid of
                     None \<Rightarrow> result | Some ips \<Rightarrow> mstore result uid (sort ips)))
       (sort (map fst data)) ([], []))"

definition buildOnlineIPMapPayload :: "(int, string list) gomap option \<Rightarrow> (int, string list) gomap" where
  "buildOnlineIPMapPayload data =
     (case data of
        None \<Rightarrow> []
      | Some data \<Rightarrow>
          fold (\<lambda>(uid, ips) payload. if ips = [] then payload else mstore payload uid ips)
            (dedupeOnlineIPMapByIP data) [])"

definition buildOnlineIPPayload :: "OnlineUser list \<Rightarrow> (int, string list) gomap" where
  "buildOnlineIPPayload onlineUsers =
     buildOnlineIPMapPayload (Some
       (fold (\<lambda>u data. if ou_IP u = [] then data
                        else mstore data (ou_UID u) (mget [] data (ou_UID u) @ [ou_IP u])) onlineUsers []))"

text \<open>The device of an online user as the panel counts it.\<close>

definition norm_device :: "OnlineUser \<Rightarrow> OnlineUser" where
  "norm_device u = \<lparr>ou_UID = ou_UID u, ou_IP = NormalizeIP (ou_IP u)\<rparr>"

lemma dedupe_loop_spec:
  assumes "set seen = online_key ` set result" and "distinct result"
  shows "distinct (dedupe_loop users seen result)
     \<and> set (dedupe_loop users seen result) = set result \<union> {d \<in> norm_device ` set users. ou_IP d \<noteq> []}"
  using assms
proof (induction users arbitrary: seen result)
  case (Cons u users)
  let ?d = "norm_device u"
  have key: "(ou_UID u, NormalizeIP (ou_IP u)) \<in> set seen \<longleftrightarrow> ?d \<in> set result"
    using Cons.prems(1) inj_image_mem_iff [OF inj_online_key, of ?d "set result"]
    by (simp add: norm_device_def online_key_def)
  show ?case
  proof (cases "NormalizeIP (ou_IP u) = [] \<or> ?d \<in> set result")
    case True
    then have "dedupe_loop (u # users) seen result = dedupe_loop users seen result"
      using key by (auto simp: Let_def)
    then show ?thesis using Cons True by (auto simp: norm_device_def)
  next
    case False
    then have "dedupe_loop (u # users) seen result =
        dedupe_loop users ((ou_UID u, NormalizeIP (ou_IP u)) # seen) (result @ [?d])"
      using key by (simp add: Let_def norm_device_def)
    moreover have "set ((ou_UID u, NormalizeIP (ou_IP u)) # seen) = online_key ` set (result @ [?d])"
      using Cons.prems(1) by (simp add: norm_device_def online_key_def)
    ultimately show ?thesis
      using Cons.IH [of "(ou_UID u, NormalizeIP (ou_IP u)) # seen" "result @ [?d]"] Cons.prems False
      by (auto simp: norm_device_def)
  qed
qed auto

text \<open>What one round of the map version adds for a user.\<close>

lemma dedupe_ips_spec:
  assumes "{ip. (uid, ip) \<in> set seen} = set (mget [] result uid)" and "distinct (mget [] result uid)"
    and "dedupe_ips uid ips seen result = (seen', result')"
  shows "distinct (mget [] result' uid)
     \<and> set (mget [] result' uid) = set (mget [] result uid) \<union> (NormalizeIP ` set ips - {[]})
     \<and> (\<forall>v. v \<noteq> uid \<longrightarrow> mget [] result' v = mget [] result v)
     \<and> (\<forall>v. v \<noteq> uid \<longrightarrow> {ip. (v, ip) \<in> set seen'} = {ip. (v, ip) \<in> set seen})"
  using assms
proof (induction uid ips seen result rule: dedupe_ips.induct)
  case (1 uid seen result)
  then show ?case by auto
next
  case (2 uid ip ips seen result)
  let ?n = "NormalizeIP ip"
  show ?case
  proof (cases "?n = [] \<or> (uid, ?n) \<in> set seen")
    case True
    then have rec: "dedupe_ips uid ips seen result = (seen', result')"
      using "2.prems"(3) by (auto simp: Let_def split: if_splits)
    have ih: "distinct (mget [] result' uid)
     \<and> set (mget [] result' uid) = set (mget [] result uid) \<union> (NormalizeIP ` set ips - {[]})
     \<and> (\<forall>v. v \<noteq> uid \<longrightarrow> mget [] result' v = mget [] result v)
     \<and> (\<forall>v. v \<noteq> uid \<longrightarrow> {ip. (v, ip) \<in> set seen'} = {ip. (v, ip) \<in> set seen})"
    proof (cases "?n = []")
      case True
      show ?thesis by (rule "2.IH"(1) [OF refl True "2.prems"(1,2) rec])
    next
      case False
      with True have "(uid, ?n) \<in> set seen" by simp
      show ?thesis by (rule "2.IH"(2) [OF refl False \<open>(uid, ?n) \<in> set seen\<close> "2.prems"(1,2) rec])
    qed
    have "?n = [] \<or> ?n \<in> set (mget [] result uid)" using True "2.prems"(1) by auto
    then show ?thesis using ih by auto
  next
    case False
    let ?r = "mstore result uid (mget [] result uid @ [?n])"
    have rec: "dedupe_ips uid ips ((uid, ?n) # seen) ?r = (seen', result')"
      using "2.prems"(3) False by (simp add: Let_def)
    have pre: "{ip. (uid, ip) \<in> set ((uid, ?n) # seen)} = set (mget [] ?r uid)" "distinct (mget [] ?r uid)"
      using "2.prems"(1,2) False by auto
    have "distinct (mget [] result' uid)
     \<and> set (mget [] result' uid) = set (mget [] ?r uid) \<union> (NormalizeIP ` set ips - {[]})
     \<and> (\<forall>v. v \<noteq> uid \<longrightarrow> mget [] result' v = mget [] ?r v)
     \<and> (\<forall>v. v \<noteq> uid \<longrightarrow> {ip. (v, ip) \<in> set seen'} = {ip. (v, ip) \<in> set ((uid, ?n) # seen)})"
      using False by (intro "2.IH"(3) [OF refl _ _ pre rec]) auto
    then show ?thesis using False by auto
  qed
qed

definition dedupe_uid ::
  "(int, string list) gomap \<Rightarrow> int \<Rightarrow> (int \<times> string) list \<times> (int, string list) gomap
   \<Rightarrow> (int \<times> string) list \<times> (int, string list) gomap" where
  "dedupe_uid data uid st =
     (case dedupe_ips uid (mget [] data uid) (fst st) (snd st) of
        (seen, result) \<Rightarrow>
          (seen, case mload result uid of None \<Rightarrow> result | Some ips \<Rightarrow> mstore result uid (sort ips)))"

lemma dedupeOnlineIPMapByIP_alt:
  "dedupeOnlineIPMapByIP data = snd (fold (dedupe_uid data) (sort (map fst data)) ([], []))"
  unfolding dedupeOnlineIPMapByIP_def
  by (intro arg_cong [where f = snd] fold_cong)
    (auto simp: dedupe_uid_def fun_eq_iff split: prod.splits)

lemma dedupe_uid_step:
  assumes "mget [] (snd st) uid = []" and "{ip. (uid, ip) \<in> set (fst st)} = {}"
  shows "mget [] (snd (dedupe_uid data uid st)) v =
       (if v = uid then sorted_list_of_set (NormalizeIP ` set (mget [] data uid) - {[]}) else mget [] (snd st) v)
     \<and> (v \<noteq> uid \<longrightarrow> {ip. (v, ip) \<in> set (fst (dedupe_uid data uid st))} = {ip. (v, ip) \<in> set (fst st)})"
proof -
  obtain seen result where d: "dedupe_ips uid (mget [] data uid) (fst st) (snd st) = (seen, result)"
    by fastforce
  have sp: "distinct (mget [] result uid)" "set (mget [] result uid) = NormalizeIP ` set (mget [] data uid) - {[]}"
      "v \<noteq> uid \<Longrightarrow> mget [] result v = mget [] (snd st) v"
      "v \<noteq> uid \<Longrightarrow> {ip. (v, ip) \<in> set seen} = {ip. (v, ip) \<in> set (fst st)}"
    using dedupe_ips_spec [OF _ _ d] assms by auto
  have "sort (mget [] result uid) = sorted_list_of_set (NormalizeIP ` set (mget [] data uid) - {[]})"
    unfolding sp(2) [symmetric] using sp(1) by (simp add: sorted_list_of_set_sort_remdups distinct_remdups_id)
  then show ?thesis
    using sp(3,4) d by (auto simp: dedupe_uid_def mget_def split: option.splits)
qed

lemma fold_dedupe_uid:
  assumes "distinct uids" and "\<And>v. v \<in> set uids \<Longrightarrow> mget [] (snd st) v = []"
    and "\<And>v. v \<in> set uids \<Longrightarrow> {ip. (v, ip) \<in> set (fst st)} = {}"
  shows "mget [] (snd (fold (dedupe_uid data) uids st)) v =
     (if v \<in> set uids then sorted_list_of_set (NormalizeIP ` set (mget [] data v) - {[]}) else mget [] (snd st) v)"
  using assms
proof (induction uids arbitrary: st)
  case (Cons uid uids)
  let ?st = "dedupe_uid data uid st"
  have step: "mget [] (snd ?st) w =
       (if w = uid then sorted_list_of_set (NormalizeIP ` set (mget [] data uid) - {[]}) else mget [] (snd st) w)"
     "w \<noteq> uid \<Longrightarrow> {ip. (w, ip) \<in> set (fst ?st)} = {ip. (w, ip) \<in> set (fst st)}" for w
    using dedupe_uid_step [of st uid data w] Cons.prems by auto
  have ih: "mget [] (snd (fold (dedupe_uid data) uids ?st)) v =
     (if v \<in> set uids then sorted_list_of_set (NormalizeIP ` set (mget [] data v) - {[]}) else mget [] (snd ?st) v)"
  proof (rule Cons.IH)
    show "distinct uids" using Cons.prems by simp
    fix w assume "w \<in> set uids"
    then have "w \<noteq> uid" using Cons.prems(1) by auto
    then show "mget [] (snd ?st) w = []" "{ip. (w, ip) \<in> set (fst ?st)} = {}"
      using step [of w] Cons.prems(2,3) \<open>w \<in> set uids\<close> by auto
  qed
  show ?case using ih step(1) [of v] Cons.prems(1) by auto
qed simp

lemma mget_dedupeOnlineIPMapByIP:
  assumes "mwf data"
  shows "mget [] (dedupeOnlineIPMapByIP data) v = sorted_list_of_set (NormalizeIP ` set (mget [] data v) - {[]})"
proof -
  have "mget [] data v = []" if "v \<notin> fst ` set data"
    using that by (simp add: mget_def mload_None_iff [THEN iffD2])
  then show ?thesis
    using assms fold_dedupe_uid [of "sort (map fst data)" "([], [])" data v]
    by (auto simp: dedupeOnlineIPMapByIP_alt mwf_def)
qed

lemma dedupe_ips_wf: "mwf result \<Longrightarrow> mwf (snd (dedupe_ips uid ips seen result))"
  by (induction uid ips seen result rule: dedupe_ips.induct) (simp_all add: Let_def)

lemma mwf_dedupeOnlineIPMapByIP: "mwf (dedupeOnlineIPMapByIP data)"
proof -
  have "mwf (snd (dedupe_uid data uid st))" if "mwf (snd st)" for uid st
    using dedupe_ips_wf [OF that, of uid "mget [] data uid" "fst st"]
    by (auto simp: dedupe_uid_def split: prod.splits option.splits)
  then have "mwf (snd st) \<Longrightarrow> mwf (snd (fold (dedupe_uid data) uids st))" for uids st
    by (induction uids arbitrary: st) simp_all
  then show ?thesis by (simp add: dedupeOnlineIPMapByIP_alt)
qed

lemma fold_payload:
  "distinct (map fst kvs) \<Longrightarrow>
   mload (fold (\<lambda>(uid, ips) payload. if ips = [] then payload else mstore payload uid ips) kvs m) k =
     (case map_of kvs k of Some v \<Rightarrow> if v = [] then mload m k else Some v | None \<Rightarrow> mload m k)"
proof (induction kvs arbitrary: m)
  case (Cons kv kvs)
  obtain j w where kv: "kv = (j, w)" by (cases kv)
  with Cons.prems have "map_of kvs j = None" by (simp add: map_of_eq_None_iff)
  then show ?case using Cons kv by (auto split: option.splits)
qed simp

lemma mload_buildOnlineIPMapPayload:
  assumes "mwf data"
  shows "mload (buildOnlineIPMapPayload (Some data)) uid =
     (let ips = sorted_list_of_set (NormalizeIP ` set (mget [] data uid) - {[]}) in if ips = [] then None else Some ips)"
proof -
  let ?d = "dedupeOnlineIPMapByIP data"
  have "mload (buildOnlineIPMapPayload (Some data)) uid =
      (case mload ?d uid of Some v \<Rightarrow> if v = [] then None else Some v | None \<Rightarrow> None)"
    using fold_payload [of ?d "[]" uid] mwf_dedupeOnlineIPMapByIP [of data]
    by (simp add: buildOnlineIPMapPayload_def mwf_def mload_def split: option.splits)
  then show ?thesis
    using mget_dedupeOnlineIPMapByIP [OF assms, of uid]
    by (auto simp: mget_def Let_def split: option.splits)
qed

lemma group_online:
  fixes us :: "OnlineUser list"
  shows "mwf m \<Longrightarrow> mwf (fold (\<lambda>u data. if ou_IP u = [] then data
                        else mstore data (ou_UID u) (mget [] data (ou_UID u) @ [ou_IP u])) us m)
     \<and> mget [] (fold (\<lambda>u data. if ou_IP u = [] then data
                        else mstore data (ou_UID u) (mget [] data (ou_UID u) @ [ou_IP u])) us m) uid =
       mget [] m uid @ map ou_IP (filter (\<lambda>u. ou_UID u = uid \<and> ou_IP u \<noteq> []) us)"
  by (induction us arbitrary: m) auto


section \<open>Properties of the comparison and of the payload\<close>

text \<open>
  The comparison of two user lists is exact (the comparison key is injective even for uuids
  that contain the separator): deleted are the users of the old list that are not in the new one,
  each once, added the new users in their order, and dropping the deleted and appending the added
  users gives the new list again, as a set.
\<close>

theorem compareUserList_exact:
  assumes "distinct new" and "compareUserList old new = (deleted, added)"
  shows "set deleted = set old - set new \<and> distinct deleted \<and> added = filter (\<lambda>u. u \<notin> set old) new
     \<and> set (filter (\<lambda>u. u \<notin> set deleted) old @ added) = set new"
proof -
  have d: "set deleted = set old - set new" "distinct deleted" "added = filter (\<lambda>u. u \<notin> set old) new"
    using compareUserList_sets [OF assms] by simp_all
  have "set (filter (\<lambda>u. u \<notin> set deleted) old @ added) = set new"
    unfolding d(3) set_append set_filter d(1) by auto
  then show ?thesis using d by (intro conjI)
qed

theorem compareUserList_exact_witness:
  "compareUserList
     [\<lparr>ui_Id = 1, ui_Uuid = ''a|1'', ui_SpeedLimit = 0, ui_DeviceLimit = 2\<rparr>,
      \<lparr>ui_Id = 2, ui_Uuid = ''b'', ui_SpeedLimit = 0, ui_DeviceLimit = 0\<rparr>]
     [\<lparr>ui_Id = 1, ui_Uuid = ''a'', ui_SpeedLimit = 10, ui_DeviceLimit = 2\<rparr>,
      \<lparr>ui_Id = 2, ui_Uuid = ''b'', ui_SpeedLimit = 0, ui_DeviceLimit = 0\<rparr>] =
     ([\<lparr>ui_Id = 1, ui_Uuid = ''a|1'', ui_SpeedLimit = 0, ui_DeviceLimit = 2\<rparr>],
      [\<lparr>ui_Id = 1, ui_Uuid = ''a'', ui_SpeedLimit = 10, ui_DeviceLimit = 2\<rparr>])"
proof -
  let ?old = "[\<lparr>ui_Id = 1, ui_Uuid = ''a|1'', ui_SpeedLimit = 0, ui_DeviceLimit = 2\<rparr>,
      \<lparr>ui_Id = 2, ui_Uuid = ''b'', ui_SpeedLimit = 0, ui_DeviceLimit = 0\<rparr>]"
  let ?new = "[\<lparr>ui_Id = 1, ui_Uuid = ''a'', ui_SpeedLimit = 10, ui_DeviceLimit = 2\<rparr>,
      \<lparr>ui_Id = 2, ui_Uuid = ''b'', ui_SpeedLimit = 0, ui_DeviceLimit = 0\<rparr>]"
  obtain d a where c: "compareUserList ?old ?new = (d, a)" by fastforce
  have "d = fst (compareUserList ?old ?new)" using c by simp
  also have "\<dots> = [\<lparr>ui_Id = 1, ui_Uuid = ''a|1'', ui_SpeedLimit = 0, ui_DeviceLimit = 2\<rparr>]" by code_simp
  finally show ?thesis
    using compareUserList_exact [OF _ c] c by simp
qed

text \<open>
  Devices are counted per user: after deduplication the list is sorted, has each pair of user
  and normalised address once, and has exactly the pairs of the input with an address. In
  particular two users behind one address are both reported.
\<close>

theorem dedupeOnlineUsersByIP_exact:
  "sorted (map online_key (dedupeOnlineUsersByIP users)) \<and> distinct (dedupeOnlineUsersByIP users)
   \<and> set (dedupeOnlineUsersByIP users) = {\<lparr>ou_UID = ou_UID u, ou_IP = NormalizeIP (ou_IP u)\<rparr> | u.
        u \<in> set users \<and> NormalizeIP (ou_IP u) \<noteq> []}"
proof -
  have "{d \<in> norm_device ` set users. ou_IP d \<noteq> []} =
      {\<lparr>ou_UID = ou_UID u, ou_IP = NormalizeIP (ou_IP u)\<rparr> | u. u \<in> set users \<and> NormalizeIP (ou_IP u) \<noteq> []}"
    unfolding norm_device_def by (rule set_eqI, rule iffI; clarsimp; blast)
  then show ?thesis
    using dedupe_loop_spec [of "[]" "[]" users] by (simp add: dedupeOnlineUsersByIP_def)
qed

text \<open>
  The payload for the panel maps exactly the users with an address to the sorted list of
  their normalised addresses without repetition, and has no entry for anyone else.
\<close>

theorem buildOnlineIPPayload_exact:
  "mload (buildOnlineIPPayload us) uid =
     (let ips = NormalizeIP ` {ou_IP u | u. u \<in> set us \<and> ou_UID u = uid \<and> ou_IP u \<noteq> []} - {[]}
      in if ips = {} then None else Some (sorted_list_of_set ips))"
proof -
  let ?data = "fold (\<lambda>u data. if ou_IP u = [] then data
      else mstore data (ou_UID u) (mget [] data (ou_UID u) @ [ou_IP u])) us []"
  have "set (mget [] ?data uid) = {ou_IP u | u. u \<in> set us \<and> ou_UID u = uid \<and> ou_IP u \<noteq> []}"
    using group_online [of "[]" us uid] by auto
  moreover have "mwf ?data" using group_online [of "[]" us uid] by simp
  moreover have "finite {ou_IP u | u. u \<in> set us \<and> ou_UID u = uid \<and> ou_IP u \<noteq> []}" by simp
  ultimately show ?thesis
    by (simp add: buildOnlineIPPayload_def mload_buildOnlineIPMapPayload Let_def)
qed

end
