(* ===== verification/Panel_Client.thy ===== *)
theory Panel_Client
  imports Conf Panel_Types
begin

text \<open>
  Package \<open>api/panel\<close>: the client of the panel. HTTP (package \<open>resty\<close>), SHA-256 and JSON decoding are
  arguments of the operations; a request is a function of its path and its \<open>If-None-Match\<close> header or
  body. What the client decides from the answers, and what it caches between calls, is modelled in
  full. A nil response that the code dereferences is a panic (\<open>None\<close>).
\<close>

section \<open>Requests\<close>

text \<open>
  What a request returns: whether the response and its raw response are non-nil, the transport
  error, and the status, body and ETag of the response.
\<close>

record 'body http_result =
  hr_response :: bool
  hr_raw :: bool
  hr_err :: "string option"
  hr_status :: int
  hr_body :: 'body
  hr_etag :: string

record Client =
  pc_PanelType :: string
  pc_APIHost :: string
  pc_Token :: string
  pc_NodeType :: string
  pc_NodeId :: int
  pc_nodeEtag :: string
  pc_userEtag :: string
  pc_responseBodyHash :: string
  pc_UserList :: UserListBody
  pc_AliveMap :: AliveMap

text \<open>The settings of a \<open>resty\<close> client: base URL, retries, timeout and query parameters.\<close>

record resty_client =
  rc_BaseURL :: string
  rc_RetryCount :: nat
  rc_Timeout' :: duration
  rc_QueryParams :: "(string, string) gomap"

definition newPanelClient :: "ApiConfig \<Rightarrow> bool \<Rightarrow> resty_client" where
  "newPanelClient c retry =
     \<lparr>rc_BaseURL = ac_APIHost c, rc_RetryCount = (if retry then 3 else 0),
      rc_Timeout' = (if ac_Timeout c > 0 then i64 (ac_Timeout c * time_Second) else 5 * time_Second),
      rc_QueryParams =
        (if ac_PanelType c = ''ppanel''
         then [(''protocol'', ac_NodeType c), (''server_id'', strconv_Itoa (ac_NodeID c)),
               (''secret_key'', ac_Key c)]
         else [(''node_type'', ac_NodeType c), (''node_id'', strconv_Itoa (ac_NodeID c)),
               (''token'', ac_Key c)])\<rparr>"

definition node_types :: "string list" where
  "node_types = [''vmess'', ''trojan'', ''shadowsocks'', ''hysteria'', ''hysteria2'', ''tuic'',
     ''anytls'', ''naive'', ''vless'']"

text \<open>\<open>New\<close>: the client, its two HTTP clients, and the configuration whose node type it rewrote.\<close>

definition New :: "ApiConfig \<Rightarrow> string + (Client \<times> resty_client \<times> resty_client \<times> ApiConfig)" where
  "New c =
     (let c = c\<lparr>ac_NodeType := strings_ToLower (ac_NodeType c)\<rparr>;
          c = (if ac_NodeType c = ''v2ray'' then c\<lparr>ac_NodeType := ''vmess''\<rparr> else c)
      in if ac_NodeType c \<notin> set node_types then Inl (''unsupported Node type: '' @ ac_NodeType c)
         else Inr (\<lparr>pc_PanelType = ac_PanelType c, pc_APIHost = ac_APIHost c, pc_Token = ac_Key c,
                    pc_NodeType = ac_NodeType c, pc_NodeId = ac_NodeID c, pc_nodeEtag = '''',
                    pc_userEtag = '''', pc_responseBodyHash = '''', pc_UserList = \<lparr>ulb_Users = []\<rparr>,
                    pc_AliveMap = \<lparr>am_Alive = None\<rparr>\<rparr>,
                   newPanelClient c True, newPanelClient c False, c))"

definition assembleURL :: "Client \<Rightarrow> string \<Rightarrow> string" where
  "assembleURL c path =
     (let base = strings_TrimRight (\<lambda>ch. ch = CHR ''/'') (pc_APIHost c);
          path = (if strings_HasPrefix path ''/'' then path else ''/'' @ path)
      in base @ path)"

text \<open>
  \<open>checkResponse\<close>: the error of a request, if any. Without a transport error the response is
  dereferenced.
\<close>

definition checkResponse :: "('body \<Rightarrow> string) \<Rightarrow> Client \<Rightarrow> 'body http_result \<Rightarrow> string \<Rightarrow> string option go" where
  "checkResponse str c res path =
     (case hr_err res of
        Some e \<Rightarrow> Some (Some (''request '' @ assembleURL c path @ '' failed: '' @ e))
      | None \<Rightarrow>
          if \<not> hr_response res then None
          else if hr_status res \<ge> 400
          then Some (Some (''request '' @ assembleURL c path @ '' failed: '' @ str (hr_body res)))
          else Some None)"


section \<open>Loosely typed fields\<close>

text \<open>A conversion of a float to \<open>int64\<close>: towards zero; out of range the amd64 result.\<close>

definition float_to_i64 :: "rat \<Rightarrow> int" where
  "float_to_i64 r =
     (let t = (if r \<ge> 0 then \<lfloor>r\<rfloor> else - \<lfloor>- r\<rfloor>) in if in_i64 t then t else min_i64)"

definition intervalToTime :: "anyval \<Rightarrow> duration" where
  "intervalToTime i =
     (case i of
        AnyNil \<Rightarrow> 0
      | AnyInt v \<Rightarrow> i64 (v * time_Second)
      | AnyFloat v \<Rightarrow> i64 (float_to_i64 v * time_Second)
      | AnyString v \<Rightarrow> i64 (fst (strconv_Atoi (strings_TrimSpace v)) * time_Second)
      | AnyUint v \<Rightarrow> i64 (i64 (int v) * time_Second)
      | _ \<Rightarrow> 0)"

fun firstTrimmedString :: "string list \<Rightarrow> string" where
  "firstTrimmedString [] = ''''"
| "firstTrimmedString (value # values) =
     (let value = strings_TrimSpace value in if value \<noteq> '''' then value else firstTrimmedString values)"

definition ECHSettings_UnmarshalJSON :: "('data \<Rightarrow> echSettingsJSON option) \<Rightarrow> 'data \<Rightarrow> ECHSettings option" where
  "ECHSettings_UnmarshalJSON unmarshal data =
     (case unmarshal data of
        None \<Rightarrow> None
      | Some aux \<Rightarrow> Some
          \<lparr>ech_Enabled = ej_Enabled aux, ech_Config = strings_TrimSpace (ej_Config aux),
           ech_ConfigList = firstTrimmedString (ej_ConfigList aux),
           ech_ForceQuery = firstTrimmedString (ej_ForceQuery aux),
           ech_QueryServerName = firstTrimmedString (ej_QueryServerName aux),
           ech_PrivateKey = firstTrimmedString (ej_PrivateKey aux),
           ech_ServerKeys = firstTrimmedString (ej_ServerKeys aux)\<rparr>)"

definition mergeECHSettings :: "ECHSettings \<Rightarrow> ECHSettings \<Rightarrow> ECHSettings" where
  "mergeECHSettings primary fallback =
     (let pick = (\<lambda>f. if f primary = '''' then f fallback else f primary)
      in \<lparr>ech_Enabled = (ech_Enabled primary \<or> ech_Enabled fallback),
          ech_Config = pick ech_Config, ech_ConfigList = pick ech_ConfigList,
          ech_ForceQuery = pick ech_ForceQuery, ech_QueryServerName = pick ech_QueryServerName,
          ech_PrivateKey = pick ech_PrivateKey, ech_ServerKeys = pick ech_ServerKeys\<rparr>)"

text \<open>
  \<open>decodeStringOrNumber\<close>: the JSON decoder is tried at four types; \<open>None\<close> of the argument is an
  empty or null message, the formatting of a float is the standard library's.
\<close>

definition decodeStringOrNumber ::
  "('raw \<Rightarrow> string option) \<Rightarrow> ('raw \<Rightarrow> int option) \<Rightarrow> ('raw \<Rightarrow> nat option) \<Rightarrow> ('raw \<Rightarrow> rat option)
   \<Rightarrow> (rat \<Rightarrow> string) \<Rightarrow> ('raw \<Rightarrow> string) \<Rightarrow> 'raw option \<Rightarrow> string + string" where
  "decodeStringOrNumber dec_s dec_i dec_u dec_f FormatFloat str raw =
     (case raw of
        None \<Rightarrow> Inr ''''
      | Some raw \<Rightarrow>
          (case dec_s raw of
             Some s \<Rightarrow> Inr (strings_TrimSpace s)
           | None \<Rightarrow>
               (case dec_i raw of
                  Some i \<Rightarrow> Inr (strconv_Itoa i)
                | None \<Rightarrow>
                    (case dec_u raw of
                       Some u \<Rightarrow> Inr (strconv_Itoa (int u))
                     | None \<Rightarrow>
                         (case dec_f raw of
                            Some f \<Rightarrow> Inr (FormatFloat f)
                          | None \<Rightarrow> Inl (''unsupported value: '' @ str raw))))))"

definition NormalizedEncryption :: "'raw VAllssNode option \<Rightarrow> string" where
  "NormalizedEncryption v = (case v of None \<Rightarrow> '''' | Some v \<Rightarrow> strings_TrimSpace (va_Encryption v))"

definition NormalizedDecryption :: "'raw VAllssNode option \<Rightarrow> string" where
  "NormalizedDecryption v = (case v of None \<Rightarrow> '''' | Some v \<Rightarrow> strings_TrimSpace (va_Decryption v))"

definition HasVlessOutboundEncryption :: "'raw VAllssNode option \<Rightarrow> bool" where
  "HasVlessOutboundEncryption v \<longleftrightarrow> v \<noteq> None \<and> NormalizedEncryption v \<noteq> ''''"

definition HasVlessInboundDecryption :: "'raw VAllssNode option \<Rightarrow> bool" where
  "HasVlessInboundDecryption v \<longleftrightarrow> v \<noteq> None \<and> NormalizedDecryption v \<noteq> ''''"

definition HasVlessEncryption :: "'raw VAllssNode option \<Rightarrow> bool" where
  "HasVlessEncryption v \<longleftrightarrow> v \<noteq> None \<and> (HasVlessOutboundEncryption v \<or> HasVlessInboundDecryption v)"


section \<open>Routes\<close>

text \<open>The patterns of a route; the type assertions on another dynamic type panic.\<close>

fun any_strings :: "anyval list \<Rightarrow> string list go" where
  "any_strings [] = Some []"
| "any_strings (AnyString s # vs) = map_option ((#) s) (any_strings vs)"
| "any_strings (v # vs) = None"

definition route_matchs :: "anyval \<Rightarrow> string list go" where
  "route_matchs m =
     (case m of
        AnyString s \<Rightarrow> Some (strings_Split (CHR '','') s)
      | AnyStrings ss \<Rightarrow> Some ss
      | AnyList temp \<Rightarrow> any_strings temp
      | _ \<Rightarrow> None)"

definition add_block_rule :: "string \<Rightarrow> Rules \<Rightarrow> Rules" where
  "add_block_rule v rules =
     (if strings_HasPrefix v ''protocol:''
      then rules\<lparr>ru_Protocol := ru_Protocol rules @ [strings_TrimPrefix v ''protocol:'']\<rparr>
      else rules\<lparr>ru_Regexp := ru_Regexp rules @ [strings_TrimPrefix v ''regexp:'']\<rparr>)"

definition parse_route :: "nat \<Rightarrow> Route \<Rightarrow> Rules \<times> RawDNS \<Rightarrow> (Rules \<times> RawDNS) go" where
  "parse_route i r st =
     (case st of (rules, dns) \<Rightarrow>
        (case route_matchs (rt_Match r) of
           None \<Rightarrow> None
         | Some matchs \<Rightarrow>
             if rt_Action r = ''block'' then Some (fold add_block_rule matchs rules, dns)
             else if rt_Action r = ''dns'' then
               (case matchs of
                  [] \<Rightarrow> None
                | m # rest \<Rightarrow>
                    if m \<noteq> ''main''
                    then Some (rules, dns\<lparr>dns_DNSMap := mstore (dns_DNSMap dns) (strconv_Itoa (int i))
                           \<lparr>de_address = rt_ActionValue r, de_domains = matchs\<rparr>\<rparr>)
                    else Some (rules, dns\<lparr>dns_DNSJson := strings_Join rest ''''\<rparr>))
             else Some (rules, dns)))"

fun parse_routes :: "nat \<Rightarrow> Route list \<Rightarrow> Rules \<times> RawDNS \<Rightarrow> (Rules \<times> RawDNS) go" where
  "parse_routes i [] st = Some st"
| "parse_routes i (r # rs) st =
     (case parse_route i r st of None \<Rightarrow> None | Some st \<Rightarrow> parse_routes (Suc i) rs st)"

section \<open>Node information\<close>

text \<open>The JSON decoder at the types the client decodes to; \<open>None\<close> is a decoding error.\<close>

record ('body, 'raw) decoders =
  dec_vallss :: "'body \<Rightarrow> 'raw VAllssNode option"
  dec_shadowsocks :: "'body \<Rightarrow> ShadowsocksNode option"
  dec_trojan :: "'body \<Rightarrow> 'raw TrojanNode option"
  dec_tuic :: "'body \<Rightarrow> TuicNode option"
  dec_anytls :: "'body \<Rightarrow> 'raw AnyTLSNode option"
  dec_naive :: "'body \<Rightarrow> 'raw NaiveNode option"
  dec_hysteria :: "'body \<Rightarrow> HysteriaNode option"
  dec_hysteria2 :: "'body \<Rightarrow> Hysteria2Node option"

text \<open>The clean-ups of a decoded node: the alternative keys replace the primary ones.\<close>

definition vallss_tls :: "'raw VAllssNode \<Rightarrow> 'raw VAllssNode" where
  "vallss_tls rsp =
     (let rsp = (case va_TlsSettingsBack rsp of
                   Some b \<Rightarrow> rsp\<lparr>va_TlsSettings := b, va_TlsSettingsBack := None\<rparr> | None \<Rightarrow> rsp)
      in rsp\<lparr>va_TlsSettings := (va_TlsSettings rsp)\<lparr>ts_ECH :=
               mergeECHSettings (ts_ECH (va_TlsSettings rsp)) (va_ECH rsp)\<rparr>\<rparr>)"

definition fix_vallss :: "'raw VAllssNode \<Rightarrow> 'raw VAllssNode" where
  "fix_vallss rsp =
     vallss_tls (case va_NetworkSettingsBack rsp of
                   Some b \<Rightarrow> rsp\<lparr>va_NetworkSettings := Some b, va_NetworkSettingsBack := None\<rparr>
                 | None \<Rightarrow> rsp)"

definition fix_trojan :: "'raw TrojanNode \<Rightarrow> 'raw TrojanNode" where
  "fix_trojan rsp =
     (let rsp = (case tj_NetworkSettingsBack rsp of
                   Some b \<Rightarrow> rsp\<lparr>tj_NetworkSettings := Some b, tj_NetworkSettingsBack := None\<rparr> | None \<Rightarrow> rsp);
          rsp = (case tj_TlsSettingsBack rsp of
                   Some b \<Rightarrow> rsp\<lparr>tj_TlsSettings := b, tj_TlsSettingsBack := None\<rparr> | None \<Rightarrow> rsp)
      in rsp\<lparr>tj_TlsSettings := (tj_TlsSettings rsp)\<lparr>ts_ECH :=
               mergeECHSettings (ts_ECH (tj_TlsSettings rsp)) (tj_ECH rsp)\<rparr>\<rparr>)"

definition fix_anytls :: "'raw AnyTLSNode \<Rightarrow> 'raw AnyTLSNode" where
  "fix_anytls rsp =
     (case at_TlsSettingsBack rsp of
        Some b \<Rightarrow> rsp\<lparr>at_TlsSettings := b, at_TlsSettingsBack := None\<rparr> | None \<Rightarrow> rsp)"

definition fix_naive :: "'raw NaiveNode \<Rightarrow> 'raw NaiveNode" where
  "fix_naive rsp =
     (case nv_TlsSettingsBack rsp of
        Some b \<Rightarrow> rsp\<lparr>nv_TlsSettings := b, nv_TlsSettingsBack := None\<rparr> | None \<Rightarrow> rsp)"

definition empty_NodeInfo :: "int \<Rightarrow> string \<Rightarrow> 'raw NodeInfo" where
  "empty_NodeInfo nid ty =
     \<lparr>ni_Id = nid, ni_Type = ty, ni_Protocol = [], ni_Security = 0, ni_PushInterval = 0,
      ni_PullInterval = 0, ni_RawDNS = \<lparr>dns_DNSMap = [], dns_DNSJson = []\<rparr>,
      ni_Rules = \<lparr>ru_Regexp = [], ru_Protocol = []\<rparr>, ni_Config = None, ni_VAllss = None,
      ni_Shadowsocks = None, ni_Trojan = None, ni_Tuic = None, ni_AnyTLS = None, ni_Naive = None,
      ni_Hysteria = None, ni_Hysteria2 = None, ni_Common = None, ni_Basic = None\<rparr>"

text \<open>
  The switch over the node type: the node with its protocol part and security, and the common
  part. \<open>None\<close> as common part is a node type the switch does not know.
\<close>

definition decode_protocol ::
  "('body, 'raw) decoders \<Rightarrow> string \<Rightarrow> 'body \<Rightarrow> 'raw NodeInfo \<Rightarrow> string + ('raw NodeInfo \<times> CommonNode option)" where
  "decode_protocol D ty body node =
     (if ty = ''vmess'' \<or> ty = ''vless'' then
        (case dec_vallss D body of
           None \<Rightarrow> Inl ''decode v2ray params error''
         | Some rsp \<Rightarrow>
             let rsp = fix_vallss rsp
             in Inr (node\<lparr>ni_VAllss := Some rsp, ni_Security := va_Tls rsp\<rparr>, Some (va_CommonNode rsp)))
      else if ty = ''shadowsocks'' then
        (case dec_shadowsocks D body of
           None \<Rightarrow> Inl ''decode shadowsocks params error''
         | Some rsp \<Rightarrow>
             Inr (node\<lparr>ni_Shadowsocks := Some rsp, ni_Security := Security_None\<rparr>, Some (ss_CommonNode rsp)))
      else if ty = ''trojan'' then
        (case dec_trojan D body of
           None \<Rightarrow> Inl ''decode trojan params error''
         | Some rsp \<Rightarrow>
             let rsp = fix_trojan rsp
             in Inr (node\<lparr>ni_Trojan := Some rsp, ni_Security := Security_Tls\<rparr>, Some (tj_CommonNode rsp)))
      else if ty = ''tuic'' then
        (case dec_tuic D body of
           None \<Rightarrow> Inl ''decode tuic params error''
         | Some rsp \<Rightarrow>
             Inr (node\<lparr>ni_Tuic := Some rsp, ni_Security := Security_Tls\<rparr>, Some (tu_CommonNode rsp)))
      else if ty = ''anytls'' then
        (case dec_anytls D body of
           None \<Rightarrow> Inl ''decode anytls params error''
         | Some rsp \<Rightarrow>
             let rsp = fix_anytls rsp
             in Inr (node\<lparr>ni_AnyTLS := Some rsp, ni_Security := at_Tls rsp\<rparr>, Some (at_CommonNode rsp)))
      else if ty = ''naive'' then
        (case dec_naive D body of
           None \<Rightarrow> Inl ''decode naive params error''
         | Some rsp \<Rightarrow>
             let rsp = fix_naive rsp
             in Inr (node\<lparr>ni_Naive := Some rsp, ni_Security := nv_Tls rsp\<rparr>, Some (nv_CommonNode rsp)))
      else if ty = ''hysteria'' then
        (case dec_hysteria D body of
           None \<Rightarrow> Inl ''decode hysteria params error''
         | Some rsp \<Rightarrow>
             Inr (node\<lparr>ni_Hysteria := Some rsp, ni_Security := Security_Tls\<rparr>, Some (hy_CommonNode rsp)))
      else if ty = ''hysteria2'' then
        (case dec_hysteria2 D body of
           None \<Rightarrow> Inl ''decode hysteria2 params error''
         | Some rsp \<Rightarrow>
             Inr (node\<lparr>ni_Hysteria2 := Some rsp, ni_Security := Security_Tls\<rparr>, Some (h2_CommonNode rsp)))
      else Inr (node, None))"

text \<open>From the body of a configuration to the node; panics of the route parser are \<open>None\<close>.\<close>

definition decode_uniproxy ::
  "('body, 'raw) decoders \<Rightarrow> Client \<Rightarrow> 'body \<Rightarrow> (string + 'raw NodeInfo) go" where
  "decode_uniproxy D c body =
     (case decode_protocol D (pc_NodeType c) body (empty_NodeInfo (pc_NodeId c) (pc_NodeType c)) of
        Inl e \<Rightarrow> Some (Inl e)
      | Inr (node, None) \<Rightarrow> Some (Inl (''unsupported node type: '' @ pc_NodeType c))
      | Inr (node, Some cm) \<Rightarrow>
          (case parse_routes 0 (cn_Routes cm) (ni_Rules node, ni_RawDNS node) of
             None \<Rightarrow> None
           | Some (rules, dns) \<Rightarrow>
               let node = node\<lparr>ni_Rules := rules, ni_RawDNS := dns\<rparr>;
                   node = (case cn_BaseConfig cm of
                             None \<Rightarrow> node
                           | Some b \<Rightarrow> node\<lparr>ni_PushInterval := intervalToTime (bs_PushInterval b),
                                           ni_PullInterval := intervalToTime (bs_PullInterval b)\<rparr>)
               in Some (Inr (node\<lparr>ni_Common := Some (cm\<lparr>cn_Routes := [], cn_BaseConfig := None\<rparr>)\<rparr>))))"

text \<open>
  The request part that both panel types share: the cached ETag and body hash are compared and
  replaced before the response is checked. \<open>fetch\<close> is the GET of the configuration with the
  cached ETag; \<open>decode\<close> turns the body into the node. \<open>Inr None\<close> means not modified.
\<close>

definition GetNodeInfo_request ::
  "(string \<Rightarrow> 'body http_result) \<Rightarrow> ('body \<Rightarrow> string) \<Rightarrow> ('body \<Rightarrow> string)
   \<Rightarrow> ('body \<Rightarrow> (string + 'raw NodeInfo) go) \<Rightarrow> string \<Rightarrow> Client
   \<Rightarrow> (Client \<times> (string + 'raw NodeInfo option)) go" where
  "GetNodeInfo_request fetch hash str decode path c =
     (let r = fetch (pc_nodeEtag c)
      in if \<not> hr_response r then None
         else if hr_status r = 304 then Some (c, Inr None)
         else
           let newBodyHash = hash (hr_body r)
           in if pc_responseBodyHash c = newBodyHash then Some (c, Inr None)
              else
                let c = c\<lparr>pc_responseBodyHash := newBodyHash, pc_nodeEtag := hr_etag r\<rparr>
                in case checkResponse str c r path of
                     None \<Rightarrow> None
                   | Some (Some e) \<Rightarrow> Some (c, Inl e)
                   | Some None \<Rightarrow>
                       (case decode (hr_body r) of
                          None \<Rightarrow> None
                        | Some (Inl e) \<Rightarrow> Some (c, Inl e)
                        | Some (Inr node) \<Rightarrow> Some (c, Inr (Some node))))"

text \<open>
  The panel type \<open>ppanel\<close> sends a document that decodes to the node itself, with the protocol part
  as a raw message. The clean-ups run before the decoding error is returned, so what they yield
  then does not matter.
\<close>

definition decode_ppanel ::
  "('body \<Rightarrow> 'raw NodeInfo \<Rightarrow> 'raw NodeInfo option) \<Rightarrow> ('raw option, 'raw) decoders \<Rightarrow> Client
   \<Rightarrow> 'body \<Rightarrow> (string + 'raw NodeInfo) go" where
  "decode_ppanel dec_node D c body =
     (case dec_node body ((empty_NodeInfo (pc_NodeId c) (pc_NodeType c))\<lparr>ni_Common := Some
             \<lparr>cn_Host = [], cn_ServerPort = 0, cn_ServerName = [], cn_Routes = [], cn_BaseConfig = None\<rparr>\<rparr>) of
        None \<Rightarrow> Some (Inl ''decode node params error'')
      | Some node \<Rightarrow>
          let node = (case ni_Basic node of
                        None \<Rightarrow> node
                      | Some b \<Rightarrow> node\<lparr>ni_PushInterval := intervalToTime (bc_PushInterval b),
                                      ni_PullInterval := intervalToTime (bc_PullInterval b)\<rparr>);
              node = node\<lparr>ni_Type := ni_Protocol node\<rparr>;
              p = ni_Protocol node;
              err = Some (Inl ''decode node config error'')
          in if p = ''vmess'' \<or> p = ''vless'' then
               (case dec_vallss D (ni_Config node) of
                  None \<Rightarrow> err
                | Some v \<Rightarrow> Some (Inr (node\<lparr>ni_VAllss := Some (vallss_tls v), ni_Security := va_Tls v\<rparr>)))
             else if p = ''trojan'' then
               (case dec_trojan D (ni_Config node) of
                  None \<Rightarrow> err
                | Some v \<Rightarrow> Some (Inr (node\<lparr>ni_Trojan := Some (fix_trojan v), ni_Security := Security_Tls\<rparr>)))
             else if p = ''shadowsocks'' then
               (case dec_shadowsocks D (ni_Config node) of
                  None \<Rightarrow> err | Some v \<Rightarrow> Some (Inr (node\<lparr>ni_Shadowsocks := Some v\<rparr>)))
             else if p = ''tuic'' then
               (case dec_tuic D (ni_Config node) of
                  None \<Rightarrow> err | Some v \<Rightarrow> Some (Inr (node\<lparr>ni_Tuic := Some v\<rparr>)))
             else if p = ''hysteria2'' then
               (case dec_hysteria2 D (ni_Config node) of
                  None \<Rightarrow> err | Some v \<Rightarrow> Some (Inr (node\<lparr>ni_Hysteria2 := Some v\<rparr>)))
             else if p = ''anytls'' then
               (case dec_anytls D (ni_Config node) of
                  None \<Rightarrow> err
                | Some v \<Rightarrow> Some (Inr (node\<lparr>ni_AnyTLS := Some (fix_anytls v), ni_Security := at_Tls v\<rparr>)))
             else if p = ''naive'' then
               (case dec_naive D (ni_Config node) of
                  None \<Rightarrow> err
                | Some v \<Rightarrow> Some (Inr (node\<lparr>ni_Naive := Some (fix_naive v), ni_Security := nv_Tls v\<rparr>)))
             else err)"

definition GetNodeInfo ::
  "(string \<Rightarrow> string \<Rightarrow> 'body http_result) \<Rightarrow> ('body \<Rightarrow> string) \<Rightarrow> ('body \<Rightarrow> string)
   \<Rightarrow> ('body \<Rightarrow> 'raw NodeInfo \<Rightarrow> 'raw NodeInfo option) \<Rightarrow> ('raw option, 'raw) decoders
   \<Rightarrow> ('body, 'raw) decoders \<Rightarrow> Client \<Rightarrow> (Client \<times> (string + 'raw NodeInfo option)) go" where
  "GetNodeInfo http hash str dec_node Dp D c =
     (if pc_PanelType c = ''ppanel''
      then GetNodeInfo_request (http ''/v1/server/config'') hash str (decode_ppanel dec_node Dp c)
             ''/v1/server/config'' c
      else GetNodeInfo_request (http ''/api/v1/server/UniProxy/config'') hash str (decode_uniproxy D c)
             ''/api/v1/server/UniProxy/config'' c)"

definition InvalidateNodeConfigCache :: "Client \<Rightarrow> Client" where
  "InvalidateNodeConfigCache c = c\<lparr>pc_nodeEtag := [], pc_responseBodyHash := []\<rparr>"

section \<open>Users (\<open>user.go\<close>)\<close>

text \<open>
  \<open>GetUserList\<close>: \<open>Inr None\<close> is the nil slice, which the controller reads as not modified. The ETag
  is replaced once the list is decoded. \<open>dec_users\<close> decodes the body; its inner \<open>None\<close> is a body
  without a list.
\<close>

definition GetUserList ::
  "(string \<Rightarrow> string \<Rightarrow> 'body http_result) \<Rightarrow> ('body \<Rightarrow> string) \<Rightarrow> ('body \<Rightarrow> UserInfo list option option)
   \<Rightarrow> Client \<Rightarrow> (Client \<times> (string + UserInfo list option)) go" where
  "GetUserList http str dec_users c =
     (let path = (if pc_PanelType c = ''ppanel'' then ''/v1/server/user'' else ''/api/v1/server/UniProxy/user'');
          r = http path (pc_userEtag c)
      in if \<not> hr_response r \<or> \<not> hr_raw r then Some (c, Inl ''received nil response or raw response'')
         else if hr_status r = 304 then Some (c, Inr None)
         else case checkResponse str c r path of
           None \<Rightarrow> None
         | Some (Some e) \<Rightarrow> Some (c, Inl e)
         | Some None \<Rightarrow>
             (case dec_users (hr_body r) of
                None \<Rightarrow> Some (c, Inl ''unmarshal user list error'')
              | Some users \<Rightarrow>
                  Some (c\<lparr>pc_UserList := \<lparr>ulb_Users = (case users of None \<Rightarrow> [] | Some us \<Rightarrow> us)\<rparr>,
                          pc_userEtag := hr_etag r\<rparr>, Inr users)))"

fun fetchAliveList ::
  "(string \<Rightarrow> 'body http_result) \<Rightarrow> ('body \<Rightarrow> (int, int) gomap) \<Rightarrow> string list \<Rightarrow> (int, int) gomap" where
  "fetchAliveList get decodeAliveMap [] = []"
| "fetchAliveList get decodeAliveMap (path # paths) =
     (let r = get path
      in if hr_err r \<noteq> None \<or> \<not> hr_response r \<or> \<not> hr_raw r then fetchAliveList get decodeAliveMap paths
         else if hr_status r \<ge> 399 then fetchAliveList get decodeAliveMap paths
         else decodeAliveMap (hr_body r))"

definition GetUserAlive ::
  "(string \<Rightarrow> 'body http_result) \<Rightarrow> ('body \<Rightarrow> (int, int) gomap) \<Rightarrow> Client \<Rightarrow> Client \<times> (int, int) gomap" where
  "GetUserAlive get decodeAliveMap c =
     (let alive = (if pc_PanelType c = ''ppanel'' then []
                   else fetchAliveList get decodeAliveMap
                     [''/api/v1/server/UniProxy/alivelist'', ''/api/v2/server/alivelist'',
                      ''/api/v1/server/alivelist'', ''/api/v2/server/alivelist''])
      in (c\<lparr>pc_AliveMap := \<lparr>am_Alive = Some alive\<rparr>\<rparr>, alive))"

text \<open>
  The traffic report. The posts that were made are returned beside the error, the last one last;
  \<open>post\<close> is the request without retries.
\<close>

definition traffic_payload :: "UserTraffic list \<Rightarrow> (string, 64 word list) gomap" where
  "traffic_payload userTraffic =
     fold (\<lambda>t data. let key = strconv_Itoa (ut_UID t);
                        key = (if ut_Key t \<noteq> [] then ut_Key t else key)
                    in mstore data key [ut_Upload t, ut_Download t]) userTraffic []"

fun push_paths ::
  "(string \<Rightarrow> 'body http_result) \<Rightarrow> (string \<Rightarrow> 'body http_result \<Rightarrow> string option go) \<Rightarrow> string list
   \<Rightarrow> string option \<Rightarrow> (string list \<times> string option) go" where
  "push_paths post check [] lastErr = Some ([], lastErr)"
| "push_paths post check (path # paths) lastErr =
     (let r = post path
      in case check path r of
           None \<Rightarrow> None
         | Some None \<Rightarrow> Some ([path], None)
         | Some (Some e) \<Rightarrow>
             if \<not> hr_response r \<or> (hr_status r \<noteq> 404 \<and> hr_status r \<noteq> 405) then Some ([path], Some e)
             else map_option (\<lambda>(ps, err). (path # ps, err)) (push_paths post check paths (Some e)))"

definition push_candidates :: "string list" where
  "push_candidates = [''/api/v1/server/UniProxy/push'', ''/api/v2/server/push'', ''/api/v1/server/push'']"

definition ReportUserTraffic ::
  "(string \<Rightarrow> UserTraffic list + (string, 64 word list) gomap \<Rightarrow> 'body http_result) \<Rightarrow> ('body \<Rightarrow> string)
   \<Rightarrow> Client \<Rightarrow> UserTraffic list \<Rightarrow> (string list \<times> string option) go" where
  "ReportUserTraffic post str c userTraffic =
     (if pc_PanelType c = ''ppanel'' then
        (let path = ''/v1/server/push'';
             traffic = map (\<lambda>t. t\<lparr>ut_Key := []\<rparr>) userTraffic
         in map_option (\<lambda>err. ([path], err)) (checkResponse str c (post path (Inl traffic)) path))
      else push_paths (\<lambda>path. post path (Inr (traffic_payload userTraffic)))
             (\<lambda>path r. checkResponse str c r path) push_candidates None)"

text \<open>The bodies of the online report: the map itself, or wrapped under the key \<open>alive\<close>.\<close>

datatype alive_body = AliveRaw "(string, string list) gomap" | AliveWrapped "(string, string list) gomap"

definition id_payload :: "(int, string list) gomap \<Rightarrow> (string, string list) gomap" where
  "id_payload payload = fold (\<lambda>(uid, ips) m. mstore m (strconv_Itoa uid) ips) payload []"

definition mixed_payload :: "Client \<Rightarrow> (int, string list) gomap \<Rightarrow> (string, string list) gomap" where
  "mixed_payload c payload =
     (let uidToUUID = fold (\<lambda>u m. if ui_Id u > 0 \<and> ui_Uuid u \<noteq> [] then mstore m (ui_Id u) (ui_Uuid u) else m)
            (ulb_Users (pc_UserList c)) [];
          mixed = mcopy_into (id_payload payload) []
      in fold (\<lambda>(uid, ips) m. case mload uidToUUID uid of
                 Some uuid \<Rightarrow> mstore m uuid ips | None \<Rightarrow> m) payload mixed)"

text \<open>Try the posts in order until one succeeds; the last error otherwise.\<close>

fun try_posts ::
  "(string \<Rightarrow> alive_body \<Rightarrow> 'body http_result) \<Rightarrow> (string \<Rightarrow> 'body http_result \<Rightarrow> string option go)
   \<Rightarrow> (string \<times> alive_body) list \<Rightarrow> string option \<Rightarrow> ((string \<times> alive_body) list \<times> string option) go" where
  "try_posts post check [] lastErr = Some ([], lastErr)"
| "try_posts post check ((path, body) # rest) lastErr =
     (case check path (post path body) of
        None \<Rightarrow> None
      | Some None \<Rightarrow> Some ([(path, body)], None)
      | Some (Some e) \<Rightarrow> map_option (\<lambda>(ps, err). ((path, body) # ps, err)) (try_posts post check rest (Some e)))"

definition ReportNodeOnlineUsers ::
  "(string \<Rightarrow> alive_body \<Rightarrow> 'body http_result) \<Rightarrow> ('body \<Rightarrow> string) \<Rightarrow> Client \<Rightarrow> (int, string list) gomap option
   \<Rightarrow> ((string \<times> alive_body) list \<times> string option) go" where
  "ReportNodeOnlineUsers post str c data =
     (let payload = (case data of None \<Rightarrow> [] | Some d \<Rightarrow> d);
          idPayload = id_payload payload;
          mixedPayload = mixed_payload c payload;
          check = (\<lambda>path r. checkResponse str c r path)
      in if pc_PanelType c = ''ppanel'' then
           (let path = ''/v1/server/online'';
                posts = [(path, AliveRaw idPayload), (path, AliveWrapped idPayload)]
                  @ (if length mixedPayload \<noteq> length idPayload
                     then [(path, AliveRaw mixedPayload), (path, AliveWrapped mixedPayload)] else [])
            in map_option (\<lambda>(ps, err). (ps, map_option
                 (\<lambda>_. ''report online users failed on '' @ assembleURL c path) err)) (try_posts post check posts None))
         else try_posts post check
                [(''/api/v1/server/UniProxy/alive'', AliveRaw idPayload),
                 (''/api/v2/server/alive'', AliveRaw idPayload),
                 (''/api/v2/server/report'', AliveWrapped idPayload)] None)"


section \<open>Properties\<close>

lemma checkResponse_ok:
  "hr_err r = None \<Longrightarrow> hr_response r \<Longrightarrow> hr_status r < 400 \<Longrightarrow> checkResponse str c r path = Some None"
  by (simp add: checkResponse_def)

text \<open>
  An unchanged configuration is reported as unchanged, but not after an error: when the panel
  answers once with an error page, its hash replaces the cached one, and the same configuration
  as before is returned as a new one, which makes the controller reload the node.
\<close>

theorem error_response_forgets_config:
  assumes "pc_responseBodyHash c = hash body" and "hash err_body \<noteq> hash body"
    and "hr_response bad" "hr_err bad = None" "400 \<le> hr_status bad" "hr_body bad = err_body"
    and "hr_response good" "hr_err good = None" "hr_status good = 200" "hr_body good = body"
    and "decode body = Some (Inr node)"
  shows "GetNodeInfo_request (\<lambda>_. good) hash str decode path c = Some (c, Inr None)
     \<and> (\<exists>c1 e c2. GetNodeInfo_request (\<lambda>_. bad) hash str decode path c = Some (c1, Inl e)
          \<and> GetNodeInfo_request (\<lambda>_. good) hash str decode path c1 = Some (c2, Inr (Some node)))"
  using assms by (auto simp: GetNodeInfo_request_def checkResponse_def Let_def)

definition example_client :: Client where
  "example_client = \<lparr>pc_PanelType = ''xboard'', pc_APIHost = ''http://p/'', pc_Token = ''t'',
     pc_NodeType = ''vless'', pc_NodeId = 1, pc_nodeEtag = [], pc_userEtag = [],
     pc_responseBodyHash = ''ok'', pc_UserList = \<lparr>ulb_Users = []\<rparr>, pc_AliveMap = \<lparr>am_Alive = None\<rparr>\<rparr>"

definition example_answer :: "int \<Rightarrow> string \<Rightarrow> string http_result" where
  "example_answer status body = \<lparr>hr_response = True, hr_raw = True, hr_err = None, hr_status = status,
     hr_body = body, hr_etag = []\<rparr>"

theorem error_response_forgets_config_witness:
  "GetNodeInfo_request (\<lambda>_. example_answer 200 ''ok'') (\<lambda>b. b) (\<lambda>b. b)
       (\<lambda>_. Some (Inr (empty_NodeInfo 1 ''vless'' :: string NodeInfo))) ''/c'' example_client
     = Some (example_client, Inr None)
   \<and> (\<exists>c1 e c2. GetNodeInfo_request (\<lambda>_. example_answer 502 ''bad gateway'') (\<lambda>b. b) (\<lambda>b. b)
          (\<lambda>_. Some (Inr (empty_NodeInfo 1 ''vless'' :: string NodeInfo))) ''/c'' example_client = Some (c1, Inl e)
        \<and> GetNodeInfo_request (\<lambda>_. example_answer 200 ''ok'') (\<lambda>b. b) (\<lambda>b. b)
          (\<lambda>_. Some (Inr (empty_NodeInfo 1 ''vless'' :: string NodeInfo))) ''/c'' c1 = Some (c2, Inr (Some (empty_NodeInfo 1 ''vless''))))"
  by (rule error_response_forgets_config [where body = "''ok''" and err_body = "''bad gateway''"])
    (simp_all add: example_client_def example_answer_def)

text \<open>
  A reload that failed half way is retried: after the cache was invalidated, the next pull of
  the same document returns the configuration again, and the pull after that reports it unchanged.
\<close>

theorem invalidate_then_refetch:
  assumes "fetch [] = r" and "hr_response r" "hr_err r = None" "hr_status r = 200"
    and "hash (hr_body r) \<noteq> []" and "decode (hr_body r) = Some (Inr node)"
    and "\<And>etag. hr_response (fetch etag) \<and> hash (hr_body (fetch etag)) = hash (hr_body r)"
  shows "\<exists>c'. GetNodeInfo_request fetch hash str decode path (InvalidateNodeConfigCache c) = Some (c', Inr (Some node))
     \<and> GetNodeInfo_request fetch hash str decode path c' = Some (c', Inr None)"
  using assms
  by (auto simp: GetNodeInfo_request_def InvalidateNodeConfigCache_def checkResponse_ok Let_def)

theorem invalidate_then_refetch_witness:
  "\<exists>c'. GetNodeInfo_request (\<lambda>_. example_answer 200 ''ok'') (\<lambda>b. b) (\<lambda>b. b)
       (\<lambda>_. Some (Inr (empty_NodeInfo 1 ''vless'' :: string NodeInfo))) ''/c''
       (InvalidateNodeConfigCache example_client) = Some (c', Inr (Some (empty_NodeInfo 1 ''vless'')))
     \<and> GetNodeInfo_request (\<lambda>_. example_answer 200 ''ok'') (\<lambda>b. b) (\<lambda>b. b)
       (\<lambda>_. Some (Inr (empty_NodeInfo 1 ''vless'' :: string NodeInfo))) ''/c'' c' = Some (c', Inr None)"
  by (rule invalidate_then_refetch [OF refl]) (simp_all add: example_answer_def)

lemma push_paths_no_replay:
  assumes "push_paths post check paths lastErr = Some (posts, err)"
  shows "(\<forall>p \<in> set (butlast posts). hr_response (post p) \<and> hr_status (post p) \<in> {404, 405})
     \<and> (\<exists>n. posts = take n paths) \<and> (paths \<noteq> [] \<longrightarrow> (err = None \<longleftrightarrow> check (last posts) (post (last posts)) = Some None))"
  using assms
proof (induction paths arbitrary: posts lastErr err)
  case (Cons p paths)
  consider (ok) "check p (post p) = Some None" "posts = [p]" "err = None"
    | (stop) e where "check p (post p) = Some (Some e)" "posts = [p]" "err = Some e"
    | (next_path) e ps where "check p (post p) = Some (Some e)" "hr_response (post p)"
        "hr_status (post p) \<in> {404, 405}" "push_paths post check paths (Some e) = Some (ps, err)" "posts = p # ps"
    using Cons.prems by (auto simp: Let_def split: option.splits if_splits)
  then show ?case
  proof cases
    case ok
    then show ?thesis by (auto intro: exI [of _ 1])
  next
    case stop
    then show ?thesis by (auto intro: exI [of _ 1])
  next
    case next_path
    note ih = Cons.IH [OF next_path(4)]
    then obtain n where n: "ps = take n paths" by blast
    show ?thesis
    proof (cases "paths = []")
      case True
      then show ?thesis
        using next_path by (auto intro: exI [of _ 1])
    next
      case False
      then have "ps \<noteq> []"
        using next_path(4) by (cases paths) (auto simp: Let_def split: option.splits if_splits)
      then show ?thesis
        using ih next_path n False by (auto intro: exI [of _ "Suc n"])
    qed
  qed
qed simp

text \<open>
  C10. A traffic report is applied at most once: the increments are sent to a further endpoint only
  when the previous one answered that it does not exist (404 or 405); any other failure ends the
  report with an error, and the report succeeds exactly when the last request did.
\<close>

theorem ReportUserTraffic_at_most_once:
  assumes "pc_PanelType c \<noteq> ''ppanel''" and "ReportUserTraffic post str c traffic = Some (posts, err)"
  shows "(\<forall>p \<in> set (butlast posts). hr_status (post p (Inr (traffic_payload traffic))) \<in> {404, 405})
     \<and> (\<exists>n. posts = take n push_candidates)
     \<and> (err = None \<longleftrightarrow> checkResponse str c (post (last posts) (Inr (traffic_payload traffic))) (last posts) = Some None)"
  using push_paths_no_replay [of "\<lambda>path. post path (Inr (traffic_payload traffic))"
      "\<lambda>path r. checkResponse str c r path" push_candidates None posts err] assms
  by (simp add: ReportUserTraffic_def push_candidates_def)

theorem ReportUserTraffic_at_most_once_witness:
  "\<exists>posts. ReportUserTraffic (\<lambda>path _. example_answer (if path = ''/api/v2/server/push'' then 200 else 404) [])
       (\<lambda>b. b) example_client [] = Some (posts, None)
     \<and> (\<exists>n. posts = take n push_candidates)"
proof -
  let ?post = "\<lambda>path _. example_answer (if path = ''/api/v2/server/push'' then 200 else 404) []"
  have "ReportUserTraffic ?post (\<lambda>b. b) example_client [] =
      Some ([''/api/v1/server/UniProxy/push'', ''/api/v2/server/push''], None)"
    by (simp add: ReportUserTraffic_def example_client_def example_answer_def push_candidates_def checkResponse_def)
  from ReportUserTraffic_at_most_once [OF _ this] this show ?thesis by (auto simp: example_client_def)
qed

lemma fold_add_block_rule:
  "ru_Protocol (fold add_block_rule ms rules) = ru_Protocol rules
     @ map (\<lambda>v. strings_TrimPrefix v ''protocol:'') (filter (\<lambda>v. strings_HasPrefix v ''protocol:'') ms)
   \<and> ru_Regexp (fold add_block_rule ms rules) = ru_Regexp rules
     @ map (\<lambda>v. strings_TrimPrefix v ''regexp:'') (filter (\<lambda>v. \<not> strings_HasPrefix v ''protocol:'') ms)"
  by (induction ms arbitrary: rules) (auto simp: add_block_rule_def)

definition route_bad :: "Route \<Rightarrow> bool" where
  "route_bad r \<longleftrightarrow> route_matchs (rt_Match r) = None
     \<or> (rt_Action r = ''dns'' \<and> route_matchs (rt_Match r) = Some [])"

definition block_matchs :: "Route list \<Rightarrow> string list" where
  "block_matchs rs = concat (map (\<lambda>r. case route_matchs (rt_Match r) of None \<Rightarrow> [] | Some ms \<Rightarrow> ms)
     (filter (\<lambda>r. rt_Action r = ''block'') rs))"

lemma parse_route_panic: "parse_route i r st = None \<longleftrightarrow> route_bad r"
  by (cases st) (auto simp: parse_route_def route_bad_def split: option.splits list.splits)

lemma parse_route_rules:
  assumes "parse_route i r (rules, dns) = Some (rules', dns')"
  shows "rules' = fold add_block_rule (block_matchs [r]) rules"
  using assms by (auto simp: parse_route_def block_matchs_def split: option.splits list.splits if_splits)

lemma parse_routes_rules:
  "parse_routes i rs (rules, dns) = Some (rules', dns') \<Longrightarrow> rules' = fold add_block_rule (block_matchs rs) rules"
proof (induction rs arbitrary: i rules dns)
  case (Cons r rs)
  then obtain r1 d1 where "parse_route i r (rules, dns) = Some (r1, d1)"
      "parse_routes (Suc i) rs (r1, d1) = Some (rules', dns')"
    by (auto split: option.splits)
  moreover have "block_matchs (r # rs) = block_matchs [r] @ block_matchs rs"
    by (simp add: block_matchs_def)
  ultimately show ?case using Cons.IH parse_route_rules by (metis comp_apply fold_append)
qed (simp add: block_matchs_def)

lemma parse_routes_panic: "parse_routes i rs st = None \<longleftrightarrow> (\<exists>r \<in> set rs. route_bad r)"
proof (induction rs arbitrary: i st)
  case (Cons r rs)
  then show ?case using parse_route_panic [of i r st] by (auto split: option.splits)
qed simp

text \<open>
  Parsing the routes of a configuration: it panics exactly when a route has a match that is
  neither a string nor a list of strings, or is a DNS route with an empty list; otherwise the
  block rules are the patterns of the block routes in order, those with the prefix \<open>protocol:\<close> as
  protocols and all others as domain patterns.
\<close>

theorem parse_routes_exact:
  "(parse_routes i rs (rules, dns) = None \<longleftrightarrow> (\<exists>r \<in> set rs. route_matchs (rt_Match r) = None
       \<or> (rt_Action r = ''dns'' \<and> route_matchs (rt_Match r) = Some [])))
   \<and> (parse_routes i rs (rules, dns) = Some (rules', dns') \<longrightarrow>
       ru_Protocol rules' = ru_Protocol rules @ map (\<lambda>v. strings_TrimPrefix v ''protocol:'')
          (filter (\<lambda>v. strings_HasPrefix v ''protocol:'') (block_matchs rs))
     \<and> ru_Regexp rules' = ru_Regexp rules @ map (\<lambda>v. strings_TrimPrefix v ''regexp:'')
          (filter (\<lambda>v. \<not> strings_HasPrefix v ''protocol:'') (block_matchs rs)))"
  using parse_routes_panic [of i rs "(rules, dns)"] parse_routes_rules [of i rs rules dns rules' dns']
    fold_add_block_rule [of "block_matchs rs" rules]
  by (auto simp: route_bad_def)

theorem parse_routes_exact_witness:
  "\<exists>rules dns. parse_routes 0 [\<lparr>rt_Id = 1, rt_Match = AnyString ''regexp:ads,protocol:bittorrent'',
       rt_Action = ''block'', rt_ActionValue = []\<rparr>] (\<lparr>ru_Regexp = [], ru_Protocol = []\<rparr>,
       \<lparr>dns_DNSMap = [], dns_DNSJson = []\<rparr>) = Some (rules, dns)
     \<and> ru_Protocol rules = [''bittorrent''] \<and> ru_Regexp rules = [''ads'']"
proof -
  let ?rs = "[\<lparr>rt_Id = 1, rt_Match = AnyString ''regexp:ads,protocol:bittorrent'',
       rt_Action = ''block'', rt_ActionValue = []\<rparr>]"
  let ?st = "(\<lparr>ru_Regexp = [], ru_Protocol = []\<rparr>, \<lparr>dns_DNSMap = [], dns_DNSJson = []\<rparr>)"
  have "parse_routes 0 ?rs ?st \<noteq> None" by code_simp
  then obtain rules dns where p: "parse_routes 0 ?rs ?st = Some (rules, dns)" by auto
  have m: "block_matchs ?rs = [''regexp:ads'', ''protocol:bittorrent'']" by code_simp
  have f: "filter (\<lambda>v. strings_HasPrefix v ''protocol:'') [''regexp:ads'', ''protocol:bittorrent'']
      = [''protocol:bittorrent'']"
    "filter (\<lambda>v. \<not> strings_HasPrefix v ''protocol:'') [''regexp:ads'', ''protocol:bittorrent''] = [''regexp:ads'']"
    "strings_TrimPrefix ''protocol:bittorrent'' ''protocol:'' = ''bittorrent''"
    "strings_TrimPrefix ''regexp:ads'' ''regexp:'' = ''ads''" by code_simp+
  show ?thesis using parse_routes_exact [of 0 ?rs] p m f by auto
qed

end
