(* ===== verification/Controller.thy ===== *)
theory Controller
  imports Node_User Panel_Client
begin

text \<open>
  \<open>node/controller.go\<close>, \<open>node/task.go\<close> and the reporting task of \<open>node/user.go\<close>: the controller of a
  node, which polls its panel, keeps core, limiter and user list in step, and reports traffic and
  online devices. The controller's limiter is the one registered under its tag. The core, the
  panel requests, the file system, the certificate requests and the pattern compiler are the fields
  of \<open>env\<close>.
\<close>

record task_cfg =
  tk_Interval :: duration
  tk_running :: bool

record ('re, 'b, 'raw, 's) Controller =
  co_server :: 's
  co_apiClient :: Client
  co_limiters :: "('re, 'b) limiters"
  co_Options :: "'raw Options"
  co_tag :: string
  co_hasLimiter :: bool
  co_userList :: "UserInfo list"
  co_info :: "'raw NodeInfo option"
  co_traffic :: "(string, 64 word) gomap"
  co_lastOnlineUIDs :: uid_set
  co_nodeInfoMonitorPeriodic :: "task_cfg option"
  co_userReportPeriodic :: "task_cfg option"
  co_renewCertPeriodic :: "task_cfg option"
  co_dynamicSpeedLimitPeriodic :: "task_cfg option"
  co_onlineIpReportPeriodic :: "task_cfg option"

record ('re, 'raw, 's) env =
  env_AddNode :: "'s \<Rightarrow> string \<Rightarrow> 'raw NodeInfo \<Rightarrow> 'raw Options \<Rightarrow> 's \<times> string option"
  env_DelNode :: "'s \<Rightarrow> string \<Rightarrow> 's \<times> string option"
  env_AddUsers :: "'s \<Rightarrow> string \<Rightarrow> UserInfo list \<Rightarrow> 'raw NodeInfo option \<Rightarrow> 's \<times> string option"
  env_DelUsers :: "'s \<Rightarrow> UserInfo list \<Rightarrow> string \<Rightarrow> 'raw NodeInfo option \<Rightarrow> 's \<times> string option"
  env_GetUserTraffic :: "'s \<Rightarrow> string \<Rightarrow> string \<Rightarrow> bool \<Rightarrow> 's \<times> 64 word \<times> 64 word"
  env_RestoreUserTraffic :: "'s \<Rightarrow> string \<Rightarrow> string \<Rightarrow> 64 word \<Rightarrow> 64 word \<Rightarrow> 's"
  env_GetNodeInfo :: "Client \<Rightarrow> (Client \<times> (string + 'raw NodeInfo option)) go"
  env_GetUserList :: "Client \<Rightarrow> (Client \<times> (string + UserInfo list option)) go"
  env_GetUserAlive :: "Client \<Rightarrow> Client \<times> (int, int) gomap"
  env_ReportNodeOnlineUsers :: "Client \<Rightarrow> (int, string list) gomap \<Rightarrow> string option"
  env_ReportUserTraffic :: "Client \<Rightarrow> UserTraffic list \<Rightarrow> string option"
  env_IsExist :: "string \<Rightarrow> bool"
  env_createCert :: "CertConfig \<Rightarrow> string option"
  env_selfCert :: "string \<Rightarrow> string \<Rightarrow> string \<Rightarrow> string option"
  env_compile :: "string \<Rightarrow> 're option"

definition getLimiter :: "('re, 'b, 'raw, 's) Controller \<Rightarrow> ('re, 'b) Limiter option" where
  "getLimiter c = (if co_hasLimiter c then mload (co_limiters c) (co_tag c) else None)"

text \<open>A change of the controller's limiter through its pointer.\<close>

definition onLimiter ::
  "(('re, 'b) Limiter \<Rightarrow> ('re, 'b) Limiter) \<Rightarrow> ('re, 'b, 'raw, 's) Controller \<Rightarrow> ('re, 'b, 'raw, 's) Controller" where
  "onLimiter f c =
     (case getLimiter c of
        None \<Rightarrow> c | Some l \<Rightarrow> c\<lparr>co_limiters := mstore (co_limiters c) (co_tag c) (f l)\<rparr>)"

section \<open>Settings (\<open>task.go\<close>)\<close>

definition maxPanelPushInterval :: duration where "maxPanelPushInterval = 100 * time_Second"

definition defaultPanelPullInterval :: duration where "defaultPanelPullInterval = 60 * time_Second"

definition minPanelPullInterval :: duration where "minPanelPullInterval = 10 * time_Second"

definition normalizedPushInterval :: "('re, 'b, 'raw, 's) Controller \<Rightarrow> duration \<Rightarrow> duration" where
  "normalizedPushInterval c interval =
     (let interval = (if interval \<le> 0 then 60 * time_Second else interval)
      in if pc_PanelType (co_apiClient c) \<noteq> ''ppanel'' then
           (let interval = (if interval < 20 * time_Second then 20 * time_Second else interval)
            in if interval > maxPanelPushInterval then maxPanelPushInterval else interval)
         else interval)"

definition normalizedPullInterval :: "duration \<Rightarrow> duration" where
  "normalizedPullInterval interval =
     (if interval \<le> 0 then defaultPanelPullInterval
      else if interval < minPanelPullInterval then minPanelPullInterval
      else interval)"

definition retryNodeReload :: "('re, 'b, 'raw, 's) Controller \<Rightarrow> ('re, 'b, 'raw, 's) Controller" where
  "retryNodeReload c = c\<lparr>co_apiClient := InvalidateNodeConfigCache (co_apiClient c)\<rparr>"

definition online_ttl :: "LimitConfig \<Rightarrow> duration \<Rightarrow> duration" where
  "online_ttl lc pushInterval =
     (let ttl = i64 (lc_OnlineTimeout lc * time_Second);
          ttl = (if ttl \<le> 0 then 5 * time_Minute else ttl);
          minimum = i64 (pushInterval + time_Minute)
      in if ttl < minimum then minimum else ttl)"

definition applyOnlineTTL :: "('re, 'b, 'raw, 's) Controller \<Rightarrow> duration \<Rightarrow> ('re, 'b, 'raw, 's) Controller" where
  "applyOnlineTTL c pushInterval =
     onLimiter (\<lambda>l. Limiter_SetOnlineTTL l (online_ttl (op_LimitConfig (co_Options c)) pushInterval)) c"

definition dynamicSpeedLimitEnabled :: "('re, 'b, 'raw, 's) Controller \<Rightarrow> bool" where
  "dynamicSpeedLimitEnabled c \<longleftrightarrow> lc_EnableDynamicSpeedLimit (op_LimitConfig (co_Options c))
     \<and> lc_DynamicSpeedLimitConfig (op_LimitConfig (co_Options c)) \<noteq> None"

definition dynamicSpeedLimitInterval :: "('re, 'b, 'raw, 's) Controller \<Rightarrow> duration" where
  "dynamicSpeedLimitInterval c =
     (case lc_DynamicSpeedLimitConfig (op_LimitConfig (co_Options c)) of
        Some d \<Rightarrow> if dynamicSpeedLimitEnabled c \<and> dsl_Periodic d > 0 then i64 (dsl_Periodic d * time_Second)
                  else 60 * time_Second
      | None \<Rightarrow> 60 * time_Second)"

definition onlineIPSyncEnabled :: "('re, 'b, 'raw, 's) Controller \<Rightarrow> bool" where
  "onlineIPSyncEnabled c =
     (if pc_PanelType (co_apiClient c) = ''ppanel'' then False
      else
        (lc_EnableIpRecorder (op_LimitConfig (co_Options c))
         \<and> (case lc_IpRecorderConfig (op_LimitConfig (co_Options c)) of
              Some r \<Rightarrow> irc_EnableIpSync r | None \<Rightarrow> False))
        \<or> list_ex (\<lambda>user. ui_DeviceLimit user > 0) (co_userList c))"

definition onlineIPSyncInterval :: "('re, 'b, 'raw, 's) Controller \<Rightarrow> duration" where
  "onlineIPSyncInterval c =
     (case lc_IpRecorderConfig (op_LimitConfig (co_Options c)) of
        Some r \<Rightarrow> if irc_Periodic r > 0 then i64 (irc_Periodic r * time_Second) else 30 * time_Second
      | None \<Rightarrow> 30 * time_Second)"

section \<open>Traffic of the dynamic speed limit (\<open>controller.go\<close>)\<close>

definition resetTraffic :: "('re, 'b, 'raw, 's) Controller \<Rightarrow> ('re, 'b, 'raw, 's) Controller" where
  "resetTraffic c = c\<lparr>co_traffic := []\<rparr>"

definition addTraffic :: "('re, 'b, 'raw, 's) Controller \<Rightarrow> string \<Rightarrow> 64 word \<Rightarrow> ('re, 'b, 'raw, 's) Controller" where
  "addTraffic c uuid traffic =
     (if traffic \<le>s 0 then c
      else c\<lparr>co_traffic := mstore (co_traffic c) uuid (mget 0 (co_traffic c) uuid + traffic)\<rparr>)"

definition deleteTraffic :: "('re, 'b, 'raw, 's) Controller \<Rightarrow> string \<Rightarrow> ('re, 'b, 'raw, 's) Controller" where
  "deleteTraffic c uuid = c\<lparr>co_traffic := mdelete (co_traffic c) uuid\<rparr>"

definition consumeDynamicSpeedLimitUsers ::
  "('re, 'b, 'raw, 's) Controller \<Rightarrow> ('re, 'b, 'raw, 's) Controller \<times> string list" where
  "consumeDynamicSpeedLimitUsers c =
     (if \<not> dynamicSpeedLimitEnabled c then (c, [])
      else
        (case lc_DynamicSpeedLimitConfig (op_LimitConfig (co_Options c)) of
           None \<Rightarrow> (c, [])
         | Some d \<Rightarrow>
             let threshold = dsl_Traffic d
             in if threshold \<le> 0 then (c, [])
                else (c\<lparr>co_traffic := mrange_delete (\<lambda>_ traffic. sint traffic \<ge> threshold) (co_traffic c)\<rparr>,
                      map fst (filter (\<lambda>(_, traffic). sint traffic \<ge> threshold) (co_traffic c)))))"

definition SpeedChecker :: "gotime \<Rightarrow> ('re, 'b, 'raw, 's) Controller \<Rightarrow> ('re, 'b, 'raw, 's) Controller" where
  "SpeedChecker now c =
     (case lc_DynamicSpeedLimitConfig (op_LimitConfig (co_Options c)) of
        None \<Rightarrow> c
      | Some d \<Rightarrow>
          if \<not> dynamicSpeedLimitEnabled c then c
          else
            (case consumeDynamicSpeedLimitUsers c of
               (c, uuids) \<Rightarrow>
                 fold (\<lambda>uuid c. onLimiter (\<lambda>l.
                    case UpdateDynamicSpeedLimit l (co_tag c) uuid (dsl_SpeedLimit d)
                           (time_Add now (i64 (dsl_ExpireTime d * time_Minute))) of
                      Inl _ \<Rightarrow> l | Inr l \<Rightarrow> l) c) uuids c))"

definition buildNodeTag :: "('re, 'b, 'raw, 's) Controller \<Rightarrow> 'raw NodeInfo \<Rightarrow> string" where
  "buildNodeTag c node =
     ''['' @ pc_APIHost (co_apiClient c) @ '']-'' @ ni_Type node @ '':'' @ strconv_Itoa (ni_Id node)"

section \<open>Reporting (\<open>user.go\<close>, \<open>online.go\<close>)\<close>

definition getOnlineUsers ::
  "gotime \<Rightarrow> ('re, 'b, 'raw, 's) Controller \<Rightarrow> ('re, 'b, 'raw, 's) Controller \<times> OnlineUser list" where
  "getOnlineUsers now c =
     (case getLimiter c of
        None \<Rightarrow> (c, [])
      | Some l \<Rightarrow> (onLimiter (\<lambda>l. fst (GetOnlineDevice now l)) c, snd (GetOnlineDevice now l)))"

text \<open>The users whose devices are reported: on \<open>ppanel\<close> only those with enough traffic.\<close>

definition report_filter ::
  "('re, 'b, 'raw, 's) Controller \<Rightarrow> UserTraffic list \<Rightarrow> OnlineUser list \<Rightarrow> OnlineUser list" where
  "report_filter c userTraffic onlineDevice =
     (let minTraffic = op_DeviceOnlineMinTraffic (co_Options c);
          nocountUID = (if pc_PanelType (co_apiClient c) = ''ppanel'' \<and> minTraffic > 0
                        then map ut_UID (filter (\<lambda>t. sint (ut_Upload t + ut_Download t) < i64 (minTraffic * 1000))
                               userTraffic)
                        else [])
      in filter (\<lambda>online. ou_UID online \<notin> set nocountUID) onlineDevice)"

text \<open>Zero-traffic entries of online users that have none yet.\<close>

definition add_zero_traffic :: "OnlineUser list \<Rightarrow> UserTraffic list \<Rightarrow> UserTraffic list" where
  "add_zero_traffic result userTraffic =
     fold (\<lambda>u ts. if ou_UID u \<in> ut_UID ` set ts then ts
                  else ts @ [\<lparr>ut_UID = ou_UID u, ut_Upload = 0, ut_Download = 0, ut_Key = []\<rparr>]) result userTraffic"

text \<open>
  The task returns the state, the online payload and the traffic list it sent. The node status
  report at its end changes no state of the program.
\<close>

definition reportUserTrafficTask ::
  "('re, 'raw, 's) env \<Rightarrow> gotime \<Rightarrow> ('re, 'b, 'raw, 's) Controller
   \<Rightarrow> ('re, 'b, 'raw, 's) Controller \<times> (int, string list) gomap \<times> UserTraffic list" where
  "reportUserTrafficTask E now c =
     (let tag = co_tag c;
          users = co_userList c;
          ppanel = (pc_PanelType (co_apiClient c) = ''ppanel'')
      in case collect_usage (env_GetUserTraffic E) tag users (co_server c) of
           (s, samples) \<Rightarrow>
             let c = c\<lparr>co_server := s\<rparr>;
                 c = fold (\<lambda>(u, r) c. if dynamicSpeedLimitEnabled c then addTraffic c (ui_Uuid u) (ru_up r + ru_down r)
                                      else c) samples c;
                 userTraffic = map (\<lambda>(u, r). \<lparr>ut_UID = ui_Id u, ut_Upload = ru_up r, ut_Download = ru_down r,
                                             ut_Key = []\<rparr>) samples
             in case getOnlineUsers now c of
                  (c, onlineDevice) \<Rightarrow>
                    let result = report_filter c userTraffic (dedupeOnlineUsersByIP onlineDevice);
                        data = buildOnlineIPPayload result;
                        (lastOnline, stale) = trackOnlineTransition (co_lastOnlineUIDs c) result;
                        c = (if ppanel then c else c\<lparr>co_lastOnlineUIDs := lastOnline\<rparr>);
                        data = (if ppanel then data else fold (\<lambda>uid d. mstore d uid []) stale data);
                        userTraffic = (if ppanel then userTraffic else add_zero_traffic result userTraffic);
                        c = (if userTraffic \<noteq> [] \<and> env_ReportUserTraffic E (co_apiClient c) userTraffic \<noteq> None
                             then c\<lparr>co_server := restore_usage (env_RestoreUserTraffic E) tag (map snd samples)
                                     (co_server c)\<rparr>
                             else c)
                    in (c, data, userTraffic))"

definition syncOnlineUsersTask ::
  "('re, 'raw, 's) env \<Rightarrow> ('re, 'b, 'raw, 's) Controller \<Rightarrow> ('re, 'b, 'raw, 's) Controller" where
  "syncOnlineUsersTask E c =
     (case getLimiter c of
        None \<Rightarrow> c
      | Some _ \<Rightarrow>
          (case env_GetUserAlive E (co_apiClient c) of
             (api, aliveMap) \<Rightarrow> onLimiter (\<lambda>l. SetAliveList l aliveMap) (c\<lparr>co_apiClient := api\<rparr>)))"

section \<open>Certificates (\<open>cert.go\<close>)\<close>

text \<open>
  \<open>None\<close> is the panic on a missing certificate section. \<open>env_createCert\<close> is the error of \<open>NewLego\<close> and
  \<open>CreateCert\<close>, wrapped by the caller.
\<close>

definition requestCert ::
  "('re, 'raw, 's) env \<Rightarrow> ('re, 'b, 'raw, 's) Controller \<Rightarrow> string option go" where
  "requestCert E c =
     (case op_CertConfig (co_Options c) of
        None \<Rightarrow> None
      | Some cc \<Rightarrow>
          let mode = cc_CertMode cc;
              missing = (cc_CertFile cc = [] \<or> cc_KeyFile cc = []);
              present = (env_IsExist E (cc_CertFile cc) \<and> env_IsExist E (cc_KeyFile cc))
          in Some
            (if mode = ''none'' \<or> mode = [] then None
             else if mode = ''file'' then
               (if missing then Some ''cert file path or key file path not exist'' else None)
             else if mode = ''dns'' \<or> mode = ''http'' then
               (if missing then Some ''cert file path or key file path not exist''
                else if present then None
                else env_createCert E cc)
             else if mode = ''self'' then
               (if missing then Some ''cert file path or key file path not exist''
                else if present then None
                else map_option (\<lambda>e. ''generate self cert error: '' @ e)
                       (env_selfCert E (cc_CertDomain cc) (cc_CertFile cc) (cc_KeyFile cc)))
             else Some (''unsupported certmode: '' @ mode)))"

section \<open>Tasks (\<open>task.go\<close>)\<close>

text \<open>
  \<open>Start(true)\<close> of a task that is not running executes its body in the caller, which is how the
  report and the synchronisation run here.
\<close>

definition run_report ::
  "('re, 'raw, 's) env \<Rightarrow> gotime \<Rightarrow> ('re, 'b, 'raw, 's) Controller \<Rightarrow> ('re, 'b, 'raw, 's) Controller" where
  "run_report E now c = fst (reportUserTrafficTask E now c)"

definition ensureOnlineIPSyncTask ::
  "('re, 'raw, 's) env \<Rightarrow> ('re, 'b, 'raw, 's) Controller \<Rightarrow> ('re, 'b, 'raw, 's) Controller" where
  "ensureOnlineIPSyncTask E c =
     (if \<not> onlineIPSyncEnabled c then c\<lparr>co_onlineIpReportPeriodic := None\<rparr>
      else
        let interval = onlineIPSyncInterval c
        in if map_option tk_Interval (co_onlineIpReportPeriodic c) = Some interval then c
           else syncOnlineUsersTask E (c\<lparr>co_onlineIpReportPeriodic := Some \<lparr>tk_Interval = interval, tk_running = True\<rparr>\<rparr>))"

definition startTasks ::
  "('re, 'raw, 's) env \<Rightarrow> gotime \<Rightarrow> 'raw NodeInfo \<Rightarrow> ('re, 'b, 'raw, 's) Controller
   \<Rightarrow> ('re, 'b, 'raw, 's) Controller go" where
  "startTasks E now node c =
     (let pushInterval = normalizedPushInterval c (ni_PushInterval node);
          c = applyOnlineTTL c pushInterval;
          c = c\<lparr>co_nodeInfoMonitorPeriodic := Some \<lparr>tk_Interval = normalizedPullInterval (ni_PullInterval node),
                                                  tk_running = True\<rparr>,
                co_userReportPeriodic := Some \<lparr>tk_Interval = pushInterval, tk_running = True\<rparr>\<rparr>;
          c = run_report E now c
      in case (if ni_Security node = Security_Tls
               then (case op_CertConfig (co_Options c) of
                       None \<Rightarrow> None
                     | Some cc \<Rightarrow>
                         Some (if cc_CertMode cc \<in> {''none'', [], ''file'', ''self''} then c
                               else c\<lparr>co_renewCertPeriodic := Some \<lparr>tk_Interval = 24 * time_Hour, tk_running = True\<rparr>\<rparr>))
               else Some c) of
           None \<Rightarrow> None
         | Some c \<Rightarrow>
             let c = (if dynamicSpeedLimitEnabled c
                      then (resetTraffic c)\<lparr>co_dynamicSpeedLimitPeriodic :=
                             Some \<lparr>tk_Interval = dynamicSpeedLimitInterval c, tk_running = True\<rparr>\<rparr>
                      else c)
             in Some (ensureOnlineIPSyncTask E c))"

section \<open>Start and close (\<open>controller.go\<close>)\<close>

definition NewController ::
  "'s \<Rightarrow> ('re, 'b) limiters \<Rightarrow> Client \<Rightarrow> 'raw Options \<Rightarrow> ('re, 'b, 'raw, 's) Controller" where
  "NewController server limiters api config =
     \<lparr>co_server = server, co_apiClient = api, co_limiters = limiters, co_Options = config, co_tag = [],
      co_hasLimiter = False, co_userList = [], co_info = None, co_traffic = [], co_lastOnlineUIDs = [],
      co_nodeInfoMonitorPeriodic = None, co_userReportPeriodic = None, co_renewCertPeriodic = None,
      co_dynamicSpeedLimitPeriodic = None, co_onlineIpReportPeriodic = None\<rparr>"

text \<open>From the first answers of the panel to the running tasks; the error of a failed start second.\<close>

definition start_node ::
  "('re, 'raw, 's) env \<Rightarrow> gotime \<Rightarrow> 'raw NodeInfo \<Rightarrow> ('re, 'b, 'raw, 's) Controller
   \<Rightarrow> (('re, 'b, 'raw, 's) Controller \<times> string option) go" where
  "start_node E now node c =
     (case (if ni_Security node = Security_Tls then requestCert E c else Some None) of
        None \<Rightarrow> None
      | Some (Some e) \<Rightarrow> Some (c, Some (''request cert error: '' @ e))
      | Some None \<Rightarrow>
          (case env_AddNode E (co_server c) (co_tag c) node (co_Options c) of
             (s, Some e) \<Rightarrow> Some (c\<lparr>co_server := s\<rparr>, Some (''add new node error: '' @ e))
           | (s, None) \<Rightarrow>
               (case env_AddUsers E s (co_tag c) (co_userList c) (Some node) of
                  (s, Some e) \<Rightarrow> Some (c\<lparr>co_server := s\<rparr>, Some (''add users error: '' @ e))
                | (s, None) \<Rightarrow>
                    (case startTasks E now node (c\<lparr>co_server := s, co_info := Some node\<rparr>) of
                       None \<Rightarrow> None | Some c \<Rightarrow> Some (c, None)))))"

definition Controller_Start ::
  "('re, 'raw, 's) env \<Rightarrow> gotime \<Rightarrow> ('re, 'b, 'raw, 's) Controller
   \<Rightarrow> (('re, 'b, 'raw, 's) Controller \<times> string option) go" where
  "Controller_Start E now c =
     (case env_GetNodeInfo E (co_apiClient c) of
        None \<Rightarrow> None
      | Some (api, Inl e) \<Rightarrow> Some (c\<lparr>co_apiClient := api\<rparr>, Some (''get node info error: '' @ e))
      | Some (api, Inr node) \<Rightarrow>
          (case env_GetUserList E api of
             None \<Rightarrow> None
           | Some (api, Inl e) \<Rightarrow> Some (c\<lparr>co_apiClient := api\<rparr>, Some (''get user list error: '' @ e))
           | Some (api, Inr None) \<Rightarrow>
               Some (c\<lparr>co_apiClient := api\<rparr>, Some ''add users error: not have any user'')
           | Some (api, Inr (Some [])) \<Rightarrow>
               Some (c\<lparr>co_apiClient := api\<rparr>, Some ''add users error: not have any user'')
           | Some (api, Inr (Some userList)) \<Rightarrow>
               (case env_GetUserAlive E api of
                  (api, aliveMap) \<Rightarrow>
                    let c = c\<lparr>co_apiClient := api\<rparr>
                    in case node of
                         None \<Rightarrow> None
                       | Some node \<Rightarrow>
                           let tag = (if op_Name (co_Options c) = [] then buildNodeTag c node else op_Name (co_Options c));
                               (l, limiters) = AddLimiter (co_limiters c) tag (op_LimitConfig (co_Options c)) userList aliveMap
                           in case UpdateRule (env_compile E) l (ni_Rules node) of
                                None \<Rightarrow> None
                              | Some l \<Rightarrow>
                                  start_node E now node
                                    (c\<lparr>co_limiters := mstore limiters tag l, co_tag := tag,
                                       co_userList := userList, co_hasLimiter := True\<rparr>))))"

definition Controller_Close ::
  "('re, 'raw, 's) env \<Rightarrow> ('re, 'b, 'raw, 's) Controller \<Rightarrow> ('re, 'b, 'raw, 's) Controller \<times> string option" where
  "Controller_Close E c =
     (let stop = map_option (\<lambda>t. t\<lparr>tk_running := False\<rparr>);
          c = c\<lparr>co_limiters := DeleteLimiter (co_limiters c) (co_tag c),
                co_nodeInfoMonitorPeriodic := stop (co_nodeInfoMonitorPeriodic c),
                co_userReportPeriodic := stop (co_userReportPeriodic c),
                co_renewCertPeriodic := stop (co_renewCertPeriodic c),
                co_dynamicSpeedLimitPeriodic := stop (co_dynamicSpeedLimitPeriodic c),
                co_onlineIpReportPeriodic := stop (co_onlineIpReportPeriodic c)\<rparr>
      in case env_DelNode E (co_server c) (co_tag c) of
           (s, err) \<Rightarrow> (c\<lparr>co_server := s\<rparr>, map_option (\<lambda>e. ''del node error: '' @ e) err))"

section \<open>The monitor (\<open>task.go\<close>)\<close>

text \<open>A method call on the limiter, which panics on a nil limiter.\<close>

definition call_limiter ::
  "(('re, 'b) Limiter \<Rightarrow> ('re, 'b) Limiter go) \<Rightarrow> ('re, 'b, 'raw, 's) Controller
   \<Rightarrow> ('re, 'b, 'raw, 's) Controller go" where
  "call_limiter f c =
     (case getLimiter c of
        None \<Rightarrow> None
      | Some l \<Rightarrow>
          (case f l of
             None \<Rightarrow> None
           | Some l \<Rightarrow> Some (c\<lparr>co_limiters := mstore (co_limiters c) (co_tag c) l\<rparr>)))"

text \<open>A node without a configured name is retagged and gets a fresh limiter.\<close>

definition reload_limiter ::
  "'raw NodeInfo \<Rightarrow> (int, int) gomap \<Rightarrow> ('re, 'b, 'raw, 's) Controller \<Rightarrow> ('re, 'b, 'raw, 's) Controller" where
  "reload_limiter newN newA c =
     (if op_Name (co_Options c) = [] then
        let oldTag = co_tag c;
            newTag = buildNodeTag c newN;
            limiters = DeleteLimiter (co_limiters c) oldTag
        in c\<lparr>co_tag := newTag, co_hasLimiter := True,
             co_limiters := snd (AddLimiter limiters newTag (op_LimitConfig (co_Options c)) (co_userList c) newA)\<rparr>
      else c)"

text \<open>The end of a reload that succeeded: the intervals, the online window and the sync task.\<close>

definition reload_intervals ::
  "('re, 'raw, 's) env \<Rightarrow> gotime \<Rightarrow> 'raw NodeInfo \<Rightarrow> ('re, 'b, 'raw, 's) Controller
   \<Rightarrow> ('re, 'b, 'raw, 's) Controller go" where
  "reload_intervals E now newN c =
     (case (co_nodeInfoMonitorPeriodic c, co_userReportPeriodic c) of
        (Some monitor, Some report) \<Rightarrow>
          let newPullInterval = normalizedPullInterval (ni_PullInterval newN);
              c = (if tk_Interval monitor \<noteq> newPullInterval
                   then c\<lparr>co_nodeInfoMonitorPeriodic := Some \<lparr>tk_Interval = newPullInterval, tk_running = True\<rparr>\<rparr>
                   else c);
              newPushInterval = normalizedPushInterval c (ni_PushInterval newN);
              c = (if tk_Interval report \<noteq> newPushInterval
                   then run_report E now
                          (c\<lparr>co_userReportPeriodic := Some \<lparr>tk_Interval = newPushInterval, tk_running = True\<rparr>\<rparr>)
                   else c)
          in Some (ensureOnlineIPSyncTask E (applyOnlineTTL c newPushInterval))
      | _ \<Rightarrow> None)"

text \<open>The registration of the new node with the core; every failure forgets the cached configuration.\<close>

definition reload_core ::
  "('re, 'raw, 's) env \<Rightarrow> gotime \<Rightarrow> 'raw NodeInfo \<Rightarrow> ('re, 'b, 'raw, 's) Controller
   \<Rightarrow> ('re, 'b, 'raw, 's) Controller go" where
  "reload_core E now newN c =
     (case (if ni_Security newN = Security_Tls then requestCert E c else Some None) of
        None \<Rightarrow> None
      | Some (Some _) \<Rightarrow> Some (retryNodeReload c)
      | Some None \<Rightarrow>
          (case env_AddNode E (co_server c) (co_tag c) newN (co_Options c) of
             (s, Some _) \<Rightarrow> Some (retryNodeReload (c\<lparr>co_server := s\<rparr>))
           | (s, None) \<Rightarrow>
               (case env_AddUsers E s (co_tag c) (co_userList c) (Some newN) of
                  (s, Some _) \<Rightarrow> Some (retryNodeReload (c\<lparr>co_server := s\<rparr>))
                | (s, None) \<Rightarrow> reload_intervals E now newN (c\<lparr>co_server := s\<rparr>))))"

definition reload_node ::
  "('re, 'raw, 's) env \<Rightarrow> gotime \<Rightarrow> 'raw NodeInfo \<Rightarrow> UserInfo list option \<Rightarrow> (int, int) gomap
   \<Rightarrow> ('re, 'b, 'raw, 's) Controller \<Rightarrow> ('re, 'b, 'raw, 's) Controller go" where
  "reload_node E now newN newU newA c =
     (let c = c\<lparr>co_info := Some newN\<rparr>;
          c = (case newU of Some us \<Rightarrow> c\<lparr>co_userList := us\<rparr> | None \<Rightarrow> c);
          c = resetTraffic c;
          c = c\<lparr>co_server := fst (env_DelNode E (co_server c) (co_tag c))\<rparr>;
          c = reload_limiter newN newA c
      in case call_limiter (\<lambda>l. Some (SetAliveList l newA)) c of
           None \<Rightarrow> None
         | Some c \<Rightarrow>
             (case call_limiter (\<lambda>l. UpdateRule (env_compile E) l (ni_Rules newN)) c of
                None \<Rightarrow> None | Some c \<Rightarrow> reload_core E now newN c))"

text \<open>The users changed and the node did not.\<close>

definition update_users ::
  "('re, 'raw, 's) env \<Rightarrow> UserInfo list \<Rightarrow> ('re, 'b, 'raw, 's) Controller
   \<Rightarrow> ('re, 'b, 'raw, 's) Controller go" where
  "update_users E newU c =
     (case compareUserList (co_userList c) newU of
        (deleted, added) \<Rightarrow>
          (case (if deleted \<noteq> [] then env_DelUsers E (co_server c) deleted (co_tag c) (co_info c)
                 else (co_server c, None)) of
             (s, Some _) \<Rightarrow> Some (c\<lparr>co_server := s\<rparr>)
           | (s, None) \<Rightarrow>
               (case (if added \<noteq> [] then env_AddUsers E s (co_tag c) added (co_info c) else (s, None)) of
                  (s, Some _) \<Rightarrow> Some (c\<lparr>co_server := s\<rparr>)
                | (s, None) \<Rightarrow>
                    (case (if added \<noteq> [] \<or> deleted \<noteq> []
                           then map_option
                             (\<lambda>c. if dynamicSpeedLimitEnabled c then fold (\<lambda>u c. deleteTraffic c (ui_Uuid u)) deleted c
                                  else c)
                             (call_limiter (\<lambda>l. Some (UpdateUser l (co_tag c) added deleted)) (c\<lparr>co_server := s\<rparr>))
                           else Some (c\<lparr>co_server := s\<rparr>)) of
                       None \<Rightarrow> None
                     | Some c \<Rightarrow> Some (ensureOnlineIPSyncTask E (c\<lparr>co_userList := newU\<rparr>))))))"

definition nodeInfoMonitor ::
  "('re, 'raw, 's) env \<Rightarrow> gotime \<Rightarrow> ('re, 'b, 'raw, 's) Controller \<Rightarrow> ('re, 'b, 'raw, 's) Controller go" where
  "nodeInfoMonitor E now c =
     (case env_GetNodeInfo E (co_apiClient c) of
        None \<Rightarrow> None
      | Some (api, Inl _) \<Rightarrow> Some (c\<lparr>co_apiClient := api\<rparr>)
      | Some (api, Inr newN) \<Rightarrow>
          (case env_GetUserList E api of
             None \<Rightarrow> None
           | Some (api, Inl _) \<Rightarrow> Some (c\<lparr>co_apiClient := api\<rparr>)
           | Some (api, Inr newU) \<Rightarrow>
               (case env_GetUserAlive E api of
                  (api, newA) \<Rightarrow>
                    let c = c\<lparr>co_apiClient := api\<rparr>
                    in case newN of
                         Some newN \<Rightarrow> reload_node E now newN newU newA c
                       | None \<Rightarrow>
                           (case call_limiter (\<lambda>l. Some (SetAliveList l newA)) c of
                              None \<Rightarrow> None
                            | Some c \<Rightarrow>
                                (case newU of None \<Rightarrow> Some c | Some newU \<Rightarrow> update_users E newU c)))))"

section \<open>The limiter knows the users of the node\<close>

text \<open>What the panel sets for a user, in the list and in the limiter.\<close>

definition user_plan :: "UserInfo \<Rightarrow> int \<times> int \<times> int" where
  "user_plan u = (ui_Id u, ui_SpeedLimit u, ui_DeviceLimit u)"

definition limit_plan :: "UserLimitInfo \<Rightarrow> int \<times> int \<times> int" where
  "limit_plan e = (ul_UID e, ul_SpeedLimit e, ul_DeviceLimit e)"

definition listed :: "UserInfo list \<Rightarrow> string \<Rightarrow> UserInfo option" where
  "listed users uuid = find (\<lambda>u. ui_Uuid u = uuid) users"

definition users_match :: "string \<Rightarrow> UserInfo list \<Rightarrow> (string, UserLimitInfo) gomap \<Rightarrow> bool" where
  "users_match tag users m \<longleftrightarrow>
     (\<forall>uuid. map_option limit_plan (mload m (UserTag tag uuid)) = map_option user_plan (listed users uuid))"

definition in_step :: "('re, 'b, 'raw, 's) Controller \<Rightarrow> bool" where
  "in_step c \<longleftrightarrow> distinct (map ui_Uuid (co_userList c))
     \<and> (case getLimiter c of None \<Rightarrow> False | Some l \<Rightarrow> users_match (co_tag c) (co_userList c) (li_UserLimitInfo l))"

lemma limit_plan_of_user [simp]: "limit_plan (user_limit_of u) = user_plan u"
  by (simp add: limit_plan_def user_plan_def user_limit_of_def)

lemma listed_eq: "distinct (map ui_Uuid users) \<Longrightarrow> listed users uuid = map_of (map (\<lambda>u. (ui_Uuid u, u)) users) uuid"
  by (induction users) (auto simp: listed_def)

lemma listed_Some: "distinct (map ui_Uuid users) \<Longrightarrow> listed users uuid = Some u \<longleftrightarrow> u \<in> set users \<and> ui_Uuid u = uuid"
  by (induction users) (auto simp: listed_def)

lemma listed_None: "listed users uuid = None \<longleftrightarrow> uuid \<notin> ui_Uuid ` set users"
  by (auto simp: listed_def find_None_iff)

lemma map_of_rev_distinct:
  "distinct (map fst kvs) \<Longrightarrow> map_of (rev kvs) k = map_of kvs k"
proof -
  assume "distinct (map fst kvs)"
  then have "map_of (rev kvs) k = Some v \<longleftrightarrow> map_of kvs k = Some v" for v
    by (simp add: map_of_eq_Some_iff rev_map [symmetric])
  then show ?thesis by (metis not_None_eq)
qed

lemma store_users_listed:
  assumes "distinct (map ui_Uuid added)"
  shows "mload (li_UserLimitInfo (fold (store_user tag) added l)) (UserTag tag uuid) =
     (case listed added uuid of
        Some u \<Rightarrow> Some (user_limit_of u) | None \<Rightarrow> mload (li_UserLimitInfo l) (UserTag tag uuid))"
  unfolding fold_store_users listed_eq [OF assms]
  using assms by (subst map_of_rev_distinct) (simp_all add: comp_def)

lemma remove_users_limits:
  "mload (li_UserLimitInfo (fold (remove_user tag) deleted l)) (UserTag tag uuid) =
     (if uuid \<in> ui_Uuid ` set deleted then None else mload (li_UserLimitInfo l) (UserTag tag uuid))"
  by (induction deleted arbitrary: l)
    (auto simp: remove_user_def DeleteAlive_def Let_def UserTag_inject)

lemma AddLimiter_users_match:
  assumes "distinct (map ui_Uuid users)"
  shows "users_match tag users (li_UserLimitInfo (fst (AddLimiter ls tag lc users alive)))"
  using assms
  by (simp add: users_match_def AddLimiter_def Let_def SetAliveList_def store_users_listed split: option.split)

lemma UpdateUser_users_match:
  assumes "distinct (map ui_Uuid old)" "distinct (map ui_Uuid new)" "compareUserList old new = (deleted, added)"
    and "users_match tag old (li_UserLimitInfo l)"
  shows "users_match tag new (li_UserLimitInfo (UpdateUser l tag added deleted))"
proof -
  have d: "set deleted = set old - set new" and a: "added = filter (\<lambda>u. u \<notin> set old) new"
    using compareUserList_sets [OF _ assms(3)] assms(2) by (auto simp: distinct_map)
  have da: "distinct (map ui_Uuid added)" using assms(2) by (simp add: a distinct_map_filter)
  have "map_option limit_plan (mload (li_UserLimitInfo (UpdateUser l tag added deleted)) (UserTag tag uuid)) =
      map_option user_plan (listed new uuid)" for uuid
  proof (cases "listed new uuid")
    case None
    then have "listed added uuid = None" by (auto simp: listed_None a)
    moreover have "uuid \<in> ui_Uuid ` set deleted \<or> listed old uuid = None"
      using None d by (auto simp: listed_None)
    moreover have "map_option limit_plan (mload (li_UserLimitInfo l) (UserTag tag uuid)) = map_option user_plan (listed old uuid)"
      using assms(4) by (simp add: users_match_def)
    ultimately show ?thesis
      using None by (auto simp: UpdateUser_def store_users_listed [OF da] remove_users_limits)
  next
    case (Some u)
    then have u: "u \<in> set new" "ui_Uuid u = uuid" using listed_Some [OF assms(2)] by auto
    show ?thesis
    proof (cases "u \<in> set old")
      case True
      have "listed added uuid = None"
        using u assms(2) True by (auto simp: listed_None a distinct_map inj_on_def)
      moreover have "uuid \<notin> ui_Uuid ` set deleted"
        using u True assms(1) d by (auto simp: distinct_map inj_on_def)
      moreover have "listed old uuid = Some u" using True u listed_Some [OF assms(1)] by simp
      ultimately show ?thesis
        using assms(4) Some by (auto simp: users_match_def UpdateUser_def store_users_listed [OF da] remove_users_limits)
    next
      case False
      then have "listed added uuid = Some u" using u listed_Some [OF da] by (simp add: a)
      then show ?thesis using Some by (simp add: UpdateUser_def store_users_listed [OF da])
    qed
  qed
  then show ?thesis by (simp add: users_match_def)
qed

section \<open>Frames\<close>

text \<open>
  The interface of what an operation leaves alone: a relation between controllers that is kept by
  changes of the fields that the reports and the synchronisation write, and by the two limiter
  operations they call. The tasks then keep it as a whole.
\<close>

locale controller_frame =
  fixes R :: "('re, 'b, 'raw, 's) Controller \<Rightarrow> ('re, 'b, 'raw, 's) Controller \<Rightarrow> bool"
  assumes refl: "R c c"
    and trans: "R a b \<Longrightarrow> R b c \<Longrightarrow> R a c"
    and set_server: "R c (c\<lparr>co_server := s\<rparr>)"
    and set_api: "R c (c\<lparr>co_apiClient := api\<rparr>)"
    and set_traffic: "R c (c\<lparr>co_traffic := t\<rparr>)"
    and set_last: "R c (c\<lparr>co_lastOnlineUIDs := u\<rparr>)"
    and set_sync: "R c (c\<lparr>co_onlineIpReportPeriodic := p\<rparr>)"
    and rotate: "R c (onLimiter (\<lambda>l. fst (GetOnlineDevice now l)) c)"
    and alive: "R c (onLimiter (\<lambda>l. SetAliveList l m) c)"
begin

lemma steps:
  assumes "R c c'"
  shows "R c (c'\<lparr>co_server := s\<rparr>)" "R c (c'\<lparr>co_apiClient := api\<rparr>)" "R c (c'\<lparr>co_traffic := t\<rparr>)"
    "R c (c'\<lparr>co_lastOnlineUIDs := u\<rparr>)" "R c (c'\<lparr>co_onlineIpReportPeriodic := p\<rparr>)"
    "R c (onLimiter (\<lambda>l. fst (GetOnlineDevice now l)) c')" "R c (onLimiter (\<lambda>l. SetAliveList l m) c')"
  using assms trans set_server set_api set_traffic set_last set_sync rotate alive by blast+

lemma fold_frame: "(\<And>x c'. R c c' \<Longrightarrow> R c (f x c')) \<Longrightarrow> R c c' \<Longrightarrow> R c (fold f xs c')"
  by (induction xs arbitrary: c') auto

lemma frame_deleteTraffic: "R c c' \<Longrightarrow> R c (fold (\<lambda>u c. deleteTraffic c (ui_Uuid u)) us c')"
  by (rule fold_frame) (simp_all add: deleteTraffic_def steps)

lemma frame_sync: "R c c' \<Longrightarrow> R c (syncOnlineUsersTask E c')"
  by (auto simp: syncOnlineUsersTask_def steps split: option.split prod.split)

lemma frame_ensure: "R c c' \<Longrightarrow> R c (ensureOnlineIPSyncTask E c')"
  by (simp add: ensureOnlineIPSyncTask_def Let_def frame_sync steps)

lemma frame_getOnlineUsers: "R c c' \<Longrightarrow> R c (fst (getOnlineUsers now c'))"
  by (simp add: getOnlineUsers_def steps split: option.split)

lemma frame_report: "R c c' \<Longrightarrow> R c (run_report E now c')"
proof -
  assume R: "R c c'"
  obtain s samples where cu: "collect_usage (env_GetUserTraffic E) (co_tag c') (co_userList c') (co_server c') = (s, samples)"
    by fastforce
  define d where "d = fold (\<lambda>(u, r) c. if dynamicSpeedLimitEnabled c then addTraffic c (ui_Uuid u) (ru_up r + ru_down r)
      else c) samples (c'\<lparr>co_server := s\<rparr>)"
  have "R c d" unfolding d_def using R by (intro fold_frame) (auto simp: addTraffic_def steps)
  then have "R c (fst (getOnlineUsers now d))" by (rule frame_getOnlineUsers)
  then show ?thesis
    by (auto simp: run_report_def reportUserTrafficTask_def Let_def cu d_def [symmetric] steps split: prod.split)
qed

end

text \<open>Most operations of the controller leave tag, user list and limit entries alone.\<close>

definition same_users :: "('re, 'b, 'raw, 's) Controller \<Rightarrow> ('re, 'b, 'raw, 's) Controller \<Rightarrow> bool" where
  "same_users c c' \<longleftrightarrow> co_tag c' = co_tag c \<and> co_userList c' = co_userList c
     \<and> map_option li_UserLimitInfo (getLimiter c') = map_option li_UserLimitInfo (getLimiter c)"

lemma same_users_refl [simp]: "same_users c c" by (simp add: same_users_def)

lemma same_users_trans [trans]: "same_users a b \<Longrightarrow> same_users b c \<Longrightarrow> same_users a c"
  by (simp add: same_users_def)

lemma in_step_same: "same_users c c' \<Longrightarrow> in_step c' \<longleftrightarrow> in_step c"
  by (auto simp: same_users_def in_step_def split: option.splits)

lemma same_users_fields [simp]:
  "same_users c (c'\<lparr>co_server := s\<rparr>) = same_users c c'"
  "same_users c (c'\<lparr>co_apiClient := a\<rparr>) = same_users c c'"
  "same_users c (c'\<lparr>co_info := i\<rparr>) = same_users c c'"
  "same_users c (c'\<lparr>co_traffic := t\<rparr>) = same_users c c'"
  "same_users c (c'\<lparr>co_lastOnlineUIDs := u\<rparr>) = same_users c c'"
  "same_users c (c'\<lparr>co_nodeInfoMonitorPeriodic := p\<rparr>) = same_users c c'"
  "same_users c (c'\<lparr>co_userReportPeriodic := p\<rparr>) = same_users c c'"
  "same_users c (c'\<lparr>co_renewCertPeriodic := p\<rparr>) = same_users c c'"
  "same_users c (c'\<lparr>co_dynamicSpeedLimitPeriodic := p\<rparr>) = same_users c c'"
  "same_users c (c'\<lparr>co_onlineIpReportPeriodic := p\<rparr>) = same_users c c'"
  by (simp_all add: same_users_def getLimiter_def)

lemma same_onLimiter:
  assumes "same_users c c'" and "\<And>l. li_UserLimitInfo (f l) = li_UserLimitInfo l"
  shows "same_users c (onLimiter f c')"
proof -
  have "same_users c' (onLimiter f c')"
    using assms(2) by (auto simp: same_users_def onLimiter_def getLimiter_def split: option.splits)
  with assms(1) show ?thesis by (rule same_users_trans)
qed

lemma same_call_limiter:
  assumes "call_limiter f c = Some c'" and "\<And>l l'. f l = Some l' \<Longrightarrow> li_UserLimitInfo l' = li_UserLimitInfo l"
  shows "same_users c c'"
  using assms by (auto simp: same_users_def call_limiter_def getLimiter_def split: option.splits if_splits)

lemma same_applyOnlineTTL: "same_users c c' \<Longrightarrow> same_users c (applyOnlineTTL c' p)"
  unfolding applyOnlineTTL_def by (rule same_onLimiter) (simp_all add: Limiter_SetOnlineTTL_def)

interpretation users: controller_frame same_users
  by unfold_locales (auto intro: same_users_trans same_onLimiter simp: GetOnlineDevice_def Let_def rotate_frame SetAliveList_def)

lemmas same_sync = users.frame_sync and same_ensure = users.frame_ensure and same_report = users.frame_report
  and same_deleteTraffic = users.frame_deleteTraffic

lemma same_reload_intervals: "reload_intervals E now n c = Some c' \<Longrightarrow> same_users c c'"
  by (auto simp: reload_intervals_def Let_def split: option.splits
      intro!: same_ensure same_applyOnlineTTL same_report)

lemma same_reload_core: "reload_core E now n c = Some c' \<Longrightarrow> same_users c c'"
  by (auto simp: reload_core_def retryNodeReload_def split: option.splits if_splits prod.splits
      dest!: same_reload_intervals elim!: same_users_trans [rotated])

lemma UpdateRule_users: "UpdateRule compile l r = Some l' \<Longrightarrow> li_UserLimitInfo l' = li_UserLimitInfo l"
  by (auto simp: UpdateRule_def split: option.splits)

lemma getLimiter_reload:
  "op_Name (co_Options c) = [] \<Longrightarrow> getLimiter (reload_limiter n a c) =
     Some (fst (AddLimiter (DeleteLimiter (co_limiters c) (co_tag c)) (buildNodeTag c n)
       (op_LimitConfig (co_Options c)) (co_userList c) a))"
  by (simp add: reload_limiter_def getLimiter_def Let_def AddLimiter_def)

lemma reload_limiter_in_step:
  "op_Name (co_Options c) = [] \<Longrightarrow> distinct (map ui_Uuid (co_userList c)) \<Longrightarrow> in_step (reload_limiter n a c)"
  unfolding in_step_def by (simp add: getLimiter_reload, simp add: reload_limiter_def Let_def AddLimiter_users_match)

lemma reload_node_in_step:
  assumes "op_Name (co_Options c) = []"
    and "distinct (map ui_Uuid (case newU of Some us \<Rightarrow> us | None \<Rightarrow> co_userList c))"
    and "reload_node E now newN newU newA c = Some c'"
  shows "in_step c'"
proof -
  define r where "r = reload_limiter newN newA
    ((resetTraffic (case newU of Some us \<Rightarrow> c\<lparr>co_info := Some newN, co_userList := us\<rparr> | None \<Rightarrow> c\<lparr>co_info := Some newN\<rparr>))
      \<lparr>co_server := fst (env_DelNode E (co_server c) (co_tag c))\<rparr>)"
  obtain c1 c2 where c: "call_limiter (\<lambda>l. Some (SetAliveList l newA)) r = Some c1"
      "call_limiter (\<lambda>l. UpdateRule (env_compile E) l (ni_Rules newN)) c1 = Some c2" "reload_core E now newN c2 = Some c'"
    using assms(3) by (cases newU) (auto simp: reload_node_def r_def resetTraffic_def Let_def split: option.splits)
  have "in_step r"
    unfolding r_def using assms(1,2) by (intro reload_limiter_in_step) (auto simp: resetTraffic_def split: option.splits)
  moreover have "same_users r c1" by (rule same_call_limiter [OF c(1)]) (auto simp: SetAliveList_def)
  moreover have "same_users c1 c2" by (rule same_call_limiter [OF c(2)]) (rule UpdateRule_users)
  ultimately show ?thesis using same_reload_core [OF c(3)] in_step_same by blast
qed

lemma in_step_set_users:
  "getLimiter c = Some l \<Longrightarrow>
   in_step (c\<lparr>co_userList := us\<rparr>) \<longleftrightarrow> distinct (map ui_Uuid us) \<and> users_match (co_tag c) us (li_UserLimitInfo l)"
  by (auto simp: in_step_def getLimiter_def split: if_splits)

lemma same_set_users:
  "same_users c c' \<Longrightarrow> same_users (c\<lparr>co_userList := us\<rparr>) (c'\<lparr>co_userList := us\<rparr>)"
  by (auto simp: same_users_def getLimiter_def split: if_splits)

text \<open>Either the core failed and nothing changed, or the limiter took the difference over.\<close>

lemma update_users_cases:
  assumes "update_users E newU c = Some c'" and "compareUserList (co_userList c) newU = (deleted, added)"
    and "getLimiter c = Some l"
  obtains (core) "same_users c c'"
    | (updated) c2 where "same_users (c\<lparr>co_limiters := mstore (co_limiters c) (co_tag c) (UpdateUser l (co_tag c) added deleted)\<rparr>) c2"
        "c' = ensureOnlineIPSyncTask E (c2\<lparr>co_userList := newU\<rparr>)"
proof -
  define c1 where "c1 = c\<lparr>co_limiters := mstore (co_limiters c) (co_tag c) (UpdateUser l (co_tag c) added deleted)\<rparr>"
  define c3 where "c3 s = c\<lparr>co_server := s, co_limiters := mstore (co_limiters c) (co_tag c)
    (UpdateUser l (co_tag c) added deleted)\<rparr>" for s
  have c13: "same_users c1 (c3 s)" for s by (simp add: c1_def c3_def same_users_def getLimiter_def)
  obtain s1 e1 where d: "(if deleted \<noteq> [] then env_DelUsers E (co_server c) deleted (co_tag c) (co_info c)
      else (co_server c, None)) = (s1, e1)" by fastforce
  obtain s2 e2 where a: "(if added \<noteq> [] then env_AddUsers E s1 (co_tag c) added (co_info c) else (s1, None)) = (s2, e2)"
    by fastforce
  have id: "same_users c1 c" if "added = []" "deleted = []"
    using that assms(3) by (auto simp: c1_def UpdateUser_def same_users_def getLimiter_def split: if_splits)
  have lim: "getLimiter (c\<lparr>co_server := s2\<rparr>) = Some l" using assms(3) by (simp add: getLimiter_def split: if_splits)
  have u: "update_users E newU c =
     (if e1 \<noteq> None then Some (c\<lparr>co_server := s1\<rparr>) else if e2 \<noteq> None then Some (c\<lparr>co_server := s2\<rparr>)
      else if added \<noteq> [] \<or> deleted \<noteq> [] then
        (Some (ensureOnlineIPSyncTask E
           ((if dynamicSpeedLimitEnabled (c3 s2) then fold (\<lambda>u c. deleteTraffic c (ui_Uuid u)) deleted (c3 s2) else c3 s2)
              \<lparr>co_userList := newU\<rparr>)))
      else Some (ensureOnlineIPSyncTask E (c\<lparr>co_server := s2, co_userList := newU\<rparr>)))"
    unfolding update_users_def assms(2) prod.case d a call_limiter_def lim
    by (cases e1; cases e2) (simp_all add: a c3_def)
  show thesis
  proof (cases "e1 \<noteq> None \<or> e2 \<noteq> None")
    case True
    then show thesis using u assms(1) by (intro core) (auto split: if_splits)
  next
    case False
    show thesis
    proof (cases "added \<noteq> [] \<or> deleted \<noteq> []")
      case True
      show thesis
        using u assms(1) False True
        by (intro updated [of "if dynamicSpeedLimitEnabled (c3 s2)
            then fold (\<lambda>u c. deleteTraffic c (ui_Uuid u)) deleted (c3 s2) else c3 s2"])
          (auto simp: c1_def [symmetric] intro: same_deleteTraffic c13)
    next
      case F2: False
      show thesis
        using u assms(1) False F2 id
        by (intro updated [of "c\<lparr>co_server := s2\<rparr>"]) (auto simp: c1_def)
    qed
  qed
qed

lemma update_users_in_step:
  assumes "in_step c" and "distinct (map ui_Uuid newU)" and "update_users E newU c = Some c'"
  shows "in_step c'"
proof -
  obtain deleted added where cmp: "compareUserList (co_userList c) newU = (deleted, added)" by fastforce
  obtain l where l: "getLimiter c = Some l" "users_match (co_tag c) (co_userList c) (li_UserLimitInfo l)"
      "distinct (map ui_Uuid (co_userList c))"
    using assms(1) by (auto simp: in_step_def split: option.splits)
  show ?thesis
  proof (rule update_users_cases [OF assms(3) cmp l(1)])
    assume "same_users c c'"
    then show ?thesis using assms(1) in_step_same by blast
  next
    fix c2
    let ?l = "UpdateUser l (co_tag c) added deleted"
    let ?c1 = "c\<lparr>co_limiters := mstore (co_limiters c) (co_tag c) ?l\<rparr>"
    assume c2: "same_users ?c1 c2" and c': "c' = ensureOnlineIPSyncTask E (c2\<lparr>co_userList := newU\<rparr>)"
    have "getLimiter ?c1 = Some ?l" using l(1) by (auto simp: getLimiter_def split: if_splits)
    then have "in_step (?c1\<lparr>co_userList := newU\<rparr>)"
      unfolding in_step_set_users [OF \<open>getLimiter ?c1 = Some ?l\<close>]
      using assms(2) UpdateUser_users_match [OF l(3) assms(2) cmp l(2)] by simp
    then show ?thesis
      unfolding c' using in_step_same [OF same_set_users [OF c2]] in_step_same [OF same_ensure [OF same_users_refl]] by blast
  qed
qed

text \<open>When a round of the monitor panics: what the panel sent cannot be installed.\<close>

definition monitor_panics :: "('re, 'raw, 's) env \<Rightarrow> ('re, 'b, 'raw, 's) Controller \<Rightarrow> bool" where
  "monitor_panics E c \<longleftrightarrow>
     (case env_GetNodeInfo E (co_apiClient c) of
        None \<Rightarrow> True
      | Some (api, Inl _) \<Rightarrow> False
      | Some (api, Inr newN) \<Rightarrow>
          (case env_GetUserList E api of
             None \<Rightarrow> True
           | Some (_, Inl _) \<Rightarrow> False
           | Some (_, Inr _) \<Rightarrow>
               (case newN of
                  None \<Rightarrow> False
                | Some n \<Rightarrow> (\<exists>p \<in> set (ru_Regexp (ni_Rules n)). env_compile E p = None)
                    \<or> (ni_Security n = Security_Tls \<and> op_CertConfig (co_Options c) = None))))"

definition has_tasks :: "('re, 'b, 'raw, 's) Controller \<Rightarrow> bool" where
  "has_tasks c \<longleftrightarrow> co_nodeInfoMonitorPeriodic c \<noteq> None \<and> co_userReportPeriodic c \<noteq> None"

lemma call_limiter_None: "call_limiter f c = None \<longleftrightarrow> (case getLimiter c of None \<Rightarrow> True | Some l \<Rightarrow> f l = None)"
  by (auto simp: call_limiter_def split: option.splits)

lemma call_limiter_fields:
  "call_limiter f c = Some c' \<Longrightarrow> co_Options c' = co_Options c \<and> has_tasks c' = has_tasks c
     \<and> co_hasLimiter c' \<and> mload (co_limiters c') (co_tag c') \<noteq> None"
  by (auto simp: call_limiter_def getLimiter_def has_tasks_def split: option.splits if_splits)

lemma update_users_total: "getLimiter c \<noteq> None \<Longrightarrow> update_users E newU c \<noteq> None"
  by (auto simp: update_users_def call_limiter_def getLimiter_def split: prod.splits option.splits if_splits)

lemma reload_core_None:
  "has_tasks c \<Longrightarrow> reload_core E now n c = None \<longleftrightarrow> ni_Security n = Security_Tls \<and> op_CertConfig (co_Options c) = None"
proof -
  assume t: "has_tasks c"
  have i: "reload_intervals E now n (c\<lparr>co_server := s\<rparr>) \<noteq> None" for s
    using t by (auto simp: reload_intervals_def has_tasks_def Let_def)
  have "requestCert E c = None \<longleftrightarrow> op_CertConfig (co_Options c) = None"
    by (simp add: requestCert_def Let_def split: option.splits)
  then show ?thesis
    using i by (auto simp: reload_core_def simp del: not_None_eq split: option.split prod.split)
qed

lemma reload_node_None:
  assumes "getLimiter c \<noteq> None" and "has_tasks c"
  shows "reload_node E now n newU newA c = None \<longleftrightarrow> (\<exists>p \<in> set (ru_Regexp (ni_Rules n)). env_compile E p = None)
     \<or> (ni_Security n = Security_Tls \<and> op_CertConfig (co_Options c) = None)"
proof -
  define r where "r = reload_limiter n newA
    ((resetTraffic (case newU of Some us \<Rightarrow> c\<lparr>co_info := Some n, co_userList := us\<rparr> | None \<Rightarrow> c\<lparr>co_info := Some n\<rparr>))
      \<lparr>co_server := fst (env_DelNode E (co_server c) (co_tag c))\<rparr>)"
  have r: "getLimiter r \<noteq> None" "has_tasks r" "co_Options r = co_Options c"
    using assms by (auto simp: r_def resetTraffic_def reload_limiter_def getLimiter_def has_tasks_def AddLimiter_def Let_def
        split: option.splits if_splits)
  obtain c1 where c1: "call_limiter (\<lambda>l. Some (SetAliveList l newA)) r = Some c1"
    using r(1) by (auto simp: call_limiter_def)
  have l1: "getLimiter c1 \<noteq> None" "has_tasks c1" "co_Options c1 = co_Options c"
    using call_limiter_fields [OF c1] r by (auto simp: getLimiter_def)
  have "reload_node E now n newU newA c = (case call_limiter (\<lambda>l. UpdateRule (env_compile E) l (ni_Rules n)) c1 of
      None \<Rightarrow> None | Some c \<Rightarrow> reload_core E now n c)"
    using c1 by (cases newU) (simp_all add: reload_node_def r_def resetTraffic_def Let_def)
  moreover have "call_limiter (\<lambda>l. UpdateRule (env_compile E) l (ni_Rules n)) c1 = None \<longleftrightarrow>
      (\<exists>p \<in> set (ru_Regexp (ni_Rules n)). env_compile E p = None)"
    using l1(1) by (auto simp: call_limiter_None UpdateRule_def those_map_None [symmetric] split: option.splits)
  moreover have "reload_core E now n c2 = None \<longleftrightarrow> ni_Security n = Security_Tls \<and> op_CertConfig (co_Options c) = None"
    if "call_limiter (\<lambda>l. UpdateRule (env_compile E) l (ni_Rules n)) c1 = Some c2" for c2
    using call_limiter_fields [OF that] l1 reload_core_None [of c2 E now n] by simp
  ultimately show ?thesis
    by (cases "call_limiter (\<lambda>l. UpdateRule (env_compile E) l (ni_Rules n)) c1") auto
qed

lemma in_step_api [simp]: "in_step (c\<lparr>co_apiClient := a\<rparr>) = in_step c" "has_tasks (c\<lparr>co_apiClient := a\<rparr>) = has_tasks c"
  "getLimiter (c\<lparr>co_apiClient := a\<rparr>) = getLimiter c"
  by (simp_all add: in_step_def getLimiter_def has_tasks_def split: option.split)

lemma in_step_limiter: "in_step c \<Longrightarrow> getLimiter c \<noteq> None"
  by (auto simp: in_step_def split: option.splits)

lemma reload_node_named:
  assumes "op_Name (co_Options c) \<noteq> []" and "reload_node E now n (Some newU) newA c = Some c'"
  shows "same_users (c\<lparr>co_userList := newU\<rparr>) c'"
proof -
  define r where "r = c\<lparr>co_info := Some n, co_userList := newU, co_traffic := [],
      co_server := fst (env_DelNode E (co_server c) (co_tag c))\<rparr>"
  obtain c1 c2 where c: "call_limiter (\<lambda>l. Some (SetAliveList l newA)) r = Some c1"
      "call_limiter (\<lambda>l. UpdateRule (env_compile E) l (ni_Rules n)) c1 = Some c2" "reload_core E now n c2 = Some c'"
    using assms by (auto simp: reload_node_def reload_limiter_def r_def resetTraffic_def Let_def split: option.splits)
  have "same_users (c\<lparr>co_userList := newU\<rparr>) r" by (simp add: r_def same_users_def getLimiter_def)
  also have "same_users r c1" by (rule same_call_limiter [OF c(1)]) (auto simp: SetAliveList_def)
  also have "same_users c1 c2" by (rule same_call_limiter [OF c(2)]) (rule UpdateRule_users)
  also have "same_users c2 c'" by (rule same_reload_core [OF c(3)])
  finally show ?thesis .
qed

lemma same_list_no_change: "distinct us \<Longrightarrow> compareUserList us us = ([], [])"
  using compareUserList_sets [of us us] by (cases "compareUserList us us") auto

text \<open>
  One round of the monitor of a node without a configured name, or with an unchanged
  configuration, whatever fails in the core.
\<close>

lemma nodeInfoMonitor_in_step:
  assumes "in_step c" and "has_tasks c"
    and "op_Name (co_Options c) = [] \<or> (\<forall>api n. env_GetNodeInfo E (co_apiClient c) \<noteq> Some (api, Inr (Some n)))"
    and "\<And>api api' us. env_GetUserList E api = Some (api', Inr (Some us)) \<Longrightarrow> distinct (map ui_Uuid us)"
  shows "(nodeInfoMonitor E now c = None \<longleftrightarrow> monitor_panics E c)
     \<and> (\<forall>c'. nodeInfoMonitor E now c = Some c' \<longrightarrow> in_step c')"
proof (cases "env_GetNodeInfo E (co_apiClient c)")
  case None
  then show ?thesis by (simp add: nodeInfoMonitor_def monitor_panics_def)
next
  case (Some res)
  obtain api newN where res: "res = (api, newN)" by (cases res)
  show ?thesis
  proof (cases "\<exists>e. newN = Inl e \<or> (\<exists>api2. env_GetUserList E api = Some (api2, Inl e)) \<or> env_GetUserList E api = None")
    case True
    then show ?thesis
      using assms(1) Some res by (auto simp: nodeInfoMonitor_def monitor_panics_def split: sum.splits)
  next
    case False
    then obtain newN' api2 newU where n: "newN = Inr newN'" and u: "env_GetUserList E api = Some (api2, Inr newU)"
      by (cases newN; cases "env_GetUserList E api") (auto, metis old.sum.exhaust)
    obtain api3 newA where a: "env_GetUserAlive E api2 = (api3, newA)" by fastforce
    let ?c = "c\<lparr>co_apiClient := api3\<rparr>"
    have m: "nodeInfoMonitor E now c = (case newN' of Some newN \<Rightarrow> reload_node E now newN newU newA ?c
        | None \<Rightarrow> (case call_limiter (\<lambda>l. Some (SetAliveList l newA)) ?c of
             None \<Rightarrow> None | Some c \<Rightarrow> (case newU of None \<Rightarrow> Some c | Some newU \<Rightarrow> update_users E newU c)))"
      using Some res n u a by (simp add: nodeInfoMonitor_def Let_def split: option.split)
    note lim = in_step_limiter [OF assms(1)]
    have dist: "distinct (map ui_Uuid (case newU of Some us \<Rightarrow> us | None \<Rightarrow> co_userList ?c))"
      using assms(1,4) u by (auto simp: in_step_def split: option.splits)
    show ?thesis
    proof (cases newN')
      case None
      obtain c1 where c1: "call_limiter (\<lambda>l. Some (SetAliveList l newA)) ?c = Some c1"
        using lim by (auto simp: call_limiter_def)
      have same: "same_users c c1"
        using same_call_limiter [OF c1] by (auto simp: SetAliveList_def same_users_def)
      then have s1: "in_step c1" using assms(1) in_step_same by blast
      show ?thesis
        using m None c1 s1 dist u Some res n update_users_in_step [OF s1, of _ E]
          update_users_total [OF in_step_limiter [OF s1], of E]
        by (cases newU) (auto simp: monitor_panics_def)
    next
      case (Some n')
      have "op_Name (co_Options ?c) = []" using assms(3) \<open>env_GetNodeInfo E (co_apiClient c) = Some res\<close> res n Some by simp
      then show ?thesis
        using m Some dist u \<open>env_GetNodeInfo E (co_apiClient c) = Some res\<close> res n lim assms(2)
          reload_node_None [of ?c E now n' newU newA] reload_node_in_step [of ?c newU E now n' newA]
        by (auto simp: monitor_panics_def)
    qed
  qed
qed

text \<open>Options and the existence of the two main tasks are kept by every operation.\<close>

definition same_setup :: "('re, 'b, 'raw, 's) Controller \<Rightarrow> ('re, 'b, 'raw, 's) Controller \<Rightarrow> bool" where
  "same_setup c c' \<longleftrightarrow> co_Options c' = co_Options c \<and> (has_tasks c \<longrightarrow> has_tasks c')"

lemma same_setup_refl [simp]: "same_setup c c" by (simp add: same_setup_def)

lemma same_setup_trans [trans]: "same_setup a b \<Longrightarrow> same_setup b c \<Longrightarrow> same_setup a c"
  by (simp add: same_setup_def)

lemma same_setup_fields [simp]:
  "same_setup c (c'\<lparr>co_server := s\<rparr>) = same_setup c c'"
  "same_setup c (c'\<lparr>co_apiClient := a\<rparr>) = same_setup c c'"
  "same_setup c (c'\<lparr>co_info := i\<rparr>) = same_setup c c'"
  "same_setup c (c'\<lparr>co_traffic := t\<rparr>) = same_setup c c'"
  "same_setup c (c'\<lparr>co_lastOnlineUIDs := u\<rparr>) = same_setup c c'"
  "same_setup c (c'\<lparr>co_limiters := ls\<rparr>) = same_setup c c'"
  "same_setup c (c'\<lparr>co_tag := g\<rparr>) = same_setup c c'"
  "same_setup c (c'\<lparr>co_hasLimiter := h\<rparr>) = same_setup c c'"
  "same_setup c (c'\<lparr>co_userList := us\<rparr>) = same_setup c c'"
  "same_setup c (c'\<lparr>co_renewCertPeriodic := p\<rparr>) = same_setup c c'"
  "same_setup c (c'\<lparr>co_dynamicSpeedLimitPeriodic := p\<rparr>) = same_setup c c'"
  "same_setup c (c'\<lparr>co_onlineIpReportPeriodic := p\<rparr>) = same_setup c c'"
  by (simp_all add: same_setup_def has_tasks_def)

lemma setup_tasks: "same_setup c c' \<Longrightarrow> same_setup c (c'\<lparr>co_nodeInfoMonitorPeriodic := Some t\<rparr>)"
    "same_setup c c' \<Longrightarrow> same_setup c (c'\<lparr>co_userReportPeriodic := Some t\<rparr>)"
  by (auto simp: same_setup_def has_tasks_def)

lemma setup_onLimiter [simp]: "same_setup c (onLimiter f c') = same_setup c c'"
  by (simp add: onLimiter_def split: option.split)

lemma setup_call_limiter: "same_setup c c' \<Longrightarrow> call_limiter f c' = Some c2 \<Longrightarrow> same_setup c c2"
  by (auto simp: call_limiter_def split: option.splits)

interpretation kept: controller_frame same_setup
  by unfold_locales (auto intro: same_setup_trans)

lemma setup_applyOnlineTTL: "same_setup c c' \<Longrightarrow> same_setup c (applyOnlineTTL c' p)"
  by (simp add: applyOnlineTTL_def)

lemmas setup_ops = setup_applyOnlineTTL kept.frame_sync kept.frame_ensure kept.frame_getOnlineUsers
lemmas setup_report = kept.frame_report

lemma setup_reload_core: "same_setup c c' \<Longrightarrow> reload_core E now n c' = Some c2 \<Longrightarrow> same_setup c c2"
proof -
  assume same: "same_setup c c'" and r: "reload_core E now n c' = Some c2"
  have i: "reload_intervals E now n (c'\<lparr>co_server := s\<rparr>) = Some c2 \<Longrightarrow> same_setup c c2" for s
    using same by (auto simp: reload_intervals_def Let_def split: option.splits
        intro!: setup_ops setup_report setup_tasks)
  show ?thesis
    using same r i by (auto simp: reload_core_def retryNodeReload_def split: option.splits if_splits prod.splits)
qed

lemma setup_update_users: "same_setup c c' \<Longrightarrow> update_users E newU c' = Some c2 \<Longrightarrow> same_setup c c2"
proof -
  assume same: "same_setup c c'" and u: "update_users E newU c' = Some c2"
  show ?thesis
    using same u
    by (auto simp: update_users_def call_limiter_def intro!: setup_ops kept.frame_deleteTraffic split: prod.splits option.splits if_splits)
qed

lemma setup_monitor: "nodeInfoMonitor E now c = Some c' \<Longrightarrow> same_setup c c'"
proof -
  assume m: "nodeInfoMonitor E now c = Some c'"
  have r: "reload_node E now n newU newA x = Some c' \<Longrightarrow> same_setup x c'" for n newU newA x
    by (auto simp: reload_node_def Let_def reload_limiter_def resetTraffic_def split: option.splits if_splits
        dest!: setup_call_limiter [rotated] setup_reload_core [rotated] intro: same_setup_trans)
  have r': "reload_node E now n newU newA (c\<lparr>co_apiClient := a\<rparr>) = Some c' \<Longrightarrow> same_setup c c'" for n newU newA a
    by (drule r, erule same_setup_trans [rotated]) simp
  show ?thesis
    using m
    by (auto simp: nodeInfoMonitor_def Let_def split: option.splits sum.splits prod.splits
        dest!: r' setup_call_limiter [rotated] setup_update_users [rotated] intro: same_setup_trans)
qed

lemma UpdateDynamicSpeedLimit_plan:
  "users_match tag users (li_UserLimitInfo l) \<Longrightarrow> UpdateDynamicSpeedLimit l tag' uuid limit expire = Inr l' \<Longrightarrow>
   users_match tag users (li_UserLimitInfo l')"
proof -
  assume m: "users_match tag users (li_UserLimitInfo l)" and u: "UpdateDynamicSpeedLimit l tag' uuid limit expire = Inr l'"
  obtain old where "mload (li_UserLimitInfo l) (UserTag tag' uuid) = Some old"
      "li_UserLimitInfo l' = mstore (li_UserLimitInfo l) (UserTag tag' uuid)
         (old\<lparr>ul_DynamicSpeedLimit := limit, ul_ExpireTime := time_Unix expire\<rparr>)"
    using u by (auto simp: UpdateDynamicSpeedLimit_def updateUserLimit_def Let_def split: option.splits)
  then have "map_option limit_plan (mload (li_UserLimitInfo l') k) = map_option limit_plan (mload (li_UserLimitInfo l) k)" for k
    by (simp add: limit_plan_def)
  then show ?thesis using m by (simp add: users_match_def)
qed

lemma SpeedChecker_step: "in_step c \<Longrightarrow> in_step (SpeedChecker now c)" and SpeedChecker_setup: "same_setup c (SpeedChecker now c)"
proof -
  define f where "f d uuid c = onLimiter (\<lambda>l. case UpdateDynamicSpeedLimit l (co_tag c) uuid (dsl_SpeedLimit d)
        (time_Add now (i64 (dsl_ExpireTime d * time_Minute))) of Inl _ \<Rightarrow> l | Inr l \<Rightarrow> l) c"
    for d :: DynamicSpeedLimitConfig and uuid and c :: "('a, 'b, 'c, 'd) Controller"
  have f: "in_step c \<Longrightarrow> in_step (f d uuid c)" for d uuid and c :: "('a, 'b, 'c, 'd) Controller"
    by (auto simp: in_step_def f_def onLimiter_def getLimiter_def split: option.splits if_splits sum.splits
        intro: UpdateDynamicSpeedLimit_plan)
  have ff: "in_step c \<Longrightarrow> in_step (fold (f d) uuids c)" "same_setup c' c \<Longrightarrow> same_setup c' (fold (f d) uuids c)"
    for d uuids and c c' :: "('a, 'b, 'c, 'd) Controller"
    using f by (induction uuids arbitrary: c) (auto simp: f_def)
  have tr: "in_step (c\<lparr>co_traffic := t\<rparr>) = in_step c" for t
    by (simp add: in_step_def getLimiter_def split: option.split)
  have sp: "SpeedChecker now c = c \<or> (\<exists>d t uuids. SpeedChecker now c = fold (f d) uuids (c\<lparr>co_traffic := t\<rparr>))"
  proof (cases "lc_DynamicSpeedLimitConfig (op_LimitConfig (co_Options c))")
    case (Some d)
    have "consumeDynamicSpeedLimitUsers c = (c\<lparr>co_traffic := co_traffic (fst (consumeDynamicSpeedLimitUsers c))\<rparr>,
        snd (consumeDynamicSpeedLimitUsers c))"
      by (simp add: consumeDynamicSpeedLimitUsers_def Let_def Some)
    then obtain t uuids where "consumeDynamicSpeedLimitUsers c = (c\<lparr>co_traffic := t\<rparr>, uuids)" by blast
    then have "SpeedChecker now c = (if dynamicSpeedLimitEnabled c then fold (f d) uuids (c\<lparr>co_traffic := t\<rparr>) else c)"
      using Some by (simp add: SpeedChecker_def f_def [abs_def])
    then show ?thesis by auto
  qed (simp add: SpeedChecker_def)
  show "in_step c \<Longrightarrow> in_step (SpeedChecker now c)" "same_setup c (SpeedChecker now c)"
    using sp ff(1) [of "c\<lparr>co_traffic := _\<rparr>"] ff(2) [of c "c\<lparr>co_traffic := _\<rparr>"] tr by (metis, metis same_setup_fields(4) same_setup_refl)
qed

lemma startTasks_frame:
  assumes "startTasks E now n c = Some c'"
  shows "same_users c c' \<and> has_tasks c' \<and> co_Options c' = co_Options c"
proof -
  let ?p = "normalizedPushInterval c (ni_PushInterval n)"
  define c1 where "c1 = run_report E now ((applyOnlineTTL c ?p)
    \<lparr>co_nodeInfoMonitorPeriodic := Some \<lparr>tk_Interval = normalizedPullInterval (ni_PullInterval n), tk_running = True\<rparr>,
     co_userReportPeriodic := Some \<lparr>tk_Interval = ?p, tk_running = True\<rparr>\<rparr>)"
  have u: "same_users c c1" unfolding c1_def by (intro same_report) (simp add: same_applyOnlineTTL)
  have t: "has_tasks c1" "co_Options c1 = co_Options c"
    using setup_report [OF same_setup_refl, of "(applyOnlineTTL c ?p)
      \<lparr>co_nodeInfoMonitorPeriodic := Some \<lparr>tk_Interval = normalizedPullInterval (ni_PullInterval n), tk_running = True\<rparr>,
       co_userReportPeriodic := Some \<lparr>tk_Interval = ?p, tk_running = True\<rparr>\<rparr>" E now]
      setup_ops(1) [OF same_setup_refl, of c ?p]
    by (simp_all add: c1_def [symmetric] same_setup_def has_tasks_def)
  have "same_users c c' \<and> same_setup c1 c'"
    using assms u
    by (auto simp: startTasks_def Let_def c1_def [symmetric] resetTraffic_def
        intro!: same_ensure setup_ops split: option.splits if_splits)
  then show ?thesis using t by (simp add: same_setup_def)
qed

lemma Controller_Start_in_step:
  assumes "Controller_Start E now c = Some (c', None)"
    and "\<And>api api' us. env_GetUserList E api = Some (api', Inr (Some us)) \<Longrightarrow> distinct (map ui_Uuid us)"
  shows "in_step c' \<and> has_tasks c' \<and> co_Options c' = co_Options c"
proof -
  have node: "in_step c' \<and> has_tasks c' \<and> co_Options c' = co_Options x"
    if "start_node E now n x = Some (c', None)" "in_step x" for n x
  proof -
    note st = that(1)
    obtain s where "startTasks E now n (x\<lparr>co_server := s, co_info := Some n\<rparr>) = Some c'"
      using st unfolding start_node_def by (auto split: option.splits prod.splits if_splits)
    from startTasks_frame [OF this] show ?thesis
      using that(2) in_step_same [of "x\<lparr>co_server := s, co_info := Some n\<rparr>" x]
        in_step_same [of "x\<lparr>co_server := s, co_info := Some n\<rparr>" c']
      by (auto simp: same_users_def getLimiter_def)
  qed
  obtain api0 api1 api n us tag ls l0 l alive where
    gu: "env_GetUserList E api0 = Some (api1, Inr (Some us))" and
    al: "AddLimiter (co_limiters c) tag (op_LimitConfig (co_Options c)) us alive = (l0, ls)" and
    l: "UpdateRule (env_compile E) l0 (ni_Rules n) = Some l" and
    st: "start_node E now n (c\<lparr>co_apiClient := api, co_limiters := mstore ls tag l, co_tag := tag, co_userList := us,
      co_hasLimiter := True\<rparr>) = Some (c', None)"
    using assms(1)
    by (auto simp: Controller_Start_def Let_def split: option.splits sum.splits prod.splits list.splits if_splits)
  note us = assms(2) [OF gu]
  have "users_match tag us (li_UserLimitInfo l)"
    using AddLimiter_users_match [OF us, of tag "co_limiters c" "op_LimitConfig (co_Options c)" alive]
      UpdateRule_users [OF l] al by simp
  then have "in_step (c\<lparr>co_apiClient := api, co_limiters := mstore ls tag l, co_tag := tag, co_userList := us,
      co_hasLimiter := True\<rparr>)" using us by (simp add: in_step_def getLimiter_def)
  from node [OF st this] show ?thesis by simp
qed

section \<open>Properties of the controller\<close>

text \<open>
  The states of a started controller under its own tasks: the monitor, the traffic report, the
  synchronisation of the alive list and the speed checker, in any order and with any answers of
  panel and core, as long as a user list of the panel has each uuid once.
\<close>

definition unique_users :: "('re, 'raw, 's) env \<Rightarrow> bool" where
  "unique_users E \<longleftrightarrow> (\<forall>api api' us. env_GetUserList E api = Some (api', Inr (Some us)) \<longrightarrow> distinct (map ui_Uuid us))"

inductive controller_reach :: "'raw Options \<Rightarrow> ('re, 'b, 'raw, 's) Controller \<Rightarrow> bool" for opts where
  start: "unique_users E \<Longrightarrow> Controller_Start E now (NewController s ls api opts) = Some (c, None) \<Longrightarrow> controller_reach opts c"
| monitor: "controller_reach opts c \<Longrightarrow> unique_users E \<Longrightarrow> nodeInfoMonitor E now c = Some c' \<Longrightarrow> controller_reach opts c'"
| report: "controller_reach opts c \<Longrightarrow> controller_reach opts (run_report E now c)"
| sync: "controller_reach opts c \<Longrightarrow> controller_reach opts (syncOnlineUsersTask E c)"
| speed: "controller_reach opts c \<Longrightarrow> controller_reach opts (SpeedChecker now c)"

lemma controller_reach_inv:
  "controller_reach opts c \<Longrightarrow> op_Name opts = [] \<Longrightarrow> in_step c \<and> has_tasks c \<and> co_Options c = opts"
proof (induction rule: controller_reach.induct)
  case (start E now s ls api c)
  then show ?case
    using Controller_Start_in_step [OF start(2)] by (auto simp: unique_users_def NewController_def)
next
  case (monitor c E now c')
  then show ?case
    using nodeInfoMonitor_in_step [of c E now] setup_monitor [OF monitor(3)]
    by (auto simp: unique_users_def same_setup_def)
next
  case (report c E now)
  then show ?case
    using in_step_same [OF same_report [OF same_users_refl, of c E now]] setup_report [OF same_setup_refl, of c E now]
    by (simp add: same_setup_def)
next
  case (sync c E)
  then show ?case
    using in_step_same [OF same_sync [OF same_users_refl, of c E]] setup_ops(2) [OF same_setup_refl, of c E]
    by (simp add: same_setup_def)
next
  case (speed c now)
  then show ?case using SpeedChecker_step [of c now] SpeedChecker_setup [of c now] by (simp add: same_setup_def)
qed


definition example_options :: "string Options" where
  "example_options = \<lparr>op_Name = [], op_Core = ''sing'', op_CoreName = [], op_ListenIP = [], op_SendIP = [],
     op_DeviceOnlineMinTraffic = 0, op_LimitConfig = example_limits, op_RawOptions = None, op_XrayOptions = None,
     op_SingOptions = None, op_Hysteria2ConfigPath = [], op_CertConfig = None\<rparr>"

definition example_env :: "(string, string, hook_counters) env" where
  "example_env = \<lparr>env_AddNode = (\<lambda>s _ _ _. (s, None)), env_DelNode = (\<lambda>s _. (s, None)),
     env_AddUsers = (\<lambda>s _ _ _. (s, None)), env_DelUsers = (\<lambda>s _ _ _. (s, None)),
     env_GetUserTraffic = Sing_GetUserTraffic, env_RestoreUserTraffic = Sing_RestoreUserTraffic,
     env_GetNodeInfo = (\<lambda>api. Some (api, Inr (Some (empty_NodeInfo 1 ''vless'')))),
     env_GetUserList = (\<lambda>api. Some (api, Inr (Some [example_user]))),
     env_GetUserAlive = (\<lambda>api. (api, [])), env_ReportNodeOnlineUsers = (\<lambda>_ _. None),
     env_ReportUserTraffic = (\<lambda>_ _. None), env_IsExist = (\<lambda>_. True), env_createCert = (\<lambda>_. None),
     env_selfCert = (\<lambda>_ _ _. None), env_compile = Some\<rparr>"

definition example_controller :: "(string, int, string, hook_counters) Controller" where
  "example_controller = fst (the (Controller_Start example_env 0 (NewController [] [] example_client example_options)))"

lemma example_unique: "unique_users example_env"
  by (simp add: unique_users_def example_env_def)

lemma example_started:
  "Controller_Start example_env 0 (NewController [] [] example_client example_options) = Some (example_controller, None)"
proof -
  have "(case Controller_Start example_env 0 (NewController [] [] example_client example_options
      :: (string, int, string, hook_counters) Controller) of Some (_, None) \<Rightarrow> True | _ \<Rightarrow> False)"
    by code_simp
  then show ?thesis by (auto simp: example_controller_def split: option.splits prod.splits)
qed


end
