(* ===== verification/Controller_Reload.thy ===== *)
theory Controller_Reload
  imports Controller
begin

text \<open>
  What a reload of the configuration does and does not take over: the intervals of the tasks and
  the online window of the limiter, and two ways in which a change that the panel announced is
  never applied (\<open>node/task.go\<close>).
\<close>

section \<open>Intervals and online window\<close>

lemma push_interval_bounds:
  "pc_PanelType (co_apiClient c) \<noteq> ''ppanel'' \<Longrightarrow>
   20 * time_Second \<le> normalizedPushInterval c i \<and> normalizedPushInterval c i \<le> 100 * time_Second"
  by (simp add: normalizedPushInterval_def maxPanelPushInterval_def Let_def time_consts)

lemma pull_interval_bounds: "10 * time_Second \<le> normalizedPullInterval i"
  by (simp add: normalizedPullInterval_def defaultPanelPullInterval_def minPanelPullInterval_def time_consts)

lemma online_ttl_bounds:
  assumes "0 \<le> p" "p \<le> 100 * time_Second"
  shows "p + time_Minute \<le> online_ttl lc p"
  using assms by (simp add: online_ttl_def Let_def time_consts i64_range_defs)

text \<open>The operations that keep the two main tasks and the online registry.\<close>

definition same_windows :: "('re, 'b, 'raw, 's) Controller \<Rightarrow> ('re, 'b, 'raw, 's) Controller \<Rightarrow> bool" where
  "same_windows c c' \<longleftrightarrow> co_tag c' = co_tag c
     \<and> co_nodeInfoMonitorPeriodic c' = co_nodeInfoMonitorPeriodic c
     \<and> co_userReportPeriodic c' = co_userReportPeriodic c
     \<and> map_option li_Online (getLimiter c') = map_option li_Online (getLimiter c)"

lemma same_windows_fields [simp]:
  "same_windows c c"
  "same_windows c (c'\<lparr>co_server := s\<rparr>) = same_windows c c'"
  "same_windows c (c'\<lparr>co_apiClient := a\<rparr>) = same_windows c c'"
  "same_windows c (c'\<lparr>co_traffic := t\<rparr>) = same_windows c c'"
  "same_windows c (c'\<lparr>co_lastOnlineUIDs := u\<rparr>) = same_windows c c'"
  "same_windows c (c'\<lparr>co_renewCertPeriodic := p\<rparr>) = same_windows c c'"
  "same_windows c (c'\<lparr>co_dynamicSpeedLimitPeriodic := p\<rparr>) = same_windows c c'"
  "same_windows c (c'\<lparr>co_onlineIpReportPeriodic := p\<rparr>) = same_windows c c'"
  by (simp_all add: same_windows_def getLimiter_def)

lemma windows_onLimiter:
  assumes "same_windows c c'" and "\<And>l. li_Online (f l) = li_Online l"
  shows "same_windows c (onLimiter f c')"
  using assms by (auto simp: same_windows_def onLimiter_def getLimiter_def split: option.splits if_splits)

interpretation windows: controller_frame same_windows
proof unfold_locales
  show "same_windows a b \<Longrightarrow> same_windows b c \<Longrightarrow> same_windows a c" for a b c :: "('a, 'b, 'c, 'd) Controller"
    by (simp add: same_windows_def)
qed (auto intro: windows_onLimiter simp: GetOnlineDevice_def Let_def rotate_frame SetAliveList_def)

lemmas windows_report = windows.frame_report [OF same_windows_fields(1)] and windows_ensure = windows.frame_ensure

lemma getLimiter_applyOnlineTTL:
  "getLimiter (applyOnlineTTL c p) =
     map_option (\<lambda>l. Limiter_SetOnlineTTL l (online_ttl (op_LimitConfig (co_Options c)) p)) (getLimiter c)"
  by (auto simp: applyOnlineTTL_def onLimiter_def getLimiter_def split: option.splits)

lemma applyOnlineTTL_tasks:
  "co_nodeInfoMonitorPeriodic (applyOnlineTTL c p) = co_nodeInfoMonitorPeriodic c"
  "co_userReportPeriodic (applyOnlineTTL c p) = co_userReportPeriodic c"
  by (simp_all add: applyOnlineTTL_def onLimiter_def split: option.split)

definition windows_ok :: "('re, 'b, 'raw, 's) Controller \<Rightarrow> bool" where
  "windows_ok c \<longleftrightarrow>
     (case (co_nodeInfoMonitorPeriodic c, co_userReportPeriodic c, getLimiter c) of
        (Some monitor, Some report, Some l) \<Rightarrow>
          10 * time_Second \<le> tk_Interval monitor
          \<and> 20 * time_Second \<le> tk_Interval report \<and> tk_Interval report \<le> 100 * time_Second
          \<and> tk_Interval report + time_Minute \<le> or_ttl (li_Online l)
      | _ \<Rightarrow> False)"

lemma windows_ok_same: "same_windows c c' \<Longrightarrow> windows_ok c' = windows_ok c"
  by (auto simp: same_windows_def windows_ok_def split: option.splits)

lemma windows_ok_set:
  assumes "20 * time_Second \<le> p" "p \<le> 100 * time_Second" and "getLimiter c \<noteq> None"
    and "map_option tk_Interval (co_nodeInfoMonitorPeriodic d) = Some (normalizedPullInterval i)"
    and "map_option tk_Interval (co_userReportPeriodic d) = Some p"
    and "getLimiter d = getLimiter (applyOnlineTTL c p)"
  shows "windows_ok d"
proof -
  have "p + time_Minute \<le> online_ttl (op_LimitConfig (co_Options c)) p"
    using assms(1,2) by (intro online_ttl_bounds) (simp_all add: time_consts)
  then show ?thesis
    using assms pull_interval_bounds [of i]
    by (auto simp: windows_ok_def getLimiter_applyOnlineTTL Limiter_SetOnlineTTL_def OnlineRegistry_SetTTL_def)
qed

lemma startTasks_windows:
  assumes "pc_PanelType (co_apiClient c) \<noteq> ''ppanel''" and "getLimiter c \<noteq> None" and "startTasks E now n c = Some c'"
  shows "windows_ok c'"
proof -
  let ?p = "normalizedPushInterval c (ni_PushInterval n)"
  define c0 where "c0 = (applyOnlineTTL c ?p)
    \<lparr>co_nodeInfoMonitorPeriodic := Some \<lparr>tk_Interval = normalizedPullInterval (ni_PullInterval n), tk_running = True\<rparr>,
     co_userReportPeriodic := Some \<lparr>tk_Interval = ?p, tk_running = True\<rparr>\<rparr>"
  have "windows_ok c0"
    unfolding c0_def using assms(2) push_interval_bounds [OF assms(1), of "ni_PushInterval n"]
    by (intro windows_ok_set [where c = c and i = "ni_PullInterval n" and p = ?p]) (simp_all add: getLimiter_def)
  then have r: "windows_ok (run_report E now c0)" using windows_ok_same [OF windows_report] by blast
  have "same_windows (run_report E now c0) c'"
    using assms(3)
    by (auto simp: startTasks_def Let_def c0_def [symmetric] resetTraffic_def
        intro!: windows_ensure split: option.splits if_splits)
  then show ?thesis using r windows_ok_same by blast
qed

lemma reload_intervals_windows:
  assumes "pc_PanelType (co_apiClient c) \<noteq> ''ppanel''" and "getLimiter c \<noteq> None" and "reload_intervals E now n c = Some c'"
  shows "windows_ok c'"
proof -
  let ?p = "normalizedPushInterval c (ni_PushInterval n)" and ?i = "normalizedPullInterval (ni_PullInterval n)"
  obtain m r where t: "co_nodeInfoMonitorPeriodic c = Some m" "co_userReportPeriodic c = Some r"
    using assms(3) by (auto simp: reload_intervals_def split: option.splits)
  define c1 where "c1 = (if tk_Interval m \<noteq> ?i
      then c\<lparr>co_nodeInfoMonitorPeriodic := Some \<lparr>tk_Interval = ?i, tk_running = True\<rparr>\<rparr> else c)"
  define c2 where "c2 = (if tk_Interval r \<noteq> ?p
      then c1\<lparr>co_userReportPeriodic := Some \<lparr>tk_Interval = ?p, tk_running = True\<rparr>\<rparr> else c1)"
  define c3 where "c3 = (if tk_Interval r \<noteq> ?p then run_report E now c2 else c2)"
  have "normalizedPushInterval c1 = normalizedPushInterval c"
    by (simp add: c1_def normalizedPushInterval_def fun_eq_iff)
  then have c': "c' = ensureOnlineIPSyncTask E (applyOnlineTTL c3 ?p)"
    using assms(3) t by (auto simp: reload_intervals_def Let_def c1_def [symmetric] c2_def c3_def)
  have 2: "map_option tk_Interval (co_nodeInfoMonitorPeriodic c2) = Some ?i"
      "map_option tk_Interval (co_userReportPeriodic c2) = Some ?p" "getLimiter c2 \<noteq> None"
    using t assms(2) by (auto simp: c1_def c2_def getLimiter_def split: if_splits)
  have "same_windows c2 c3" by (simp add: c3_def windows_report)
  then have "getLimiter c3 \<noteq> None" "map_option tk_Interval (co_nodeInfoMonitorPeriodic c3) = Some ?i"
      "map_option tk_Interval (co_userReportPeriodic c3) = Some ?p"
    using 2 by (auto simp: same_windows_def)
  then have "windows_ok (applyOnlineTTL c3 ?p)"
    using push_interval_bounds [OF assms(1), of "ni_PushInterval n"]
    by (intro windows_ok_set [where c = c3 and i = "ni_PullInterval n" and p = ?p]) (simp_all add: applyOnlineTTL_tasks)
  then show ?thesis unfolding c' using windows_ok_same [OF windows_ensure [OF same_windows_fields(1)]] by blast
qed

text \<open>
  C12. On every panel other than ppanel the online count cannot flap between two reports: after
  the tasks were started, and again after a reload took new intervals over, the monitor waits at
  least ten seconds, the report interval lies between 20 and 100 seconds (below the 120 seconds
  after which the panel shows a user offline), and a device stays online for at least the report
  interval plus a minute, whatever interval and timeout were configured.
\<close>

theorem online_window_outlives_report:
  assumes "pc_PanelType (co_apiClient c) \<noteq> ''ppanel''" and "getLimiter c \<noteq> None"
    and "startTasks E now n c = Some c' \<or> reload_intervals E now n c = Some c'"
  shows "\<exists>monitor report l. co_nodeInfoMonitorPeriodic c' = Some monitor \<and> co_userReportPeriodic c' = Some report
     \<and> getLimiter c' = Some l \<and> 10 * time_Second \<le> tk_Interval monitor
     \<and> 20 * time_Second \<le> tk_Interval report \<and> tk_Interval report \<le> 100 * time_Second
     \<and> tk_Interval report + time_Minute \<le> or_ttl (li_Online l)"
proof -
  have "windows_ok c'"
    using assms startTasks_windows [OF assms(1,2)] reload_intervals_windows [OF assms(1,2)] by blast
  then show ?thesis by (auto simp: windows_ok_def split: option.splits)
qed

theorem online_window_outlives_report_witness:
  "\<exists>c' l. reload_intervals example_env 0 (empty_NodeInfo 1 ''vless'') example_controller = Some c'
     \<and> getLimiter c' = Some l \<and> 80 * time_Second \<le> or_ttl (li_Online l)"
proof -
  have "reload_intervals example_env 0 (empty_NodeInfo 1 ''vless'') example_controller \<noteq> None" by code_simp
  then obtain c' where c': "reload_intervals example_env 0 (empty_NodeInfo 1 ''vless'') example_controller = Some c'" by blast
  have "pc_PanelType (co_apiClient example_controller) \<noteq> ''ppanel''" by code_simp
  moreover have "(case getLimiter example_controller of None \<Rightarrow> False | Some _ \<Rightarrow> True)" by code_simp
  then have "getLimiter example_controller \<noteq> None" by (auto split: option.splits)
  ultimately obtain report :: task_cfg and l where l: "getLimiter c' = Some l" "20 * time_Second \<le> tk_Interval report"
      "tk_Interval report + time_Minute \<le> or_ttl (li_Online l)"
    using online_window_outlives_report [of example_controller] c' by blast
  then have "80 * time_Second \<le> or_ttl (li_Online l)" by (simp add: time_consts)
  then show ?thesis using c' l by blast
qed

section \<open>Announced changes that are never applied\<close>

text \<open>
  A node with a configured name does not learn new users together with a new configuration:
  the reload takes the new user list over, but the limiter keeps the entries of the old one (so
  that \<open>CheckLimit\<close> rejects every connection of a new user), and since the stored list already is
  the new one, later comparisons find no difference to repair it with.
\<close>

theorem named_node_keeps_old_limits:
  assumes "op_Name (co_Options c) \<noteq> []" and "env_GetNodeInfo E (co_apiClient c) = Some (api, Inr (Some n))"
    and "env_GetUserList E api = Some (api', Inr (Some newU))" and "distinct newU"
    and "nodeInfoMonitor E now c = Some c'"
  shows "co_userList c' = newU \<and> co_tag c' = co_tag c
     \<and> map_option li_UserLimitInfo (getLimiter c') = map_option li_UserLimitInfo (getLimiter c)
     \<and> compareUserList (co_userList c') newU = ([], [])"
proof -
  obtain a newA where a: "env_GetUserAlive E api' = (a, newA)" by fastforce
  have "reload_node E now n (Some newU) newA (c\<lparr>co_apiClient := a\<rparr>) = Some c'"
    using assms a by (simp add: nodeInfoMonitor_def Let_def)
  from reload_node_named [OF _ this] assms(1) same_list_no_change [OF assms(4)] show ?thesis
    by (simp add: same_users_def getLimiter_def)
qed

definition example_named :: "(string, int, string, hook_counters) Controller" where
  "example_named = fst (the (Controller_Start example_env 0
     (NewController [] [] example_client (example_options\<lparr>op_Name := ''n''\<rparr>))))"

definition example_env2 :: "(string, string, hook_counters) env" where
  "example_env2 = example_env\<lparr>env_GetUserList :=
     (\<lambda>api. Some (api, Inr (Some [example_user, example_user\<lparr>ui_Id := 8, ui_Uuid := ''v''\<rparr>])))\<rparr>"

theorem named_node_keeps_old_limits_witness:
  "\<exists>c' l. nodeInfoMonitor example_env2 1 example_named = Some c'
     \<and> map ui_Uuid (co_userList c') = [''u'', ''v''] \<and> getLimiter c' = Some l
     \<and> mload (li_UserLimitInfo l) (UserTag ''n'' ''v'') = None"
proof -
  let ?u = "[example_user, example_user\<lparr>ui_Id := 8, ui_Uuid := ''v''\<rparr>]"
  have f: "op_Name (co_Options example_named) = ''n''
      \<and> (case getLimiter example_named of None \<Rightarrow> False
         | Some l \<Rightarrow> mload (li_UserLimitInfo l) (UserTag ''n'' ''v'') = None)
      \<and> nodeInfoMonitor example_env2 1 example_named \<noteq> None" by code_simp
  then obtain c' where c': "nodeInfoMonitor example_env2 1 example_named = Some c'" by blast
  have e: "env_GetNodeInfo example_env2 (co_apiClient example_named) =
        Some (co_apiClient example_named, Inr (Some (empty_NodeInfo 1 ''vless'')))"
      "env_GetUserList example_env2 (co_apiClient example_named) = Some (co_apiClient example_named, Inr (Some ?u))"
      "distinct ?u" by (simp_all add: example_env2_def example_env_def example_user_def)
  have "op_Name (co_Options example_named) \<noteq> []" using f by simp
  note named_node_keeps_old_limits [OF this e c']
  then show ?thesis using c' f by (auto simp: example_user_def split: option.splits)
qed

text \<open>
  A new configuration is lost when the user list fails in the same round: the client has
  already remembered the body of the configuration, the controller returns without applying it
  and without forgetting it, and the next round, which gets the same answer, takes the node for
  unchanged. (A reload that fails later does forget it.)
\<close>

theorem config_lost_when_user_list_fails:
  assumes "pc_PanelType (co_apiClient c) \<noteq> ''ppanel''" and "getLimiter c \<noteq> None"
    and "env_GetNodeInfo E = GetNodeInfo (\<lambda>_ _. r) hash str dec_node Dp D"
    and "hr_response r" "hr_err r = None" "hr_status r = 200" "hash (hr_body r) \<noteq> pc_responseBodyHash (co_apiClient c)"
    and "decode_uniproxy D (co_apiClient c) (hr_body r) = Some (Inr n)"
    and "env_GetUserAlive E = GetUserAlive get dec"
    and "env_GetUserList E = (\<lambda>api. Some (api, Inl e))"
  shows "\<exists>c1 c2. nodeInfoMonitor E now c = Some c1
     \<and> nodeInfoMonitor (E\<lparr>env_GetUserList := (\<lambda>api. Some (api, Inr None))\<rparr>) now' c1 = Some c2
     \<and> (\<exists>api. env_GetNodeInfo E (co_apiClient c) = Some (api, Inr (Some n)))
     \<and> (\<exists>api. env_GetNodeInfo E (co_apiClient c2) = Some (api, Inr None))
     \<and> co_info c2 = co_info c \<and> co_server c2 = co_server c \<and> co_tag c2 = co_tag c"
proof -
  let ?api = "(co_apiClient c)\<lparr>pc_responseBodyHash := hash (hr_body r), pc_nodeEtag := hr_etag r\<rparr>"
  have g: "env_GetNodeInfo E (co_apiClient c) = Some (?api, Inr (Some n))"
    using assms(1,4-8) by (simp add: assms(3) GetNodeInfo_def GetNodeInfo_request_def checkResponse_def Let_def)
  have same: "env_GetNodeInfo E api = Some (api, Inr None)"
    if "pc_PanelType api \<noteq> ''ppanel''" "pc_responseBodyHash api = hash (hr_body r)" for api
    using that assms(4,6) by (simp add: assms(3) GetNodeInfo_def GetNodeInfo_request_def Let_def)
  have 1: "nodeInfoMonitor E now c = Some (c\<lparr>co_apiClient := ?api\<rparr>)"
    using g by (simp add: nodeInfoMonitor_def assms(10))
  obtain a newA where a: "GetUserAlive get dec ?api = (a, newA)" by fastforce
  then have aa: "pc_PanelType a = pc_PanelType (co_apiClient c)" "pc_responseBodyHash a = hash (hr_body r)"
    by (auto simp: GetUserAlive_def Let_def)
  obtain l where l: "co_hasLimiter c" "mload (co_limiters c) (co_tag c) = Some l"
    using assms(2) by (auto simp: getLimiter_def split: if_splits)
  let ?E = "E\<lparr>env_GetUserList := (\<lambda>api. Some (api, Inr None))\<rparr>"
  let ?c2 = "c\<lparr>co_apiClient := a, co_limiters := mstore (co_limiters c) (co_tag c) (SetAliveList l newA)\<rparr>"
  have "nodeInfoMonitor ?E now' (c\<lparr>co_apiClient := ?api\<rparr>) = Some ?c2"
    using same [of ?api] assms(1) a l
    by (simp add: nodeInfoMonitor_def assms(9) call_limiter_def getLimiter_def)
  then show ?thesis using 1 g same [of a] aa assms(1) by auto
qed

definition example_common :: CommonNode where
  "example_common = \<lparr>cn_Host = [], cn_ServerPort = 443, cn_ServerName = [], cn_Routes = [], cn_BaseConfig = None\<rparr>"

definition example_decoders :: "('body, string) decoders" where
  "example_decoders = \<lparr>dec_vallss = (\<lambda>_. None),
     dec_shadowsocks = (\<lambda>_. Some \<lparr>ss_CommonNode = example_common, ss_Cipher = [], ss_ServerKey = []\<rparr>),
     dec_trojan = (\<lambda>_. None), dec_tuic = (\<lambda>_. None), dec_anytls = (\<lambda>_. None), dec_naive = (\<lambda>_. None),
     dec_hysteria = (\<lambda>_. None), dec_hysteria2 = (\<lambda>_. None)\<rparr>"

definition example_node :: "string NodeInfo" where
  "example_node = (empty_NodeInfo 1 ''shadowsocks'')\<lparr>ni_Shadowsocks := Some
     \<lparr>ss_CommonNode = example_common, ss_Cipher = [], ss_ServerKey = []\<rparr>, ni_Common := Some example_common\<rparr>"

definition example_ss :: "(string, int, string, hook_counters) Controller" where
  "example_ss = (NewController [] [(''n'', example_limiter)] (example_client\<lparr>pc_NodeType := ''shadowsocks''\<rparr>) example_options)
     \<lparr>co_tag := ''n'', co_hasLimiter := True, co_userList := [example_user]\<rparr>"

theorem config_lost_when_user_list_fails_witness:
  "\<exists>E c1 c2. nodeInfoMonitor E 0 example_ss = Some c1
     \<and> nodeInfoMonitor (E\<lparr>env_GetUserList := (\<lambda>api. Some (api, Inr None))\<rparr>) 1 c1 = Some c2
     \<and> (\<exists>api. env_GetNodeInfo E (co_apiClient example_ss) = Some (api, Inr (Some example_node)))
     \<and> co_info c2 = None"
proof -
  let ?E = "example_env\<lparr>env_GetNodeInfo := GetNodeInfo (\<lambda>_ _. example_answer 200 ''new'') (\<lambda>b. b) (\<lambda>b. b)
      (\<lambda>_ _. None) example_decoders example_decoders,
    env_GetUserAlive := GetUserAlive (\<lambda>_. example_answer 404 []) (\<lambda>_. []),
    env_GetUserList := (\<lambda>api. Some (api, Inl ''timeout''))\<rparr>"
  have "decode_uniproxy example_decoders (co_apiClient example_ss) (hr_body (example_answer 200 ''new'')) = Some (Inr example_node)"
    by (simp add: decode_uniproxy_def decode_protocol_def example_decoders_def example_ss_def NewController_def
        example_client_def example_node_def example_common_def empty_NodeInfo_def Security_None_def)
  then show ?thesis
    using config_lost_when_user_list_fails [where c = example_ss and E = ?E and r = "example_answer 200 ''new''"
        and n = example_node and now = 0 and now' = 1]
    by (fastforce simp: example_ss_def NewController_def example_client_def example_answer_def getLimiter_def mload_def)
qed

end
