(* ===== verification/Selector.thy ===== *)
theory Selector
  imports Controller
begin

text \<open>
  \<open>core/core.go\<close>, \<open>core/interface.go\<close> and \<open>core/selector.go\<close>: the registry of core types and the
  selector, which starts the configured cores on demand and passes every call to the core of the
  node. Core objects live in a store and are referred to by address, because \<open>nodes\<close> and \<open>entries\<close>
  share them. The methods of a core are a record of functions (the interface \<open>Core\<close>); \<open>None\<close> is a panic.
\<close>

section \<open>Interface and registry\<close>

record 'raw AddUsersParams =
  ap_Tag :: string
  ap_Users :: "UserInfo list"
  ap_NodeInfo :: "'raw NodeInfo option"

record ('c, 'raw) Core =
  cr_Start :: "'c \<Rightarrow> 'c \<times> string option"
  cr_Close :: "'c \<Rightarrow> 'c \<times> string option"
  cr_AddNode :: "'c \<Rightarrow> string \<Rightarrow> 'raw NodeInfo \<Rightarrow> 'raw Options \<Rightarrow> ('c \<times> string option) go"
  cr_DelNode :: "'c \<Rightarrow> string \<Rightarrow> ('c \<times> string option) go"
  cr_AddUsers :: "'c \<Rightarrow> 'raw AddUsersParams \<Rightarrow> ('c \<times> int \<times> string option) go"
  cr_GetUserTraffic :: "'c \<Rightarrow> string \<Rightarrow> string \<Rightarrow> bool \<Rightarrow> ('c \<times> 64 word \<times> 64 word) go"
  cr_RestoreUserTraffic :: "'c \<Rightarrow> string \<Rightarrow> string \<Rightarrow> 64 word \<Rightarrow> 64 word \<Rightarrow> 'c go"
  cr_DelUsers :: "'c \<Rightarrow> UserInfo list \<Rightarrow> string \<Rightarrow> 'raw NodeInfo option \<Rightarrow> ('c \<times> string option) go"
  cr_Type :: "'c \<Rightarrow> string"

record 'c registration =
  rg_new :: "CoreConfig \<Rightarrow> string + 'c"
  rg_protocols :: "string list"

type_synonym 'c registry = "(string, 'c registration) gomap"

definition RegisterCore :: "'c registry \<Rightarrow> string \<Rightarrow> (CoreConfig \<Rightarrow> string + 'c) \<Rightarrow> string list \<Rightarrow> 'c registry" where
  "RegisterCore cores t f protocols = mstore cores t \<lparr>rg_new = f, rg_protocols = protocols\<rparr>"

definition RegisteredCore :: "'c registry \<Rightarrow> string list" where
  "RegisteredCore cores = map fst cores"

section \<open>The selector\<close>

record coreEntry =
  ce_key :: string
  ce_typ :: string
  ce_config :: CoreConfig
  ce_core :: "nat option"

record 'c Selector =
  sel_entries :: "coreEntry list"
  sel_nodes :: "(string, nat) gomap"
  sel_store :: "(nat, 'c) gomap"
  sel_fresh :: nat

fun new_entries :: "'c registry \<Rightarrow> CoreConfig list \<Rightarrow> string + coreEntry list" where
  "new_entries cores [] = Inr []"
| "new_entries cores (t # c) =
     (let typ = strings_ToLower (co_Type t) in
      if mload cores typ = None then Inl (''unknown core type: '' @ co_Type t)
      else
        let key = (if co_Name t = '''' then co_Type t else co_Name t)
        in case new_entries cores c of
             Inl e \<Rightarrow> Inl e
           | Inr es \<Rightarrow> Inr (\<lparr>ce_key = key, ce_typ = typ, ce_config = t, ce_core = None\<rparr> # es))"

definition NewSelector :: "'c registry \<Rightarrow> CoreConfig list \<Rightarrow> string + 'c Selector" where
  "NewSelector cores c =
     (if c = [] then Inl ''no core is configured''
      else case new_entries cores c of
             Inl e \<Rightarrow> Inl e
           | Inr es \<Rightarrow> Inr \<lparr>sel_entries = es, sel_nodes = [], sel_store = [], sel_fresh = 0\<rparr>)"

definition NewCore :: "'c registry \<Rightarrow> CoreConfig list \<Rightarrow> string + 'c Selector" where
  "NewCore cores c = NewSelector cores c"

definition ownsInbounds :: "CoreConfig \<Rightarrow> bool" where
  "ownsInbounds c \<longleftrightarrow>
     (case co_XrayConfig c of Some x \<Rightarrow> xc_InboundConfigPath x \<noteq> '''' | None \<Rightarrow> False) \<or>
     (case co_SingConfig c of Some x \<Rightarrow> sc_OriginalPath x \<noteq> '''' | None \<Rightarrow> False)"

text \<open>
  \<open>startLocked\<close> of the entry at index \<open>i\<close>: \<open>None\<close> when the type is not registered (the constructor is
  nil). A core that does not start is closed and no entry refers to it.
\<close>

definition startLocked :: "'c registry \<Rightarrow> ('c, 'raw) Core \<Rightarrow> 'c Selector \<Rightarrow> nat \<Rightarrow> ('c Selector \<times> string option) go" where
  "startLocked cores M s i =
     (let e = sel_entries s ! i in
      if ce_core e \<noteq> None then Some (s, None)
      else case mload cores (ce_typ e) of
        None \<Rightarrow> None
      | Some r \<Rightarrow>
          (case rg_new r (ce_config e) of
             Inl err \<Rightarrow> Some (s, Some (''create core '' @ ce_key e @ '' error: '' @ err))
           | Inr c \<Rightarrow>
               (case cr_Start M c of
                  (c, Some err) \<Rightarrow>
                    Some (s\<lparr>sel_store := mstore (sel_store s) (sel_fresh s) (fst (cr_Close M c)), sel_fresh := Suc (sel_fresh s)\<rparr>,
                          Some (''start core '' @ ce_key e @ '' error: '' @ err))
                | (c, None) \<Rightarrow>
                    Some (s\<lparr>sel_store := mstore (sel_store s) (sel_fresh s) c, sel_fresh := Suc (sel_fresh s),
                            sel_entries := (sel_entries s)[i := e\<lparr>ce_core := Some (sel_fresh s)\<rparr>]\<rparr>, None))))"

fun start_loop :: "'c registry \<Rightarrow> ('c, 'raw) Core \<Rightarrow> nat list \<Rightarrow> 'c Selector \<Rightarrow> ('c Selector \<times> string option) go" where
  "start_loop cores M [] s = Some (s, None)"
| "start_loop cores M (i # is) s =
     (if \<not> ownsInbounds (ce_config (sel_entries s ! i)) then start_loop cores M is s
      else case startLocked cores M s i of
        None \<Rightarrow> None
      | Some (s, Some err) \<Rightarrow> Some (s, Some err)
      | Some (s, None) \<Rightarrow> start_loop cores M is s)"

definition Selector_Start :: "'c registry \<Rightarrow> ('c, 'raw) Core \<Rightarrow> 'c Selector \<Rightarrow> ('c Selector \<times> string option) go" where
  "Selector_Start cores M s = start_loop cores M [0..<length (sel_entries s)] s"

text \<open>\<open>Close\<close> collects the errors of all cores.\<close>

fun close_loop ::
  "('c, 'raw) Core \<Rightarrow> coreEntry list \<Rightarrow> (nat, 'c) gomap \<Rightarrow> (coreEntry list \<times> (nat, 'c) gomap \<times> string list) go" where
  "close_loop M [] store = Some ([], store, [])"
| "close_loop M (e # es) store =
     (case ce_core e of
        None \<Rightarrow> map_option (\<lambda>(es, store, errs). (e # es, store, errs)) (close_loop M es store)
      | Some a \<Rightarrow>
          (case mload store a of
             None \<Rightarrow> None
           | Some c \<Rightarrow>
               (case cr_Close M c of
                  (c, err) \<Rightarrow>
                    map_option (\<lambda>(es, store, errs).
                      (e\<lparr>ce_core := None\<rparr> # es, store, (case err of None \<Rightarrow> errs | Some x \<Rightarrow> x # errs)))
                      (close_loop M es (mstore store a c)))))"

definition Selector_Close :: "('c, 'raw) Core \<Rightarrow> 'c Selector \<Rightarrow> ('c Selector \<times> string list) go" where
  "Selector_Close M s =
     map_option (\<lambda>(es, store, errs). (s\<lparr>sel_entries := es, sel_store := store\<rparr>, errs)) (close_loop M (sel_entries s) (sel_store s))"

fun isSupported :: "string \<Rightarrow> string list \<Rightarrow> bool" where
  "isSupported protocol [] = False"
| "isSupported protocol (p # ps) = (if protocol = p then True else isSupported protocol ps)"

definition protocols_of :: "'c registry \<Rightarrow> string \<Rightarrow> string list" where
  "protocols_of cores typ = (case mload cores typ of None \<Rightarrow> [] | Some r \<Rightarrow> rg_protocols r)"

definition eligible :: "'c registry \<Rightarrow> 'raw NodeInfo \<Rightarrow> 'raw Options \<Rightarrow> coreEntry \<Rightarrow> bool" where
  "eligible cores info opt e \<longleftrightarrow>
     (if op_Core opt = '''' then isSupported (ni_Type info) (protocols_of cores (ce_typ e)) else op_Core opt = ce_typ e)"

fun pick_name :: "string \<Rightarrow> nat \<Rightarrow> coreEntry list \<Rightarrow> nat option" where
  "pick_name name i [] = None"
| "pick_name name i (e # es) = (if ce_key e = name then Some i else pick_name name (Suc i) es)"

fun pick_loop :: "(coreEntry \<Rightarrow> bool) \<Rightarrow> nat option \<Rightarrow> nat \<Rightarrow> coreEntry list \<Rightarrow> nat option" where
  "pick_loop p first i [] = first"
| "pick_loop p first i (e # es) =
     (if \<not> p e then pick_loop p first (Suc i) es
      else if ce_core e \<noteq> None then Some i
      else pick_loop p (if first = None then Some i else first) (Suc i) es)"

definition pickLocked :: "'c registry \<Rightarrow> 'c Selector \<Rightarrow> 'raw NodeInfo \<Rightarrow> 'raw Options \<Rightarrow> nat option" where
  "pickLocked cores s info opt =
     (if op_CoreName opt \<noteq> '''' then pick_name (op_CoreName opt) 0 (sel_entries s)
      else pick_loop (eligible cores info opt) None 0 (sel_entries s))"

text \<open>\<open>AddNode\<close> also returns the options, which it fills in through the pointer.\<close>

definition set_core :: "'c Selector \<Rightarrow> nat \<Rightarrow> 'c \<Rightarrow> 'c Selector" where
  "set_core s a c = s\<lparr>sel_store := mstore (sel_store s) a c\<rparr>"

definition add_to_core ::
  "('c, 'raw) Core \<Rightarrow> 'c Selector \<Rightarrow> nat \<Rightarrow> string \<Rightarrow> 'raw NodeInfo \<Rightarrow> 'raw Options \<Rightarrow> ('c Selector \<times> 'raw Options \<times> string option) go" where
  "add_to_core M s a tag info opt =
     Option.bind (mload (sel_store s) a) (\<lambda>c.
       case cr_AddNode M c tag info opt of
         None \<Rightarrow> None
       | Some (c, Some err) \<Rightarrow> Some (set_core s a c, opt, Some err)
       | Some (c, None) \<Rightarrow> Some ((set_core s a c)\<lparr>sel_nodes := mstore (sel_nodes s) tag a\<rparr>, opt, None))"

definition Selector_AddNode ::
  "'c registry \<Rightarrow> ('c, 'raw) Core \<Rightarrow> ('raw option \<Rightarrow> 'raw Options \<Rightarrow> string option \<times> 'raw Options)
   \<Rightarrow> 'c Selector \<Rightarrow> string \<Rightarrow> 'raw NodeInfo \<Rightarrow> 'raw Options \<Rightarrow> ('c Selector \<times> 'raw Options \<times> string option) go" where
  "Selector_AddNode cores M unmarshal s tag info opt =
     (case pickLocked cores s info opt of
        None \<Rightarrow> Some (s, opt, Some ''the node type is not support'')
      | Some i \<Rightarrow>
          (case startLocked cores M s i of
             None \<Rightarrow> None
           | Some (s, Some err) \<Rightarrow> Some (s, opt, Some err)
           | Some (s, None) \<Rightarrow>
               Option.bind (ce_core (sel_entries s ! i)) (\<lambda>a.
               if op_Core opt = '''' then
                 Option.bind (mload (sel_store s) a) (\<lambda>c.
                   case unmarshal (op_RawOptions opt) (opt\<lparr>op_Core := cr_Type M c\<rparr>) of
                     (Some err, opt) \<Rightarrow> Some (s, opt, Some (''unmarshal option error: '' @ err))
                   | (None, opt) \<Rightarrow> add_to_core M s a tag info (opt\<lparr>op_RawOptions := None\<rparr>))
               else add_to_core M s a tag info opt)))"

definition on_node :: "'c Selector \<Rightarrow> string \<Rightarrow> 'd \<Rightarrow> ('c \<Rightarrow> ('c \<times> 'd) go) \<Rightarrow> ('c Selector \<times> 'd) go" where
  "on_node s tag missing f =
     (case mload (sel_nodes s) tag of
        None \<Rightarrow> Some (s, missing)
      | Some a \<Rightarrow> Option.bind (mload (sel_store s) a) (\<lambda>c. map_option (\<lambda>(c, d). (set_core s a c, d)) (f c)))"

definition Selector_DelNode :: "('c, 'raw) Core \<Rightarrow> 'c Selector \<Rightarrow> string \<Rightarrow> ('c Selector \<times> string option) go" where
  "Selector_DelNode M s tag =
     map_option (\<lambda>(s, e). (if e = None then s\<lparr>sel_nodes := mdelete (sel_nodes s) tag\<rparr> else s, e))
       (on_node s tag (Some ''the node is not have'') (\<lambda>c. cr_DelNode M c tag))"

definition Selector_AddUsers :: "('c, 'raw) Core \<Rightarrow> 'c Selector \<Rightarrow> 'raw AddUsersParams \<Rightarrow> ('c Selector \<times> int \<times> string option) go" where
  "Selector_AddUsers M s p = on_node s (ap_Tag p) (0, Some ''the node is not have'') (\<lambda>c. cr_AddUsers M c p)"

definition Selector_GetUserTraffic ::
  "('c, 'raw) Core \<Rightarrow> 'c Selector \<Rightarrow> string \<Rightarrow> string \<Rightarrow> bool \<Rightarrow> ('c Selector \<times> 64 word \<times> 64 word) go" where
  "Selector_GetUserTraffic M s tag uuid reset = on_node s tag (0, 0) (\<lambda>c. cr_GetUserTraffic M c tag uuid reset)"

definition Selector_RestoreUserTraffic ::
  "('c, 'raw) Core \<Rightarrow> 'c Selector \<Rightarrow> string \<Rightarrow> string \<Rightarrow> 64 word \<Rightarrow> 64 word \<Rightarrow> 'c Selector go" where
  "Selector_RestoreUserTraffic M s tag uuid up down =
     map_option fst (on_node s tag () (\<lambda>c. map_option (\<lambda>c. (c, ())) (cr_RestoreUserTraffic M c tag uuid up down)))"

definition Selector_DelUsers ::
  "('c, 'raw) Core \<Rightarrow> 'c Selector \<Rightarrow> UserInfo list \<Rightarrow> string \<Rightarrow> 'raw NodeInfo option \<Rightarrow> ('c Selector \<times> string option) go" where
  "Selector_DelUsers M s users tag info = on_node s tag (Some ''the node is not have'') (\<lambda>c. cr_DelUsers M c users tag info)"

definition Selector_Protocols :: "'c registry \<Rightarrow> 'c Selector \<Rightarrow> string list" where
  "Selector_Protocols cores s = concat (map (\<lambda>e. protocols_of cores (ce_typ e)) (sel_entries s))"

definition Selector_Type :: "'c Selector \<Rightarrow> string" where
  "Selector_Type s = ''Selector('' @ strings_Join (map ce_key (sel_entries s)) '' '' @ '')''"

section \<open>Choosing a core\<close>

definition first_entry :: "(coreEntry \<Rightarrow> bool) \<Rightarrow> coreEntry list \<Rightarrow> nat option" where
  "first_entry p es = find (\<lambda>i. p (es ! i)) [0..<length es]"

lemma find_upt_Suc: "find p [Suc m..<Suc n] = map_option Suc (find (\<lambda>i. p (Suc i)) [m..<n])"
proof -
  have "[Suc m..<Suc n] = map Suc [m..<n]" by (simp add: map_Suc_upt)
  moreover have "find p (map Suc is) = map_option Suc (find (\<lambda>i. p (Suc i)) is)" for "is" by (induction "is") auto
  ultimately show ?thesis by simp
qed

lemma first_entry_simps:
  "first_entry p [] = None"
  "first_entry p (e # es) = (if p e then Some 0 else map_option Suc (first_entry p es))"
  by (simp_all add: first_entry_def upt_conv_Cons find_upt_Suc del: upt_Suc)

lemma pick_name_first: "pick_name name i es = map_option (\<lambda>k. k + i) (first_entry (\<lambda>e. ce_key e = name) es)"
  by (induction es arbitrary: i) (auto simp: first_entry_simps option.map_comp comp_def)

lemma pick_loop_first:
  "pick_loop p first i es =
     (case first_entry (\<lambda>e. p e \<and> ce_core e \<noteq> None) es of
        Some k \<Rightarrow> Some (k + i)
      | None \<Rightarrow> (case first of Some k \<Rightarrow> Some k | None \<Rightarrow> map_option (\<lambda>k. k + i) (first_entry p es)))"
  by (induction es arbitrary: i first)
    (auto simp: first_entry_simps option.map_comp comp_def split: option.splits)

lemma first_entry_Some: "first_entry p es = Some i \<Longrightarrow> i < length es \<and> p (es ! i)"
  by (induction es arbitrary: i) (auto simp: first_entry_simps split: if_splits)

lemma isSupported_iff [simp]: "isSupported p ps \<longleftrightarrow> p \<in> set ps"
  by (induction ps) auto

text \<open>
  C18. How the selector chooses the core of a node: a \<open>CoreName\<close> selects the first core of that
  name and nothing else; otherwise, among the cores of the type \<open>Core\<close> (or, without one, among those
  that serve the protocol of the node) the first running core wins, and a core is started only when
  none of them runs, namely the first one in the configuration.
\<close>

theorem pickLocked_exact:
  "pickLocked cores s info opt =
     (if op_CoreName opt \<noteq> '''' then first_entry (\<lambda>e. ce_key e = op_CoreName opt) (sel_entries s)
      else case first_entry (\<lambda>e. eligible cores info opt e \<and> ce_core e \<noteq> None) (sel_entries s) of
             Some i \<Rightarrow> Some i
           | None \<Rightarrow> first_entry (eligible cores info opt) (sel_entries s))"
  by (simp add: pickLocked_def pick_name_first pick_loop_first option.map_ident split: option.split)

lemma pickLocked_range: "pickLocked cores s info opt = Some i \<Longrightarrow> i < length (sel_entries s)"
  by (auto simp: pickLocked_def pick_name_first pick_loop_first dest!: first_entry_Some split: if_splits option.splits)

section \<open>Ownership of the cores\<close>

text \<open>What the selector relies on: a closed core does not run, and no method but \<open>Start\<close> makes a core run.\<close>

definition lawful_core :: "('c, 'raw) Core \<Rightarrow> ('c \<Rightarrow> bool) \<Rightarrow> bool" where
  "lawful_core M running \<longleftrightarrow>
     (\<forall>c. \<not> running (fst (cr_Close M c))) \<and>
     (\<forall>c tag info opt r. cr_AddNode M c tag info opt = Some r \<longrightarrow> running (fst r) \<longrightarrow> running c) \<and>
     (\<forall>c tag r. cr_DelNode M c tag = Some r \<longrightarrow> running (fst r) \<longrightarrow> running c) \<and>
     (\<forall>c p r. cr_AddUsers M c p = Some r \<longrightarrow> running (fst r) \<longrightarrow> running c) \<and>
     (\<forall>c tag u b r. cr_GetUserTraffic M c tag u b = Some r \<longrightarrow> running (fst r) \<longrightarrow> running c) \<and>
     (\<forall>c tag u x y r. cr_RestoreUserTraffic M c tag u x y = Some r \<longrightarrow> running r \<longrightarrow> running c) \<and>
     (\<forall>c us tag info r. cr_DelUsers M c us tag info = Some r \<longrightarrow> running (fst r) \<longrightarrow> running c)"

lemma lawful_coreD:
  assumes "lawful_core M running"
  shows "cr_Close M c = (c', err) \<Longrightarrow> \<not> running c'"
    "cr_AddNode M c tag info opt = Some (c', e) \<Longrightarrow> running c' \<Longrightarrow> running c"
    "cr_DelNode M c tag = Some (c', e) \<Longrightarrow> running c' \<Longrightarrow> running c"
    "cr_AddUsers M c p = Some (c', r) \<Longrightarrow> running c' \<Longrightarrow> running c"
    "cr_GetUserTraffic M c tag u b = Some (c', t) \<Longrightarrow> running c' \<Longrightarrow> running c"
    "cr_RestoreUserTraffic M c tag u x y = Some c' \<Longrightarrow> running c' \<Longrightarrow> running c"
    "cr_DelUsers M c us tag ninfo = Some (c', e) \<Longrightarrow> running c' \<Longrightarrow> running c"
  using assms unfolding lawful_core_def by (metis fst_conv)+

text \<open>A step is any call of the interface; calls that fail or panic in a core are steps when they return.\<close>

inductive selector_step ::
  "'c registry \<Rightarrow> ('c, 'raw) Core \<Rightarrow> ('raw option \<Rightarrow> 'raw Options \<Rightarrow> string option \<times> 'raw Options)
   \<Rightarrow> 'c Selector \<Rightarrow> 'c Selector \<Rightarrow> bool"
  for cores M unmarshal where
  step_start: "Selector_Start cores M s = Some (s', e) \<Longrightarrow> selector_step cores M unmarshal s s'"
| step_close: "Selector_Close M s = Some (s', errs) \<Longrightarrow> selector_step cores M unmarshal s s'"
| step_add: "Selector_AddNode cores M unmarshal s tag info opt = Some (s', opt', e) \<Longrightarrow> selector_step cores M unmarshal s s'"
| step_del: "Selector_DelNode M s tag = Some (s', e) \<Longrightarrow> selector_step cores M unmarshal s s'"
| step_add_users: "Selector_AddUsers M s p = Some (s', n, e) \<Longrightarrow> selector_step cores M unmarshal s s'"
| step_get: "Selector_GetUserTraffic M s tag u reset = Some (s', up, down) \<Longrightarrow> selector_step cores M unmarshal s s'"
| step_restore: "Selector_RestoreUserTraffic M s tag u up down = Some s' \<Longrightarrow> selector_step cores M unmarshal s s'"
| step_del_users: "Selector_DelUsers M s us tag info' = Some (s', e) \<Longrightarrow> selector_step cores M unmarshal s s'"

inductive selector_reach ::
  "'c registry \<Rightarrow> ('c, 'raw) Core \<Rightarrow> ('raw option \<Rightarrow> 'raw Options \<Rightarrow> string option \<times> 'raw Options) \<Rightarrow> 'c Selector \<Rightarrow> bool"
  for cores M unmarshal where
  reach_new: "NewSelector cores c = Inr s \<Longrightarrow> selector_reach cores M unmarshal s"
| reach_step: "selector_reach cores M unmarshal s \<Longrightarrow> selector_step cores M unmarshal s s' \<Longrightarrow> selector_reach cores M unmarshal s'"

definition owned :: "coreEntry list \<Rightarrow> nat list" where
  "owned es = List.map_filter ce_core es"

definition sel_inv :: "'c registry \<Rightarrow> ('c \<Rightarrow> bool) \<Rightarrow> 'c Selector \<Rightarrow> bool" where
  "sel_inv cores running s \<longleftrightarrow>
     (\<forall>a. mload (sel_store s) a \<noteq> None \<longrightarrow> a < sel_fresh s) \<and>
     (\<forall>e \<in> set (sel_entries s). mload cores (ce_typ e) \<noteq> None) \<and>
     distinct (owned (sel_entries s)) \<and>
     (\<forall>a \<in> set (owned (sel_entries s)). mload (sel_store s) a \<noteq> None) \<and>
     (\<forall>tag a. mload (sel_nodes s) tag = Some a \<longrightarrow> mload (sel_store s) a \<noteq> None) \<and>
     (\<forall>a c. mload (sel_store s) a = Some c \<longrightarrow> running c \<longrightarrow> a \<in> set (owned (sel_entries s)))"

lemma owned_simps [simp]:
  "owned [] = []" "owned (e # es) = (case ce_core e of None \<Rightarrow> owned es | Some a \<Rightarrow> a # owned es)"
  by (simp_all add: owned_def map_filter_simps split: option.split)

lemma owned_iff: "a \<in> set (owned es) \<longleftrightarrow> (\<exists>e \<in> set es. ce_core e = Some a)"
  by (induction es) (auto split: option.splits)

lemma owned_nth: "k < length es \<Longrightarrow> ce_core (es ! k) = Some a \<Longrightarrow> a \<in> set (owned es)"
  by (auto simp: owned_iff)

lemma owned_unique:
  "distinct (owned es) \<Longrightarrow> k < length es \<Longrightarrow> j < length es \<Longrightarrow> ce_core (es ! k) = Some a \<Longrightarrow> ce_core (es ! j) = Some a \<Longrightarrow> k = j"
proof (induction es arbitrary: k j)
  case (Cons e es)
  have no: "ce_core e \<noteq> Some a" if "n < length es" "ce_core (es ! n) = Some a" for n
    using Cons.prems(1) owned_nth [OF that] by auto
  have d: "distinct (owned es)" using Cons.prems(1) by (auto split: option.splits)
  show ?case using Cons.prems(2-) no Cons.IH [OF d] by (cases k; cases j) auto
qed simp

lemma owned_update:
  assumes "i < length es" "ce_core (es ! i) = None" "a \<notin> set (owned es)" "distinct (owned es)"
  shows "distinct (owned (es[i := (es ! i)\<lparr>ce_core := Some a\<rparr>]))"
    "set (owned (es[i := (es ! i)\<lparr>ce_core := Some a\<rparr>])) = insert a (set (owned es))"
proof -
  have es: "es = take i es @ es ! i # drop (Suc i) es" using assms(1) by (rule id_take_nth_drop)
  have split: "owned (xs @ ys) = owned xs @ owned ys" for xs ys by (simp add: owned_def map_filter_def)
  have upd: "es[i := e] = take i es @ e # drop (Suc i) es" for e using assms(1) by (simp add: upd_conv_take_nth_drop)
  have "owned es = owned (take i es) @ owned (drop (Suc i) es)"
    using assms(2) by (subst es) (simp add: split)
  then show "distinct (owned (es[i := (es ! i)\<lparr>ce_core := Some a\<rparr>]))"
    "set (owned (es[i := (es ! i)\<lparr>ce_core := Some a\<rparr>])) = insert a (set (owned es))"
    using assms(3,4) by (auto simp: upd split)
qed

lemma new_entries_fresh:
  "new_entries cores c = Inr es \<Longrightarrow> owned es = [] \<and> (\<forall>e \<in> set es. mload cores (ce_typ e) \<noteq> None)"
  by (induction c arbitrary: es) (auto simp: Let_def split: sum.splits if_splits)

lemma sel_inv_new: "NewSelector cores c = Inr s \<Longrightarrow> sel_inv cores running s"
  using new_entries_fresh [of cores c] by (auto simp: NewSelector_def sel_inv_def split: if_splits sum.splits)

lemma sel_inv_set_core:
  "sel_inv cores running s \<Longrightarrow> mload (sel_store s) a = Some c \<Longrightarrow> (running c' \<Longrightarrow> running c) \<Longrightarrow> sel_inv cores running (set_core s a c')"
  by (auto simp: sel_inv_def set_core_def)

lemma sel_inv_nodes:
  "sel_inv cores running s \<Longrightarrow> mload (sel_store s) a \<noteq> None \<Longrightarrow> sel_inv cores running (s\<lparr>sel_nodes := mstore (sel_nodes s) tag a\<rparr>)"
  "sel_inv cores running s \<Longrightarrow> sel_inv cores running (s\<lparr>sel_nodes := mdelete (sel_nodes s) tag\<rparr>)"
  by (auto simp: sel_inv_def split: if_splits)

lemma sel_inv_on_node:
  assumes "sel_inv cores running s" and "on_node s tag d f = Some (s', d')"
    and "\<And>c c' d. f c = Some (c', d) \<Longrightarrow> running c' \<Longrightarrow> running c"
  shows "sel_inv cores running s'"
  using assms(1,2)
  by (auto simp: on_node_def bind_eq_Some_conv intro!: sel_inv_set_core dest: assms(3) split: option.splits)

lemma sel_inv_entry: "sel_inv cores running s \<Longrightarrow> i < length (sel_entries s) \<Longrightarrow> mload cores (ce_typ (sel_entries s ! i)) \<noteq> None"
  by (simp add: sel_inv_def)

lemma sel_inv_start:
  assumes "sel_inv cores running s" and "lawful_core M running" and "i < length (sel_entries s)"
  shows "\<exists>s' e. startLocked cores M s i = Some (s', e) \<and> sel_inv cores running s' \<and> length (sel_entries s') = length (sel_entries s)
     \<and> (e = None \<longrightarrow> ce_core (sel_entries s' ! i) \<noteq> None)"
proof (cases "ce_core (sel_entries s ! i)")
  case None
  let ?e = "sel_entries s ! i"
  obtain r where r: "mload cores (ce_typ ?e) = Some r" using sel_inv_entry [OF assms(1,3)] by auto
  have fresh: "mload (sel_store s) (sel_fresh s) = None" using assms(1) by (auto simp: sel_inv_def)
  then have new: "sel_fresh s \<notin> set (owned (sel_entries s))" using assms(1) by (auto simp: sel_inv_def)
  have d: "distinct (owned (sel_entries s))" using assms(1) by (simp add: sel_inv_def)
  note upd = owned_update [OF assms(3) None new d]
  have ent: "mload cores (ce_typ x) \<noteq> None"
    if "x \<in> set ((sel_entries s)[i := ?e\<lparr>ce_core := Some (sel_fresh s)\<rparr>])" for x
    using set_update_subset_insert [THEN subsetD, OF that] r assms(1) by (auto simp: sel_inv_def)
  show ?thesis
  proof (cases "rg_new r (ce_config ?e)")
    case (Inr c)
    obtain c1 e where st: "cr_Start M c = (c1, e)" by fastforce
    show ?thesis
    proof (cases e)
      case None
      then show ?thesis
        using assms r Inr st \<open>ce_core ?e = None\<close> upd fresh ent
        by (auto simp: startLocked_def Let_def sel_inv_def less_Suc_eq)
    next
      case (Some err)
      then show ?thesis
        using assms r Inr st \<open>ce_core ?e = None\<close> fresh
        by (auto simp: startLocked_def Let_def sel_inv_def lawful_core_def less_Suc_eq)
    qed
  qed (use assms r None in \<open>auto simp: startLocked_def Let_def\<close>)
qed (use assms in \<open>auto simp: startLocked_def Let_def\<close>)

lemma sel_inv_start_loop:
  "sel_inv cores running s \<Longrightarrow> lawful_core M running \<Longrightarrow> \<forall>i \<in> set is. i < length (sel_entries s) \<Longrightarrow>
   \<exists>s' e. start_loop cores M is s = Some (s', e) \<and> sel_inv cores running s'"
proof (induction "is" arbitrary: s)
  case (Cons i "is")
  obtain s1 e where s1: "startLocked cores M s i = Some (s1, e)" "sel_inv cores running s1"
      "length (sel_entries s1) = length (sel_entries s)"
    using sel_inv_start [OF Cons.prems(1,2), of i] Cons.prems(3) by auto
  then show ?case using Cons by (cases e) auto
qed auto

lemma close_loop_inv:
  assumes "lawful_core M running" and "distinct (owned es)" and "\<forall>a \<in> set (owned es). mload store a \<noteq> None"
  shows "\<exists>es' store' errs. close_loop M es store = Some (es', store', errs) \<and> owned es' = [] \<and> map ce_typ es' = map ce_typ es
     \<and> (\<forall>a. mload store' a = None \<longleftrightarrow> mload store a = None)
     \<and> (\<forall>a c. mload store' a = Some c \<longrightarrow> running c \<longrightarrow> mload store a = Some c \<and> a \<notin> set (owned es))"
  using assms(2,3)
proof (induction es arbitrary: store)
  case (Cons e es)
  show ?case
  proof (cases "ce_core e")
    case None
    then show ?thesis using Cons by fastforce
  next
    case (Some a)
    obtain c where c: "mload store a = Some c" using Cons.prems Some by auto
    obtain c1 err where cl: "cr_Close M c = (c1, err)" by fastforce
    have nr: "\<not> running c1" by (rule lawful_coreD(1) [OF assms(1) cl])
    have "\<forall>b \<in> set (owned es). mload (mstore store a c1) b \<noteq> None" using Cons.prems Some by auto
    then obtain es' store' errs where "close_loop M es (mstore store a c1) = Some (es', store', errs)" "owned es' = []"
      "map ce_typ es' = map ce_typ es" "\<forall>b. mload store' b = None \<longleftrightarrow> mload (mstore store a c1) b = None"
      "\<forall>b c. mload store' b = Some c \<longrightarrow> running c \<longrightarrow> mload (mstore store a c1) b = Some c \<and> b \<notin> set (owned es)"
      using Cons.IH [of "mstore store a c1"] Cons.prems Some by auto
    then show ?thesis using Some c cl nr by (auto split: if_splits)
  qed
qed auto

lemma sel_inv_close:
  assumes "sel_inv cores running s" and "lawful_core M running"
  shows "\<exists>s' errs. Selector_Close M s = Some (s', errs) \<and> sel_inv cores running s' \<and> owned (sel_entries s') = []
    \<and> (\<forall>a c. mload (sel_store s') a = Some c \<longrightarrow> \<not> running c)"
proof -
  obtain es' store' errs where cl: "close_loop M (sel_entries s) (sel_store s) = Some (es', store', errs)" "owned es' = []"
      "map ce_typ es' = map ce_typ (sel_entries s)" "\<forall>a. mload store' a = None \<longleftrightarrow> mload (sel_store s) a = None"
      "\<forall>a c. mload store' a = Some c \<longrightarrow> running c \<longrightarrow> mload (sel_store s) a = Some c \<and> a \<notin> set (owned (sel_entries s))"
    using close_loop_inv [OF assms(2), of "sel_entries s" "sel_store s"] assms(1) by (auto simp: sel_inv_def)
  have typs: "ce_typ ` set es' = ce_typ ` set (sel_entries s)" using cl(3) by (metis image_set)
  have stopped: "\<not> running c" if "mload store' a = Some c" for a c using that cl(5) assms(1) unfolding sel_inv_def by blast
  have "\<forall>e \<in> set es'. mload cores (ce_typ e) \<noteq> None"
    using assms(1) typs unfolding sel_inv_def by (metis (no_types, lifting) imageE imageI)
  then have "sel_inv cores running (s\<lparr>sel_entries := es', sel_store := store'\<rparr>)"
    using assms(1) cl(2,4) stopped by (auto simp: sel_inv_def)
  then show ?thesis using cl stopped by (auto simp: Selector_Close_def)
qed

lemma sel_inv_add_to_core:
  assumes "sel_inv cores running s" and "lawful_core M running" and "add_to_core M s a tag info opt = Some (s', opt', e)"
  shows "sel_inv cores running s'"
proof -
  obtain c c1 where c: "mload (sel_store s) a = Some c" "cr_AddNode M c tag info opt = Some (c1, e)"
    and s': "s' = (if e = None then (set_core s a c1)\<lparr>sel_nodes := mstore (sel_nodes s) tag a\<rparr> else set_core s a c1)"
  proof -
    obtain c where c: "mload (sel_store s) a = Some c" using assms(3) by (auto simp: add_to_core_def bind_eq_Some_conv)
    moreover obtain c1 e1 where "cr_AddNode M c tag info opt = Some (c1, e1)"
      using assms(3) c by (cases "cr_AddNode M c tag info opt") (auto simp: add_to_core_def)
    ultimately show thesis using that [of c c1] assms(3) by (cases e1) (auto simp: add_to_core_def)
  qed
  have "running c1 \<Longrightarrow> running c" by (rule lawful_coreD(2) [OF assms(2) c(2)])
  then have "sel_inv cores running (set_core s a c1)" by (rule sel_inv_set_core [OF assms(1) c(1)])
  then show ?thesis using s' sel_inv_nodes(1) [of cores running "set_core s a c1" a tag] by (auto simp: set_core_def)
qed

lemma sel_inv_add:
  assumes "sel_inv cores running s" and "lawful_core M running"
    and "Selector_AddNode cores M unmarshal s tag info opt = Some (s', opt', e)"
  shows "sel_inv cores running s'"
proof (cases "pickLocked cores s info opt")
  case (Some i)
  obtain s1 e1 where s1: "startLocked cores M s i = Some (s1, e1)" "sel_inv cores running s1"
    using sel_inv_start [OF assms(1,2) pickLocked_range [OF Some]] by auto
  show ?thesis
  proof (cases e1)
    case None
    note add = sel_inv_add_to_core [OF s1(2) assms(2)]
    obtain a where a: "ce_core (sel_entries s1 ! i) = Some a"
      using assms(3) Some s1(1) None by (auto simp: Selector_AddNode_def bind_eq_Some_conv)
    note unfolded = assms(3) [unfolded Selector_AddNode_def Some s1(1) None option.case prod.case a Option.bind.simps]
    show ?thesis
    proof (cases "op_Core opt = []")
      case True
      then obtain c where c: "mload (sel_store s1) a = Some c" using unfolded by (auto simp: bind_eq_Some_conv)
      obtain e2 opt2 where "unmarshal (op_RawOptions opt) (opt\<lparr>op_Core := cr_Type M c\<rparr>) = (e2, opt2)" by fastforce
      then show ?thesis using unfolded True c s1(2) add by (cases e2) auto
    qed (use unfolded add in auto)
  qed (use assms(3) Some s1 in \<open>auto simp: Selector_AddNode_def\<close>)
qed (use assms in \<open>auto simp: Selector_AddNode_def\<close>)

lemma sel_inv_step:
  assumes "selector_step cores M unmarshal s s'" and "sel_inv cores running s" and l: "lawful_core M running"
  shows "sel_inv cores running s'"
  using assms(1)
proof cases
  case (step_start e)
  then show ?thesis
    using sel_inv_start_loop [OF assms(2) l, of "[0..<length (sel_entries s)]"] by (auto simp: Selector_Start_def)
next
  case (step_close errs)
  then show ?thesis using sel_inv_close [OF assms(2) l] by auto
next
  case (step_add tag info opt opt' e)
  then show ?thesis using sel_inv_add [OF assms(2) l] by blast
next
  case (step_del tag e)
  then obtain s1 where "on_node s tag (Some ''the node is not have'') (\<lambda>c. cr_DelNode M c tag) = Some (s1, e)"
      and s': "s' = (if e = None then s1\<lparr>sel_nodes := mdelete (sel_nodes s1) tag\<rparr> else s1)"
    by (auto simp: Selector_DelNode_def)
  then have "sel_inv cores running s1"
    by (rule_tac sel_inv_on_node [OF assms(2)]) (auto dest: lawful_coreD [OF l])
  then show ?thesis using s' by (simp add: sel_inv_nodes(2))
next
  case (step_add_users p n e)
  then show ?thesis
    unfolding Selector_AddUsers_def by (rule sel_inv_on_node [OF assms(2)]) (auto dest: lawful_coreD [OF l])
next
  case (step_get tag u reset up down)
  then show ?thesis
    unfolding Selector_GetUserTraffic_def by (rule sel_inv_on_node [OF assms(2)]) (auto dest: lawful_coreD [OF l])
next
  case (step_restore tag u up down)
  then obtain d where "on_node s tag () (\<lambda>c. map_option (\<lambda>c. (c, ())) (cr_RestoreUserTraffic M c tag u up down)) = Some (s', d)"
    by (auto simp: Selector_RestoreUserTraffic_def)
  then show ?thesis by (rule sel_inv_on_node [OF assms(2)]) (auto dest: lawful_coreD [OF l])
next
  case (step_del_users us tag info' e)
  then show ?thesis
    unfolding Selector_DelUsers_def by (rule sel_inv_on_node [OF assms(2)]) (auto dest: lawful_coreD [OF l])
qed

lemma sel_reach_inv:
  "selector_reach cores M unmarshal s \<Longrightarrow> lawful_core M running \<Longrightarrow> sel_inv cores running s"
  by (induction rule: selector_reach.induct) (auto intro: sel_inv_new sel_inv_step)


section \<open>Options of a node without a core\<close>

text \<open>
  A node whose options name no core of the three known types loses its options. When the
  options were read with an empty or an unknown \<open>Core\<close> (for example \<open>Xray\<close>), \<open>AddNode\<close> fills in the
  type of the chosen core and decodes the options again; but the document still holds the old value,
  which the decoder puts back, so the core receives options with neither a core name nor the block of
  that core, and the document is dropped, although the comment of \<open>NewCore\<close> promises that
  \<open>Options.Core\<close> is filled in. \<open>dec_opt\<close> decodes the field \<open>Core\<close> of the document as \<open>x\<close>.
\<close>

theorem unknown_core_loses_options:
  assumes dec: "\<And>o'. dec_opt (op_RawOptions opt) o' = (None, o'\<lparr>op_Core := x\<rparr>)"
    and "x \<notin> {''xray'', ''sing'', ''hysteria2''}" and "op_Core opt = ''''" and "op_XrayOptions opt = None" and "op_SingOptions opt = None"
    and pick: "pickLocked cores s info opt = Some i" and run: "i < length (sel_entries s)" "ce_core (sel_entries s ! i) = Some a"
      "mload (sel_store s) a = Some c"
  shows "\<exists>opt'. Selector_AddNode cores M (Options_UnmarshalJSON dec_opt dec_xray dec_sing) s tag info opt = add_to_core M s a tag info opt'
     \<and> op_Core opt' = '''' \<and> op_XrayOptions opt' = None \<and> op_SingOptions opt' = None \<and> op_RawOptions opt' = None"
proof -
  have st: "startLocked cores M s i = Some (s, None)" using run(2) by (simp add: startLocked_def Let_def)
  have "Options_UnmarshalJSON dec_opt dec_xray dec_sing (op_RawOptions opt) (opt\<lparr>op_Core := cr_Type M c\<rparr>)
      = (None, opt\<lparr>op_Core := '''', op_RawOptions := op_RawOptions opt\<rparr>)"
    using dec assms(2) by (simp add: Options_UnmarshalJSON_def)
  then show ?thesis using st run assms(3-6) by (auto simp: Selector_AddNode_def)
qed

text \<open>A core that only knows whether it runs, with a configuration that starts it.\<close>

definition example_core :: "(bool, string) Core" where
  "example_core = \<lparr>cr_Start = (\<lambda>c. (True, None)), cr_Close = (\<lambda>c. (False, None)),
     cr_AddNode = (\<lambda>c _ _ opt. if op_XrayOptions opt = None then None else Some (c, None)),
     cr_DelNode = (\<lambda>c _. Some (c, None)), cr_AddUsers = (\<lambda>c p. Some (c, int (length (ap_Users p)), None)),
     cr_GetUserTraffic = (\<lambda>c _ _ _. Some (c, 0, 0)), cr_RestoreUserTraffic = (\<lambda>c _ _ _ _. Some c),
     cr_DelUsers = (\<lambda>c _ _ _. Some (c, None)), cr_Type = (\<lambda>_. ''xray'')\<rparr>"

definition example_cores :: "bool registry" where
  "example_cores = RegisterCore [] ''xray'' (\<lambda>_. Inr False) [''vless'']"

definition example_core_config :: CoreConfig where
  "example_core_config = \<lparr>co_Type = ''xray'', co_Name = '''',
     co_XrayConfig = Some ((NewXrayConfig 0)\<lparr>xc_InboundConfigPath := ''in''\<rparr>), co_SingConfig = None, co_Hysteria2Config = None\<rparr>"

definition example_entry :: coreEntry where
  "example_entry = \<lparr>ce_key = ''xray'', ce_typ = ''xray'', ce_config = example_core_config, ce_core = Some 0\<rparr>"

definition example_selector :: "bool Selector" where
  "example_selector = \<lparr>sel_entries = [example_entry], sel_nodes = [], sel_store = [(0, True)], sel_fresh = 1\<rparr>"

lemmas example_selector_defs = example_core_def example_cores_def example_core_config_def example_entry_def example_selector_def
  RegisterCore_def mload_def mstore_def NewXrayConfig_def

lemma example_selector_reach: "selector_reach example_cores example_core unmarshal example_selector"
proof -
  let ?s = "\<lparr>sel_entries = [example_entry\<lparr>ce_core := None\<rparr>], sel_nodes = [], sel_store = [], sel_fresh = 0\<rparr> :: bool Selector"
  have lower: "strings_ToLower ''xray'' = ''xray''" by code_simp
  have "NewSelector example_cores [example_core_config] = Inr ?s"
    using lower by (simp add: NewSelector_def Let_def example_selector_defs)
  then have "selector_reach example_cores example_core unmarshal ?s" by (rule reach_new)
  moreover have "Selector_Start example_cores example_core ?s = Some (example_selector, None)"
    by (simp add: Selector_Start_def ownsInbounds_def startLocked_def Let_def example_selector_defs)
  ultimately show ?thesis using step_start reach_step by metis
qed

lemma example_core_lawful: "lawful_core example_core (\<lambda>c. c)"
  by (auto simp: lawful_core_def example_core_def split: if_splits)


theorem unknown_core_loses_options_witness:
  "Selector_AddNode example_cores example_core
     (Options_UnmarshalJSON (\<lambda>raw o'. (None, o'\<lparr>op_Core := ''Xray''\<rparr>)) (\<lambda>_ x. (None, x)) (\<lambda>_ x. (None, x)))
     example_selector ''n'' (empty_NodeInfo 1 ''vless'') (example_options\<lparr>op_Core := '''', op_RawOptions := Some ''raw''\<rparr>) = None"
proof -
  let ?opt = "example_options\<lparr>op_Core := '''', op_RawOptions := Some ''raw''\<rparr>"
  have pick: "pickLocked example_cores example_selector (empty_NodeInfo 1 ''vless'') ?opt = Some 0"
    by (simp add: pickLocked_def eligible_def protocols_of_def example_options_def example_selector_defs empty_NodeInfo_def)
  have run: "0 < length (sel_entries example_selector)" "ce_core (sel_entries example_selector ! 0) = Some 0"
      "mload (sel_store example_selector) 0 = Some True"
    by (simp_all add: example_selector_defs)
  have opt: "op_Core ?opt = ''''" "op_XrayOptions ?opt = None" "op_SingOptions ?opt = None" by (simp_all add: example_options_def)
  have lost: "add_to_core example_core example_selector 0 ''n'' (empty_NodeInfo 1 ''vless'') o' = None" if "op_XrayOptions o' = None" for o'
    using that by (simp add: add_to_core_def example_selector_defs)
  show ?thesis
    using unknown_core_loses_options [where dec_opt = "\<lambda>raw o'. (None, o'\<lparr>op_Core := ''Xray''\<rparr>)" and x = "''Xray''",
        OF _ _ opt pick run, where M = example_core and tag = "''n''" and dec_xray = "\<lambda>_ x. (None, x)" and dec_sing = "\<lambda>_ x. (None, x)"]
      lost by auto
qed

end
