(* ===== verification/Xray_User.thy ===== *)
theory Xray_User
  imports Core_Traffic Panel_Client Netutil
begin

text \<open>
  The users of the Xray core: \<open>core/xray/user.go\<close> with the account builders (\<open>vmess.go\<close>, \<open>trojan.go\<close>,
  \<open>ss.go\<close>, \<open>vless_encryption.go\<close>). The statistics manager and the inbound handlers belong to Xray and
  are parameters (\<open>stats_ops\<close>, \<open>proxy_ops\<close>); what the billing needs of the statistics manager are the
  laws of the locale \<open>stats_manager\<close>, and under them the core keeps the contract \<open>core_traffic\<close>.
\<close>

section \<open>Features of Xray\<close>

text \<open>
  Counters are found by name: \<open>st_Value\<close> is \<open>GetCounter\<close> followed by \<open>Value\<close> (\<open>None\<close> when there is no
  such counter), \<open>st_Set\<close> and \<open>st_Add\<close> act on the counter that \<open>GetCounter\<close> returned.
\<close>

record 'm stats_ops =
  st_Value :: "'m \<Rightarrow> string \<Rightarrow> 64 word option"
  st_Set :: "'m \<Rightarrow> string \<Rightarrow> 64 word \<Rightarrow> 'm"
  st_Add :: "'m \<Rightarrow> string \<Rightarrow> 64 word \<Rightarrow> 'm"
  st_UnregisterCounter :: "'m \<Rightarrow> string \<Rightarrow> 'm"

datatype CipherType = CipherType_AES_128_GCM | CipherType_AES_256_GCM | CipherType_CHACHA20_POLY1305
  | CipherType_XCHACHA20_POLY1305 | CipherType_UNKNOWN

datatype account =
    VMessAccount string string
  | VlessAccount string string string
  | TrojanAccount string
  | SSAccount string CipherType
  | SS2022Account string

record protocol_User =
  pu_Level :: int
  pu_Email :: string
  pu_Account :: account

text \<open>
  The inbound handlers: \<open>px_GetHandler\<close> is \<open>ihm.GetHandler\<close>, the two predicates are the type
  assertions of \<open>GetUserManager\<close>, and \<open>px_AddUser\<close> includes \<open>ToMemoryUser\<close>.
\<close>

record 'h proxy_ops =
  px_GetHandler :: "'h \<Rightarrow> string \<Rightarrow> string option"
  px_GetInbound :: "'h \<Rightarrow> string \<Rightarrow> bool"
  px_UserManager :: "'h \<Rightarrow> string \<Rightarrow> bool"
  px_AddUser :: "'h \<Rightarrow> string \<Rightarrow> protocol_User \<Rightarrow> 'h \<times> string option"
  px_RemoveUser :: "'h \<Rightarrow> string \<Rightarrow> string \<Rightarrow> 'h \<times> string option"

text \<open>\<open>x_shm\<close> is nil before \<open>Start\<close> and after \<open>Close\<close>.\<close>

record ('m, 'h) Xray =
  x_shm :: "'m option"
  x_ihm :: 'h

section \<open>Traffic\<close>

definition uplink_name :: "string \<Rightarrow> string" where
  "uplink_name user = ''user>>>'' @ user @ ''>>>traffic>>>uplink''"

definition downlink_name :: "string \<Rightarrow> string" where
  "downlink_name user = ''user>>>'' @ user @ ''>>>traffic>>>downlink''"

definition xray_get :: "'m stats_ops \<Rightarrow> 'm \<Rightarrow> string \<Rightarrow> string \<Rightarrow> bool \<Rightarrow> 'm \<times> 64 word \<times> 64 word" where
  "xray_get S shm tag uuid reset =
     (let taguuid = UserTag tag uuid;
          upCounter = st_Value S shm (uplink_name taguuid);
          downCounter = st_Value S shm (downlink_name taguuid);
          shm = (if reset \<and> upCounter \<noteq> None then st_Set S shm (uplink_name taguuid) 0 else shm);
          shm = (if reset \<and> downCounter \<noteq> None then st_Set S shm (downlink_name taguuid) 0 else shm)
      in (shm, case upCounter of None \<Rightarrow> 0 | Some v \<Rightarrow> v, case downCounter of None \<Rightarrow> 0 | Some v \<Rightarrow> v))"

definition Xray_GetUserTraffic ::
  "'m stats_ops \<Rightarrow> ('m, 'h) Xray \<Rightarrow> string \<Rightarrow> string \<Rightarrow> bool \<Rightarrow> (('m, 'h) Xray \<times> 64 word \<times> 64 word) go" where
  "Xray_GetUserTraffic S c tag uuid reset =
     (case x_shm c of
        None \<Rightarrow> None
      | Some shm \<Rightarrow> (case xray_get S shm tag uuid reset of (shm, up, down) \<Rightarrow> Some (c\<lparr>x_shm := Some shm\<rparr>, up, down)))"

definition xray_add_if :: "'m stats_ops \<Rightarrow> string \<Rightarrow> 64 word \<Rightarrow> 'm \<Rightarrow> 'm" where
  "xray_add_if S name n shm =
     (if 0 <s n then (case st_Value S shm name of Some _ \<Rightarrow> st_Add S shm name n | None \<Rightarrow> shm) else shm)"

definition xray_restore :: "'m stats_ops \<Rightarrow> 'm \<Rightarrow> string \<Rightarrow> string \<Rightarrow> 64 word \<Rightarrow> 64 word \<Rightarrow> 'm" where
  "xray_restore S shm tag uuid up down =
     xray_add_if S (downlink_name (UserTag tag uuid)) down (xray_add_if S (uplink_name (UserTag tag uuid)) up shm)"

text \<open>Without usage to put back the statistics manager is not touched, so a nil one does no harm.\<close>

definition Xray_RestoreUserTraffic ::
  "'m stats_ops \<Rightarrow> ('m, 'h) Xray \<Rightarrow> string \<Rightarrow> string \<Rightarrow> 64 word \<Rightarrow> 64 word \<Rightarrow> ('m, 'h) Xray go" where
  "Xray_RestoreUserTraffic S c tag uuid up down =
     (case x_shm c of
        None \<Rightarrow> if 0 <s up \<or> 0 <s down then None else Some c
      | Some shm \<Rightarrow> Some (c\<lparr>x_shm := Some (xray_restore S shm tag uuid up down)\<rparr>))"

section \<open>Accounts\<close>

definition buildVmessUser :: "string \<Rightarrow> UserInfo \<Rightarrow> protocol_User" where
  "buildVmessUser tag u = \<lparr>pu_Level = 0, pu_Email = UserTag tag (ui_Uuid u), pu_Account = VMessAccount (ui_Uuid u) ''auto''\<rparr>"

definition buildVmessUsers :: "string \<Rightarrow> UserInfo list \<Rightarrow> protocol_User list" where
  "buildVmessUsers tag us = map (buildVmessUser tag) us"

definition buildVlessUser :: "string \<Rightarrow> UserInfo \<Rightarrow> string \<Rightarrow> string \<Rightarrow> protocol_User" where
  "buildVlessUser tag u flow encryption =
     \<lparr>pu_Level = 0, pu_Email = UserTag tag (ui_Uuid u), pu_Account = VlessAccount (ui_Uuid u) encryption flow\<rparr>"

definition buildVlessUsers :: "string \<Rightarrow> UserInfo list \<Rightarrow> string \<Rightarrow> string \<Rightarrow> protocol_User list" where
  "buildVlessUsers tag us flow encryption = map (\<lambda>u. buildVlessUser tag u flow encryption) us"

definition buildTrojanUser :: "string \<Rightarrow> UserInfo \<Rightarrow> protocol_User" where
  "buildTrojanUser tag u = \<lparr>pu_Level = 0, pu_Email = UserTag tag (ui_Uuid u), pu_Account = TrojanAccount (ui_Uuid u)\<rparr>"

definition buildTrojanUsers :: "string \<Rightarrow> UserInfo list \<Rightarrow> protocol_User list" where
  "buildTrojanUsers tag us = map (buildTrojanUser tag) us"

definition getCipherFromString :: "string \<Rightarrow> CipherType" where
  "getCipherFromString c =
     (let c = strings_ToLower c in
      if c = ''aes-128-gcm'' \<or> c = ''aead_aes_128_gcm'' then CipherType_AES_128_GCM
      else if c = ''aes-256-gcm'' \<or> c = ''aead_aes_256_gcm'' then CipherType_AES_256_GCM
      else if c = ''chacha20-poly1305'' \<or> c = ''aead_chacha20_poly1305'' \<or> c = ''chacha20-ietf-poly1305''
        then CipherType_CHACHA20_POLY1305
      else if c = ''xchacha20-poly1305'' \<or> c = ''aead_xchacha20_poly1305'' \<or> c = ''xchacha20-ietf-poly1305''
        then CipherType_XCHACHA20_POLY1305
      else CipherType_UNKNOWN)"

definition ss2022KeyLength :: "string \<Rightarrow> nat" where
  "ss2022KeyLength cipher = (if cipher = ''2022-blake3-aes-128-gcm'' then 16 else 32)"

text \<open>\<open>b64\<close> is \<open>base64.StdEncoding.EncodeToString\<close>; slicing a too short uuid panics.\<close>

definition buildSSUser :: "(string \<Rightarrow> string) \<Rightarrow> string \<Rightarrow> UserInfo \<Rightarrow> string \<Rightarrow> string \<Rightarrow> protocol_User go" where
  "buildSSUser b64 tag u cypher serverKey =
     (if serverKey = '''' then
        Some \<lparr>pu_Level = 0, pu_Email = UserTag tag (ui_Uuid u),
              pu_Account = SSAccount (ui_Uuid u) (getCipherFromString cypher)\<rparr>
      else if length (ui_Uuid u) < ss2022KeyLength cypher then None
      else
        Some \<lparr>pu_Level = 0, pu_Email = UserTag tag (ui_Uuid u),
              pu_Account = SS2022Account (b64 (take (ss2022KeyLength cypher) (ui_Uuid u)))\<rparr>)"

fun buildSSUsers :: "(string \<Rightarrow> string) \<Rightarrow> string \<Rightarrow> UserInfo list \<Rightarrow> string \<Rightarrow> string \<Rightarrow> protocol_User list go" where
  "buildSSUsers b64 tag [] cypher serverKey = Some []"
| "buildSSUsers b64 tag (u # us) cypher serverKey =
     Option.bind (buildSSUser b64 tag u cypher serverKey) (\<lambda>x.
       map_option ((#) x) (buildSSUsers b64 tag us cypher serverKey))"

text \<open>\<open>vless_encryption.go\<close>: \<open>raw64\<close> is \<open>base64.RawURLEncoding.DecodeString\<close> (\<open>None\<close> on an error).\<close>

definition vlessEncryptionPrefix :: string where "vlessEncryptionPrefix = ''mlkem768x25519plus.''"

definition vlessEncryptionInboundMode :: string where "vlessEncryptionInboundMode = ''mlkem768x25519plus.native.600s.''"

definition vlessEncryptionOutboundMode :: string where "vlessEncryptionOutboundMode = ''mlkem768x25519plus.native.0rtt.''"

definition isStructuredVlessEncryptionValue :: "string \<Rightarrow> bool" where
  "isStructuredVlessEncryptionValue value = strings_HasPrefix value vlessEncryptionPrefix"

definition isRawBase64URLKey :: "(string \<Rightarrow> string option) \<Rightarrow> string \<Rightarrow> nat list \<Rightarrow> bool" where
  "isRawBase64URLKey raw64 value expectedLens =
     (case raw64 value of None \<Rightarrow> False | Some decoded \<Rightarrow> list_ex (\<lambda>n. length decoded = n) expectedLens)"

definition resolveVlessInboundDecryption :: "(string \<Rightarrow> string option) \<Rightarrow> 'raw VAllssNode option \<Rightarrow> string" where
  "resolveVlessInboundDecryption raw64 v =
     (if v = None \<or> \<not> HasVlessInboundDecryption v then ''none''
      else
        let decryption = NormalizedDecryption v
        in if decryption = '''' then ''none''
           else if isStructuredVlessEncryptionValue decryption then decryption
           else if isRawBase64URLKey raw64 decryption [32, 64] then vlessEncryptionInboundMode @ decryption
           else decryption)"

definition resolveVlessOutboundEncryption :: "(string \<Rightarrow> string option) \<Rightarrow> 'raw VAllssNode option \<Rightarrow> string" where
  "resolveVlessOutboundEncryption raw64 v =
     (if v = None \<or> \<not> HasVlessOutboundEncryption v then ''''
      else
        let encryption = NormalizedEncryption v
        in if encryption = '''' then ''''
           else if isStructuredVlessEncryptionValue encryption then encryption
           else if isRawBase64URLKey raw64 encryption [32, 1184] then vlessEncryptionOutboundMode @ encryption
           else encryption)"

section \<open>Adding and deleting users\<close>

definition GetUserManager :: "'h proxy_ops \<Rightarrow> 'h \<Rightarrow> string \<Rightarrow> string option" where
  "GetUserManager P h tag =
     (case px_GetHandler P h tag of
        Some e \<Rightarrow> Some (''no such inbound tag: '' @ e)
      | None \<Rightarrow>
          if \<not> px_GetInbound P h tag then Some (''handler '' @ tag @ '' is not implement proxy.GetInbound'')
          else if \<not> px_UserManager P h tag then Some (''handler '' @ tag @ '' is not implement proxy.UserManager'')
          else None)"

fun xray_del_loop ::
  "'m stats_ops \<Rightarrow> 'h proxy_ops \<Rightarrow> string \<Rightarrow> UserInfo list \<Rightarrow> 'm \<Rightarrow> 'h \<Rightarrow> 'm \<times> 'h \<times> string option" where
  "xray_del_loop S P tag [] shm h = (shm, h, None)"
| "xray_del_loop S P tag (u # us) shm h =
     (let user = UserTag tag (ui_Uuid u) in
      case px_RemoveUser P h tag user of
        (h, Some e) \<Rightarrow> (shm, h, Some e)
      | (h, None) \<Rightarrow>
          xray_del_loop S P tag us
            (st_UnregisterCounter S (st_UnregisterCounter S shm (uplink_name user)) (downlink_name user)) h)"

text \<open>With the core closed, \<open>ihm\<close> and \<open>shm\<close> are nil and the call panics.\<close>

definition Xray_DelUsers ::
  "'m stats_ops \<Rightarrow> 'h proxy_ops \<Rightarrow> ('m, 'h) Xray \<Rightarrow> UserInfo list \<Rightarrow> string \<Rightarrow> (('m, 'h) Xray \<times> string option) go" where
  "Xray_DelUsers S P c users tag =
     (case x_shm c of
        None \<Rightarrow> None
      | Some shm \<Rightarrow>
          (case GetUserManager P (x_ihm c) tag of
             Some e \<Rightarrow> Some (c, Some (''get user manager error: '' @ e))
           | None \<Rightarrow>
               (case xray_del_loop S P tag users shm (x_ihm c) of
                  (shm, h, e) \<Rightarrow> Some (c\<lparr>x_shm := Some shm, x_ihm := h\<rparr>, e))))"

fun xray_add_loop :: "'h proxy_ops \<Rightarrow> string \<Rightarrow> protocol_User list \<Rightarrow> 'h \<Rightarrow> 'h \<times> string option" where
  "xray_add_loop P tag [] h = (h, None)"
| "xray_add_loop P tag (u # us) h =
     (case px_AddUser P h tag u of
        (h, Some e) \<Rightarrow> (h, Some e)
      | (h, None) \<Rightarrow> xray_add_loop P tag us h)"

definition xray_accounts ::
  "(string \<Rightarrow> string) \<Rightarrow> (string \<Rightarrow> string option) \<Rightarrow> string \<Rightarrow> UserInfo list \<Rightarrow> 'raw NodeInfo \<Rightarrow> (string + protocol_User list) go" where
  "xray_accounts b64 raw64 tag users info =
     (if ni_Type info = ''vmess'' then Some (Inr (buildVmessUsers tag users))
      else if ni_Type info = ''vless'' then
        (case ni_VAllss info of
           None \<Rightarrow> None
         | Some v \<Rightarrow> Some (Inr (buildVlessUsers tag users (va_Flow v) (resolveVlessOutboundEncryption raw64 (ni_VAllss info)))))
      else if ni_Type info = ''trojan'' then Some (Inr (buildTrojanUsers tag users))
      else if ni_Type info = ''shadowsocks'' then
        (case ni_Shadowsocks info of
           None \<Rightarrow> None
         | Some ss \<Rightarrow> map_option Inr (buildSSUsers b64 tag users (ss_Cipher ss) (ss_ServerKey ss)))
      else Some (Inl (''unsupported node type: '' @ ni_Type info)))"

definition Xray_AddUsers ::
  "'h proxy_ops \<Rightarrow> (string \<Rightarrow> string) \<Rightarrow> (string \<Rightarrow> string option) \<Rightarrow> ('m, 'h) Xray \<Rightarrow> string \<Rightarrow> UserInfo list \<Rightarrow> 'raw NodeInfo
   \<Rightarrow> (('m, 'h) Xray \<times> int \<times> string option) go" where
  "Xray_AddUsers P b64 raw64 c tag users info =
     (case xray_accounts b64 raw64 tag users info of
        None \<Rightarrow> None
      | Some (Inl e) \<Rightarrow> Some (c, 0, Some e)
      | Some (Inr us) \<Rightarrow>
          if x_shm c = None then None
          else case GetUserManager P (x_ihm c) tag of
            Some e \<Rightarrow> Some (c, 0, Some (''get user manager error: '' @ e))
          | None \<Rightarrow>
              (case xray_add_loop P tag us (x_ihm c) of
                 (h, Some e) \<Rightarrow> Some (c\<lparr>x_ihm := h\<rparr>, 0, Some e)
               | (h, None) \<Rightarrow> Some (c\<lparr>x_ihm := h\<rparr>, int (length us), None)))"

section \<open>The billing contract\<close>

definition xray_usage :: "'m stats_ops \<Rightarrow> 'm \<Rightarrow> string \<Rightarrow> string \<Rightarrow> 64 word \<times> 64 word" where
  "xray_usage S shm tag uuid =
     (case st_Value S shm (uplink_name (UserTag tag uuid)) of None \<Rightarrow> 0 | Some v \<Rightarrow> v,
      case st_Value S shm (downlink_name (UserTag tag uuid)) of None \<Rightarrow> 0 | Some v \<Rightarrow> v)"

definition xray_tracked :: "'m stats_ops \<Rightarrow> 'm \<Rightarrow> string \<Rightarrow> string \<Rightarrow> bool \<times> bool" where
  "xray_tracked S shm tag uuid =
     (st_Value S shm (uplink_name (UserTag tag uuid)) \<noteq> None,
      st_Value S shm (downlink_name (UserTag tag uuid)) \<noteq> None)"

text \<open>Tags whose user tags never coincide; two tags without a bar are apart.\<close>

definition tags_apart :: "string \<Rightarrow> string \<Rightarrow> bool" where
  "tags_apart t t' \<longleftrightarrow> (\<forall>u u'. UserTag t u \<noteq> UserTag t' u')"

lemma tags_apart_bar: "t \<noteq> t' \<Longrightarrow> CHR ''|'' \<notin> set t \<Longrightarrow> CHR ''|'' \<notin> set t' \<Longrightarrow> tags_apart t t'"
  unfolding tags_apart_def UserTag_def using append_sep_inject by (metis append_Cons append_Nil append_assoc)

lemma names_inject [simp]:
  "uplink_name a = uplink_name b \<longleftrightarrow> a = b" "downlink_name a = downlink_name b \<longleftrightarrow> a = b"
  by (simp_all add: uplink_name_def downlink_name_def)

lemma names_differ [simp]: "uplink_name a \<noteq> downlink_name b" "downlink_name b \<noteq> uplink_name a"
proof -
  have "rev (uplink_name a) \<noteq> rev (downlink_name b)" by (simp add: uplink_name_def downlink_name_def)
  then show "uplink_name a \<noteq> downlink_name b" "downlink_name b \<noteq> uplink_name a" by metis+
qed

lemma UserTag_apart: "t' = t \<or> tags_apart t t' \<Longrightarrow> UserTag t' u' = UserTag t u \<longleftrightarrow> t' = t \<and> u' = u"
  by (auto simp: tags_apart_def UserTag_inject) metis+

locale stats_manager =
  fixes S :: "'m stats_ops"
  assumes value_set: "st_Value S (st_Set S m n v) k = (if k = n then map_option (\<lambda>_. v) (st_Value S m k) else st_Value S m k)"
    and value_add: "st_Value S (st_Add S m n v) k = (if k = n then map_option (\<lambda>w. w + v) (st_Value S m k) else st_Value S m k)"
    and value_unregister: "st_Value S (st_UnregisterCounter S m n) k = (if k = n then None else st_Value S m k)"
begin

lemma value_add_if:
  "st_Value S (xray_add_if S n v m) k =
     (if k = n \<and> 0 <s v then map_option (\<lambda>w. w + v) (st_Value S m k) else st_Value S m k)"
  by (auto simp: xray_add_if_def value_add split: option.split)

text \<open>Deleting users forgets their counters, billed or not.\<close>

lemma del_loop_usage:
  "xray_del_loop S P tag us m h = (m', h', None) \<Longrightarrow>
   xray_usage S m' tag u = (if u \<in> ui_Uuid ` set us then (0, 0) else xray_usage S m tag u)"
proof (induction us arbitrary: m h)
  case (Cons x us)
  let ?m = "st_UnregisterCounter S (st_UnregisterCounter S m (uplink_name (UserTag tag (ui_Uuid x))))
      (downlink_name (UserTag tag (ui_Uuid x)))"
  obtain h1 where "xray_del_loop S P tag us ?m h1 = (m', h', None)"
    using Cons.prems by (auto simp: Let_def split: prod.splits option.splits)
  moreover have "xray_usage S ?m tag u = (if u = ui_Uuid x then (0, 0) else xray_usage S m tag u)"
    by (simp add: xray_usage_def value_unregister UserTag_inject)
  ultimately show ?case using Cons.IH [of ?m h1] by auto
qed simp

end

sublocale stats_manager \<subseteq> xray: core_traffic "xray_get S" "xray_restore S" "xray_usage S" "xray_tracked S" tags_apart
proof unfold_locales
  fix s t u a b t' u' r
  show "snd (xray_get S s t u r) = xray_usage S s t u"
    by (simp add: xray_get_def xray_usage_def Let_def)
  show "xray_tracked S (fst (xray_get S s t u r)) t' u' = xray_tracked S s t' u'"
    "xray_tracked S (xray_restore S s t u a b) t' u' = xray_tracked S s t' u'"
    by (auto simp: xray_get_def xray_restore_def xray_tracked_def Let_def value_set value_add_if)
  show "\<not> fst (xray_tracked S s t u) \<Longrightarrow> fst (xray_usage S s t u) = 0"
    "\<not> snd (xray_tracked S s t u) \<Longrightarrow> snd (xray_usage S s t u) = 0"
    by (auto simp: xray_tracked_def xray_usage_def)
  assume apart: "t' = t \<or> tags_apart t t'"
  show "xray_usage S (fst (xray_get S s t u True)) t' u' = (if t' = t \<and> u' = u then (0, 0) else xray_usage S s t' u')"
    by (auto simp: xray_get_def xray_usage_def Let_def value_set UserTag_apart [OF apart] split: option.split)
  show "xray_usage S (xray_restore S s t u a b) t' u' =
      (if t' = t \<and> u' = u
       then (fst (xray_usage S s t u) + (if fst (xray_tracked S s t u) \<and> 0 <s a then a else 0),
             snd (xray_usage S s t u) + (if snd (xray_tracked S s t u) \<and> 0 <s b then b else 0))
       else xray_usage S s t' u')"
    by (auto simp: xray_restore_def xray_usage_def xray_tracked_def value_add_if UserTag_apart [OF apart] split: option.split)
qed

text \<open>A statistics manager that is a map from names to values.\<close>

definition map_stats :: "(string, 64 word) gomap stats_ops" where
  "map_stats = \<lparr>st_Value = mload,
     st_Set = (\<lambda>m n v. if mload m n = None then m else mstore m n v),
     st_Add = (\<lambda>m n v. case mload m n of None \<Rightarrow> m | Some w \<Rightarrow> mstore m n (w + v)),
     st_UnregisterCounter = mdelete\<rparr>"

interpretation map_manager: stats_manager map_stats
  by unfold_locales (auto simp: map_stats_def split: option.split)

section \<open>Accounts of a node\<close>

lemma buildSSUsers_cases:
  "buildSSUsers b64 tag us cypher serverKey =
     (if serverKey \<noteq> '''' \<and> list_ex (\<lambda>u. length (ui_Uuid u) < ss2022KeyLength cypher) us then None
      else Some (map (\<lambda>u. the (buildSSUser b64 tag u cypher serverKey)) us))"
  by (induction us) (auto simp: buildSSUser_def)


end
