(* ===== verification/Controller_Report.thy ===== *)
theory Controller_Report
  imports Controller
begin

text \<open>
  The traffic report of \<open>node/user.go\<close> as a billing protocol over the counters of a core: what it
  sends, and what the counters hold after an accepted and after a failed report. The statements
  are proved in the locale of the core's counters and hold for both cores that interpret it.
\<close>

section \<open>The shape of a report\<close>

definition sample_traffic :: "UserInfo \<times> readUserUsage \<Rightarrow> UserTraffic" where
  "sample_traffic x = \<lparr>ut_UID = ui_Id (fst x), ut_Upload = ru_up (snd x), ut_Download = ru_down (snd x), ut_Key = []\<rparr>"

definition has_traffic :: "UserTraffic \<Rightarrow> bool" where
  "has_traffic t \<longleftrightarrow> ut_Upload t \<noteq> 0 \<or> ut_Download t \<noteq> 0"

definition count_samples ::
  "(UserInfo \<times> readUserUsage) list \<Rightarrow> ('re, 'b, 'raw, 's) Controller \<Rightarrow> ('re, 'b, 'raw, 's) Controller" where
  "count_samples samples c =
     fold (\<lambda>(u, r) c. if dynamicSpeedLimitEnabled c then addTraffic c (ui_Uuid u) (ru_up r + ru_down r) else c) samples c"

lemma add_zero_filter: "filter has_traffic (add_zero_traffic result ts) = filter has_traffic ts"
  unfolding add_zero_traffic_def
  by (induction result arbitrary: ts) (simp_all add: has_traffic_def)

lemma count_samples_fields:
  "co_server (count_samples samples c) = co_server c \<and> co_apiClient (count_samples samples c) = co_apiClient c
   \<and> co_tag (count_samples samples c) = co_tag c \<and> co_Options (count_samples samples c) = co_Options c
   \<and> co_userList (count_samples samples c) = co_userList c"
  unfolding count_samples_def by (induction samples arbitrary: c) (auto simp: addTraffic_def split: prod.splits)

lemma getOnlineUsers_fields:
  "co_server (fst (getOnlineUsers now c)) = co_server c \<and> co_apiClient (fst (getOnlineUsers now c)) = co_apiClient c
   \<and> co_traffic (fst (getOnlineUsers now c)) = co_traffic c \<and> co_tag (fst (getOnlineUsers now c)) = co_tag c
   \<and> co_Options (fst (getOnlineUsers now c)) = co_Options c \<and> co_userList (fst (getOnlineUsers now c)) = co_userList c"
  by (simp add: getOnlineUsers_def onLimiter_def split: option.split)

lemma count_samples_cong:
  "co_traffic c = co_traffic d \<Longrightarrow> co_Options c = co_Options d \<Longrightarrow>
   co_traffic (count_samples samples c) = co_traffic (count_samples samples d)"
proof (induction samples arbitrary: c d)
  case (Cons x samples)
  let ?f = "\<lambda>c. if dynamicSpeedLimitEnabled c then addTraffic c (ui_Uuid (fst x)) (ru_up (snd x) + ru_down (snd x)) else c"
  have "co_traffic (?f c) = co_traffic (?f d) \<and> co_Options (?f c) = co_Options (?f d)"
    using Cons.prems by (auto simp: addTraffic_def dynamicSpeedLimitEnabled_def)
  then show ?case using Cons.IH [of "?f c" "?f d"] by (simp add: count_samples_def split_def)
qed (simp add: count_samples_def)

lemma report_shape:
  assumes "collect_usage (env_GetUserTraffic E) (co_tag c) (co_userList c) (co_server c) = (s, samples)"
    and "reportUserTrafficTask E now c = (c', data, sent)"
  shows "co_server c' =
       (if sent \<noteq> [] \<and> env_ReportUserTraffic E (co_apiClient c) sent \<noteq> None
        then restore_usage (env_RestoreUserTraffic E) (co_tag c) (map snd samples) s else s)
     \<and> filter has_traffic sent = filter has_traffic (map sample_traffic samples)
     \<and> co_traffic c' = co_traffic (count_samples samples c)
     \<and> co_tag c' = co_tag c \<and> co_Options c' = co_Options c \<and> co_userList c' = co_userList c
     \<and> co_apiClient c' = co_apiClient c"
proof -
  define d where "d = count_samples samples (c\<lparr>co_server := s\<rparr>)"
  obtain e online where g: "getOnlineUsers now d = (e, online)" by fastforce
  have tr: "co_traffic d = co_traffic (count_samples samples c)"
    unfolding d_def by (rule count_samples_cong) simp_all
  have fields: "co_server e = s" "co_apiClient e = co_apiClient c" "co_traffic e = co_traffic (count_samples samples c)"
      "co_tag e = co_tag c" "co_Options e = co_Options c" "co_userList e = co_userList c"
    using count_samples_fields [of samples "c\<lparr>co_server := s\<rparr>"] getOnlineUsers_fields [of now d] g tr
    by (simp_all add: d_def [symmetric])
  define ts where "ts = map sample_traffic samples"
  have ts: "map (\<lambda>(u, r). \<lparr>ut_UID = ui_Id u, ut_Upload = ru_up r, ut_Download = ru_down r, ut_Key = []\<rparr>) samples = ts"
    by (simp add: ts_def sample_traffic_def split_def)
  note eqs = assms(2) [unfolded reportUserTrafficTask_def Let_def assms(1) prod.case,
      folded count_samples_def, folded d_def, unfolded g prod.case ts]
  obtain result where "sent = (if pc_PanelType (co_apiClient c) = ''ppanel'' then ts else add_zero_traffic result ts)"
    using eqs fields by (auto split: prod.splits)
  then have "filter has_traffic sent = filter has_traffic ts" by (simp add: add_zero_filter)
  moreover have "co_server c' =
       (if sent \<noteq> [] \<and> env_ReportUserTraffic E (co_apiClient c) sent \<noteq> None
        then restore_usage (env_RestoreUserTraffic E) (co_tag c) (map snd samples) s else s)
     \<and> co_traffic c' = co_traffic (count_samples samples c)
     \<and> co_tag c' = co_tag c \<and> co_Options c' = co_Options c \<and> co_userList c' = co_userList c
     \<and> co_apiClient c' = co_apiClient c"
    using eqs fields by (auto split: prod.splits if_splits)
  ultimately show ?thesis by (simp add: ts_def)
qed

section \<open>Billing\<close>

text \<open>The traffic entries of the users whose counters are not zero.\<close>

definition bill :: "('s \<Rightarrow> string \<Rightarrow> string \<Rightarrow> 64 word \<times> 64 word) \<Rightarrow> 's \<Rightarrow> string \<Rightarrow> UserInfo list \<Rightarrow> UserTraffic list" where
  "bill usage s tag users =
     map (\<lambda>x. \<lparr>ut_UID = ui_Id x, ut_Upload = fst (usage s tag (ui_Uuid x)), ut_Download = snd (usage s tag (ui_Uuid x)),
               ut_Key = []\<rparr>) (filter (\<lambda>x. usage s tag (ui_Uuid x) \<noteq> (0, 0)) users)"

lemma positive_iff_nonzero:
  "nonneg_usage p \<Longrightarrow> 0 <s fst p \<or> 0 <s snd p \<longleftrightarrow> p \<noteq> (0, 0)"
  by (cases p) (auto simp: nonneg_usage_def word_sless_eq)

context core_traffic
begin

lemma report_bills:
  assumes E: "env_GetUserTraffic E = get" "env_RestoreUserTraffic E = restore"
    and d: "distinct (map ui_Uuid (co_userList c))"
    and nn: "\<And>x. x \<in> set (co_userList c) \<Longrightarrow> nonneg_usage (usage (co_server c) (co_tag c) (ui_Uuid x))"
    and r: "reportUserTrafficTask E now c = (c', data, sent)"
    and t: "t = co_tag c \<or> apart (co_tag c) t"
  shows "filter has_traffic sent = bill usage (co_server c) (co_tag c) (co_userList c)
     \<and> usage (co_server c') t u =
       (if sent \<noteq> [] \<and> env_ReportUserTraffic E (co_apiClient c) sent \<noteq> None then usage (co_server c) t u
        else if t = co_tag c \<and> u \<in> ui_Uuid ` set (co_userList c) then (0, 0)
        else usage (co_server c) t u)"
proof -
  let ?s = "co_server c" and ?tag = "co_tag c" and ?us = "co_userList c"
  obtain s samples where cu: "collect_usage get ?tag ?us ?s = (s, samples)" by fastforce
  note sh = report_shape [OF cu [folded E(1)] r]
  have fs: "filter (\<lambda>x. 0 <s fst (usage ?s ?tag (ui_Uuid x)) \<or> 0 <s snd (usage ?s ?tag (ui_Uuid x))) ?us =
      filter (\<lambda>x. usage ?s ?tag (ui_Uuid x) \<noteq> (0, 0)) ?us"
    using nn by (intro filter_cong) (simp_all add: positive_iff_nonzero)
  have samples: "map sample_traffic samples = bill usage ?s ?tag ?us"
    using collect_samples [OF d, of ?tag ?s] cu fs by (simp add: bill_def sample_traffic_def)
  have all: "filter has_traffic (bill usage ?s ?tag ?us) = bill usage ?s ?tag ?us"
    by (rule filter_True) (auto simp: bill_def has_traffic_def prod_eq_iff)
  have zero: "usage s t u = (if t = ?tag \<and> u \<in> ui_Uuid ` set ?us then (0, 0) else usage ?s t u)"
    using collect_counters [OF t, of ?us ?s u] cu by simp
  have restored: "usage (restore_usage restore ?tag (map snd samples) s) t u = usage ?s t u"
    using failed_report_restores [OF d _ _ t, of ?s s u] nn collect_tracked [of ?tag ?us ?s] cu zero
    by (auto simp: prod_eq_iff)
  show ?thesis using sh samples all zero restored by (simp add: E)
qed

end

text \<open>
  Billing over the counters of sing is exact. The entries with traffic that a report sends are
  precisely the users of the list with a non-zero counter, each with the two values of its
  counters. When the panel accepts the report (or there is nothing to send) the counters of these
  users are zero afterwards, so nothing is billed twice; when it does not, every counter holds
  what it held before, so nothing is lost.
\<close>

theorem report_bills_exactly:
  assumes "env_GetUserTraffic E = Sing_GetUserTraffic" "env_RestoreUserTraffic E = Sing_RestoreUserTraffic"
    and "distinct (map ui_Uuid (co_userList c))"
    and "\<And>x. x \<in> set (co_userList c) \<Longrightarrow> nonneg_usage (hook_usage (co_server c) (co_tag c) (ui_Uuid x))"
    and "reportUserTrafficTask E now c = (c', data, sent)"
  shows "filter has_traffic sent = bill hook_usage (co_server c) (co_tag c) (co_userList c)
     \<and> hook_usage (co_server c') t u =
       (if sent \<noteq> [] \<and> env_ReportUserTraffic E (co_apiClient c) sent \<noteq> None then hook_usage (co_server c) t u
        else if t = co_tag c \<and> u \<in> ui_Uuid ` set (co_userList c) then (0, 0)
        else hook_usage (co_server c) t u)"
  by (rule sing.report_bills [OF assms]) auto

text \<open>The same for the counters of hysteria2.\<close>

lemma hy2_report_bills_exactly:
  assumes "env_GetUserTraffic E = Hy2_GetUserTraffic" "env_RestoreUserTraffic E = Hy2_RestoreUserTraffic"
    and "distinct (map ui_Uuid (co_userList c))"
    and "\<And>x. x \<in> set (co_userList c) \<Longrightarrow> nonneg_usage (hy2_usage (co_server c) (co_tag c) (ui_Uuid x))"
    and "reportUserTrafficTask E now c = (c', data, sent)"
  shows "filter has_traffic sent = bill hy2_usage (co_server c) (co_tag c) (co_userList c)
     \<and> hy2_usage (co_server c') t u =
       (if sent \<noteq> [] \<and> env_ReportUserTraffic E (co_apiClient c) sent \<noteq> None then hy2_usage (co_server c) t u
        else if t = co_tag c \<and> u \<in> ui_Uuid ` set (co_userList c) then (0, 0)
        else hy2_usage (co_server c) t u)"
  by (rule hy2.report_bills [OF assms]) auto

definition example_billing :: "(string, int, string, hook_counters) Controller" where
  "example_billing = (NewController
       [(''n'', TrafficCounter_Rx (TrafficCounter_Tx NewTrafficCounter ''u'' 5) ''u'' 7)] []
       example_client
       (example_options\<lparr>op_LimitConfig := example_limits\<lparr>lc_EnableDynamicSpeedLimit := True,
          lc_DynamicSpeedLimitConfig := Some \<lparr>dsl_Periodic = 0, dsl_Traffic = 20, dsl_SpeedLimit = 1, dsl_ExpireTime = 1\<rparr>\<rparr>\<rparr>))
     \<lparr>co_tag := ''n'', co_userList := [example_user]\<rparr>"

definition example_env_down :: "(string, string, hook_counters) env" where
  "example_env_down = example_env\<lparr>env_ReportUserTraffic := (\<lambda>_ _. Some ''timeout'')\<rparr>"

lemma example_billing_usage: "hook_usage (co_server example_billing) ''n'' ''u'' = (5, 7)"
  by (simp add: example_billing_def NewController_def hook_usage_def GetUpCount_def GetDownCount_def TrafficCounter_Rx_def
      TrafficCounter_Tx_def NewTrafficCounter_def GetCounter_def new_storage_def add_up_def add_down_def mload_def mstore_def)

lemma example_billing_fields:
  "co_tag example_billing = ''n''" "co_userList example_billing = [example_user]"
  "dynamicSpeedLimitEnabled example_billing" "co_traffic example_billing = []"
  by (simp_all add: example_billing_def NewController_def dynamicSpeedLimitEnabled_def)

theorem report_bills_exactly_witness:
  "\<exists>c' data sent. reportUserTrafficTask example_env_down 0 example_billing = (c', data, sent)
     \<and> filter has_traffic sent = [\<lparr>ut_UID = 7, ut_Upload = 5, ut_Download = 7, ut_Key = []\<rparr>]
     \<and> hook_usage (co_server c') ''n'' ''u'' = (5, 7)"
proof -
  obtain c' data sent where r: "reportUserTrafficTask example_env_down 0 example_billing = (c', data, sent)"
    by (metis prod_cases3)
  have e: "env_GetUserTraffic example_env_down = Sing_GetUserTraffic"
      "env_RestoreUserTraffic example_env_down = Sing_RestoreUserTraffic"
      "\<And>a b. env_ReportUserTraffic example_env_down a b = Some ''timeout''"
    by (simp_all add: example_env_down_def example_env_def)
  have d: "distinct (map ui_Uuid (co_userList example_billing))" by (simp add: example_billing_fields)
  have nn: "\<And>x. x \<in> set (co_userList example_billing) \<Longrightarrow>
      nonneg_usage (hook_usage (co_server example_billing) (co_tag example_billing) (ui_Uuid x))"
    using example_billing_usage by (simp add: example_billing_fields nonneg_usage_def example_user_def word_sle_eq)
  note th = report_bills_exactly [OF e(1,2) d nn r, of "''n''" "''u''"]
  have b: "filter has_traffic sent = [\<lparr>ut_UID = 7, ut_Upload = 5, ut_Download = 7, ut_Key = []\<rparr>]"
    using th example_billing_usage by (simp add: example_billing_fields bill_def example_user_def)
  then have "sent \<noteq> []" by auto
  then show ?thesis using th r b e(3) example_billing_usage by simp
qed


section \<open>Traffic of the dynamic speed limit\<close>

lemma count_samples_mget:
  "dynamicSpeedLimitEnabled c \<Longrightarrow>
   mget 0 (co_traffic (count_samples samples c)) uuid = mget 0 (co_traffic c) uuid
     + sum_list (map (\<lambda>x. if ui_Uuid (fst x) = uuid \<and> \<not> ru_up (snd x) + ru_down (snd x) \<le>s 0
                          then ru_up (snd x) + ru_down (snd x) else 0) samples)"
proof (induction samples arbitrary: c)
  case (Cons x samples)
  let ?c = "addTraffic c (ui_Uuid (fst x)) (ru_up (snd x) + ru_down (snd x))"
  have "dynamicSpeedLimitEnabled ?c"
    using Cons.prems by (simp add: addTraffic_def dynamicSpeedLimitEnabled_def)
  moreover have "count_samples (x # samples) c = count_samples samples ?c"
    using Cons.prems by (simp add: count_samples_def split_def)
  ultimately show ?case using Cons.IH [of ?c] by (simp add: addTraffic_def)
qed (simp add: count_samples_def)

lemma sum_list_single:
  "distinct (map f xs) \<Longrightarrow> x \<in> set xs \<Longrightarrow>
   sum_list (map (\<lambda>y. if f y = f x then g y else 0) xs) = (g x :: 'a :: comm_monoid_add)"
proof (induction xs)
  case (Cons y ys)
  have "sum_list (map (\<lambda>z. if f z = f x then g z else 0) ys) = 0" if "f x \<notin> f ` set ys"
    using that by (induction ys) auto
  then show ?case using Cons by auto
qed simp

context core_traffic
begin

text \<open>A failed report leaves the counters as they were and counts the usage for the speed limit.\<close>

lemma failed_report_counts:
  assumes "env_GetUserTraffic E = get" "env_RestoreUserTraffic E = restore"
    and "distinct (map ui_Uuid (co_userList c))"
    and "\<And>x. x \<in> set (co_userList c) \<Longrightarrow> nonneg_usage (usage (co_server c) (co_tag c) (ui_Uuid x))"
    and "\<And>ts. env_ReportUserTraffic E (co_apiClient c) ts \<noteq> None"
    and "dynamicSpeedLimitEnabled c" and "x \<in> set (co_userList c)"
    and "usage (co_server c) (co_tag c) (ui_Uuid x) = (a, b)" and "0 <s a + b"
  shows "mget 0 (co_traffic (run_report E now c)) (ui_Uuid x) = mget 0 (co_traffic c) (ui_Uuid x) + (a + b)
     \<and> (\<forall>u. usage (co_server (run_report E now c)) (co_tag c) u = usage (co_server c) (co_tag c) u)
     \<and> co_tag (run_report E now c) = co_tag c \<and> co_userList (run_report E now c) = co_userList c
     \<and> co_apiClient (run_report E now c) = co_apiClient c
     \<and> dynamicSpeedLimitEnabled (run_report E now c)"
proof -
  obtain c' data sent where r: "reportUserTrafficTask E now c = (c', data, sent)" by (metis prod_cases3)
  obtain s samples where cu: "collect_usage get (co_tag c) (co_userList c) (co_server c) = (s, samples)" by fastforce
  note sh = report_shape [OF cu [folded assms(1)] r]
  have ab: "(a, b) \<noteq> (0, 0)" using assms(9) by auto
  have nz: "x \<in> set (filter (\<lambda>x. 0 <s fst (usage (co_server c) (co_tag c) (ui_Uuid x))
      \<or> 0 <s snd (usage (co_server c) (co_tag c) (ui_Uuid x))) (co_userList c))" (is "_ \<in> set (filter ?p _)")
    using assms(7) ab positive_iff_nonzero [OF assms(4) [OF assms(7)]] assms(8) by simp
  have bill: "filter has_traffic sent = bill usage (co_server c) (co_tag c) (co_userList c)"
    using report_bills [OF assms(1-4) r, of "co_tag c"] by blast
  have "sent \<noteq> []"
    using bill assms(7,8) ab by (auto simp: bill_def filter_empty_conv)
  then have keep: "usage (co_server c') (co_tag c) u = usage (co_server c) (co_tag c) u" for u
    using report_bills [OF assms(1-4) r, of "co_tag c" u] assms(5) by simp
  have "sum_list (map (\<lambda>y. if ui_Uuid (fst y) = ui_Uuid x \<and> \<not> ru_up (snd y) + ru_down (snd y) \<le>s 0
        then ru_up (snd y) + ru_down (snd y) else 0) samples) =
      sum_list (map (\<lambda>y. if ui_Uuid y = ui_Uuid x then
        (if fst (usage (co_server c) (co_tag c) (ui_Uuid y)) + snd (usage (co_server c) (co_tag c) (ui_Uuid y)) \<le>s 0 then 0
         else fst (usage (co_server c) (co_tag c) (ui_Uuid y)) + snd (usage (co_server c) (co_tag c) (ui_Uuid y))) else 0)
        (filter ?p (co_userList c)))"
    using collect_samples [OF assms(3), of "co_tag c" "co_server c"] cu
    by (simp add: comp_def) (intro arg_cong [where f = sum_list] map_cong, auto)
  also have "\<dots> = (if fst (usage (co_server c) (co_tag c) (ui_Uuid x)) + snd (usage (co_server c) (co_tag c) (ui_Uuid x)) \<le>s 0
      then 0 else fst (usage (co_server c) (co_tag c) (ui_Uuid x)) + snd (usage (co_server c) (co_tag c) (ui_Uuid x)))"
    by (rule sum_list_single [OF distinct_map_filter [OF assms(3)] nz])
  also have "\<dots> = a + b" using assms(8,9) by (simp add: signed.not_le [symmetric])
  finally have "mget 0 (co_traffic c') (ui_Uuid x) = mget 0 (co_traffic c) (ui_Uuid x) + (a + b)"
    using sh count_samples_mget [OF assms(6), of samples "ui_Uuid x"] by simp
  moreover have "dynamicSpeedLimitEnabled c'" using sh assms(6) by (simp add: dynamicSpeedLimitEnabled_def)
  ultimately show ?thesis using keep sh r by (simp add: run_report_def)
qed

end

text \<open>
  Usage whose report fails counts twice towards the dynamic speed limit: two rounds in which
  the panel rejects the report leave the counters of the core unchanged, but add the same bytes
  to the traffic record of the speed checker in both rounds, so that a user is throttled for
  traffic it did not have.
\<close>

theorem failed_report_counts_usage_twice:
  assumes "env_GetUserTraffic E = Sing_GetUserTraffic" "env_RestoreUserTraffic E = Sing_RestoreUserTraffic"
    and "distinct (map ui_Uuid (co_userList c))"
    and "\<And>x. x \<in> set (co_userList c) \<Longrightarrow> nonneg_usage (hook_usage (co_server c) (co_tag c) (ui_Uuid x))"
    and "\<And>ts. env_ReportUserTraffic E (co_apiClient c) ts \<noteq> None"
    and "dynamicSpeedLimitEnabled c" and "x \<in> set (co_userList c)"
    and "hook_usage (co_server c) (co_tag c) (ui_Uuid x) = (a, b)" and "0 <s a + b"
  shows "let c2 = fst (reportUserTrafficTask E now' (fst (reportUserTrafficTask E now c)))
     in mget 0 (co_traffic c2) (ui_Uuid x) = mget 0 (co_traffic c) (ui_Uuid x) + 2 * (a + b)
        \<and> hook_usage (co_server c2) (co_tag c) (ui_Uuid x) = (a, b)"
proof -
  let ?c1 = "run_report E now c"
  note 1 = sing.failed_report_counts [OF assms, of now]
  have "mget 0 (co_traffic (run_report E now' ?c1)) (ui_Uuid x) = mget 0 (co_traffic ?c1) (ui_Uuid x) + (a + b)
     \<and> (\<forall>u. hook_usage (co_server (run_report E now' ?c1)) (co_tag ?c1) u = hook_usage (co_server ?c1) (co_tag ?c1) u)"
    using sing.failed_report_counts [OF assms(1,2), of ?c1 x a b now'] 1 assms by auto
  then show ?thesis using 1 assms(8) by (simp add: Let_def run_report_def [symmetric])
qed

theorem failed_report_counts_usage_twice_witness:
  "mget 0 (co_traffic (fst (reportUserTrafficTask example_env_down 1
      (fst (reportUserTrafficTask example_env_down 0 example_billing))))) ''u'' = 24"
proof -
  have u: "example_user \<in> set (co_userList example_billing)" "ui_Uuid example_user = ''u''"
    by (simp_all add: example_billing_fields example_user_def)
  show ?thesis
    using failed_report_counts_usage_twice [where E = example_env_down and c = example_billing and x = example_user
        and a = 5 and b = 7 and now = 0 and now' = 1] u example_billing_usage
    by (simp add: example_env_down_def example_env_def example_billing_fields nonneg_usage_def Let_def
        word_sle_eq word_sless_eq mget_def)
qed

end
