(* ===== verification/Selector_Traffic.thy ===== *)
theory Selector_Traffic
  imports Selector Xray_User Controller_Report
begin

text \<open>
  Billing through the selector. If the counters of the cores keep the contract \<open>core_traffic\<close>, so do
  the counters as seen through the selector, whatever core serves a node; the three cores together
  keep it, so a report of a node of the running process is exact. A call on a core that was closed
  (Xray drops its statistics manager) panics; the total views below leave the state alone there,
  and the theorem on reports is about nodes whose core is open.
\<close>

section \<open>Total views\<close>

definition total_get :: "('c \<Rightarrow> string \<Rightarrow> string \<Rightarrow> bool \<Rightarrow> ('c \<times> 64 word \<times> 64 word) go) \<Rightarrow> 'c \<Rightarrow> string \<Rightarrow> string \<Rightarrow> bool \<Rightarrow> 'c \<times> 64 word \<times> 64 word" where
  "total_get g c tag uuid reset = (case g c tag uuid reset of None \<Rightarrow> (c, 0, 0) | Some r \<Rightarrow> r)"

definition total_restore :: "('c \<Rightarrow> string \<Rightarrow> string \<Rightarrow> 64 word \<Rightarrow> 64 word \<Rightarrow> 'c go) \<Rightarrow> 'c \<Rightarrow> string \<Rightarrow> string \<Rightarrow> 64 word \<Rightarrow> 64 word \<Rightarrow> 'c" where
  "total_restore f c tag uuid up down = (case f c tag uuid up down of None \<Rightarrow> c | Some c' \<Rightarrow> c')"

section \<open>The selector\<close>

definition node_core :: "'c Selector \<Rightarrow> string \<Rightarrow> (nat \<times> 'c) option" where
  "node_core s tag = Option.bind (mload (sel_nodes s) tag) (\<lambda>a. map_option (Pair a) (mload (sel_store s) a))"

definition sel_usage :: "('c \<Rightarrow> string \<Rightarrow> string \<Rightarrow> 64 word \<times> 64 word) \<Rightarrow> 'c Selector \<Rightarrow> string \<Rightarrow> string \<Rightarrow> 64 word \<times> 64 word" where
  "sel_usage usage s tag uuid = (case node_core s tag of None \<Rightarrow> (0, 0) | Some (a, c) \<Rightarrow> usage c tag uuid)"

definition sel_tracked :: "('c \<Rightarrow> string \<Rightarrow> string \<Rightarrow> bool \<times> bool) \<Rightarrow> 'c Selector \<Rightarrow> string \<Rightarrow> string \<Rightarrow> bool \<times> bool" where
  "sel_tracked tracked s tag uuid = (case node_core s tag of None \<Rightarrow> (False, False) | Some (a, c) \<Rightarrow> tracked c tag uuid)"

lemma node_core_set:
  "node_core s t = Some (a, c) \<Longrightarrow>
   node_core (set_core s a c') t' = map_option (\<lambda>(b, d). (b, if b = a then c' else d)) (node_core s t')"
  by (auto simp: node_core_def set_core_def bind_eq_Some_conv option.map_comp comp_def split: Option.bind_splits)

lemma node_core_same: "node_core s t = Some (a, c) \<Longrightarrow> node_core s t' = Some (a, d) \<Longrightarrow> d = c"
  by (auto simp: node_core_def bind_eq_Some_conv)

lemma on_node_core: "on_node s t missing f =
    (case mload (sel_nodes s) t of
       None \<Rightarrow> Some (s, missing)
     | Some _ \<Rightarrow> Option.bind (node_core s t) (\<lambda>(a, c). map_option (\<lambda>(c, d). (set_core s a c, d)) (f c)))"
  by (auto simp: on_node_def node_core_def split: option.split Option.bind_splits)

definition touched :: "'c Selector \<Rightarrow> string \<Rightarrow> ('c \<Rightarrow> 'c) \<Rightarrow> string \<Rightarrow> (nat \<times> 'c) option" where
  "touched s t g t' = map_option (\<lambda>(b, d). (b, if map_option fst (node_core s t) = Some b then g d else d)) (node_core s t')"

lemma touched_id: "touched s t (\<lambda>c. c) t' = node_core s t'"
  by (simp add: touched_def option.map_ident split_def)

lemma touched_cong:
  "(\<And>a c. node_core s t = Some (a, c) \<Longrightarrow> g c = h c) \<Longrightarrow> touched s t g t' = touched s t h t'"
  using node_core_same [of s t] by (cases "node_core s t'") (fastforce simp: touched_def)+

lemma node_core_total_get:
  "node_core (fst (total_get (Selector_GetUserTraffic M) s t u r)) t' =
     touched s t (\<lambda>c. fst (total_get (cr_GetUserTraffic M) c t u r)) t'"
proof (cases "node_core s t")
  case None
  then show ?thesis
    by (auto simp: total_get_def Selector_GetUserTraffic_def on_node_core touched_def option.map_id split: option.split)
next
  case (Some x)
  obtain a c where x: "x = (a, c)" by fastforce
  show ?thesis
  proof (cases "cr_GetUserTraffic M c t u r")
    case None
    have "touched s t (\<lambda>c. fst (total_get (cr_GetUserTraffic M) c t u r)) t' = touched s t (\<lambda>c. c) t'"
      by (rule touched_cong) (use None Some x in \<open>auto simp: total_get_def\<close>)
    then show ?thesis using None Some x
      by (auto simp: total_get_def Selector_GetUserTraffic_def on_node_core touched_id split: option.split)
  next
    case (Some y)
    have nd: "mload (sel_nodes s) t \<noteq> None" using \<open>node_core s t = Some x\<close> by (auto simp: node_core_def bind_eq_Some_conv)
    show ?thesis
      using node_core_set [of s t a c "fst y" t'] node_core_same [of s t a c t'] Some \<open>node_core s t = Some x\<close> x nd
      by (cases "node_core s t'"; cases y) (auto simp: total_get_def Selector_GetUserTraffic_def on_node_core touched_def)
  qed
qed

lemma node_core_total_restore:
  "node_core (total_restore (Selector_RestoreUserTraffic M) s t u up down) t' =
     touched s t (\<lambda>c. total_restore (cr_RestoreUserTraffic M) c t u up down) t'"
proof (cases "node_core s t")
  case None
  then show ?thesis
    by (auto simp: total_restore_def Selector_RestoreUserTraffic_def on_node_core touched_def option.map_id split: option.split)
next
  case (Some x)
  obtain a c where x: "x = (a, c)" by fastforce
  show ?thesis
  proof (cases "cr_RestoreUserTraffic M c t u up down")
    case None
    have "touched s t (\<lambda>c. total_restore (cr_RestoreUserTraffic M) c t u up down) t' = touched s t (\<lambda>c. c) t'"
      by (rule touched_cong) (use None Some x in \<open>auto simp: total_restore_def\<close>)
    then show ?thesis using None Some x
      by (auto simp: total_restore_def Selector_RestoreUserTraffic_def on_node_core touched_id split: option.split)
  next
    case (Some y)
    have nd: "mload (sel_nodes s) t \<noteq> None" using \<open>node_core s t = Some x\<close> by (auto simp: node_core_def bind_eq_Some_conv)
    show ?thesis
      using node_core_set [of s t a c y t'] node_core_same [of s t a c t'] Some \<open>node_core s t = Some x\<close> x nd
      by (cases "node_core s t'") (auto simp: total_restore_def Selector_RestoreUserTraffic_def on_node_core touched_def)
  qed
qed

text \<open>The methods of a core whose total views keep the billing contract.\<close>

locale core_methods =
  core_traffic "total_get (cr_GetUserTraffic M)" "total_restore (cr_RestoreUserTraffic M)" usage tracked apart
  for M :: "('c, 'raw) Core"
    and usage :: "'c \<Rightarrow> string \<Rightarrow> string \<Rightarrow> 64 word \<times> 64 word"
    and tracked :: "'c \<Rightarrow> string \<Rightarrow> string \<Rightarrow> bool \<times> bool"
    and apart :: "string \<Rightarrow> string \<Rightarrow> bool" +
  assumes panic_zero: "cr_GetUserTraffic M c t u r = None \<Longrightarrow> usage c t u = (0, 0)"

sublocale core_methods \<subseteq> selector: core_traffic "total_get (Selector_GetUserTraffic M)" "total_restore (Selector_RestoreUserTraffic M)"
    "sel_usage usage" "sel_tracked tracked" apart
proof unfold_locales
  fix s t u a b t' u' r
  show "snd (total_get (Selector_GetUserTraffic M) s t u r) = sel_usage usage s t u"
  proof (cases "node_core s t")
    case (Some x)
    then show ?thesis
      using get_value [of "snd x" t u r] panic_zero [of "snd x" t u r]
      by (auto simp: sel_usage_def total_get_def Selector_GetUserTraffic_def on_node_core node_core_def bind_eq_Some_conv split: option.splits)
  qed (auto simp: sel_usage_def total_get_def Selector_GetUserTraffic_def on_node_core split: option.split)
  show "sel_tracked tracked (fst (total_get (Selector_GetUserTraffic M) s t u r)) t' u' = sel_tracked tracked s t' u'"
    by (auto simp: sel_tracked_def node_core_total_get touched_def get_tracked split: option.split)
  show "sel_tracked tracked (total_restore (Selector_RestoreUserTraffic M) s t u a b) t' u' = sel_tracked tracked s t' u'"
    by (auto simp: sel_tracked_def node_core_total_restore touched_def restore_tracked split: option.split)
  show "\<not> fst (sel_tracked tracked s t u) \<Longrightarrow> fst (sel_usage usage s t u) = 0"
    "\<not> snd (sel_tracked tracked s t u) \<Longrightarrow> snd (sel_usage usage s t u) = 0"
    using untracked_zero by (auto simp: sel_tracked_def sel_usage_def split: option.splits)
  assume apart: "t' = t \<or> apart t t'"
  show "sel_usage usage (fst (total_get (Selector_GetUserTraffic M) s t u True)) t' u'
      = (if t' = t \<and> u' = u then (0, 0) else sel_usage usage s t' u')"
    by (auto simp: sel_usage_def node_core_total_get touched_def get_reset [OF apart] get_reset [OF disjI1 [OF refl]] split: option.split)
  show "sel_usage usage (total_restore (Selector_RestoreUserTraffic M) s t u a b) t' u' =
      (if t' = t \<and> u' = u
       then (fst (sel_usage usage s t u) + (if fst (sel_tracked tracked s t u) \<and> 0 <s a then a else 0),
             snd (sel_usage usage s t u) + (if snd (sel_tracked tracked s t u) \<and> 0 <s b then b else 0))
       else sel_usage usage s t' u')"
    by (auto simp: sel_usage_def sel_tracked_def node_core_total_restore touched_def restore_adds [OF apart] restore_adds [OF disjI1 [OF refl]] split: option.split)
qed

section \<open>The three cores\<close>

text \<open>A core of the process is one of the three implementations; \<open>base\<close> holds the methods that do not touch counters.\<close>

datatype ('m, 'h) any_core =
    XrayCore "('m, 'h) Xray"
  | SingCore hook_counters
  | Hy2Core hy2_nodes

fun any_get ::
  "'m stats_ops \<Rightarrow> ('m, 'h) any_core \<Rightarrow> string \<Rightarrow> string \<Rightarrow> bool \<Rightarrow> (('m, 'h) any_core \<times> 64 word \<times> 64 word) go" where
  "any_get S (XrayCore x) tag uuid reset = map_option (\<lambda>(x, r). (XrayCore x, r)) (Xray_GetUserTraffic S x tag uuid reset)"
| "any_get S (SingCore h) tag uuid reset = Some (map_prod SingCore (\<lambda>r. r) (Sing_GetUserTraffic h tag uuid reset))"
| "any_get S (Hy2Core h) tag uuid reset = Some (map_prod Hy2Core (\<lambda>r. r) (Hy2_GetUserTraffic h tag uuid reset))"

fun any_restore ::
  "'m stats_ops \<Rightarrow> ('m, 'h) any_core \<Rightarrow> string \<Rightarrow> string \<Rightarrow> 64 word \<Rightarrow> 64 word \<Rightarrow> ('m, 'h) any_core go" where
  "any_restore S (XrayCore x) tag uuid up down = map_option XrayCore (Xray_RestoreUserTraffic S x tag uuid up down)"
| "any_restore S (SingCore h) tag uuid up down = Some (SingCore (Sing_RestoreUserTraffic h tag uuid up down))"
| "any_restore S (Hy2Core h) tag uuid up down = Some (Hy2Core (Hy2_RestoreUserTraffic h tag uuid up down))"

fun any_usage :: "'m stats_ops \<Rightarrow> ('m, 'h) any_core \<Rightarrow> string \<Rightarrow> string \<Rightarrow> 64 word \<times> 64 word" where
  "any_usage S (XrayCore x) tag uuid = (case x_shm x of None \<Rightarrow> (0, 0) | Some shm \<Rightarrow> xray_usage S shm tag uuid)"
| "any_usage S (SingCore h) tag uuid = hook_usage h tag uuid"
| "any_usage S (Hy2Core h) tag uuid = hy2_usage h tag uuid"

fun any_tracked :: "'m stats_ops \<Rightarrow> ('m, 'h) any_core \<Rightarrow> string \<Rightarrow> string \<Rightarrow> bool \<times> bool" where
  "any_tracked S (XrayCore x) tag uuid = (case x_shm x of None \<Rightarrow> (False, False) | Some shm \<Rightarrow> xray_tracked S shm tag uuid)"
| "any_tracked S (SingCore h) tag uuid = hook_tracked h tag uuid"
| "any_tracked S (Hy2Core h) tag uuid = hy2_tracked h tag uuid"

definition any_methods :: "'m stats_ops \<Rightarrow> (('m, 'h) any_core, 'raw) Core \<Rightarrow> (('m, 'h) any_core, 'raw) Core" where
  "any_methods S base = base\<lparr>cr_GetUserTraffic := any_get S, cr_RestoreUserTraffic := any_restore S\<rparr>"

lemma any_methods_simps [simp]:
  "cr_GetUserTraffic (any_methods S base) = any_get S" "cr_RestoreUserTraffic (any_methods S base) = any_restore S"
  by (simp_all add: any_methods_def)

lemma total_any_get:
  "total_get (any_get S) c tag uuid r =
     (case c of
        XrayCore x \<Rightarrow> (case x_shm x of
                         None \<Rightarrow> (c, 0, 0)
                       | Some shm \<Rightarrow> (XrayCore (x\<lparr>x_shm := Some (fst (xray_get S shm tag uuid r))\<rparr>), snd (xray_get S shm tag uuid r)))
      | SingCore h \<Rightarrow> (SingCore (fst (Sing_GetUserTraffic h tag uuid r)), snd (Sing_GetUserTraffic h tag uuid r))
      | Hy2Core h \<Rightarrow> (Hy2Core (fst (Hy2_GetUserTraffic h tag uuid r)), snd (Hy2_GetUserTraffic h tag uuid r)))"
  by (cases c) (auto simp: total_get_def Xray_GetUserTraffic_def map_prod_def split_def split: option.splits)

lemma total_any_restore:
  "total_restore (any_restore S) c tag uuid up down =
     (case c of
        XrayCore x \<Rightarrow> XrayCore (case x_shm x of None \<Rightarrow> x | Some shm \<Rightarrow> x\<lparr>x_shm := Some (xray_restore S shm tag uuid up down)\<rparr>)
      | SingCore h \<Rightarrow> SingCore (Sing_RestoreUserTraffic h tag uuid up down)
      | Hy2Core h \<Rightarrow> Hy2Core (Hy2_RestoreUserTraffic h tag uuid up down))"
  by (cases c) (auto simp: total_restore_def Xray_RestoreUserTraffic_def split: option.splits)

lemma apart_differ: "t' = t \<or> tags_apart t t' \<Longrightarrow> t' = t \<or> t \<noteq> t'"
  by blast

locale running_cores = stats_manager S for S :: "'m stats_ops" +
  fixes base :: "(('m, 'h) any_core, 'raw) Core"

sublocale running_cores \<subseteq> cores: core_methods "any_methods S base" "any_usage S" "any_tracked S" tags_apart
proof unfold_locales
  fix c t u a b t' u' r
  show "snd (total_get (cr_GetUserTraffic (any_methods S base)) c t u r) = any_usage S c t u"
    by (cases c) (auto simp: total_any_get xray.get_value sing.get_value hy2.get_value split: option.split)
  show "any_tracked S (fst (total_get (cr_GetUserTraffic (any_methods S base)) c t u r)) t' u' = any_tracked S c t' u'"
    by (cases c) (auto simp: total_any_get xray.get_tracked sing.get_tracked hy2.get_tracked split: option.split)
  show "any_tracked S (total_restore (cr_RestoreUserTraffic (any_methods S base)) c t u a b) t' u' = any_tracked S c t' u'"
    by (cases c) (auto simp: total_any_restore xray.restore_tracked sing.restore_tracked hy2.restore_tracked split: option.split)
  show "\<not> fst (any_tracked S c t u) \<Longrightarrow> fst (any_usage S c t u) = 0" "\<not> snd (any_tracked S c t u) \<Longrightarrow> snd (any_usage S c t u) = 0"
    by (cases c; simp add: xray.untracked_zero sing.untracked_zero hy2.untracked_zero split: option.splits)+
  show "cr_GetUserTraffic (any_methods S base) c t u r = None \<Longrightarrow> any_usage S c t u = (0, 0)"
    by (cases c) (auto simp: Xray_GetUserTraffic_def split: option.splits prod.splits)
  assume apart: "t' = t \<or> tags_apart t t'"
  show "any_usage S (fst (total_get (cr_GetUserTraffic (any_methods S base)) c t u True)) t' u'
      = (if t' = t \<and> u' = u then (0, 0) else any_usage S c t' u')"
    by (cases c) (auto simp: total_any_get xray.get_reset [OF apart] sing.get_reset [OF apart_differ [OF apart]] hy2.get_reset [OF apart_differ [OF apart]]
        xray.get_reset [OF disjI1 [OF refl]] sing.get_reset [OF disjI1 [OF refl]] hy2.get_reset [OF disjI1 [OF refl]] split: option.split)
  show "any_usage S (total_restore (cr_RestoreUserTraffic (any_methods S base)) c t u a b) t' u' =
      (if t' = t \<and> u' = u
       then (fst (any_usage S c t u) + (if fst (any_tracked S c t u) \<and> 0 <s a then a else 0),
             snd (any_usage S c t u) + (if snd (any_tracked S c t u) \<and> 0 <s b then b else 0))
       else any_usage S c t' u')"
    by (cases c) (auto simp: total_any_restore xray.restore_adds [OF apart] sing.restore_adds [OF apart_differ [OF apart]] hy2.restore_adds [OF apart_differ [OF apart]]
        xray.restore_adds [OF disjI1 [OF refl]] sing.restore_adds [OF disjI1 [OF refl]] hy2.restore_adds [OF disjI1 [OF refl]] split: option.split)
qed

interpretation map_cores: running_cores map_stats base for base
  by unfold_locales

section \<open>Reports of a node\<close>

text \<open>The core of the node was not closed.\<close>

definition node_open :: "('m, 'h) any_core Selector \<Rightarrow> string \<Rightarrow> bool" where
  "node_open s tag \<longleftrightarrow>
     (case mload (sel_nodes s) tag of
        None \<Rightarrow> True
      | Some a \<Rightarrow> (case mload (sel_store s) a of
                     None \<Rightarrow> False
                   | Some c \<Rightarrow> (case c of XrayCore x \<Rightarrow> x_shm x \<noteq> None | _ \<Rightarrow> True)))"

lemma open_core_returns:
  "node_open s tag \<Longrightarrow>
   Selector_GetUserTraffic (any_methods S base) s tag u r = Some (total_get (Selector_GetUserTraffic (any_methods S base)) s tag u r)"
  "node_open s tag \<Longrightarrow>
   Selector_RestoreUserTraffic (any_methods S base) s tag u up down
   = Some (total_restore (Selector_RestoreUserTraffic (any_methods S base)) s tag u up down)"
  by (auto simp: node_open_def Selector_GetUserTraffic_def Selector_RestoreUserTraffic_def on_node_def total_get_def total_restore_def
      Xray_GetUserTraffic_def Xray_RestoreUserTraffic_def split: option.splits any_core.splits prod.splits)

context running_cores
begin

lemma process_report:
  assumes "env_GetUserTraffic E = total_get (Selector_GetUserTraffic (any_methods S base))"
    and "env_RestoreUserTraffic E = total_restore (Selector_RestoreUserTraffic (any_methods S base))"
    and "distinct (map ui_Uuid (co_userList c))"
    and "\<And>x. x \<in> set (co_userList c) \<Longrightarrow> nonneg_usage (sel_usage (any_usage S) (co_server c) (co_tag c) (ui_Uuid x))"
    and "reportUserTrafficTask E now c = (c', data, sent)"
    and "t = co_tag c \<or> tags_apart (co_tag c) t"
  shows "filter has_traffic sent = bill (sel_usage (any_usage S)) (co_server c) (co_tag c) (co_userList c)
     \<and> sel_usage (any_usage S) (co_server c') t u =
       (if sent \<noteq> [] \<and> env_ReportUserTraffic E (co_apiClient c) sent \<noteq> None then sel_usage (any_usage S) (co_server c) t u
        else if t = co_tag c \<and> u \<in> ui_Uuid ` set (co_userList c) then (0, 0)
        else sel_usage (any_usage S) (co_server c) t u)"
  by (rule cores.selector.report_bills [OF assms])

end

text \<open>
  C1. Billing of the whole process is exact. Whatever core serves a node (Xray, sing or
  hysteria2), a report through the selector sends for the users of the node precisely those with
  non-zero counters, each with the values of its two counters; after an accepted report these
  counters are zero, after a failed one every counter holds what it held before; and the counters of
  nodes under other tags do not change, provided their user tags cannot coincide (it is enough that
  the tags contain no bar). The calls return as long as the core of the node is not closed. \<open>S\<close> is
  the statistics manager of Xray.
\<close>

theorem process_bills_exactly:
  assumes "stats_manager S"
    and "env_GetUserTraffic E = total_get (Selector_GetUserTraffic (any_methods S base))"
    and "env_RestoreUserTraffic E = total_restore (Selector_RestoreUserTraffic (any_methods S base))"
    and "distinct (map ui_Uuid (co_userList c))"
    and "\<And>x. x \<in> set (co_userList c) \<Longrightarrow> nonneg_usage (sel_usage (any_usage S) (co_server c) (co_tag c) (ui_Uuid x))"
    and "reportUserTrafficTask E now c = (c', data, sent)"
    and "t = co_tag c \<or> tags_apart (co_tag c) t"
  shows "filter has_traffic sent = bill (sel_usage (any_usage S)) (co_server c) (co_tag c) (co_userList c)
     \<and> sel_usage (any_usage S) (co_server c') t u =
       (if sent \<noteq> [] \<and> env_ReportUserTraffic E (co_apiClient c) sent \<noteq> None then sel_usage (any_usage S) (co_server c) t u
        else if t = co_tag c \<and> u \<in> ui_Uuid ` set (co_userList c) then (0, 0)
        else sel_usage (any_usage S) (co_server c) t u)
     \<and> (node_open (co_server c) (co_tag c) \<longrightarrow>
        Selector_GetUserTraffic (any_methods S base) (co_server c) (co_tag c) v r
        = Some (env_GetUserTraffic E (co_server c) (co_tag c) v r))"
proof -
  have rc: "running_cores S" using assms(1) by (rule running_cores.intro)
  show ?thesis
    using running_cores.process_report [OF rc assms(2-7)] open_core_returns(1) [of "co_server c" "co_tag c" S base v r] assms(2)
    by auto
qed

type_synonym example_core_type = "((string, 64 word) gomap, unit) any_core"

definition example_base :: "(example_core_type, string) Core" where
  "example_base = \<lparr>cr_Start = (\<lambda>c. (c, None)), cr_Close = (\<lambda>c. (c, None)), cr_AddNode = (\<lambda>c _ _ _. Some (c, None)),
     cr_DelNode = (\<lambda>c _. Some (c, None)), cr_AddUsers = (\<lambda>c p. Some (c, int (length (ap_Users p)), None)),
     cr_GetUserTraffic = (\<lambda>c _ _ _. Some (c, 0, 0)), cr_RestoreUserTraffic = (\<lambda>c _ _ _ _. Some c),
     cr_DelUsers = (\<lambda>c _ _ _. Some (c, None)), cr_Type = (\<lambda>_. ''xray'')\<rparr>"

definition example_process :: "example_core_type Selector" where
  "example_process = \<lparr>sel_entries = [], sel_nodes = [(''n'', 0)],
     sel_store = [(0, XrayCore \<lparr>x_shm = Some [(uplink_name (UserTag ''n'' ''u''), 5), (downlink_name (UserTag ''n'' ''u''), 7)], x_ihm = ()\<rparr>)],
     sel_fresh = 1\<rparr>"

definition example_process_env :: "(string, string, example_core_type Selector) env" where
  "example_process_env = \<lparr>env_AddNode = (\<lambda>s _ _ _. (s, None)), env_DelNode = (\<lambda>s _. (s, None)),
     env_AddUsers = (\<lambda>s _ _ _. (s, None)), env_DelUsers = (\<lambda>s _ _ _. (s, None)),
     env_GetUserTraffic = total_get (Selector_GetUserTraffic (any_methods map_stats example_base)),
     env_RestoreUserTraffic = total_restore (Selector_RestoreUserTraffic (any_methods map_stats example_base)),
     env_GetNodeInfo = (\<lambda>api. Some (api, Inr None)), env_GetUserList = (\<lambda>api. Some (api, Inr None)),
     env_GetUserAlive = (\<lambda>api. (api, [])), env_ReportNodeOnlineUsers = (\<lambda>_ _. None),
     env_ReportUserTraffic = (\<lambda>_ _. Some ''timeout''), env_IsExist = (\<lambda>_. True), env_createCert = (\<lambda>_. None),
     env_selfCert = (\<lambda>_ _ _. None), env_compile = Some\<rparr>"

definition example_process_node :: "(string, int, string, example_core_type Selector) Controller" where
  "example_process_node =
     (NewController example_process [] example_client example_options)\<lparr>co_tag := ''n'', co_userList := [example_user]\<rparr>"

lemma example_process_fields:
  "co_tag example_process_node = ''n''" "co_userList example_process_node = [example_user]"
  "sel_usage (any_usage map_stats) (co_server example_process_node) ''n'' ''u'' = (5, 7)"
  "node_open (co_server example_process_node) ''n''"
  by (simp_all add: example_process_node_def NewController_def example_process_def sel_usage_def node_core_def node_open_def
      xray_usage_def map_stats_def mload_def)

theorem process_bills_exactly_witness:
  "\<exists>c' data sent. reportUserTrafficTask example_process_env 0 example_process_node = (c', data, sent)
     \<and> filter has_traffic sent = [\<lparr>ut_UID = 7, ut_Upload = 5, ut_Download = 7, ut_Key = []\<rparr>]
     \<and> sel_usage (any_usage map_stats) (co_server c') ''n'' ''u'' = (5, 7)"
proof -
  obtain c' data sent where r: "reportUserTrafficTask example_process_env 0 example_process_node = (c', data, sent)"
    by (metis prod_cases3)
  have e: "env_GetUserTraffic example_process_env = total_get (Selector_GetUserTraffic (any_methods map_stats example_base))"
      "env_RestoreUserTraffic example_process_env = total_restore (Selector_RestoreUserTraffic (any_methods map_stats example_base))"
      "\<And>a b. env_ReportUserTraffic example_process_env a b = Some ''timeout''"
    by (simp_all add: example_process_env_def)
  have d: "distinct (map ui_Uuid (co_userList example_process_node))" by (simp add: example_process_fields)
  have nn: "\<And>x. x \<in> set (co_userList example_process_node) \<Longrightarrow>
      nonneg_usage (sel_usage (any_usage map_stats) (co_server example_process_node) (co_tag example_process_node) (ui_Uuid x))"
    by (simp add: example_process_fields nonneg_usage_def example_user_def word_sle_eq)
  note th = process_bills_exactly [OF map_manager.stats_manager_axioms e(1,2) d nn r, of "''n''" "''u''"]
  have b: "filter has_traffic sent = [\<lparr>ut_UID = 7, ut_Upload = 5, ut_Download = 7, ut_Key = []\<rparr>]"
    using th by (simp add: example_process_fields bill_def example_user_def)
  then have "sent \<noteq> []" by auto
  then show ?thesis using th r b e(3) example_process_fields by simp
qed

end
