(* ===== verification/Node.thy ===== *)
theory Node
  imports Controller
begin

text \<open>
  \<open>node/node.go\<close>: the controllers of all configured nodes. The controllers share the core and the
  table of limiters, which are threaded through their operations; what a stored controller holds
  of them is replaced by the current state when it runs again. The panel answers of all nodes
  are the functions of \<open>env\<close>, which get the client with its host and node.
\<close>

record ('re, 'b, 'raw, 's) Node =
  no_controllers :: "('re, 'b, 'raw, 's) Controller list"

type_synonym ('re, 'b, 's) shared = "'s \<times> ('re, 'b) limiters"

definition Node_New :: "('re, 'b, 'raw, 's) Node" where
  "Node_New = \<lparr>no_controllers = []\<rparr>"

fun closeControllers ::
  "('re, 'raw, 's) env \<Rightarrow> ('re, 'b, 'raw, 's) Controller list \<Rightarrow> ('re, 'b, 's) shared \<Rightarrow> ('re, 'b, 's) shared" where
  "closeControllers E [] sh = sh"
| "closeControllers E (c # controllers) (s, limiters) =
     (case Controller_Close E (c\<lparr>co_server := s, co_limiters := limiters\<rparr>) of
        (c, _) \<Rightarrow> closeControllers E controllers (co_server c, co_limiters c))"

text \<open>
  The loop of \<open>Start\<close> over the configurations, with the controllers started so far: the
  controllers and no error, or what closing them left and the error.
\<close>

fun start_nodes ::
  "('re, 'raw, 's) env \<Rightarrow> gotime \<Rightarrow> 'raw NodeConfig list \<Rightarrow> ('re, 'b, 'raw, 's) Controller list
   \<Rightarrow> ('re, 'b, 's) shared \<Rightarrow> (('re, 'b, 's) shared \<times> (string + ('re, 'b, 'raw, 's) Controller list)) go" where
  "start_nodes E now [] controllers sh = Some (sh, Inr controllers)"
| "start_nodes E now (node # nodes) controllers (s, limiters) =
     (case New (nc_ApiConfig node) of
        Inl e \<Rightarrow> Some (closeControllers E controllers (s, limiters), Inl e)
      | Inr (p, _) \<Rightarrow>
          (case Controller_Start E now (NewController s limiters p (nc_Options node)) of
             None \<Rightarrow> None
           | Some (c, Some e) \<Rightarrow>
               Some (closeControllers E (controllers @ [c]) (co_server c, co_limiters c),
                     Inl (''start node controller ['' @ ac_APIHost (nc_ApiConfig node) @ ''-'' @ ac_NodeType (nc_ApiConfig node)
                       @ ''-'' @ strconv_Itoa (ac_NodeID (nc_ApiConfig node)) @ ''] error: '' @ e))
           | Some (c, None) \<Rightarrow> start_nodes E now nodes (controllers @ [c]) (co_server c, co_limiters c)))"

definition Node_Start ::
  "('re, 'raw, 's) env \<Rightarrow> gotime \<Rightarrow> ('re, 'b, 'raw, 's) Node \<Rightarrow> 'raw NodeConfig list \<Rightarrow> ('re, 'b, 's) shared
   \<Rightarrow> (('re, 'b, 'raw, 's) Node \<times> ('re, 'b, 's) shared \<times> string option) go" where
  "Node_Start E now n nodes sh =
     (case start_nodes E now nodes [] sh of
        None \<Rightarrow> None
      | Some (sh, Inl e) \<Rightarrow> Some (n, sh, Some e)
      | Some (sh, Inr controllers) \<Rightarrow> Some (n\<lparr>no_controllers := controllers\<rparr>, sh, None))"

definition Node_Close ::
  "('re, 'raw, 's) env \<Rightarrow> ('re, 'b, 'raw, 's) Node \<Rightarrow> ('re, 'b, 's) shared
   \<Rightarrow> ('re, 'b, 'raw, 's) Node \<times> ('re, 'b, 's) shared" where
  "Node_Close E n sh = (n\<lparr>no_controllers := []\<rparr>, closeControllers E (no_controllers n) sh)"

section \<open>Which limiters are registered\<close>

text \<open>An operation of a controller touches only the limiter of its own tag.\<close>

definition own_tag :: "('re, 'b, 'raw, 's) Controller \<Rightarrow> ('re, 'b, 'raw, 's) Controller \<Rightarrow> bool" where
  "own_tag c c' \<longleftrightarrow> co_tag c' = co_tag c \<and> (\<forall>k. k \<noteq> co_tag c \<longrightarrow> mload (co_limiters c') k = mload (co_limiters c) k)"

lemma own_tag_onLimiter: "own_tag c (onLimiter f c)"
  by (simp add: own_tag_def onLimiter_def split: option.split)

interpretation tags: controller_frame own_tag
  by unfold_locales (auto simp: own_tag_onLimiter, auto simp: own_tag_def)

lemma startTasks_own_tag: "startTasks E now n c = Some c' \<Longrightarrow> own_tag c c'"
proof -
  assume st: "startTasks E now n c = Some c'"
  let ?p = "normalizedPushInterval c (ni_PushInterval n)"
  define c0 where "c0 = (applyOnlineTTL c ?p)
    \<lparr>co_nodeInfoMonitorPeriodic := Some \<lparr>tk_Interval = normalizedPullInterval (ni_PullInterval n), tk_running = True\<rparr>,
     co_userReportPeriodic := Some \<lparr>tk_Interval = ?p, tk_running = True\<rparr>\<rparr>"
  have "own_tag c c0" using own_tag_onLimiter [of c] by (simp add: c0_def applyOnlineTTL_def own_tag_def)
  then have r: "own_tag c (run_report E now c0)" by (rule tags.frame_report)
  have f: "own_tag c (x\<lparr>co_renewCertPeriodic := q\<rparr>) = own_tag c x" "own_tag c (x\<lparr>co_dynamicSpeedLimitPeriodic := q\<rparr>) = own_tag c x"
    "own_tag c (resetTraffic x) = own_tag c x" for x q by (simp_all add: own_tag_def resetTraffic_def)
  show ?thesis
    using st r
    by (auto simp: startTasks_def Let_def c0_def [symmetric] f intro!: tags.frame_ensure split: option.splits if_splits)
qed

lemma Controller_Start_own_tag:
  "Controller_Start E now c = Some (c', e) \<Longrightarrow> k \<noteq> co_tag c' \<Longrightarrow> mload (co_limiters c') k = mload (co_limiters c) k"
proof -
  assume st: "Controller_Start E now c = Some (c', e)" and k: "k \<noteq> co_tag c'"
  have node: "own_tag x c'" if "start_node E now n x = Some (c', e)" for n x
    using that startTasks_own_tag [of E now n _ c']
    by (auto simp: start_node_def own_tag_def split: option.splits prod.splits if_splits)
  show ?thesis
    using st k
    by (auto simp: Controller_Start_def Let_def AddLimiter_def own_tag_def split: option.splits sum.splits prod.splits list.splits
        dest!: node)
qed

lemma Controller_Close_limiters: "co_limiters (fst (Controller_Close E c)) = mdelete (co_limiters c) (co_tag c)"
  by (simp add: Controller_Close_def Let_def DeleteLimiter_def split: prod.split)

lemma closeControllers_limiters:
  "mload (snd (closeControllers E cs (s, limiters))) k =
     (if k \<in> co_tag ` set cs then None else mload limiters k)"
proof (induction cs arbitrary: s limiters)
  case (Cons c cs)
  let ?c = "c\<lparr>co_server := s, co_limiters := limiters\<rparr>"
  have "closeControllers E (c # cs) (s, limiters) =
      closeControllers E cs (co_server (fst (Controller_Close E ?c)), mdelete limiters (co_tag c))"
    using Controller_Close_limiters [of E ?c] by (auto split: prod.split)
  then show ?case using Cons.IH [of "co_server (fst (Controller_Close E ?c))" "mdelete limiters (co_tag c)"] by auto
qed simp

text \<open>Every limiter that a run of the loop registered belongs to one of its controllers.\<close>

lemma start_nodes_limiters:
  assumes "start_nodes E now nodes cs (s, limiters) = Some ((s', limiters'), r)"
    and "\<And>k. mload limiters k \<noteq> None \<Longrightarrow> k \<in> co_tag ` set cs \<or> k \<in> K"
  shows "case r of Inl _ \<Rightarrow> \<forall>k. mload limiters' k \<noteq> None \<longrightarrow> k \<in> K
     | Inr cs' \<Rightarrow> \<forall>k. mload limiters' k \<noteq> None \<longrightarrow> k \<in> co_tag ` set cs' \<or> k \<in> K"
  using assms
proof (induction nodes arbitrary: cs s limiters)
  case (Cons node nodes)
  show ?case
  proof (cases "New (nc_ApiConfig node)")
    case (Inl e)
    then have "closeControllers E cs (s, limiters) = (s', limiters')" "r = Inl e" using Cons.prems(1) by auto
    then show ?thesis
      using closeControllers_limiters [of E cs s limiters] Cons.prems(2) by (auto split: if_splits)
  next
    case (Inr p)
    obtain api x where p: "p = (api, x)" by (cases p)
    obtain c err where st: "Controller_Start E now (NewController s limiters api (nc_Options node)) = Some (c, err)"
      using Cons.prems(1) Inr p by (auto split: option.splits)
    have keys: "mload (co_limiters c) k \<noteq> None \<Longrightarrow> k \<in> co_tag ` set (cs @ [c]) \<or> k \<in> K" for k
      using Controller_Start_own_tag [OF st, of k] Cons.prems(2) [of k] by (cases "k = co_tag c") (auto simp: NewController_def)
    show ?thesis
    proof (cases err)
      case None
      then have "start_nodes E now nodes (cs @ [c]) (co_server c, co_limiters c) = Some ((s', limiters'), r)"
        using Cons.prems(1) Inr p st by simp
      from Cons.IH [OF this] keys show ?thesis by simp
    next
      case (Some e)
      then have "closeControllers E (cs @ [c]) (co_server c, co_limiters c) = (s', limiters')" "\<exists>m. r = Inl m"
        using Cons.prems(1) Inr p st by auto
      then show ?thesis
        using closeControllers_limiters [of E "cs @ [c]" "co_server c" "co_limiters c"] keys by (auto split: if_splits) blast
    qed
  qed
qed (auto split: sum.splits)

text \<open>
  C11. A broken configuration leaks no limiter: when one of the nodes fails to start, whether its
  client cannot be built, its panel does not answer or its core rejects it, no limiter is
  registered afterwards; and closing a node that did start removes every limiter it registered.
\<close>

theorem failed_start_leaks_no_limiter:
  assumes "Node_Start E now Node_New nodes (s, []) = Some (n, (s', limiters), err)"
  shows "(err \<noteq> None \<longrightarrow> limiters = [] \<and> no_controllers n = [])
     \<and> (err = None \<longrightarrow> snd (snd (Node_Close E n (s', limiters))) = [])"
proof -
  have empty: "m = []" if "\<And>k. mload m k = None" for m :: "('a, 'b) limiters"
    using that mload_None_iff [of m] by (cases m) auto
  obtain r where st: "start_nodes E now nodes [] (s, []) = Some ((s', limiters), r)"
      "err = (case r of Inl e \<Rightarrow> Some e | Inr _ \<Rightarrow> None)"
      "n = (case r of Inl _ \<Rightarrow> Node_New | Inr cs \<Rightarrow> Node_New\<lparr>no_controllers := cs\<rparr>)"
    using assms by (auto simp: Node_Start_def split: option.splits prod.splits sum.splits)
  have keys: "case r of Inl _ \<Rightarrow> \<forall>k. mload limiters k \<noteq> None \<longrightarrow> k \<in> {}
     | Inr cs' \<Rightarrow> \<forall>k. mload limiters k \<noteq> None \<longrightarrow> k \<in> co_tag ` set cs' \<or> k \<in> {}"
    by (rule start_nodes_limiters [OF st(1)]) (simp add: mload_def)
  show ?thesis
  proof (cases r)
    case (Inl e)
    then show ?thesis using keys st empty [of limiters] by (auto simp: Node_New_def)
  next
    case (Inr cs)
    then have "mload (snd (closeControllers E cs (s', limiters))) k = None" for k
      using keys closeControllers_limiters [of E cs s' limiters k] by auto
    then show ?thesis using Inr st empty [of "snd (closeControllers E cs (s', limiters))"] by (auto simp: Node_Close_def)
  qed
qed

definition example_api :: ApiConfig where
  "example_api = \<lparr>ac_PanelType = ''xboard'', ac_APIHost = ''http://p/'', ac_NodeID = 1, ac_Key = ''t'',
     ac_NodeType = ''V2ray'', ac_Timeout = 0, ac_RuleListPath = []\<rparr>"

text \<open>Two nodes, of which the second has an unknown type.\<close>

theorem failed_start_leaks_no_limiter_witness:
  "\<exists>n sh e. Node_Start example_env 0 Node_New
      [\<lparr>nc_ApiConfig = example_api, nc_Options = example_options\<rparr>,
       \<lparr>nc_ApiConfig = example_api\<lparr>ac_NodeType := ''socks''\<rparr>, nc_Options = example_options\<rparr>]
      ([], [] :: (string, int) limiters) = Some (n, sh, Some e) \<and> snd sh = []"
proof -
  let ?r = "Node_Start example_env 0 Node_New
      [\<lparr>nc_ApiConfig = example_api, nc_Options = example_options\<rparr>,
       \<lparr>nc_ApiConfig = example_api\<lparr>ac_NodeType := ''socks''\<rparr>, nc_Options = example_options\<rparr>]
      ([], [] :: (string, int) limiters)"
  have "(case ?r of Some (_, _, Some _) \<Rightarrow> True | _ \<Rightarrow> False)" by code_simp
  then obtain n s' l e where r: "?r = Some (n, (s', l), Some e)"
    by (auto split: option.splits prod.splits)
  then show ?thesis using failed_start_leaks_no_limiter [OF r] by auto
qed

end
