(* ===== verification/Task.thy ===== *)
theory Task
  imports Complex_Main Go_Prelude
begin

text \<open>
  \<open>common/task/task.go\<close>: a periodic task with its two mutexes, as a machine of interleaved threads.
  Every section between \<open>access.Lock\<close> and \<open>access.Unlock\<close> is one atomic step; \<open>execMu\<close> is held over
  several steps. A thread is a goroutine inside \<open>Start\<close> or inside the function of an expired timer.
  A body may close and restart its own task; since \<open>Close\<close> and \<open>Start(false)\<close> never take \<open>execMu\<close>,
  that is covered by calls of other threads between its steps.
\<close>

section \<open>State\<close>

text \<open>Where a thread is: \<open>True\<close> as first argument of the stages marks a call from \<open>Start\<close>.\<close>

datatype pc =
    Fire
  | CheckClosed bool bool
  | LockExec bool
  | RecheckClosed bool
  | Body bool
  | BodyFailed bool
  | StartFailed
  | Arm

text \<open>
  \<open>pending\<close> are the timers that were armed and have neither expired nor been stopped; \<open>t_timer\<close> is
  the field of the struct, which may name one that already expired.
\<close>

record Task =
  t_running :: bool
  t_timer :: "nat option"
  t_execMu :: "nat option"
  t_pending :: "nat list"
  t_fresh :: nat
  t_threads :: "(nat, pc) gomap"

definition new_task :: Task where
  "new_task = \<lparr>t_running = False, t_timer = None, t_execMu = None, t_pending = [], t_fresh = 0, t_threads = []\<rparr>"

definition goto :: "nat \<Rightarrow> pc \<Rightarrow> Task \<Rightarrow> Task" where
  "goto tid p t = t\<lparr>t_threads := mstore (t_threads t) tid p\<rparr>"

definition leave :: "nat \<Rightarrow> Task \<Rightarrow> Task" where
  "leave tid t = t\<lparr>t_threads := mdelete (t_threads t) tid\<rparr>"

section \<open>Atomic sections\<close>

definition hasClosed :: "Task \<Rightarrow> bool" where
  "hasClosed t \<longleftrightarrow> \<not> t_running t"

text \<open>\<open>time.AfterFunc\<close> and \<open>Timer.Stop\<close>.\<close>

definition AfterFunc :: "Task \<Rightarrow> Task" where
  "AfterFunc t = t\<lparr>t_timer := Some (t_fresh t), t_pending := t_fresh t # t_pending t, t_fresh := Suc (t_fresh t)\<rparr>"

definition stop_timer :: "Task \<Rightarrow> Task" where
  "stop_timer t =
     (case t_timer t of
        None \<Rightarrow> t
      | Some i \<Rightarrow> t\<lparr>t_pending := removeAll i (t_pending t), t_timer := None\<rparr>)"

definition arm :: "Task \<Rightarrow> Task" where
  "arm t = (if \<not> t_running t then t else if t_timer t \<noteq> None then t else AfterFunc t)"

definition fire_access :: "Task \<Rightarrow> Task" where
  "fire_access t = t\<lparr>t_timer := None\<rparr>"

definition Task_Close :: "Task \<Rightarrow> Task" where
  "Task_Close t = stop_timer (t\<lparr>t_running := False\<rparr>)"

text \<open>\<open>nextDelay\<close> over exact numbers: \<open>r\<close> is the result of \<open>rand.Float64\<close>, and the conversion to a duration truncates.\<close>

definition nextDelay :: "rat \<Rightarrow> rat \<Rightarrow> duration \<Rightarrow> duration" where
  "nextDelay Jitter r Interval =
     (if Jitter \<le> 0 \<or> Interval \<le> 0 then Interval
      else
        let fraction = (if Jitter > 1 then 1 else Jitter);
            offset = (r * 2 - 1) * fraction * of_int Interval;
            x = of_int Interval + offset;
            delay = (if x < 0 then - \<lfloor>- x\<rfloor> else \<lfloor>x\<rfloor>)
        in if delay \<le> 0 then Interval else delay)"

text \<open>The jitter never makes the delay of a positive interval zero or negative, and shifts it by at
  most the fraction \<open>Jitter\<close> of the interval, less the rounding.\<close>

lemma nextDelay_bounds:
  assumes "0 \<le> r" "r < 1" "0 < Interval"
  shows "0 < nextDelay Jitter r Interval"
    "rat_of_int (nextDelay Jitter r Interval) \<le> (1 + max 0 (min Jitter 1)) * of_int Interval"
    "(1 - max 0 (min Jitter 1)) * of_int Interval - 1 < rat_of_int (nextDelay Jitter r Interval)"
proof -
  define f where "f = (if Jitter > 1 then 1 else Jitter)"
  define x where "x = rat_of_int Interval + (r * 2 - 1) * f * of_int Interval"
  have I: "0 < rat_of_int Interval" using assms(3) by simp
  have bnd: "- (f * of_int Interval) \<le> (r * 2 - 1) * (f * of_int Interval) \<and> (r * 2 - 1) * (f * of_int Interval) \<le> f * of_int Interval"
    if "0 < f"
    using mult_right_mono [of "-1" "r * 2 - 1" "f * of_int Interval"] mult_right_mono [of "r * 2 - 1" 1 "f * of_int Interval"] that I assms(1,2)
    by simp
  have m: "max 0 (min Jitter 1) = f" if "0 < Jitter" using that by (auto simp: f_def)
  have xb: "of_int Interval - f * of_int Interval \<le> x" "x \<le> of_int Interval + f * of_int Interval" if "0 < Jitter"
    using bnd that by (auto simp: x_def f_def algebra_simps split: if_splits)
  have x0: "0 \<le> x" if "0 < Jitter"
  proof -
    have "f * of_int Interval \<le> 1 * rat_of_int Interval" by (rule mult_right_mono) (use I in \<open>auto simp: f_def\<close>)
    then show ?thesis using xb(1) [OF that] by linarith
  qed
  have d: "nextDelay Jitter r Interval = (if \<lfloor>x\<rfloor> \<le> 0 then Interval else \<lfloor>x\<rfloor>)" if "0 < Jitter"
    using that assms(3) x0 [OF that] by (simp add: nextDelay_def Let_def x_def f_def not_less)
  have n: "nextDelay Jitter r Interval = Interval" if "\<not> 0 < Jitter" using that by (simp add: nextDelay_def not_less)
  show "0 < nextDelay Jitter r Interval" using assms(3) d n by (cases "0 < Jitter") auto
  show "rat_of_int (nextDelay Jitter r Interval) \<le> (1 + max 0 (min Jitter 1)) * of_int Interval"
    using d n m xb(2) I by (cases "0 < Jitter") (auto simp: algebra_simps intro: order_trans [OF of_int_floor_le])
  show "(1 - max 0 (min Jitter 1)) * of_int Interval - 1 < rat_of_int (nextDelay Jitter r Interval)"
  proof (cases "0 < Jitter")
    case True
    have "x < of_int \<lfloor>x\<rfloor> + 1" by linarith
    then show ?thesis using d m xb(1) True I mult_pos_pos [of f "rat_of_int Interval"] by (auto simp: algebra_simps f_def split: if_splits)
  qed (use n I in \<open>simp add: algebra_simps max_def min_def\<close>)
qed

section \<open>Steps\<close>

text \<open>
  One step of a thread; \<open>ok\<close> is the outcome of the body. \<open>None\<close> means that the thread is blocked on
  \<open>execMu\<close> or does not exist. \<open>CheckClosed\<close> to \<open>Arm\<close> are \<open>checkedExecute\<close>.
\<close>

definition thread_step :: "nat \<Rightarrow> bool \<Rightarrow> Task \<Rightarrow> Task option" where
  "thread_step tid ok t =
     (case mload (t_threads t) tid of
        None \<Rightarrow> None
      | Some Fire \<Rightarrow> Some (goto tid (CheckClosed False True) (fire_access t))
      | Some (CheckClosed s first) \<Rightarrow>
          Some (if hasClosed t then leave tid t else goto tid (if first then LockExec s else Arm) t)
      | Some (LockExec s) \<Rightarrow>
          if t_execMu t = None then Some (goto tid (RecheckClosed s) (t\<lparr>t_execMu := Some tid\<rparr>)) else None
      | Some (RecheckClosed s) \<Rightarrow>
          Some (if hasClosed t then leave tid (t\<lparr>t_execMu := None\<rparr>) else goto tid (Body s) t)
      | Some (Body s) \<Rightarrow> Some (goto tid (if ok then Arm else BodyFailed s) (t\<lparr>t_execMu := None\<rparr>))
      | Some (BodyFailed s) \<Rightarrow>
          (let t = t\<lparr>t_running := False\<rparr> in Some (if s then goto tid StartFailed t else leave tid t))
      | Some StartFailed \<Rightarrow> Some (leave tid (stop_timer (t\<lparr>t_running := False\<rparr>)))
      | Some Arm \<Rightarrow> Some (leave tid (arm t)))"

datatype task_event =
    CallStart nat bool
  | CallClose
  | Expire nat nat
  | Run nat bool

text \<open>
  \<open>CallStart tid first\<close> is a new thread that calls \<open>Start(first)\<close>, \<open>Expire i tid\<close> the expiry of timer
  \<open>i\<close>, whose function runs in the new thread \<open>tid\<close>.
\<close>

fun task_step :: "task_event \<Rightarrow> Task \<Rightarrow> Task option" where
  "task_step (CallStart tid first) t =
     (if mload (t_threads t) tid \<noteq> None then None
      else if t_running t then Some t
      else Some (goto tid (CheckClosed True first) (t\<lparr>t_running := True\<rparr>)))"
| "task_step CallClose t = Some (Task_Close t)"
| "task_step (Expire i tid) t =
     (if i \<in> set (t_pending t) \<and> mload (t_threads t) tid = None
      then Some (goto tid Fire (t\<lparr>t_pending := removeAll i (t_pending t)\<rparr>)) else None)"
| "task_step (Run tid ok) t = thread_step tid ok t"

fun task_run :: "task_event list \<Rightarrow> Task \<Rightarrow> Task option" where
  "task_run [] t = Some t"
| "task_run (e # es) t = Option.bind (task_step e t) (task_run es)"

inductive task_reach :: "Task \<Rightarrow> bool" where
  init: "task_reach new_task"
| step: "task_reach t \<Longrightarrow> task_step e t = Some t' \<Longrightarrow> task_reach t'"

lemma task_reach_run: "task_reach t \<Longrightarrow> task_run es t = Some t' \<Longrightarrow> task_reach t'"
proof (induction es arbitrary: t)
  case (Cons e es)
  then obtain u where u: "task_step e t = Some u" "task_run es u = Some t'"
    by (cases "task_step e t") auto
  show ?case by (rule Cons.IH [OF task_reach.step [OF Cons.prems(1) u(1)] u(2)])
qed simp

section \<open>Mutual exclusion\<close>

fun in_exec :: "pc \<Rightarrow> bool" where
  "in_exec (RecheckClosed _) = True"
| "in_exec (Body _) = True"
| "in_exec _ = False"

definition exec_at :: "Task \<Rightarrow> nat \<Rightarrow> bool" where
  "exec_at t tid = (case mload (t_threads t) tid of None \<Rightarrow> False | Some p \<Rightarrow> in_exec p)"

definition mutex_inv :: "Task \<Rightarrow> bool" where
  "mutex_inv t \<longleftrightarrow> mwf (t_threads t) \<and> (\<forall>tid. exec_at t tid \<longleftrightarrow> t_execMu t = Some tid)"

lemmas section_defs = goto_def leave_def hasClosed_def AfterFunc_def stop_timer_def arm_def fire_access_def Task_Close_def

lemma section_frames [simp]:
  "t_threads (stop_timer t) = t_threads t" "t_execMu (stop_timer t) = t_execMu t" "t_running (stop_timer t) = t_running t"
  "t_threads (arm t) = t_threads t" "t_execMu (arm t) = t_execMu t" "t_running (arm t) = t_running t"
  "t_threads (fire_access t) = t_threads t" "t_execMu (fire_access t) = t_execMu t"
  by (simp_all add: section_defs split: option.split)

lemma exec_at_ops [simp]:
  "exec_at (goto tid q u) k = (if k = tid then in_exec q else exec_at u k)"
  "exec_at (leave tid u) k = (k \<noteq> tid \<and> exec_at u k)"
  by (auto simp: exec_at_def section_defs)

lemma threads_ops [simp]:
  "t_threads (goto tid q u) = mstore (t_threads u) tid q" "t_threads (leave tid u) = mdelete (t_threads u) tid"
  "t_execMu (goto tid q u) = t_execMu u" "t_execMu (leave tid u) = t_execMu u"
  by (simp_all add: section_defs)

lemma exec_at_cong: "t_threads u = t_threads t \<Longrightarrow> exec_at u = exec_at t"
  by (simp add: exec_at_def fun_eq_iff)

lemma mutex_exec: "mutex_inv t \<Longrightarrow> exec_at t k \<longleftrightarrow> t_execMu t = Some k"
  by (simp add: mutex_inv_def)

lemma mutex_goto:
  assumes "mutex_inv t" and "t_threads u = t_threads t"
    and "t_execMu u = (if in_exec q then Some tid else if exec_at t tid then None else t_execMu t)"
    and "in_exec q \<Longrightarrow> exec_at t tid \<or> t_execMu t = None"
  shows "mutex_inv (goto tid q u)"
  unfolding mutex_inv_def
proof (intro conjI allI)
  show "mwf (t_threads (goto tid q u))" using assms(1,2) by (simp add: mutex_inv_def)
  fix k
  show "exec_at (goto tid q u) k \<longleftrightarrow> t_execMu (goto tid q u) = Some k"
    using assms(3,4) exec_at_cong [OF assms(2)] mutex_exec [OF assms(1), of k] mutex_exec [OF assms(1), of tid]
    by (cases "k = tid"; cases "in_exec q"; cases "exec_at t tid") auto
qed

lemma mutex_leave:
  assumes "mutex_inv t" and "t_threads u = t_threads t"
    and "t_execMu u = (if exec_at t tid then None else t_execMu t)"
  shows "mutex_inv (leave tid u)"
  unfolding mutex_inv_def
proof (intro conjI allI)
  show "mwf (t_threads (leave tid u))" using assms(1,2) by (simp add: mutex_inv_def)
  fix k
  show "exec_at (leave tid u) k \<longleftrightarrow> t_execMu (leave tid u) = Some k"
    using assms(3) exec_at_cong [OF assms(2)] mutex_exec [OF assms(1), of k] mutex_exec [OF assms(1), of tid]
    by (cases "k = tid"; cases "exec_at t tid") auto
qed

lemma mutex_thread_step:
  assumes "mutex_inv t" and "thread_step tid ok t = Some t'"
  shows "mutex_inv t'"
proof -
  obtain p where p: "mload (t_threads t) tid = Some p" using assms(2) by (auto simp: thread_step_def split: option.splits)
  then have at: "exec_at t tid = in_exec p" by (simp add: exec_at_def)
  then have mu: "in_exec p \<longleftrightarrow> t_execMu t = Some tid" using assms(1) by (simp add: mutex_inv_def)
  show ?thesis
    using assms(2) p at mu
    by (cases p) (auto simp: thread_step_def Let_def intro!: mutex_goto [OF assms(1)] mutex_leave [OF assms(1)] split: if_splits)
qed

lemma task_reach_mutex: "task_reach t \<Longrightarrow> mutex_inv t"
proof (induction rule: task_reach.induct)
  case init
  show ?case by (simp add: mutex_inv_def new_task_def exec_at_def mload_def)
next
  case (step t e t')
  have none: "mload (t_threads t) tid = None \<Longrightarrow> \<not> exec_at t tid" for tid by (simp add: exec_at_def)
  show ?case
  proof (cases e)
    case (CallStart tid first)
    then show ?thesis
      using step none [of tid] by (auto intro!: mutex_goto [OF step(3)] split: if_splits)
  next
    case (Expire i tid)
    then show ?thesis
      using step none [of tid] by (auto intro!: mutex_goto [OF step(3)] split: if_splits)
  next
    case CallClose
    then show ?thesis using step exec_at_cong [of "Task_Close t" t] by (auto simp: mutex_inv_def Task_Close_def)
  next
    case (Run tid ok)
    then show ?thesis using step mutex_thread_step by simp
  qed
qed

text \<open>
  C15. The body of a task never runs in two goroutines at a time: in every state that calls of
  \<open>Start\<close> and \<open>Close\<close>, expiring timers and steps of the goroutines reach, at most one thread is in the
  body, and it holds \<open>execMu\<close>.
\<close>

theorem body_mutual_exclusion:
  assumes "task_reach t" and "mload (t_threads t) i = Some (Body a)" and "mload (t_threads t) j = Some (Body b)"
  shows "i = j \<and> t_execMu t = Some i"
proof -
  have "exec_at t i" "exec_at t j" using assms(2,3) by (simp_all add: exec_at_def)
  then show ?thesis using mutex_exec [OF task_reach_mutex [OF assms(1)]] by simp
qed

definition example_running :: Task where
  "example_running = the (task_run [CallStart 0 True, Run 0 True, Run 0 True, Run 0 True] new_task)"

lemma example_running_reach: "task_reach example_running"
  by (rule task_reach_run [OF task_reach.init, of "[CallStart 0 True, Run 0 True, Run 0 True, Run 0 True]"])
    (simp add: example_running_def new_task_def thread_step_def section_defs mload_def mstore_def)

theorem body_mutual_exclusion_witness:
  "task_reach example_running \<and> mload (t_threads example_running) 0 = Some (Body True) \<and> t_execMu example_running = Some 0"
proof -
  have b: "mload (t_threads example_running) 0 = Some (Body True)"
    by (simp add: example_running_def new_task_def thread_step_def section_defs mload_def mstore_def)
  show ?thesis using body_mutual_exclusion [OF example_running_reach b b] example_running_reach b by simp
qed

section \<open>Progress\<close>

text \<open>The field of the struct names a live timer or one whose thread is about to consume it, and a
  running task has a timer or a thread that will arm one.\<close>

definition fire_ahead :: "Task \<Rightarrow> bool" where
  "fire_ahead t \<longleftrightarrow> (\<exists>tid. mload (t_threads t) tid = Some Fire)"

definition timer_ok :: "Task \<Rightarrow> bool" where
  "timer_ok t \<longleftrightarrow> (\<forall>i. t_timer t = Some i \<longrightarrow> i \<in> set (t_pending t) \<or> fire_ahead t)"

definition armed_ok :: "Task \<Rightarrow> bool" where
  "armed_ok t \<longleftrightarrow> (t_running t \<longrightarrow> t_pending t \<noteq> [] \<or> t_threads t \<noteq> [])"

fun pc_rank :: "pc \<Rightarrow> nat" where
  "pc_rank Fire = 7"
| "pc_rank (CheckClosed _ _) = 6"
| "pc_rank (LockExec _) = 5"
| "pc_rank (RecheckClosed _) = 4"
| "pc_rank (Body _) = 3"
| "pc_rank (BodyFailed _) = 2"
| "pc_rank StartFailed = 1"
| "pc_rank Arm = 1"

definition task_work :: "Task \<Rightarrow> nat" where
  "task_work t = sum_list (map (\<lambda>e. pc_rank (snd e)) (t_threads t))"

lemma sum_mstore:
  "mload m k = Some v \<Longrightarrow>
   sum_list (map (\<lambda>e. f (snd e)) (mstore m k w)) + f v = sum_list (map (\<lambda>e. f (snd e)) m) + (f w :: nat)"
  by (induction m) (auto simp: mload_def mstore_def split: if_splits)

lemma sum_mdelete:
  "mwf m \<Longrightarrow> mload m k = Some v \<Longrightarrow>
   sum_list (map (\<lambda>e. f (snd e)) (mdelete m k)) + f v = sum_list (map (\<lambda>e. f (snd e)) m :: nat list)"
proof (induction m)
  case (Cons e m)
  show ?case
  proof (cases "fst e = k")
    case True
    have "filter (\<lambda>x. fst x \<noteq> k) m = m" using Cons.prems(1) True by (auto simp: mwf_def image_iff intro!: filter_True)
    then show ?thesis using Cons.prems True by (cases e) (simp add: mdelete_eq_filter mload_def)
  next
    case False
    then show ?thesis using Cons by (cases e) (simp add: mdelete_eq_filter mload_def mwf_def)
  qed
qed (simp add: mload_def)

lemma work_goto:
  "mload (t_threads u) tid = Some p \<Longrightarrow> task_work (goto tid q u) + pc_rank p = task_work u + pc_rank q"
  by (simp add: task_work_def sum_mstore)

lemma work_leave:
  "mwf (t_threads u) \<Longrightarrow> mload (t_threads u) tid = Some p \<Longrightarrow> task_work (leave tid u) + pc_rank p = task_work u"
  by (simp add: task_work_def sum_mdelete)

lemma work_cong: "t_threads u = t_threads t \<Longrightarrow> task_work u = task_work t"
  by (simp add: task_work_def)

lemma pc_rank_pos: "0 < pc_rank p"
  by (cases p) auto

lemma goto_less: "mload (t_threads t) tid = Some p \<Longrightarrow> t_threads u = t_threads t \<Longrightarrow> pc_rank q < pc_rank p \<Longrightarrow>
  task_work (goto tid q u) < task_work t"
  using work_goto [of u tid p q] work_cong [of u t] by simp

lemma leave_less: "mload (t_threads t) tid = Some p \<Longrightarrow> t_threads u = t_threads t \<Longrightarrow> mwf (t_threads t) \<Longrightarrow>
  task_work (leave tid u) < task_work t"
  using work_leave [of u tid p] work_cong [of u t] pc_rank_pos [of p] by simp

lemma thread_step_works:
  assumes "mwf (t_threads t)" and "thread_step tid ok t = Some t'"
  shows "task_work t' < task_work t"
proof -
  obtain p where p: "mload (t_threads t) tid = Some p" using assms(2) by (auto simp: thread_step_def split: option.splits)
  show ?thesis
    using assms p
    by (cases p) (auto simp: thread_step_def Let_def intro!: goto_less [OF p] leave_less [OF p] split: if_splits)
qed

lemma fire_ahead_ops:
  assumes "fire_ahead t" and "t_threads u = t_threads t" and "mload (t_threads t) tid \<noteq> Some Fire"
  shows "fire_ahead (goto tid q u)" "fire_ahead (leave tid u)"
proof -
  obtain k where k: "mload (t_threads t) k = Some Fire" "k \<noteq> tid" using assms(1,3) by (auto simp: fire_ahead_def)
  then show "fire_ahead (goto tid q u)" "fire_ahead (leave tid u)"
    using assms(2) by (auto simp: fire_ahead_def intro!: exI [of _ k])
qed

lemma timer_ok_none: "t_timer t = None \<Longrightarrow> timer_ok t"
  by (simp add: timer_ok_def)

lemma timer_ok_ops:
  assumes "timer_ok t" and "t_threads u = t_threads t" and "mload (t_threads t) tid \<noteq> Some Fire"
    and "t_timer u = t_timer t \<and> t_pending u = t_pending t"
  shows "timer_ok (goto tid q u)" "timer_ok (leave tid u)"
  using assms fire_ahead_ops [OF _ assms(2,3)] by (auto simp: timer_ok_def section_defs)

lemma arm_timer:
  assumes "timer_ok t" and "t_running t" and "mload (t_threads t) tid \<noteq> Some Fire"
  shows "timer_ok (leave tid (arm t))" "t_pending (arm t) \<noteq> [] \<or> fire_ahead (leave tid (arm t))"
proof -
  have f: "fire_ahead (leave tid (arm t))" if "fire_ahead t" using fire_ahead_ops(2) [OF that _ assms(3)] by simp
  then show "timer_ok (leave tid (arm t))" "t_pending (arm t) \<noteq> [] \<or> fire_ahead (leave tid (arm t))"
    using assms by (auto simp: timer_ok_def arm_def AfterFunc_def leave_def)
qed

lemma armed_ok_goto: "armed_ok (goto tid q u)"
  by (simp add: armed_ok_def)

lemma armed_ok_stopped: "\<not> t_running t \<Longrightarrow> armed_ok t"
  by (simp add: armed_ok_def)

lemma running_ops [simp]: "t_running (goto tid q u) = t_running u" "t_running (leave tid u) = t_running u"
    "t_pending (leave tid u) = t_pending u"
  by (simp_all add: section_defs)

lemma armed_thread_step:
  assumes "timer_ok t" and "thread_step tid ok t = Some t'"
  shows "armed_ok t'"
proof -
  obtain p where p: "mload (t_threads t) tid = Some p" using assms(2) by (auto simp: thread_step_def split: option.splits)
  have "armed_ok (leave tid (arm t))" if "p = Arm"
  proof (cases "t_running t")
    case True
    then show ?thesis
      using arm_timer(2) [OF assms(1) True, of tid] p that by (auto simp: armed_ok_def fire_ahead_def mload_def)
  qed (simp add: armed_ok_def)
  then show ?thesis
    using assms(2) p
    by (cases p) (auto simp: thread_step_def Let_def hasClosed_def armed_ok_goto armed_ok_stopped split: if_splits)
qed

lemma timer_thread_step:
  assumes "timer_ok t" and "thread_step tid ok t = Some t'"
  shows "timer_ok t'"
proof -
  obtain p where p: "mload (t_threads t) tid = Some p" using assms(2) by (auto simp: thread_step_def split: option.splits)
  have stopped: "timer_ok (leave tid (stop_timer u))" for u
    by (rule timer_ok_none) (simp add: section_defs split: option.split)
  have fired: "timer_ok (goto tid q (fire_access u))" for q u by (rule timer_ok_none) (simp add: section_defs)
  have "timer_ok (leave tid (arm t))" if "p = Arm"
  proof (cases "t_running t")
    case True
    then show ?thesis using arm_timer(1) [OF assms(1) True, of tid] p that by simp
  next
    case False
    then show ?thesis using timer_ok_ops(2) [OF assms(1), of t tid] p that by (simp add: arm_def)
  qed
  then show ?thesis
    using assms(2) p
    by (cases p) (auto simp: thread_step_def Let_def intro: stopped fired timer_ok_ops [OF assms(1)] split: if_splits)
qed

lemma task_reach_sched: "task_reach t \<Longrightarrow> timer_ok t \<and> armed_ok t"
proof (induction rule: task_reach.induct)
  case init
  show ?case by (simp add: timer_ok_def armed_ok_def new_task_def)
next
  case (step t e t')
  show ?case
  proof (cases e)
    case (CallStart tid first)
    then show ?thesis using step by (auto simp: armed_ok_goto intro!: timer_ok_ops split: if_splits)
  next
    case (Expire i tid)
    have "fire_ahead (goto tid Fire u)" for u by (auto simp: fire_ahead_def intro!: exI [of _ tid])
    then show ?thesis using Expire step by (auto simp: armed_ok_goto timer_ok_def split: if_splits)
  next
    case CallClose
    then have "t_timer t' = None" "\<not> t_running t'" using step(2) by (auto simp: Task_Close_def stop_timer_def split: option.splits)
    then show ?thesis by (simp add: timer_ok_none armed_ok_stopped)
  next
    case (Run tid ok)
    then show ?thesis using step timer_thread_step armed_thread_step by (metis task_step.simps(4))
  qed
qed

text \<open>Some thread can always move: the one that holds \<open>execMu\<close> never waits for it.\<close>

lemma thread_not_stuck:
  assumes "mutex_inv t" and "t_threads t \<noteq> []"
  shows "\<exists>tid. thread_step tid True t \<noteq> None"
proof (rule ccontr)
  assume stuck: "\<nexists>tid. thread_step tid True t \<noteq> None"
  obtain tid p where p: "mload (t_threads t) tid = Some p"
    using assms(2) by (metis mload_None_iff image_eqI list.set_intros(1) neq_Nil_conv not_None_eq)
  then have "t_execMu t \<noteq> None" using stuck [simplified, rule_format, of tid]
    by (cases p) (auto simp: thread_step_def Let_def split: if_splits)
  then obtain k where "exec_at t k" using mutex_exec [OF assms(1)] by auto
  then obtain q where "mload (t_threads t) k = Some q" "in_exec q" by (auto simp: exec_at_def split: option.splits)
  then show False using stuck [simplified, rule_format, of k] by (cases q) (auto simp: thread_step_def)
qed

fun is_run :: "task_event \<Rightarrow> bool" where
  "is_run (Run _ _) = True"
| "is_run _ = False"

lemma run_work:
  "task_reach t \<Longrightarrow> list_all is_run es \<Longrightarrow> task_run es t = Some t' \<Longrightarrow> length es + task_work t' \<le> task_work t"
proof (induction es arbitrary: t)
  case (Cons e es)
  then obtain tid ok u where e: "e = Run tid ok" and u: "thread_step tid ok t = Some u" "task_run es u = Some t'"
    by (cases e; cases "task_step e t") auto
  have r: "task_reach u" by (rule task_reach.step [OF Cons.prems(1), of e]) (simp add: e u)
  have "task_work u < task_work t"
    using thread_step_works [OF _ u(1)] task_reach_mutex [OF Cons.prems(1)] by (simp add: mutex_inv_def)
  then show ?case using Cons.IH [OF r _ u(2)] Cons.prems(2) by simp
qed simp

text \<open>
  C16. A started task never stalls: from every reachable state, whatever the order in which the
  goroutines are scheduled and whatever the bodies return, the goroutines make at most \<open>task_work t\<close>
  steps, they never deadlock on \<open>execMu\<close>, and when none of them is left a task that is still running
  has a timer armed for the next run.
\<close>

theorem task_never_stalls:
  assumes "task_reach t" and "list_all is_run es" and "task_run es t = Some t'"
  shows "length es \<le> task_work t \<and>
         ((\<exists>tid. thread_step tid True t' \<noteq> None) \<or> (t_threads t' = [] \<and> (t_running t' \<longrightarrow> t_pending t' \<noteq> [])))"
proof -
  have "task_reach t'" by (rule task_reach_run [OF assms(1,3)])
  then show ?thesis
    using run_work [OF assms] thread_not_stuck [of t'] task_reach_mutex [of t'] task_reach_sched [of t']
    by (auto simp: armed_ok_def)
qed

theorem task_never_stalls_witness:
  "task_run [Run 0 True, Run 0 True] example_running
   = Some (the (task_run [Run 0 True, Run 0 True] example_running)) \<and> 2 \<le> task_work example_running
   \<and> t_pending (the (task_run [Run 0 True, Run 0 True] example_running)) \<noteq> []"
proof -
  let ?es = "[Run 0 True, Run 0 True]" and ?u = "the (task_run [Run 0 True, Run 0 True] example_running)"
  have run: "task_run ?es example_running = Some ?u" and u: "t_running ?u" "t_threads ?u = []"
    by (simp_all add: example_running_def new_task_def thread_step_def section_defs mload_def mstore_def mdelete_def)
  have "\<not> (\<exists>tid. thread_step tid True ?u \<noteq> None)" using u(2) by (simp add: thread_step_def mload_def)
  then show ?thesis using task_never_stalls [OF example_running_reach _ run] run u by simp
qed

section \<open>A stale expiry\<close>

text \<open>
  \<open>fire\<close> clears the field without checking that it still names the timer that expired. When the task
  is closed and restarted between the expiry and \<open>fire\<close>, the field already names the new timer.
\<close>

definition stale_fire :: "task_event list" where
  "stale_fire = [CallStart 0 False, Run 0 True, Run 0 True, Expire 0 1, CallClose, CallStart 2 False, Run 2 True, Run 2 True] @
     replicate 6 (Run 1 True)"

definition both_rounds :: "nat \<Rightarrow> nat \<Rightarrow> task_event list" where
  "both_rounds i j = Expire i 0 # replicate 6 (Run 0 True) @ Expire j 0 # replicate 6 (Run 0 True)"

text \<open>
  Restarting a task while its timer expires doubles it: after \<open>Close\<close> and \<open>Start(false)\<close> the
  late \<open>fire\<close> of the old timer forgets the new one and arms a further timer, so the task then has two
  timers, and every interval runs the body twice and arms two timers again.
\<close>

theorem stale_fire_doubles_task:
  "map_option (\<lambda>t. (t_running t, t_threads t, t_pending t)) (task_run stale_fire new_task) = Some (True, [], [2, 1])
   \<and> (t_running t \<and> t_threads t = [] \<and> t_execMu t = None \<and> t_pending t = [i, j] \<and> i \<noteq> j \<and> i < t_fresh t \<and> j < t_fresh t \<longrightarrow>
      map_option (\<lambda>t. (t_running t, t_threads t, t_pending t)) (task_run (both_rounds i j) t)
      = Some (True, [], [Suc (t_fresh t), t_fresh t]))"
  by (simp add: stale_fire_def both_rounds_def new_task_def thread_step_def section_defs mload_def mstore_def mdelete_def
      eval_nat_numeral)

theorem stale_fire_doubles_task_witness:
  "map_option t_pending (Option.bind (task_run stale_fire new_task) (task_run (both_rounds 2 1))) = Some [4, 3]"
proof -
  obtain t where t: "task_run stale_fire new_task = Some t" "t_running t \<and> t_threads t = [] \<and> t_pending t = [2, 1]"
    using stale_fire_doubles_task [THEN conjunct1] by (auto simp del: One_nat_def)
  then have "t_execMu t = None \<and> t_fresh t = 3"
    by (auto simp: stale_fire_def new_task_def thread_step_def section_defs mload_def mstore_def mdelete_def eval_nat_numeral)
  then show ?thesis using stale_fire_doubles_task [of t 2 1] t by auto
qed

end
