(* ===== verification/Xray_Dispatcher.thy ===== *)
theory Xray_Dispatcher
  imports Xray_User Sing_Hook
begin

text \<open>
  The dispatcher of the Xray core (\<open>core/xray/app/dispatcher\<close>): admission of a connection with its
  rate limit and counters (\<open>getLink\<close>, \<open>wrapLink\<close>), sniffing (\<open>sniffer.go\<close>, \<open>fakednssniffer.go\<close>, the
  cached reader), the override of the destination, and \<open>routedDispatch\<close>, which holds the online
  reference and the connection slot for the life of the connection. Pipes, handlers, the router and the
  protocol sniffers belong to Xray: a link is the list of wrappers put around its reader and writer,
  the rest are arguments.
\<close>

section \<open>Sessions and links\<close>

datatype net_Network = Network_Unknown | Network_TCP | Network_UDP | Network_UNIX

text \<open>An address is an IP with its text, or a domain.\<close>

datatype net_Address = IPAddress string | DomainAddress string

record MemoryUser =
  mu_Email :: string
  mu_Level :: int

record session_Inbound =
  si_Tag :: string
  si_User :: "MemoryUser option"
  si_SourceAddress :: net_Address
  si_SourceNetwork :: net_Network
  si_CanSpliceCopy :: int

record net_Destination =
  nd_Address :: net_Address
  nd_Network :: net_Network

fun address_string :: "net_Address \<Rightarrow> string" where
  "address_string (IPAddress s) = s"
| "address_string (DomainAddress s) = s"

fun is_ip :: "net_Address \<Rightarrow> bool" where
  "is_ip (IPAddress _) = True"
| "is_ip (DomainAddress _) = False"

definition sourceIPString :: "session_Inbound option \<Rightarrow> string" where
  "sourceIPString inb =
     (case inb of
        None \<Rightarrow> ''''
      | Some i \<Rightarrow> (case si_SourceAddress i of IPAddress s \<Rightarrow> s | DomainAddress s \<Rightarrow> s))"

text \<open>The wrappers of one end of a link, the outermost first.\<close>

datatype 'b wrapper = RateLimit 'b | SizeStat string | TimeoutWrapper "string option"

record 'b Link =
  lk_Reader :: "'b wrapper list"
  lk_Writer :: "'b wrapper list"

section \<open>Admission\<close>

text \<open>
  \<open>register\<close> is \<open>GetOrRegisterCounter\<close> (\<open>False\<close> when it returns no counter), \<open>forLevel\<close> the two flags
  \<open>UserUplink\<close> and \<open>UserDownlink\<close> of the policy. On an error both ends of the link are closed, and on
  success the limiter is the one of the tag.
\<close>

definition stat_writer ::
  "('m \<Rightarrow> string \<Rightarrow> 'm \<times> bool) \<Rightarrow> bool \<Rightarrow> string \<Rightarrow> 'm \<times> 'b wrapper list \<Rightarrow> 'm \<times> 'b wrapper list" where
  "stat_writer register enabled name x =
     (case x of (stats, w) \<Rightarrow>
        if enabled then (case register stats name of (stats, True) \<Rightarrow> (stats, SizeStat name # w) | (stats, False) \<Rightarrow> (stats, w))
        else (stats, w))"

definition no_splice :: "session_Inbound option \<Rightarrow> session_Inbound option" where
  "no_splice = map_option (\<lambda>i. i\<lparr>si_CanSpliceCopy := 3\<rparr>)"

definition getLink ::
  "(duration \<Rightarrow> int \<Rightarrow> int \<Rightarrow> 'b) \<Rightarrow> (int \<Rightarrow> bool \<times> bool) \<Rightarrow> ('m \<Rightarrow> string \<Rightarrow> 'm \<times> bool) \<Rightarrow> gotime
   \<Rightarrow> ('re, 'b) limiters \<Rightarrow> 'm \<Rightarrow> session_Inbound option \<Rightarrow> net_Network
   \<Rightarrow> (('re, 'b) limiters \<times> 'm \<times> session_Inbound option \<times> (string + 'b Link \<times> 'b Link \<times> string option)) go" where
  "getLink nb forLevel register now limiter stats inb network =
     (let plain = \<lparr>lk_Reader = [], lk_Writer = []\<rparr>;
          inb = no_splice inb in
      case Option.bind inb (\<lambda>i. map_option (Pair i) (si_User i)) of
        None \<Rightarrow> Some (limiter, stats, inb, Inr (plain, plain, None))
      | Some (i, user) \<Rightarrow>
          if mu_Email user = '''' then Some (limiter, stats, inb, Inr (plain, plain, None))
          else case GetLimiter limiter (si_Tag i) of
            Inl _ \<Rightarrow> Some (limiter, stats, inb, Inl (''get limiter '' @ si_Tag i @ '' error: not found''))
          | Inr l \<Rightarrow>
              (case CheckLimit nb now l (mu_Email user) (sourceIPString inb) (network = Network_TCP)
                      (si_SourceNetwork i = Network_TCP) of
                 None \<Rightarrow> None
               | Some (l, w, reject) \<Rightarrow>
                   let limiter = put_limiter limiter (si_Tag i) l in
                   if reject then Some (limiter, stats, inb, Inl (''Limited '' @ mu_Email user @ '' by conn or ip''))
                   else
                     let rated = (case w of Some b \<Rightarrow> [RateLimit b] | None \<Rightarrow> []);
                         (stats, up) = stat_writer register (fst (forLevel (mu_Level user))) (uplink_name (mu_Email user)) (stats, rated);
                         (stats, down) = stat_writer register (snd (forLevel (mu_Level user))) (downlink_name (mu_Email user)) (stats, rated)
                     in Some (limiter, stats, inb,
                          Inr (\<lparr>lk_Reader = [], lk_Writer = up\<rparr>, \<lparr>lk_Reader = [], lk_Writer = down\<rparr>, Some (si_Tag i)))))"

definition wrapLink ::
  "(duration \<Rightarrow> int \<Rightarrow> int \<Rightarrow> 'b) \<Rightarrow> (int \<Rightarrow> bool \<times> bool) \<Rightarrow> ('m \<Rightarrow> string \<Rightarrow> 'm \<times> bool) \<Rightarrow> gotime
   \<Rightarrow> ('re, 'b) limiters \<Rightarrow> 'm \<Rightarrow> session_Inbound option \<Rightarrow> 'b Link option \<Rightarrow> net_Network
   \<Rightarrow> (('re, 'b) limiters \<times> 'm \<times> session_Inbound option \<times> (string + 'b Link \<times> string option)) go" where
  "wrapLink nb forLevel register now limiter stats inb link network =
     (case link of
        None \<Rightarrow> Some (limiter, stats, inb, Inl ''nil transport link'')
      | Some link \<Rightarrow>
          let timed = link\<lparr>lk_Reader := TimeoutWrapper None # lk_Reader link\<rparr>;
              inb = no_splice inb in
          (case Option.bind inb (\<lambda>i. map_option (Pair i) (si_User i)) of
             None \<Rightarrow> Some (limiter, stats, inb, Inr (timed, None))
           | Some (i, user) \<Rightarrow>
               if mu_Email user = '''' then Some (limiter, stats, inb, Inr (timed, None))
               else case GetLimiter limiter (si_Tag i) of
                 Inl _ \<Rightarrow> Some (limiter, stats, inb, Inl (''get limiter '' @ si_Tag i @ '' error: not found''))
               | Inr l \<Rightarrow>
                   (case CheckLimit nb now l (mu_Email user) (sourceIPString inb) (network = Network_TCP)
                           (si_SourceNetwork i = Network_TCP) of
                      None \<Rightarrow> None
                    | Some (l, w, reject) \<Rightarrow>
                        let limiter = put_limiter limiter (si_Tag i) l in
                        if reject then Some (limiter, stats, inb, Inl (''Limited '' @ mu_Email user @ '' by conn or ip''))
                        else
                          let rated = (case w of Some b \<Rightarrow> [RateLimit b] | None \<Rightarrow> []);
                              (stats, counted) = (if fst (forLevel (mu_Level user)) then register stats (uplink_name (mu_Email user)) else (stats, False));
                              (stats, writer) = stat_writer register (snd (forLevel (mu_Level user))) (downlink_name (mu_Email user))
                                (stats, rated @ lk_Writer link)
                          in Some (limiter, stats, inb,
                               Inr (\<lparr>lk_Reader = TimeoutWrapper (if counted then Some (uplink_name (mu_Email user)) else None) # rated @ lk_Reader link,
                                     lk_Writer = writer\<rparr>, Some (si_Tag i))))))"

section \<open>Sniffing\<close>

text \<open>The results of the sniffers; \<open>Plain\<close> stands for the results of the protocol sniffers of Xray.\<close>

datatype SniffResult =
    Plain string string
  | FakeDNSSniffResult string
  | DNSThenOthersSniffResult string string
  | CompositeResult SniffResult SniffResult

fun sr_Protocol :: "SniffResult \<Rightarrow> string" where
  "sr_Protocol (Plain p _) = p"
| "sr_Protocol (FakeDNSSniffResult _) = ''fakedns''"
| "sr_Protocol (DNSThenOthersSniffResult _ _) = ''fakedns+others''"
| "sr_Protocol (CompositeResult _ p) = sr_Protocol p"

fun sr_Domain :: "SniffResult \<Rightarrow> string" where
  "sr_Domain (Plain _ d) = d"
| "sr_Domain (FakeDNSSniffResult d) = d"
| "sr_Domain (DNSThenOthersSniffResult d _) = d"
| "sr_Domain (CompositeResult d _) = sr_Domain d"

definition ProtocolForDomainResult :: "SniffResult \<Rightarrow> string" where
  "ProtocolForDomainResult r = (case r of CompositeResult d _ \<Rightarrow> sr_Protocol d | _ \<Rightarrow> sr_Protocol r)"

fun IsProtoSubsetOf :: "SniffResult \<Rightarrow> string \<Rightarrow> bool" where
  "IsProtoSubsetOf (DNSThenOthersSniffResult _ original) protocolName = strings_HasPrefix protocolName original"
| "IsProtoSubsetOf _ _ = False"

datatype sniff_outcome = NoClue | SniffError | Sniffed "SniffResult option"

record protocolSnifferWithMetadata =
  ps_protocolSniffer :: "string option \<Rightarrow> sniff_outcome"
  ps_metadataSniffer :: bool
  ps_network :: net_Network

text \<open>
  The loop of \<open>Sniff\<close> and of \<open>SniffMetadata\<close>: the sniffers that are skipped but kept, and those that
  need more data, stay for the next attempt; \<open>Inl True\<close> is \<open>ErrNoClue\<close>, \<open>Inl False\<close> \<open>errUnknownContent\<close>.
\<close>

fun Sniff_loop ::
  "string \<Rightarrow> net_Network \<Rightarrow> protocolSnifferWithMetadata list \<Rightarrow> protocolSnifferWithMetadata list
   \<Rightarrow> protocolSnifferWithMetadata list + SniffResult" where
  "Sniff_loop payload network [] pending = Inl pending"
| "Sniff_loop payload network (si # rest) pending =
     (if ps_metadataSniffer si \<or> ps_network si \<noteq> network then Sniff_loop payload network rest pending
      else case ps_protocolSniffer si (Some payload) of
        NoClue \<Rightarrow> Sniff_loop payload network rest (pending @ [si])
      | Sniffed (Some r) \<Rightarrow> Inr r
      | _ \<Rightarrow> Sniff_loop payload network rest pending)"

definition Sniff ::
  "protocolSnifferWithMetadata list \<Rightarrow> string \<Rightarrow> net_Network \<Rightarrow> protocolSnifferWithMetadata list \<times> (bool + SniffResult)" where
  "Sniff sniffers payload network =
     (case Sniff_loop payload network sniffers [] of
        Inr r \<Rightarrow> (sniffers, Inr r)
      | Inl pending \<Rightarrow> if pending \<noteq> [] then (pending, Inl True) else (sniffers, Inl False))"

fun SniffMetadata_loop ::
  "protocolSnifferWithMetadata list \<Rightarrow> protocolSnifferWithMetadata list \<Rightarrow> protocolSnifferWithMetadata list + SniffResult" where
  "SniffMetadata_loop [] pending = Inl pending"
| "SniffMetadata_loop (si # rest) pending =
     (if \<not> ps_metadataSniffer si then SniffMetadata_loop rest (pending @ [si])
      else case ps_protocolSniffer si None of
        NoClue \<Rightarrow> SniffMetadata_loop rest (pending @ [si])
      | Sniffed (Some r) \<Rightarrow> Inr r
      | _ \<Rightarrow> SniffMetadata_loop rest pending)"

definition SniffMetadata ::
  "protocolSnifferWithMetadata list \<Rightarrow> protocolSnifferWithMetadata list \<times> (bool + SniffResult)" where
  "SniffMetadata sniffers =
     (case SniffMetadata_loop sniffers [] of
        Inr r \<Rightarrow> (sniffers, Inr r)
      | Inl pending \<Rightarrow> if pending \<noteq> [] then (pending, Inl True) else (sniffers, Inl False))"

text \<open>
  \<open>fakednssniffer.go\<close>: \<open>fd_InPool\<close> is there when the engine implements \<open>FakeDNSEngineRev0\<close>. The second
  result of \<open>fakeDNS_sniff\<close> is what it stores under \<open>ipAddressInRange\<close>. No sniffer of Xray returns
  neither a result nor an error.
\<close>

record fakeDNSEngine =
  fd_GetDomainFromFakeDNS :: "net_Address \<Rightarrow> string"
  fd_IsIPInIPPool :: "(net_Address \<Rightarrow> bool) option"

definition fakeDNS_sniff :: "fakeDNSEngine \<Rightarrow> net_Destination \<Rightarrow> sniff_outcome \<times> bool option" where
  "fakeDNS_sniff e target =
     (if (nd_Network target = Network_TCP \<or> nd_Network target = Network_UDP) \<and> fd_GetDomainFromFakeDNS e (nd_Address target) \<noteq> ''''
      then (Sniffed (Some (FakeDNSSniffResult (fd_GetDomainFromFakeDNS e (nd_Address target)))), None)
      else (NoClue, map_option (\<lambda>f. f (nd_Address target)) (fd_IsIPInIPPool e)))"

definition newFakeDNSSniffer :: "fakeDNSEngine option \<Rightarrow> net_Destination \<Rightarrow> protocolSnifferWithMetadata option" where
  "newFakeDNSSniffer fdns target =
     map_option (\<lambda>e. \<lparr>ps_protocolSniffer = (\<lambda>_. fst (fakeDNS_sniff e target)), ps_metadataSniffer = True, ps_network = Network_Unknown\<rparr>) fdns"

fun others_loop :: "protocolSnifferWithMetadata list \<Rightarrow> string option \<Rightarrow> sniff_outcome" where
  "others_loop [] bytes = NoClue"
| "others_loop (v # others) bytes =
     (if ps_metadataSniffer v \<or> bytes \<noteq> None
      then (case ps_protocolSniffer v bytes of
              Sniffed (Some r) \<Rightarrow> Sniffed (Some (DNSThenOthersSniffResult (sr_Domain r) (sr_Protocol r)))
            | _ \<Rightarrow> others_loop others bytes)
      else others_loop others bytes)"

definition newFakeDNSThenOthers :: "fakeDNSEngine \<Rightarrow> net_Destination \<Rightarrow> protocolSnifferWithMetadata list \<Rightarrow> protocolSnifferWithMetadata" where
  "newFakeDNSThenOthers e target others =
     \<lparr>ps_protocolSniffer =
        (\<lambda>bytes. case fakeDNS_sniff e target of
           (Sniffed r, _) \<Rightarrow> Sniffed r
         | (_, Some True) \<Rightarrow> others_loop others bytes
         | _ \<Rightarrow> NoClue),
      ps_metadataSniffer = False, ps_network = Network_Unknown\<rparr>"

definition NewSniffer ::
  "(string \<Rightarrow> sniff_outcome) \<Rightarrow> (string \<Rightarrow> sniff_outcome) \<Rightarrow> (string \<Rightarrow> sniff_outcome) \<Rightarrow> (string \<Rightarrow> sniff_outcome) \<Rightarrow> (string \<Rightarrow> sniff_outcome)
   \<Rightarrow> fakeDNSEngine option \<Rightarrow> net_Destination \<Rightarrow> protocolSnifferWithMetadata list" where
  "NewSniffer http tls bittorrent quic utp fdns target =
     (let content = (\<lambda>f network. \<lparr>ps_protocolSniffer = (\<lambda>b. f (case b of None \<Rightarrow> '''' | Some x \<Rightarrow> x)), ps_metadataSniffer = False, ps_network = network\<rparr>);
          ret = [content http Network_TCP, content tls Network_TCP, content bittorrent Network_TCP, content quic Network_UDP, content utp Network_UDP]
      in case fdns of
           None \<Rightarrow> ret
         | Some e \<Rightarrow>
             (case newFakeDNSSniffer fdns target of
                None \<Rightarrow> ret
              | Some fake \<Rightarrow> newFakeDNSThenOthers e target ret # ret @ [fake]))"

text \<open>
  The cached reader: \<open>ca_reader\<close> are the answers the reader gives to the coming calls, \<open>ca_cache\<close> the
  bytes read for the sniffers and not yet delivered.
\<close>

datatype read_answer = Data string | ReadError

record cachedReader =
  ca_reader :: "read_answer list"
  ca_cache :: string

definition read_next :: "cachedReader \<Rightarrow> cachedReader \<times> string option" where
  "read_next r =
     (case ca_reader r of
        [] \<Rightarrow> (r, None)
      | ReadError # rest \<Rightarrow> (r\<lparr>ca_reader := rest\<rparr>, None)
      | Data mb # rest \<Rightarrow> (r\<lparr>ca_reader := rest\<rparr>, Some mb))"

text \<open>\<open>Cache\<close> returns the payload, which is a copy of the whole cache.\<close>

definition cachedReader_Cache :: "cachedReader \<Rightarrow> cachedReader \<times> string option" where
  "cachedReader_Cache r =
     (case read_next r of
        (r, None) \<Rightarrow> (r, None)
      | (r, Some mb) \<Rightarrow>
          let r = (if mb \<noteq> '''' then r\<lparr>ca_cache := ca_cache r @ mb\<rparr> else r)
          in (r, Some (ca_cache r)))"

definition readInternal :: "cachedReader \<Rightarrow> cachedReader \<times> string option" where
  "readInternal r = (if ca_cache r \<noteq> '''' then (r\<lparr>ca_cache := ''''\<rparr>, Some (ca_cache r)) else (r, None))"

definition cachedReader_ReadMultiBuffer :: "cachedReader \<Rightarrow> cachedReader \<times> string option" where
  "cachedReader_ReadMultiBuffer r = (case readInternal r of (r, Some mb) \<Rightarrow> (r, Some mb) | (r, None) \<Rightarrow> read_next r)"

definition cachedReader_Interrupt :: "cachedReader \<Rightarrow> cachedReader" where
  "cachedReader_Interrupt r = r\<lparr>ca_cache := ''''\<rparr>"

definition newCachedReader :: "read_answer list \<Rightarrow> cachedReader" where
  "newCachedReader reader = \<lparr>ca_reader = reader, ca_cache = ''''\<rparr>"

datatype sniff_error = ContextDone | SniffingTimeout | CacheError | UnknownContent | NoClueError

text \<open>
  The loop over the content: \<open>done k\<close> says that the context is done when \<open>k\<close> attempts are left, and
  \<open>full\<close> that the payload of that length fills its buffer.
\<close>

fun content_loop ::
  "(nat \<Rightarrow> bool) \<Rightarrow> (nat \<Rightarrow> bool) \<Rightarrow> net_Network \<Rightarrow> nat \<Rightarrow> cachedReader \<Rightarrow> protocolSnifferWithMetadata list
   \<Rightarrow> cachedReader \<times> (sniff_error + SniffResult)" where
  "content_loop cancelled full network 0 r ss = (r, Inl (if cancelled 0 then ContextDone else SniffingTimeout))"
| "content_loop cancelled full network (Suc n) r ss =
     (if cancelled (Suc n) then (r, Inl ContextDone)
      else case cachedReader_Cache r of
        (r, None) \<Rightarrow> (r, Inl CacheError)
      | (r, Some payload) \<Rightarrow>
          if payload \<noteq> '''' then
            (case Sniff ss payload network of
               (ss, Inr x) \<Rightarrow> (r, Inr x)
             | (ss, Inl False) \<Rightarrow> (r, Inl UnknownContent)
             | (ss, Inl True) \<Rightarrow>
                 if full (length payload) then (r, Inl UnknownContent) else content_loop cancelled full network n r ss)
          else if full 0 then (r, Inl UnknownContent)
          else content_loop cancelled full network n r ss)"

definition sniffer ::
  "(nat \<Rightarrow> bool) \<Rightarrow> (nat \<Rightarrow> bool) \<Rightarrow> bool \<Rightarrow> net_Network \<Rightarrow> cachedReader \<Rightarrow> protocolSnifferWithMetadata list
   \<Rightarrow> cachedReader \<times> (sniff_error + SniffResult)" where
  "sniffer cancelled full metadataOnly network r ss =
     (case SniffMetadata ss of
        (ss, meta) \<Rightarrow>
          if metadataOnly then
            (r, case meta of Inr x \<Rightarrow> Inr x | Inl True \<Rightarrow> Inl NoClueError | Inl False \<Rightarrow> Inl UnknownContent)
          else case content_loop cancelled full network 2 r ss of
            (r, content) \<Rightarrow>
              (r, case (content, meta) of
                    (Inl _, Inr m) \<Rightarrow> Inr m
                  | (Inr c, Inr m) \<Rightarrow> Inr (CompositeResult m c)
                  | _ \<Rightarrow> content))"

section \<open>The destination\<close>

text \<open>\<open>ExcludeForDomain\<close> and \<open>ExcludeForIP\<close> are matchers of Xray, here predicates.\<close>

record SniffingRequest =
  sq_ExcludeForDomain :: "(string \<Rightarrow> bool) option"
  sq_ExcludeForIP :: "(net_Address \<Rightarrow> bool) option"
  sq_OverrideDestinationForProtocol :: "string list"
  sq_Enabled :: bool
  sq_MetadataOnly :: bool
  sq_RouteOnly :: bool

definition in_fake_pool :: "fakeDNSEngine option \<Rightarrow> net_Address \<Rightarrow> bool" where
  "in_fake_pool fdns a = (is_ip a \<and> (case Option.bind fdns fd_IsIPInIPPool of None \<Rightarrow> False | Some f \<Rightarrow> f a))"

fun override_loop :: "fakeDNSEngine option \<Rightarrow> SniffResult \<Rightarrow> string \<Rightarrow> net_Address \<Rightarrow> string list \<Rightarrow> bool" where
  "override_loop fdns result protocolString a [] = False"
| "override_loop fdns result protocolString a (p # ps) =
     (if strings_HasPrefix protocolString p \<or> strings_HasPrefix p protocolString then True
      else if protocolString \<noteq> ''bittorrent'' \<and> p = ''fakedns'' \<and> in_fake_pool fdns a then True
      else if IsProtoSubsetOf result p then True
      else override_loop fdns result protocolString a ps)"

definition shouldOverride :: "fakeDNSEngine option \<Rightarrow> SniffResult \<Rightarrow> SniffingRequest \<Rightarrow> net_Destination \<Rightarrow> bool" where
  "shouldOverride fdns result request destination =
     (if sr_Domain result = '''' then False
      else if (case sq_ExcludeForDomain request of None \<Rightarrow> False | Some m \<Rightarrow> m (strings_ToLower (sr_Domain result))) then False
      else if (case sq_ExcludeForIP request of None \<Rightarrow> False | Some m \<Rightarrow> is_ip (nd_Address destination) \<and> m (nd_Address destination)) then False
      else override_loop fdns result (ProtocolForDomainResult result) (nd_Address destination) (sq_OverrideDestinationForProtocol request))"

record session_Outbound =
  so_OriginalTarget :: net_Destination
  so_Target :: net_Destination
  so_RouteTarget :: "net_Destination option"

text \<open>
  The part of \<open>Dispatch\<close> and \<open>DispatchLink\<close> after sniffing: \<open>parse\<close> is \<open>net.ParseAddress\<close>, \<open>protocol0\<close>
  the protocol the content already had. The last result is the protocol given to \<open>routedDispatch\<close>.
\<close>

definition apply_sniffed ::
  "(string \<Rightarrow> net_Address) \<Rightarrow> fakeDNSEngine option \<Rightarrow> SniffingRequest \<Rightarrow> sniff_error + SniffResult \<Rightarrow> string \<Rightarrow> net_Destination
   \<Rightarrow> session_Outbound \<Rightarrow> net_Destination \<times> session_Outbound \<times> string" where
  "apply_sniffed parse fdns request sniffed protocol0 destination ob =
     (case sniffed of
        Inl _ \<Rightarrow> (destination, ob, protocol0)
      | Inr result \<Rightarrow>
          if shouldOverride fdns result request destination then
            let destination = destination\<lparr>nd_Address := parse (sr_Domain result)\<rparr>;
                protocol = ProtocolForDomainResult result;
                isFakeIP = in_fake_pool fdns (nd_Address (so_Target ob));
                ob = (if sq_RouteOnly request \<and> protocol \<noteq> ''fakedns'' \<and> protocol \<noteq> ''fakedns+others'' \<and> \<not> isFakeIP
                      then ob\<lparr>so_RouteTarget := Some destination\<rparr> else ob\<lparr>so_Target := destination\<rparr>)
            in (destination, ob, sr_Protocol result)
          else (destination, ob, sr_Protocol result))"

section \<open>Routing\<close>

text \<open>What \<open>routedDispatch\<close> does with the link: it is closed, or handed to an outbound handler.\<close>

datatype 'h verdict = RejectedByRule | NoDetour | NoHandler | DispatchedTo 'h string

record 'h outbound_manager =
  om_GetHandler :: "string \<Rightarrow> 'h option"
  om_GetDefaultHandler :: "'h option"
  om_Tag :: "'h \<Rightarrow> string"

text \<open>
  The choice of the handler. \<open>route\<close> is the answer of the router (\<open>None\<close> without a router or when it
  finds no route); the second result of \<open>pick_handler\<close> is \<open>isPickRoute\<close>, and the detour is what the
  access log shows.
\<close>

definition pick_handler :: "'h outbound_manager \<Rightarrow> string \<Rightarrow> string option \<Rightarrow> string \<Rightarrow> ('h \<times> nat) option option" where
  "pick_handler ohm forced route inTag =
     (let fallback = (case om_GetHandler ohm inTag of Some h \<Rightarrow> Some (h, 0) | None \<Rightarrow> map_option (\<lambda>h. (h, 0)) (om_GetDefaultHandler ohm))
      in if forced \<noteq> '''' then
           (case om_GetHandler ohm forced of Some h \<Rightarrow> Some (Some (h, 1)) | None \<Rightarrow> None)
         else case Option.bind route (om_GetHandler ohm) of
           Some h \<Rightarrow> Some (Some (h, 2))
         | None \<Rightarrow> Some fallback)"

definition detour :: "string \<Rightarrow> nat \<Rightarrow> string \<Rightarrow> string" where
  "detour inTag isPickRoute tag =
     (if tag = '''' then ''''
      else if inTag = '''' then tag
      else if isPickRoute = 1 then inTag @ '' ==> '' @ tag
      else if isPickRoute = 2 then inTag @ '' -> '' @ tag
      else inTag @ '' >> '' @ tag)"

definition destination_string :: "net_Destination \<Rightarrow> string" where
  "destination_string destination = address_string (nd_Address destination)"

definition rule_rejects :: "('re \<Rightarrow> string \<Rightarrow> bool) \<Rightarrow> ('re, 'b) Limiter \<Rightarrow> net_Destination \<Rightarrow> string \<Rightarrow> bool" where
  "rule_rejects MatchString l destination protocol =
     (if CheckDomainRule MatchString l (destination_string destination) then True
      else if protocol \<noteq> '''' then CheckProtocolRule l protocol else False)"

definition route_link ::
  "'h outbound_manager \<Rightarrow> string \<Rightarrow> string option \<Rightarrow> string \<Rightarrow> 'h verdict" where
  "route_link ohm forced route inTag =
     (case pick_handler ohm forced route inTag of
        None \<Rightarrow> NoDetour
      | Some None \<Rightarrow> NoHandler
      | Some (Some (h, isPickRoute)) \<Rightarrow> DispatchedTo h (detour inTag isPickRoute (om_Tag ohm h)))"

text \<open>The reference taken at the start and the function that is deferred.\<close>

definition routed_begin :: "gotime \<Rightarrow> ('re, 'b) Limiter \<Rightarrow> string \<Rightarrow> string \<Rightarrow> ('re, 'b) Limiter" where
  "routed_begin now l taguuid userIP = l\<lparr>li_Online := OnlineRegistry_Add now (li_Online l) taguuid userIP (UserID l taguuid)\<rparr>"

definition routed_end :: "gotime \<Rightarrow> ('re, 'b) Limiter \<Rightarrow> string \<Rightarrow> string \<Rightarrow> net_Network \<Rightarrow> ('re, 'b) Limiter go" where
  "routed_end now l taguuid userIP network =
     (let l = l\<lparr>li_Online := OnlineRegistry_Del now (li_Online l) taguuid userIP\<rparr>
      in if network = Network_TCP
         then map_option (\<lambda>c. l\<lparr>li_ConnLimiter := c\<rparr>) (DelConnCount (li_ConnLimiter l) taguuid userIP)
         else Some l)"

text \<open>
  \<open>routedDispatch\<close> with the limiter \<open>l\<close> of \<open>getLink\<close>, if there is one; otherwise it is looked up. The
  first result is the limiter after the call. \<open>serve\<close> is what happens to the limiter while the handler
  serves the connection; the deferred function runs at every return. Without a session the code
  dereferences nil.
\<close>

definition routedDispatch ::
  "('re \<Rightarrow> string \<Rightarrow> bool) \<Rightarrow> 'h outbound_manager \<Rightarrow> string \<Rightarrow> string option \<Rightarrow> gotime \<Rightarrow> gotime
   \<Rightarrow> (('re, 'b) Limiter \<Rightarrow> ('re, 'b) Limiter) \<Rightarrow> ('re, 'b) limiters \<Rightarrow> ('re, 'b) Limiter option \<Rightarrow> session_Inbound option
   \<Rightarrow> net_Destination \<Rightarrow> string \<Rightarrow> (('re, 'b) Limiter option \<times> 'h verdict) go" where
  "routedDispatch MatchString ohm forced route now later serve limiter l inb destination protocol =
     (case inb of
        None \<Rightarrow> None
      | Some i \<Rightarrow>
          let l = (if si_User i = None then l
                   else case l of
                     Some k \<Rightarrow> Some k
                   | None \<Rightarrow> (case GetLimiter limiter (si_Tag i) of Inl _ \<Rightarrow> None | Inr k \<Rightarrow> Some k))
          in case (si_User i, l) of
               (Some user, Some l) \<Rightarrow>
                 let taguuid = mu_Email user;
                     userIP = NormalizeIP (sourceIPString inb);
                     l = routed_begin now l taguuid userIP
                 in if rule_rejects MatchString l destination protocol
                    then map_option (\<lambda>l. (Some l, RejectedByRule)) (routed_end later l taguuid userIP (nd_Network destination))
                    else
                      let v = route_link ohm forced route (si_Tag i);
                          l = (case v of DispatchedTo _ _ \<Rightarrow> serve l | _ \<Rightarrow> l)
                      in map_option (\<lambda>l. (Some l, v)) (routed_end later l taguuid userIP (nd_Network destination))
             | _ \<Rightarrow> Some (l, route_link ohm forced route (si_Tag i)))"

section \<open>Dispatch\<close>

text \<open>
  What the dispatcher takes from Xray: the validity check of destinations, \<open>net.ParseAddress\<close>, the
  sniffers for a target, the cancellation of the context, the size of a buffer, the policy, the counters
  and the outbounds.
\<close>

record ('m, 'h) dispatcher_env =
  de_IsValid :: "net_Destination \<Rightarrow> bool"
  de_ParseAddress :: "string \<Rightarrow> net_Address"
  de_fdns :: "fakeDNSEngine option"
  de_sniffers :: "net_Destination \<Rightarrow> protocolSnifferWithMetadata list"
  de_cancelled :: "nat \<Rightarrow> bool"
  de_full :: "nat \<Rightarrow> bool"
  de_forLevel :: "int \<Rightarrow> bool \<times> bool"
  de_register :: "'m \<Rightarrow> string \<Rightarrow> 'm \<times> bool"
  de_ohm :: "'h outbound_manager"
  de_forced :: string
  de_PickRoute :: "session_Outbound \<Rightarrow> string option"

record session_Content =
  sc_Protocol :: string
  sc_SniffingRequest :: SniffingRequest

text \<open>The outbound of the session, which is created when there is none.\<close>

definition set_target :: "session_Outbound list \<Rightarrow> net_Destination \<Rightarrow> session_Outbound" where
  "set_target outbounds destination =
     \<lparr>so_OriginalTarget = destination, so_Target = destination,
      so_RouteTarget = (if outbounds = [] then None else so_RouteTarget (last outbounds))\<rparr>"

definition no_sniffing :: session_Content where
  "no_sniffing = \<lparr>sc_Protocol = '''', sc_SniffingRequest =
     \<lparr>sq_ExcludeForDomain = None, sq_ExcludeForIP = None, sq_OverrideDestinationForProtocol = [], sq_Enabled = False,
      sq_MetadataOnly = False, sq_RouteOnly = False\<rparr>\<rparr>"

text \<open>
  The second half of \<open>Dispatch\<close> (in a goroutine) and of \<open>DispatchLink\<close>: sniff when asked to, then route.
  The first results are the reader that the handler gets and the outbound of the session.
\<close>

definition sniff_and_route ::
  "('m, 'h) dispatcher_env \<Rightarrow> ('re \<Rightarrow> string \<Rightarrow> bool) \<Rightarrow> gotime \<Rightarrow> gotime \<Rightarrow> (('re, 'b) Limiter \<Rightarrow> ('re, 'b) Limiter)
   \<Rightarrow> ('re, 'b) limiters \<Rightarrow> ('re, 'b) Limiter option \<Rightarrow> session_Inbound option \<Rightarrow> session_Content \<Rightarrow> session_Outbound \<Rightarrow> net_Destination
   \<Rightarrow> read_answer list \<Rightarrow> (cachedReader \<times> session_Outbound \<times> ('re, 'b) Limiter option \<times> 'h verdict) go" where
  "sniff_and_route D MatchString now later serve limiter l inb content ob destination reader =
     (let request = sc_SniffingRequest content;
          r = newCachedReader reader
      in if \<not> sq_Enabled request
         then map_option (\<lambda>(l, v). (r, ob, l, v))
                (routedDispatch MatchString (de_ohm D) (de_forced D) (de_PickRoute D ob) now later serve limiter l inb destination '''')
         else
           let (r, result) = sniffer (de_cancelled D) (de_full D) (sq_MetadataOnly request) (nd_Network destination) r (de_sniffers D (so_Target ob));
               (destination, ob, protocol) = apply_sniffed (de_ParseAddress D) (de_fdns D) request result (sc_Protocol content) destination ob
           in map_option (\<lambda>(l, v). (r, ob, l, v))
                (routedDispatch MatchString (de_ohm D) (de_forced D) (de_PickRoute D ob) now later serve limiter l inb destination protocol))"

text \<open>\<open>Dispatch\<close> up to the goroutine: the inbound link, and the arguments the goroutine runs with.\<close>

record 'b dispatch_job =
  dj_outbound :: "'b Link"
  dj_limiter :: "string option"
  dj_ob :: session_Outbound
  dj_content :: session_Content

definition Dispatch ::
  "('m, 'h) dispatcher_env \<Rightarrow> (duration \<Rightarrow> int \<Rightarrow> int \<Rightarrow> 'b) \<Rightarrow> gotime \<Rightarrow> ('re, 'b) limiters \<Rightarrow> 'm \<Rightarrow> session_Inbound option
   \<Rightarrow> session_Outbound list \<Rightarrow> session_Content option \<Rightarrow> net_Destination
   \<Rightarrow> (('re, 'b) limiters \<times> 'm \<times> session_Inbound option \<times> (string + 'b Link \<times> 'b dispatch_job)) go" where
  "Dispatch D nb now limiter stats inb outbounds content destination =
     (if \<not> de_IsValid D destination then None
      else map_option (\<lambda>(limiter, stats, inb, r).
             (limiter, stats, inb,
              case r of
                Inl e \<Rightarrow> Inl e
              | Inr (inbound, outbound, l) \<Rightarrow>
                  Inr (inbound, \<lparr>dj_outbound = outbound, dj_limiter = l, dj_ob = set_target outbounds destination,
                                 dj_content = (case content of None \<Rightarrow> no_sniffing | Some c \<Rightarrow> c)\<rparr>)))
             (getLink nb (de_forLevel D) (de_register D) now limiter stats inb (nd_Network destination)))"

definition DispatchLink ::
  "('m, 'h) dispatcher_env \<Rightarrow> (duration \<Rightarrow> int \<Rightarrow> int \<Rightarrow> 'b) \<Rightarrow> gotime \<Rightarrow> ('re, 'b) limiters \<Rightarrow> 'm \<Rightarrow> session_Inbound option
   \<Rightarrow> session_Outbound list \<Rightarrow> session_Content option \<Rightarrow> net_Destination \<Rightarrow> 'b Link option
   \<Rightarrow> (('re, 'b) limiters \<times> 'm \<times> session_Inbound option \<times> (string + 'b dispatch_job)) go" where
  "DispatchLink D nb now limiter stats inb outbounds content destination outbound =
     (if \<not> de_IsValid D destination then Some (limiter, stats, inb, Inl ''Dispatcher: Invalid destination.'')
      else map_option (\<lambda>(limiter, stats, inb, r).
             (limiter, stats, inb,
              case r of
                Inl e \<Rightarrow> Inl e
              | Inr (outbound, l) \<Rightarrow>
                  Inr \<lparr>dj_outbound = outbound, dj_limiter = l, dj_ob = set_target outbounds destination,
                       dj_content = (case content of None \<Rightarrow> no_sniffing | Some c \<Rightarrow> c)\<rparr>))
             (wrapLink nb (de_forLevel D) (de_register D) now limiter stats inb outbound (nd_Network destination)))"

section \<open>Bytes through a link (\<open>stats.go\<close>, \<open>common/rate\<close>)\<close>

text \<open>
  What the wrappers do with a multi buffer of \<open>n\<close> bytes, in order: waiting for tokens of a bucket,
  adding to a counter, and the operation of the inner reader or writer.
\<close>

datatype 'b effect = Wait 'b int | Count string int | Inner int

fun WriteMultiBuffer :: "'b wrapper list \<Rightarrow> int \<Rightarrow> 'b effect list" where
  "WriteMultiBuffer [] n = [Inner n]"
| "WriteMultiBuffer (RateLimit b # w) n = Wait b n # WriteMultiBuffer w n"
| "WriteMultiBuffer (SizeStat name # w) n = Count name n # WriteMultiBuffer w n"
| "WriteMultiBuffer (TimeoutWrapper _ # w) n = WriteMultiBuffer w n"

text \<open>\<open>n\<close> is \<open>None\<close> when the inner reader returns a nil multi buffer.\<close>

fun ReadMultiBuffer :: "'b wrapper list \<Rightarrow> int option \<Rightarrow> 'b effect list" where
  "ReadMultiBuffer [] n = [Inner (case n of None \<Rightarrow> 0 | Some k \<Rightarrow> k)]"
| "ReadMultiBuffer (RateLimit b # w) n = ReadMultiBuffer w n @ (case n of None \<Rightarrow> [] | Some k \<Rightarrow> [Wait b k])"
| "ReadMultiBuffer (SizeStat name # w) n = ReadMultiBuffer w n"
| "ReadMultiBuffer (TimeoutWrapper (Some name) # w) n = ReadMultiBuffer w n @ (case n of None \<Rightarrow> [] | Some k \<Rightarrow> [Count name k])"
| "ReadMultiBuffer (TimeoutWrapper None # w) n = ReadMultiBuffer w n"

text \<open>\<open>rate.Conn\<close> waits for the bytes that the inner connection transferred.\<close>

definition rate_Conn_transfer :: "'b \<Rightarrow> int \<Rightarrow> 'b effect list" where
  "rate_Conn_transfer limiter n = Inner n # (if 0 < n then [Wait limiter n] else [])"

lemma stat_writer_registers:
  "(\<And>m name. snd (register m name)) \<Longrightarrow> snd (stat_writer register True name (k, x)) = SizeStat name # x"
  by (auto simp: stat_writer_def split: prod.splits bool.splits) (metis snd_conv)

text \<open>
  A link that was handed out counts and throttles every byte once: what the client sends goes to the
  uplink counter of the user and what it receives to the downlink counter, which are the counters
  that \<open>GetUserTraffic\<close> reads.
\<close>

lemma getLink_accounts:
  assumes "getLink nb forLevel register now ls m (Some i) network = Some (ls', m', inb', Inr (inboundLink, outboundLink, Some tag))"
    and "si_User i = Some user" and "forLevel (mu_Level user) = (True, True)" and "\<And>m name. snd (register m name)"
  shows "\<exists>w. WriteMultiBuffer (lk_Writer inboundLink) n = Count (uplink_name (mu_Email user)) n # map (\<lambda>b. Wait b n) w @ [Inner n]
     \<and> WriteMultiBuffer (lk_Writer outboundLink) n = Count (downlink_name (mu_Email user)) n # map (\<lambda>b. Wait b n) w @ [Inner n]
     \<and> length w \<le> 1"
proof -
  let ?up = "SizeStat (uplink_name (mu_Email user))" and ?down = "SizeStat (downlink_name (mu_Email user))"
  have "(\<exists>b. lk_Writer inboundLink = [?up, RateLimit b] \<and> lk_Writer outboundLink = [?down, RateLimit b])
      \<or> (lk_Writer inboundLink = [?up] \<and> lk_Writer outboundLink = [?down])"
    using assms(1-3)
    by (auto simp: getLink_def no_splice_def Let_def split_def stat_writer_registers [OF assms(4)]
        split: option.splits sum.splits if_splits bool.splits)
  then show ?thesis
  proof
    assume "\<exists>b. lk_Writer inboundLink = [?up, RateLimit b] \<and> lk_Writer outboundLink = [?down, RateLimit b]"
    then obtain b where "lk_Writer inboundLink = [?up, RateLimit b]" "lk_Writer outboundLink = [?down, RateLimit b]" by blast
    then show ?thesis by (intro exI [of _ "[b]"]) simp
  qed (intro exI [of _ "[]"], simp)
qed

text \<open>
  The combined sniffer for fake addresses is registered without a network, so no TCP or UDP payload
  ever reaches it: sniffing is that of the plain protocol sniffers.
\<close>

lemma Sniff_loop_snd:
  "Sniff_loop payload network ss [] = Sniff_loop payload network ss' [] \<Longrightarrow> snd (Sniff ss payload network) = snd (Sniff ss' payload network)"
  by (simp add: Sniff_def split: sum.splits)

lemma fakedns_others_never_runs:
  assumes "network = Network_TCP \<or> network = Network_UDP"
  shows "snd (Sniff (NewSniffer http tls bittorrent quic utp (Some e) target) payload network)
       = snd (Sniff (NewSniffer http tls bittorrent quic utp None target) payload network)"
proof -
  have "Sniff_loop payload network (fake # ss @ [last]) [] = Sniff_loop payload network ss []"
    if "ps_network fake = Network_Unknown" "ps_network last = Network_Unknown" for fake ss last
  proof -
    have "Sniff_loop payload network (ss @ [last]) p = Sniff_loop payload network ss p" for p
      using assms that(2) by (induction ss arbitrary: p) (auto split: sniff_outcome.splits option.splits)
    then show ?thesis using assms that(1) by auto
  qed
  moreover have "\<exists>fake last. NewSniffer http tls bittorrent quic utp (Some e) target = fake # NewSniffer http tls bittorrent quic utp None target @ [last]
      \<and> ps_network fake = Network_Unknown \<and> ps_network last = Network_Unknown"
    by (simp add: NewSniffer_def Let_def newFakeDNSSniffer_def newFakeDNSThenOthers_def)
  ultimately show ?thesis
    by (metis (no_types, lifting) Sniff_loop_snd)
qed

end
