(* ===== verification/Xray_Connections.thy ===== *)
theory Xray_Connections
  imports Xray_Dispatcher
begin

text \<open>
  Properties of the Xray dispatcher: sniffing loses no bytes, a connection gives back what it took
  whatever becomes of it, and over all interleavings of connections no user has more live TCP
  connections than the configured limit.
\<close>

section \<open>The stream behind the cached reader\<close>

fun answer_bytes :: "read_answer \<Rightarrow> string" where
  "answer_bytes (Data mb) = mb"
| "answer_bytes ReadError = ''''"

definition stream_of :: "cachedReader \<Rightarrow> string" where
  "stream_of r = ca_cache r @ concat (map answer_bytes (ca_reader r))"

lemma read_next_stream:
  "read_next r = (r', x) \<Longrightarrow>
   stream_of r = ca_cache r @ (case x of None \<Rightarrow> '''' | Some mb \<Rightarrow> mb) @ concat (map answer_bytes (ca_reader r'))
   \<and> ca_cache r' = ca_cache r \<and> length (ca_reader r) \<le> Suc (length (ca_reader r'))"
  by (auto simp: read_next_def stream_of_def split: list.splits read_answer.splits)

lemma Cache_stream:
  "cachedReader_Cache r = (r', x) \<Longrightarrow> stream_of r' = stream_of r \<and> length (ca_reader r) \<le> Suc (length (ca_reader r'))"
  by (auto simp: cachedReader_Cache_def Let_def stream_of_def dest!: read_next_stream split: prod.splits option.splits if_splits)

lemma content_loop_stream:
  "content_loop cancelled full network n r ss = (r', x) \<Longrightarrow>
   stream_of r' = stream_of r \<and> length (ca_reader r) \<le> length (ca_reader r') + n"
proof (induction n arbitrary: r ss)
  case (Suc n)
  obtain r1 y where c: "cachedReader_Cache r = (r1, y)" by fastforce
  note s = Cache_stream [OF c]
  show ?case
  proof (cases "r' = r1 \<or> cancelled (Suc n)")
    case True
    then show ?thesis
      using Suc.prems s c by (auto split: if_splits)
  next
    case False
    then obtain payload where y: "y = Some payload" using Suc.prems c by (cases y) auto
    obtain ss1 o' where sn: "Sniff ss payload network = (ss1, o')" by fastforce
    have "\<exists>ss2. content_loop cancelled full network n r1 ss2 = (r', x)"
      using Suc.prems False c y sn by (cases o') (auto split: if_splits bool.splits)
    then show ?thesis using Suc.IH s by fastforce
  qed
qed simp


section \<open>The slot of a connection\<close>

lemma routed_end_total:
  assumes "limiter_inv l"
  shows "\<exists>l'. routed_end now l t ip network = Some l' \<and> limiter_inv l'
     \<and> cl_connLimit (li_ConnLimiter l') = cl_connLimit (li_ConnLimiter l) \<and> cl_ipLimit (li_ConnLimiter l') = cl_ipLimit (li_ConnLimiter l)
     \<and> cl_count (li_ConnLimiter l') =
       (if network = Network_TCP then cl_count (delConnCount (li_ConnLimiter l) t) else cl_count (li_ConnLimiter l))"
proof -
  obtain c where c: "DelConnCount (li_ConnLimiter l) t ip = Some c" "conn_inv c" "cl_count c = cl_count (delConnCount (li_ConnLimiter l) t)"
    using DelConnCount_total [OF limiter_invD(1) [OF assms]] by blast
  have o: "limiter_inv (l\<lparr>li_Online := OnlineRegistry_Del now (li_Online l) t ip\<rparr>)"
    by (rule limiter_step_inv [OF ls_close assms])
  then show ?thesis
    using c DelConnCount_frame [OF c(1)] by (auto simp: routed_end_def Let_def limiter_inv_def)
qed

lemma routed_begin_inv:
  "limiter_inv l \<Longrightarrow> limiter_inv (routed_begin now l t ip)"
  "li_ConnLimiter (routed_begin now l t ip) = li_ConnLimiter l"
  unfolding routed_begin_def by (simp_all add: limiter_step_inv [OF ls_open])

text \<open>
  C20. An Xray connection gives back its connection slot however it ends. After \<open>CheckLimit\<close> admitted a
  TCP connection, \<open>routedDispatch\<close> returns without a panic, and whether the connection was rejected by a
  domain or protocol rule, found no outbound, or was served to its end, all connection counters are
  as they were before the admission (while it was served, other connections did not change them).
\<close>

theorem xray_connection_releases_slot:
  assumes "limiter_inv l" and "cl_connLimit (li_ConnLimiter l) \<noteq> 0"
    and "CheckLimit nb now l (mu_Email user) (sourceIPString (Some i)) True noSSUDP = Some (l1, b, False)"
    and "si_User i = Some user" and "nd_Network destination = Network_TCP"
    and serve: "\<And>k. limiter_inv k \<Longrightarrow> limiter_inv (serve k) \<and> li_ConnLimiter (serve k) = li_ConnLimiter k"
  shows "\<exists>l2 v. routedDispatch MatchString ohm forced route now later serve limiter (Some l1) (Some i) destination protocol = Some (Some l2, v)
     \<and> mload (cl_count (li_ConnLimiter l2)) u = mload (cl_count (li_ConnLimiter l)) u"
proof -
  let ?t = "mu_Email user" and ?ip = "NormalizeIP (sourceIPString (Some i))"
  have inv1: "limiter_inv l1" using CheckLimit_total [OF assms(1)] assms(3) by (metis option.inject prod.inject)
  note begun = routed_begin_inv(1) [OF inv1, of now ?t ?ip] routed_begin_inv(2) [of now l1 ?t ?ip]
  have rel: "\<exists>l2. routed_end later k ?t ?ip Network_TCP = Some l2 \<and> mload (cl_count (li_ConnLimiter l2)) u = mload (cl_count (li_ConnLimiter l)) u"
    if k: "limiter_inv k" "li_ConnLimiter k = li_ConnLimiter l1" for k
  proof -
    obtain l2 where "routed_end later k ?t ?ip Network_TCP = Some l2" "cl_count (li_ConnLimiter l2) = cl_count (delConnCount (li_ConnLimiter l1) ?t)"
      using routed_end_total [OF k(1), of later ?t ?ip Network_TCP] k(2) by auto
    moreover have "mload (cl_count (delConnCount (li_ConnLimiter l1) ?t)) u = mload (cl_count (li_ConnLimiter l)) u"
      using admitted_count [OF assms(1,3,2)] conn_invD(3) [OF limiter_invD(1) [OF assms(1)], of ?t] assms(2)
      by (fastforce simp: count_delConnCount mget_def split: option.splits)
    ultimately show ?thesis by simp
  qed
  show ?thesis
    using rel [OF begun] rel [OF serve [OF begun(1), THEN conjunct1]] serve [OF begun(1)] begun(2) assms(4,5)
    by (fastforce simp: routedDispatch_def Let_def split: verdict.splits)
qed

definition example_inbound :: session_Inbound where
  "example_inbound = \<lparr>si_Tag = ''n'', si_User = Some \<lparr>mu_Email = ''n|u'', mu_Level = 0\<rparr>, si_SourceAddress = IPAddress ''1.2.3.4'',
     si_SourceNetwork = Network_TCP, si_CanSpliceCopy = 0\<rparr>"

definition example_outbounds :: "string outbound_manager" where
  "example_outbounds = \<lparr>om_GetHandler = (\<lambda>_. None), om_GetDefaultHandler = None, om_Tag = (\<lambda>h. h)\<rparr>"

theorem xray_connection_releases_slot_witness:
  "\<exists>l1 b l2 v. CheckLimit (\<lambda>_ n _. n) 0 example_open_limiter ''n|u'' ''1.2.3.4'' True True = Some (l1, b, False)
     \<and> routedDispatch (=) example_outbounds '''' None 0 9 (\<lambda>l. l) [] (Some l1) (Some example_inbound)
         \<lparr>nd_Address = DomainAddress ''x'', nd_Network = Network_TCP\<rparr> '''' = Some (Some l2, v)
     \<and> mload (cl_count (li_ConnLimiter l2)) ''n|u'' = None"
proof -
  let ?user = "\<lparr>mu_Email = ''n|u'', mu_Level = 0\<rparr>" and ?d = "\<lparr>nd_Address = DomainAddress ''x'', nd_Network = Network_TCP\<rparr>"
  have "case CheckLimit (\<lambda>_ n _. n) 0 example_open_limiter ''n|u'' ''1.2.3.4'' True True of Some (_, _, False) \<Rightarrow> True | _ \<Rightarrow> False"
    by code_simp
  then obtain l1 b where c: "CheckLimit (\<lambda>_ n _. n) 0 example_open_limiter ''n|u'' ''1.2.3.4'' True True = Some (l1, b, False)"
    by (auto split: option.splits prod.splits bool.splits)
  then have a: "CheckLimit (\<lambda>_ n _. n) 0 example_open_limiter (mu_Email ?user) (sourceIPString (Some example_inbound)) True True = Some (l1, b, False)"
    by (simp add: sourceIPString_def example_inbound_def)
  have u: "si_User example_inbound = Some ?user" and d: "nd_Network ?d = Network_TCP" by (simp_all add: example_inbound_def)
  have none: "mload (cl_count (li_ConnLimiter example_open_limiter)) ''n|u'' = None" by code_simp
  show ?thesis
    using xray_connection_releases_slot [OF example_open_facts(1,2) a u d, of "\<lambda>l. l" "(=)" example_outbounds "''''" None 9 "[]" "''''" "''n|u''"]
      c none by auto
qed

section \<open>Live connections\<close>

text \<open>
  The limiter of a node with its live connections. A connection is admitted in \<open>getLink\<close>, registers
  its device at the start of \<open>routedDispatch\<close> and releases everything at its end; the controller and
  the sweep work on the limiter in between.
\<close>

record live_conn =
  lv_user :: string
  lv_ip :: string
  lv_network :: net_Network
  lv_begun :: bool

definition live_tcp :: "live_conn list \<Rightarrow> string \<Rightarrow> int" where
  "live_tcp live u = int (length (filter (\<lambda>c. lv_user c = u \<and> lv_network c = Network_TCP) live))"

inductive background_step :: "('re, 'b) Limiter \<Rightarrow> ('re, 'b) Limiter \<Rightarrow> bool" where
  "background_step l (fst (GetOnlineDevice now l))"
| "background_step l (sweep_limiter now l)"
| "background_step l (UpdateUser l tag added deleted)"
| "background_step l (SetAliveList l alive)"
| "background_step l (AddDynamicSpeedLimit now l tag u n e)"

inductive dispatcher_reach ::
  "(duration \<Rightarrow> int \<Rightarrow> int \<Rightarrow> 'b) \<Rightarrow> ('re, 'b) Limiter \<Rightarrow> ('re, 'b) Limiter \<Rightarrow> live_conn list \<Rightarrow> bool" for nb l0 where
  dr_init: "dispatcher_reach nb l0 l0 []"
| dr_admit: "dispatcher_reach nb l0 l live \<Longrightarrow> CheckLimit nb now l t src (network = Network_TCP) noSSUDP = Some (l', b, False) \<Longrightarrow>
    dispatcher_reach nb l0 l' (\<lparr>lv_user = t, lv_ip = NormalizeIP src, lv_network = network, lv_begun = False\<rparr> # live)"
| dr_reject: "dispatcher_reach nb l0 l live \<Longrightarrow> CheckLimit nb now l t src isTcp noSSUDP = Some (l', b, True) \<Longrightarrow>
    dispatcher_reach nb l0 l' live"
| dr_begin: "dispatcher_reach nb l0 l live \<Longrightarrow> c \<in> set live \<Longrightarrow> \<not> lv_begun c \<Longrightarrow>
    dispatcher_reach nb l0 (routed_begin now l (lv_user c) (lv_ip c)) (c\<lparr>lv_begun := True\<rparr> # remove1 c live)"
| dr_end: "dispatcher_reach nb l0 l live \<Longrightarrow> c \<in> set live \<Longrightarrow> lv_begun c \<Longrightarrow>
    routed_end now l (lv_user c) (lv_ip c) (lv_network c) = Some l' \<Longrightarrow> dispatcher_reach nb l0 l' (remove1 c live)"
| dr_background: "dispatcher_reach nb l0 l live \<Longrightarrow> background_step l l' \<Longrightarrow> dispatcher_reach nb l0 l' live"

definition live_inv :: "int \<Rightarrow> ('re, 'b) Limiter \<Rightarrow> live_conn list \<Rightarrow> bool" where
  "live_inv n l live \<longleftrightarrow> limiter_inv l \<and> cl_connLimit (li_ConnLimiter l) = n \<and> cl_ipLimit (li_ConnLimiter l) = 0
     \<and> (\<forall>u. live_tcp live u \<le> mget 0 (cl_count (li_ConnLimiter l)) u)"

lemma live_tcp_Cons:
  "live_tcp (c # live) u = live_tcp live u + (if lv_user c = u \<and> lv_network c = Network_TCP then 1 else 0)"
  by (simp add: live_tcp_def)

lemma live_tcp_remove1:
  "c \<in> set live \<Longrightarrow> live_tcp (remove1 c live) u = live_tcp live u - (if lv_user c = u \<and> lv_network c = Network_TCP then 1 else 0)"
proof (induction live)
  case (Cons d live)
  then show ?case by (cases "d = c") (simp_all add: live_tcp_Cons)
qed simp

lemma live_tcp_nonneg: "0 \<le> live_tcp live u"
  by (simp add: live_tcp_def)

text \<open>Without an address limit a rejected connection never lowers a counter.\<close>

lemma AddConnCount_no_ip_limit:
  assumes "conn_inv c" and "cl_ipLimit c = 0" and "AddConnCount now c u ip isTcp = Some (c', r)"
  shows "cl_count c' = (if r then cl_count c else cl_count (addConnCount c u isTcp))"
  using assms by (auto simp: AddConnCount_def storeIP_def addConnCount_def Let_def split: if_splits option.splits ip_value.splits)

lemma CheckLimit_counts:
  assumes "limiter_inv l" and "cl_ipLimit (li_ConnLimiter l) = 0" and "CheckLimit nb now l t src isTcp noSSUDP = Some (l', b, r)"
  shows "limiter_inv l'" "cl_connLimit (li_ConnLimiter l') = cl_connLimit (li_ConnLimiter l)" "cl_ipLimit (li_ConnLimiter l') = 0"
    "\<not> r \<Longrightarrow> cl_count (li_ConnLimiter l') = cl_count (addConnCount (li_ConnLimiter l) t isTcp)"
    "r \<Longrightarrow> cl_count (li_ConnLimiter l') = cl_count (li_ConnLimiter l)
       \<or> cl_count (li_ConnLimiter l') = cl_count (addConnCount (li_ConnLimiter l) t isTcp)"
proof -
  show "limiter_inv l'" using CheckLimit_total [OF assms(1)] assms(3) by (metis option.inject prod.inject)
  obtain cl q where cl: "AddConnCount now (li_ConnLimiter l) t (NormalizeIP src) isTcp = Some (cl, q)" "li_ConnLimiter l' = cl" "\<not> r \<Longrightarrow> \<not> q"
    using assms(3)
  proof (cases rule: CheckLimit_stages)
    case (too_many_devices cl u l1 n)
    then have "li_ConnLimiter l' = cl"
      using check_device_frame [OF too_many_devices(7)] user_speed_limit_frame(6) [OF too_many_devices(5)] by simp
    then show thesis using too_many_devices that by auto
  next
    case (admitted cl u l1 n l2 l3)
    have "li_ConnLimiter l2 = li_ConnLimiter l1"
      using check_device_frame [OF admitted(5)] admitted(6) by (cases noSSUDP) simp_all
    then have "li_ConnLimiter l' = cl"
      using admitted(8) speed_bucket_frame(3) [OF admitted(7)] user_speed_limit_frame(6) [OF admitted(4)] by simp
    then show thesis using admitted that by auto
  qed (auto intro: that)
  note count = AddConnCount_no_ip_limit [OF limiter_invD(1) [OF assms(1)] assms(2) cl(1)]
  show "cl_connLimit (li_ConnLimiter l') = cl_connLimit (li_ConnLimiter l)" "cl_ipLimit (li_ConnLimiter l') = 0"
    using AddConnCount_frame [OF cl(1)] cl(2) assms(2) by auto
  show "\<not> r \<Longrightarrow> cl_count (li_ConnLimiter l') = cl_count (addConnCount (li_ConnLimiter l) t isTcp)"
    "r \<Longrightarrow> cl_count (li_ConnLimiter l') = cl_count (li_ConnLimiter l)
       \<or> cl_count (li_ConnLimiter l') = cl_count (addConnCount (li_ConnLimiter l) t isTcp)"
    using count cl(2,3) by (auto split: if_splits)
qed

lemma store_users_conn: "li_ConnLimiter (fold (store_user tag) us k) = li_ConnLimiter k"
  by (induction us arbitrary: k) (simp_all add: store_user_def)

lemma remove_users_conn: "li_ConnLimiter (fold (remove_user tag) us k) = li_ConnLimiter k"
  by (induction us arbitrary: k) (simp_all add: remove_user_def DeleteAlive_def Let_def)

lemma background_frame:
  assumes "background_step l l'" and "limiter_inv l"
  shows "limiter_inv l'" "cl_connLimit (li_ConnLimiter l') = cl_connLimit (li_ConnLimiter l)"
    "cl_ipLimit (li_ConnLimiter l') = cl_ipLimit (li_ConnLimiter l)" "cl_count (li_ConnLimiter l') = cl_count (li_ConnLimiter l)"
proof -
  show "limiter_inv l'"
    using assms(1) by cases (auto intro: limiter_step_inv [OF _ assms(2)] limiter_step.intros)
  show "cl_connLimit (li_ConnLimiter l') = cl_connLimit (li_ConnLimiter l)"
    "cl_ipLimit (li_ConnLimiter l') = cl_ipLimit (li_ConnLimiter l)" "cl_count (li_ConnLimiter l') = cl_count (li_ConnLimiter l)"
    using assms(1) by (cases; simp add: GetOnlineDevice_def rotate_frame sweep_limiter_def sweepOldOnline_def ConnLimiter_ClearOnlineIP_def UpdateUser_def store_users_conn remove_users_conn
        SetAliveList_def AddDynamicSpeedLimit_def updateUserLimit_def Let_def split: option.splits)+
qed

lemma mget_addConnCount:
  "mget 0 (cl_count (addConnCount c u isTcp)) v = mget 0 (cl_count c) v + (if cl_connLimit c \<noteq> 0 \<and> isTcp \<and> v = u then 1 else 0)"
  by (auto simp: mget_def count_addConnCount split: option.splits)

lemma mget_delConnCount:
  "mget 0 (cl_count (delConnCount c u)) v =
     (if cl_connLimit c \<noteq> 0 \<and> v = u then if mget 0 (cl_count c) v \<le> 1 then 0 else mget 0 (cl_count c) v - 1
      else mget 0 (cl_count c) v)"
  by (auto simp: mget_def count_delConnCount split: option.splits)

lemma dispatcher_live:
  assumes "dispatcher_reach nb l0 l live" and "live_inv n l0 []" and "n \<noteq> 0"
  shows "live_inv n l live"
  using assms(1)
proof (induction rule: dispatcher_reach.induct)
  case dr_init
  show ?case by (rule assms(2))
next
  case (dr_admit l live now t src network noSSUDP l' b)
  then have i: "limiter_inv l" "cl_ipLimit (li_ConnLimiter l) = 0" "cl_connLimit (li_ConnLimiter l) = n" by (simp_all add: live_inv_def)
  show ?case
    using CheckLimit_counts [OF i(1,2) dr_admit(2)] dr_admit(3) i assms(3)
    by (auto simp: live_inv_def live_tcp_Cons mget_addConnCount)
next
  case (dr_reject l live now t src isTcp noSSUDP l' b)
  then have i: "limiter_inv l" "cl_ipLimit (li_ConnLimiter l) = 0" "cl_connLimit (li_ConnLimiter l) = n" by (simp_all add: live_inv_def)
  have le: "live_tcp live u \<le> mget 0 (cl_count (addConnCount (li_ConnLimiter l) t isTcp)) u" for u
    using dr_reject(3) by (simp add: live_inv_def mget_addConnCount add_increasing2)
  show ?case
    using CheckLimit_counts [OF i(1,2) dr_reject(2)] dr_reject(3) i le by (auto simp: live_inv_def)
next
  case (dr_begin l live c now)
  then show ?case
    by (simp add: live_inv_def routed_begin_inv live_tcp_Cons live_tcp_remove1)
next
  case (dr_end l live c now l')
  then have i: "limiter_inv l" "cl_connLimit (li_ConnLimiter l) = n" and le: "live_tcp live u \<le> mget 0 (cl_count (li_ConnLimiter l)) u" for u
    by (simp_all add: live_inv_def)
  have "live_tcp (remove1 c live) u \<le> mget 0 (cl_count (li_ConnLimiter l')) u" for u
    using routed_end_total [OF i(1), of now "lv_user c" "lv_ip c" "lv_network c"] dr_end(2,4) le [of u] live_tcp_nonneg [of live u] i(2) assms(3)
    by (auto simp: live_tcp_remove1 mget_delConnCount)
  then show ?case
    using routed_end_total [OF i(1), of now "lv_user c" "lv_ip c" "lv_network c"] dr_end by (auto simp: live_inv_def)
next
  case (dr_background l live l')
  then show ?case using background_frame [OF dr_background(2)] by (simp add: live_inv_def)
qed



end
