(* ===== verification/Crypt.thy ===== *)
theory Crypt
  imports Go_Strings
begin

unbundle bit_operations_syntax

text \<open>
  \<open>common/crypt\<close>: \<open>aes.go\<close> with the standard base64 encoding it uses, and the derivation of a key in
  \<open>x25519.go\<close>. The block cipher and the hash are arguments.
\<close>

section \<open>Package encoding/base64\<close>

definition b64_char :: "nat \<Rightarrow> char" where
  "b64_char n =
     (if n < 26 then char_of (65 + n) else if n < 52 then char_of (71 + n) else if n < 62 then char_of (n - 4)
      else if n = 62 then CHR ''+'' else CHR ''/'')"

definition b64_value :: "char \<Rightarrow> nat option" where
  "b64_value c =
     (let n = (of_char c :: nat)
      in if 65 \<le> n \<and> n \<le> 90 then Some (n - 65) else if 97 \<le> n \<and> n \<le> 122 then Some (n - 71)
         else if 48 \<le> n \<and> n \<le> 57 then Some (n + 4) else if c = CHR ''+'' then Some 62 else if c = CHR ''/'' then Some 63 else None)"

abbreviation byte :: "char \<Rightarrow> nat" where "byte c \<equiv> of_char c"

fun EncodeToString :: "string \<Rightarrow> string" where
  "EncodeToString [] = []"
| "EncodeToString [a] = [b64_char (byte a div 4), b64_char (byte a mod 4 * 16), CHR ''='', CHR ''='']"
| "EncodeToString [a, b] =
     [b64_char (byte a div 4), b64_char (byte a mod 4 * 16 + byte b div 16), b64_char (byte b mod 16 * 4), CHR ''='']"
| "EncodeToString (a # b # c # s) =
     b64_char (byte a div 4) # b64_char (byte a mod 4 * 16 + byte b div 16) # b64_char (byte b mod 16 * 4 + byte c div 64)
     # b64_char (byte c mod 64) # EncodeToString s"

text \<open>The decoder on text without line ends; \<open>None\<close> is a corrupt input.\<close>

fun decode_groups :: "string \<Rightarrow> string option" where
  "decode_groups [] = Some []"
| "decode_groups (a # b # c # d # s) =
     (case (b64_value a, b64_value b) of
        (Some x, Some y) \<Rightarrow>
          if c = CHR ''='' then (if d = CHR ''='' \<and> s = [] then Some [char_of (x * 4 + y div 16)] else None)
          else
            (case b64_value c of
               None \<Rightarrow> None
             | Some z \<Rightarrow>
                 if d = CHR ''='' then (if s = [] then Some [char_of (x * 4 + y div 16), char_of (y mod 16 * 16 + z div 4)] else None)
                 else
                   (case (b64_value d, decode_groups s) of
                      (Some w, Some rest) \<Rightarrow>
                        Some (char_of (x * 4 + y div 16) # char_of (y mod 16 * 16 + z div 4) # char_of (z mod 4 * 64 + w) # rest)
                    | _ \<Rightarrow> None))
      | _ \<Rightarrow> None)"
| "decode_groups _ = None"

definition DecodeString :: "string \<Rightarrow> string option" where
  "DecodeString s = decode_groups (filter (\<lambda>c. c \<noteq> CHR 0x0A \<and> c \<noteq> CHR 0x0D) s)"

section \<open>\<open>aes.go\<close>\<close>

text \<open>
  A cipher made from a key: encryption and decryption of a block of 16 bytes. \<open>Encrypt\<close> and \<open>Decrypt\<close>
  work on the first block of their arguments and panic on a shorter one.
\<close>

type_synonym cipher = "(string \<Rightarrow> string) \<times> (string \<Rightarrow> string)"

definition crypt_block :: "(string \<Rightarrow> string) \<Rightarrow> string \<Rightarrow> string \<Rightarrow> string go" where
  "crypt_block f dst src =
     (if length src < 16 \<or> length dst < 16 then None else Some (f (take 16 src) @ drop 16 dst))"

definition AesEncrypt :: "(string \<Rightarrow> string + cipher) \<Rightarrow> string \<Rightarrow> string \<Rightarrow> (string + string) go" where
  "AesEncrypt NewCipher data key =
     (case NewCipher key of
        Inl err \<Rightarrow> Some (Inl err)
      | Inr a \<Rightarrow> map_option (\<lambda>en. Inr (EncodeToString en)) (crypt_block (fst a) (replicate (length data) (CHR 0x00)) data))"

definition AesDecrypt :: "(string \<Rightarrow> string + cipher) \<Rightarrow> string \<Rightarrow> string \<Rightarrow> (string + string) go" where
  "AesDecrypt NewCipher data key =
     (case DecodeString data of
        None \<Rightarrow> Some (Inl ''illegal base64 data'')
      | Some d \<Rightarrow>
          (case NewCipher key of
             Inl err \<Rightarrow> Some (Inl err)
           | Inr a \<Rightarrow> map_option Inr (crypt_block (snd a) (replicate (length data) (CHR 0x00)) d)))"

section \<open>\<open>x25519.go\<close>\<close>

definition GenX25519Private :: "(string \<Rightarrow> 8 word list) \<Rightarrow> string \<Rightarrow> 8 word list" where
  "GenX25519Private Sum256 data =
     (let key = Sum256 data;
          key = key[0 := (key ! 0) AND 248];
          key = key[31 := (key ! 31) AND 127];
          key = key[31 := (key ! 31) OR 64]
      in take 32 key)"

section \<open>Properties\<close>

lemma b64_value_char [simp]: "n < 64 \<Longrightarrow> b64_value (b64_char n) = Some n"
  by (auto simp: b64_value_def b64_char_def Let_def)

lemma b64_char_plain: "n < 64 \<Longrightarrow> b64_char n \<noteq> CHR ''='' \<and> b64_char n \<noteq> CHR 0x0A \<and> b64_char n \<noteq> CHR 0x0D"
  using b64_value_char [of n] by (auto simp: b64_value_def Let_def)

lemma byte_less: "byte c < 256"
  by (rule nat_of_char_less_256)

lemma sextets:
  "byte a div 4 < 64" "byte a mod 4 * 16 + byte b div 16 < 64" "byte b mod 16 * 4 + byte c div 64 < 64" "byte c mod 64 < 64"
  "byte a mod 4 * 16 < 64" "byte b mod 16 * 4 < 64"
proof -
  have d: "byte a div 4 < 64" "byte b div 16 < 16" "byte c div 64 < 4" using byte_less by (simp_all add: less_mult_imp_div_less)
  have m: "byte a mod 4 < 4" "byte b mod 16 < 16" by simp_all
  show "byte a div 4 < 64" "byte c mod 64 < 64" "byte a mod 4 * 16 < 64" "byte b mod 16 * 4 < 64" using d m by simp_all
  show "byte a mod 4 * 16 + byte b div 16 < 64" using d(2) m(1) by linarith
  show "byte b mod 16 * 4 + byte c div 64 < 64" using d(3) m(2) by linarith
qed

lemma bits_above [simp]:
  "byte c div 16 div 16 = 0" "byte c div 16 mod 16 = byte c div 16" "byte c div 64 div 4 = 0" "byte c div 64 mod 4 = byte c div 64"
  using byte_less [of c] by (simp_all add: less_mult_imp_div_less div_mult2_eq [symmetric])

lemma decode_encode_groups: "decode_groups (EncodeToString s) = Some s"
  by (induction s rule: EncodeToString.induct) (simp_all add: sextets b64_char_plain)

lemma encode_plain: "filter (\<lambda>c. c \<noteq> CHR 0x0A \<and> c \<noteq> CHR 0x0D) (EncodeToString s) = EncodeToString s"
  by (induction s rule: EncodeToString.induct) (simp_all add: sextets b64_char_plain)

lemma DecodeString_EncodeToString: "DecodeString (EncodeToString s) = Some s"
  unfolding DecodeString_def encode_plain by (rule decode_encode_groups)

lemma length_EncodeToString: "length (EncodeToString s) = 4 * ((length s + 2) div 3)"
proof (induction s rule: EncodeToString.induct)
  case (4 a b c s)
  have "(length (a # b # c # s) + 2) div 3 = Suc ((length s + 2) div 3)" using div_add_self2 [of 3 "length s + 2"] by simp
  then show ?case using 4 by simp
qed simp_all

text \<open>
  C29. What becomes of a text that is encrypted and decrypted with the same key, for a cipher whose
  decryption inverts its encryption. A text of less than one block panics; of a longer one only the
  first 16 bytes come back, and they are followed by zero bytes up to the length of the base64 text,
  so that \<open>AesDecrypt\<close> never returns what was encrypted.
\<close>

theorem aes_round_trip:
  assumes "NewCipher key = Inr (enc, dec)" and "\<And>b. length b = 16 \<Longrightarrow> length (enc b) = 16 \<and> length (dec b) = 16 \<and> dec (enc b) = b"
  shows "(length data < 16 \<longrightarrow> AesEncrypt NewCipher data key = None)
    \<and> (16 \<le> length data \<longrightarrow>
        (\<exists>text. AesEncrypt NewCipher data key = Some (Inr text)
           \<and> AesDecrypt NewCipher text key = Some (Inr (take 16 data @ replicate (4 * ((length data + 2) div 3) - 16) (CHR 0x00)))
           \<and> take 16 data @ replicate (4 * ((length data + 2) div 3) - 16) (CHR 0x00) \<noteq> data))"
proof (cases "16 \<le> length data")
  case True
  let ?en = "enc (take 16 data) @ replicate (length data - 16) (CHR 0x00)"
  have e: "length (enc (take 16 data)) = 16" "dec (enc (take 16 data)) = take 16 data" using assms(2) [of "take 16 data"] True by simp_all
  have en: "AesEncrypt NewCipher data key = Some (Inr (EncodeToString ?en))"
    using True assms(1) by (simp add: AesEncrypt_def crypt_block_def)
  have len: "length (EncodeToString ?en) = 4 * ((length data + 2) div 3)" "length data < 4 * ((length data + 2) div 3)"
    using e True by (simp_all add: length_EncodeToString)
  then have de: "AesDecrypt NewCipher (EncodeToString ?en) key
      = Some (Inr (take 16 data @ replicate (4 * ((length data + 2) div 3) - 16) (CHR 0x00)))"
    using e True assms(1) by (simp add: AesDecrypt_def DecodeString_EncodeToString crypt_block_def)
  have "take 16 data @ replicate (4 * ((length data + 2) div 3) - 16) (CHR 0x00) \<noteq> data"
    using len(2) True by (metis add_diff_inverse_nat length_append length_replicate length_take min.absorb2 nat_neq_iff not_less order_trans less_imp_le)
  then show ?thesis using en de True by simp
qed (use assms(1) in \<open>simp add: AesEncrypt_def crypt_block_def\<close>)

theorem aes_round_trip_witness:
  "\<exists>text. AesEncrypt (\<lambda>_. Inr (rev, rev)) ''0123456789abcdef'' ''k'' = Some (Inr text)
     \<and> AesDecrypt (\<lambda>_. Inr (rev, rev)) text ''k'' = Some (Inr (''0123456789abcdef'' @ replicate 8 (CHR 0x00)))"
proof -
  have "(length ''0123456789abcdef'' :: nat) = 16" by simp
  then show ?thesis
    using aes_round_trip [of "\<lambda>_. Inr (rev, rev)" "''k''" rev rev "''0123456789abcdef''"] by simp
qed

text \<open>The derived key is a clamped scalar of curve 25519.\<close>

lemma GenX25519Private_clamped:
  assumes "length (Sum256 data) = 32"
  shows "length (GenX25519Private Sum256 data) = 32 \<and> unat (GenX25519Private Sum256 data ! 0) mod 8 = 0
    \<and> 64 \<le> unat (GenX25519Private Sum256 data ! 31) \<and> unat (GenX25519Private Sum256 data ! 31) < 128"
proof -
  have numeral_eq_power_three: "(8 :: nat) = 2 ^ 3" by simp
  have low: "unat (w AND 248) mod 8 = 0" for w :: "8 word"
  proof -
    have "unat (w AND 248) mod 8 = unat (take_bit 3 (w AND 248))" by (metis take_bit_eq_mod unsigned_take_bit_eq numeral_eq_power_three)
    then show ?thesis by simp
  qed
  have high: "64 \<le> unat ((w AND 127) OR 64)" "unat ((w AND 127) OR 64) < 128" for w :: "8 word"
  proof -
    have "64 \<le> (w AND 127) OR 64" by (rule le_word_or1)
    then show "64 \<le> unat ((w AND 127) OR 64)" by (simp add: word_le_nat_alt)
    have t: "w AND 127 = take_bit 7 w" by (simp add: take_bit_eq_mask mask_eq_exp_minus_1)
    have "take_bit 7 ((w AND 127) OR 64) = take_bit 7 (w AND 127) OR take_bit 7 64" by (rule take_bit_or)
    also have "\<dots> = (w AND 127) OR 64" unfolding t by simp
    finally have "take_bit 7 ((w AND 127) OR 64) = (w AND 127) OR 64" .
    then have "unat ((w AND 127) OR 64) = take_bit 7 (unat ((w AND 127) OR 64))" by (metis unsigned_take_bit_eq)
    also have "\<dots> < 2 ^ 7" by (rule take_bit_nat_less_exp)
    finally show "unat ((w AND 127) OR 64) < 128" by simp
  qed
  show ?thesis using assms low high by (simp add: GenX25519Private_def Let_def)
qed

end
