(* ===== verification/Xray_Inbound.thy ===== *)
theory Xray_Inbound
  imports Controller Xray_User Crypt
begin

text \<open>
  \<open>core/xray/inbound.go\<close> and \<open>outbound.go\<close>: the inbound and outbound of a node, built from the description
  of the panel and the options of the configuration. The structs of package \<open>infra/conf\<close> of Xray are
  records with the fields the code sets; the JSON package, \<open>Build\<close>, \<open>time.ParseDuration\<close> and the random source
  are arguments. A nil pointer that is dereferenced is a panic.
\<close>

section \<open>Structs of Xray\<close>

text \<open>The settings of one transport as decoded (\<open>tr_Settings\<close>), with the one field the code changes.\<close>

record 'raw transport =
  tr_Settings :: "'raw option"
  tr_AcceptProxyProtocol :: bool

record SocketConfig =
  sk_AcceptProxyProtocol :: bool
  sk_TFO :: bool
  sk_DomainStrategy :: string

record TLSConfig =
  tl_CertFile :: string
  tl_KeyFile :: string
  tl_OcspStapling :: nat
  tl_RejectUnknownSNI :: bool
  tl_ECHServerKeys :: string

record 'raw REALITYConfig =
  re_Dest :: 'raw
  re_Xver :: nat
  re_ServerNames :: "string list"
  re_PrivateKey :: string
  re_MinClientVer :: string
  re_MaxClientVer :: string
  re_MaxTimeDiff :: "64 word"
  re_ShortIds :: "string list"

record 'raw StreamConfig =
  sg_Network :: "string option"
  sg_Security :: string
  sg_TCPSettings :: "'raw transport option"
  sg_WSSettings :: "'raw transport option"
  sg_GRPCSettings :: "'raw transport option"
  sg_HTTPUPGRADESettings :: "'raw transport option"
  sg_SplitHTTPSettings :: "'raw transport option"
  sg_SocketSettings :: "SocketConfig option"
  sg_TLSSettings :: "TLSConfig option"
  sg_REALITYSettings :: "'raw REALITYConfig option"

record 'raw InboundFallback =
  if_Name :: string
  if_Alpn :: string
  if_Path :: string
  if_Dest :: 'raw
  if_Xver :: nat

record ShadowsocksUserConfig =
  su_Cipher :: string
  su_Password :: string

datatype 'raw inbound_settings =
    VLessInboundConfig string "'raw InboundFallback list option"
  | VMessInboundConfig
  | TrojanServerConfig "'raw InboundFallback list"
  | ShadowsocksServerConfig string string "ShadowsocksUserConfig list" "string list"
  | FreedomConfig

record SniffingConfig =
  sf_Enabled :: bool
  sf_DestOverride :: "string list"

record 'raw InboundDetourConfig =
  id_Protocol :: string
  id_PortList :: "(32 word \<times> 32 word) list"
  id_ListenOn :: string
  id_Settings :: "'raw option"
  id_Tag :: string
  id_StreamSetting :: "'raw StreamConfig option"
  id_SniffingConfig :: "SniffingConfig option"

record 'raw OutboundDetourConfig =
  od_Protocol :: string
  od_Tag :: string
  od_SendThrough :: "string option"
  od_StreamSetting :: "'raw StreamConfig option"
  od_Settings :: "'raw option"

text \<open>
  The functions of other packages. \<open>xj_transport\<close> decodes into a pointer that a JSON null leaves nil;
  \<open>xj_string\<close>, \<open>xj_settings\<close> and \<open>xj_of_value\<close> are \<open>json.Marshal\<close>, \<open>xj_empty\<close> is the text of the empty object,
  \<open>xj_rand\<close> are the 32 random bytes. \<open>ListenOn\<close> holds the text that \<open>net.ParseAddress\<close> reads.
\<close>

record ('raw, 'in, 'out) xray_ops =
  xj_transport :: "string \<Rightarrow> 'raw option \<Rightarrow> string + 'raw transport option"
  xj_value :: "'raw \<Rightarrow> string + anyval"
  xj_of_value :: "anyval \<Rightarrow> string + 'raw"
  xj_string :: "string \<Rightarrow> string + 'raw"
  xj_settings :: "'raw inbound_settings \<Rightarrow> string + 'raw"
  xj_empty :: 'raw
  xj_base64url :: "string \<Rightarrow> string option"
  xj_rand :: "string + string"
  xj_ParseDuration :: "string \<Rightarrow> duration"
  xj_build_in :: "'raw InboundDetourConfig \<Rightarrow> string + 'in"
  xj_build_out :: "'raw OutboundDetourConfig \<Rightarrow> string + 'out"

definition new_stream :: "string option \<Rightarrow> 'raw StreamConfig" where
  "new_stream network = \<lparr>sg_Network = network, sg_Security = '''', sg_TCPSettings = None, sg_WSSettings = None, sg_GRPCSettings = None,
     sg_HTTPUPGRADESettings = None, sg_SplitHTTPSettings = None, sg_SocketSettings = None, sg_TLSSettings = None, sg_REALITYSettings = None\<rparr>"

definition new_inbound :: "string \<Rightarrow> 'raw \<Rightarrow> 'raw StreamConfig option \<Rightarrow> 'raw InboundDetourConfig" where
  "new_inbound protocol settings stream = \<lparr>id_Protocol = protocol, id_PortList = [], id_ListenOn = '''', id_Settings = Some settings,
     id_Tag = '''', id_StreamSetting = stream, id_SniffingConfig = None\<rparr>"

text \<open>Sequencing of steps that may panic or fail, and the text an error is wrapped in.\<close>

definition then_go :: "(string + 'a) go \<Rightarrow> ('a \<Rightarrow> (string + 'b) go) \<Rightarrow> (string + 'b) go" where
  "then_go m f = (case m of None \<Rightarrow> None | Some (Inl e) \<Rightarrow> Some (Inl e) | Some (Inr x) \<Rightarrow> f x)"

definition with_error :: "string \<Rightarrow> string + 'a \<Rightarrow> string + 'a" where
  "with_error what r = (case r of Inl err \<Rightarrow> Inl (what @ err) | Inr x \<Rightarrow> Inr x)"

section \<open>XHTTP settings\<close>

fun pickHeaderString :: "(string, anyval) gomap \<Rightarrow> string list \<Rightarrow> string" where
  "pickHeaderString m [] = ''''"
| "pickHeaderString m (k # keys) =
     (case mload m k of Some (AnyString s) \<Rightarrow> strings_TrimSpace s | _ \<Rightarrow> pickHeaderString m keys)"

definition header_entry :: "anyval \<Rightarrow> (string \<times> string) option" where
  "header_entry item =
     (case item of
        AnyMap h \<Rightarrow>
          (let k = pickHeaderString h [''name'', ''key'', ''header'']
           in if k = '''' then None else Some (k, pickHeaderString h [''value'', ''val'', ''v'']))
      | AnyString h \<Rightarrow>
          (case strings_Cut h (CHR '':'') of
             None \<Rightarrow> None
           | Some (k, val) \<Rightarrow>
               (let k = strings_TrimSpace k in if k = '''' then None else Some (k, strings_TrimSpace val)))
      | _ \<Rightarrow> None)"

definition headersArrayToMap :: "anyval list \<Rightarrow> (string, anyval) gomap" where
  "headersArrayToMap arr =
     fold (\<lambda>item headers. case header_entry item of None \<Rightarrow> headers | Some (k, v) \<Rightarrow> mstore headers k (AnyString v)) arr []"

text \<open>What the loop does to the value under one key, after its children are normalised.\<close>

definition fix_entry :: "string \<Rightarrow> anyval \<Rightarrow> anyval" where
  "fix_entry k v =
     (if strings_ToLower k = ''headers'' then (case v of AnyList arr \<Rightarrow> AnyMap (headersArrayToMap arr) | _ \<Rightarrow> v)
      else if strings_ToLower k \<in> {''sockopt'', ''tlssettings'', ''xhttpsettings'', ''downloadsettings'', ''xmux''}
        then (case v of AnyList _ \<Rightarrow> AnyMap [] | _ \<Rightarrow> v)
      else v)"

fun normalizeXHTTPValue :: "anyval \<Rightarrow> anyval" where
  "normalizeXHTTPValue (AnyMap t) = AnyMap (map (\<lambda>(k, child). (k, fix_entry k (normalizeXHTTPValue child))) t)"
| "normalizeXHTTPValue (AnyList t) = AnyList (map normalizeXHTTPValue t)"
| "normalizeXHTTPValue v = v"

definition normalizeXHTTPModeCompat :: "anyval \<Rightarrow> anyval" where
  "normalizeXHTTPModeCompat v =
     (case v of
        AnyMap obj \<Rightarrow>
          (let mode = (case mload obj ''mode'' of Some (AnyString s) \<Rightarrow> s | _ \<Rightarrow> '''')
           in if strings_EqualFold (strings_TrimSpace mode) ''stream-one'' then
                (let obj = mdelete obj ''downloadSettings''
                 in case mload obj ''extra'' of
                      Some (AnyMap extra) \<Rightarrow> AnyMap (mstore obj ''extra'' (AnyMap (mdelete extra ''downloadSettings'')))
                    | _ \<Rightarrow> AnyMap obj)
              else AnyMap obj)
      | _ \<Rightarrow> v)"

definition normalizeXHTTPSettings :: "('raw, 'in, 'out) xray_ops \<Rightarrow> 'raw option \<Rightarrow> 'raw option" where
  "normalizeXHTTPSettings J raw =
     (case raw of
        None \<Rightarrow> None
      | Some r \<Rightarrow>
          (case xj_value J r of
             Inl _ \<Rightarrow> raw
           | Inr payload \<Rightarrow>
               (case xj_of_value J (normalizeXHTTPModeCompat (normalizeXHTTPValue payload)) of Inl _ \<Rightarrow> raw | Inr s \<Rightarrow> Some s)))"

section \<open>Protocols\<close>

definition splitAndFilter :: "string \<Rightarrow> string list" where
  "splitAndFilter input =
     filter (\<lambda>p. p \<noteq> '''') (map strings_TrimSpace
       (strings_FieldsFunc (\<lambda>r. r = CHR '','' \<or> r = CHR '';'' \<or> r = CHR '' '' \<or> r = CHR 0x09) input))"

fun fallback_loop :: "('raw, 'in, 'out) xray_ops \<Rightarrow> FallBackConfigForXray list \<Rightarrow> string + 'raw InboundFallback list" where
  "fallback_loop J [] = Inr []"
| "fallback_loop J (c # cs) =
     (if fbx_Dest c = '''' then Inl ''dest is required for fallback fialed''
      else case xj_string J (fbx_Dest c) of
        Inl err \<Rightarrow> Inl (''marshal dest  config fialed: '' @ err)
      | Inr dest \<Rightarrow>
          (case fallback_loop J cs of
             Inl e \<Rightarrow> Inl e
           | Inr fs \<Rightarrow>
               Inr (\<lparr>if_Name = fbx_SNI c, if_Alpn = fbx_Alpn c, if_Path = fbx_Path c, if_Dest = dest, if_Xver = fbx_ProxyProtocolVer c\<rparr> # fs)))"

definition buildVlessFallbacks :: "('raw, 'in, 'out) xray_ops \<Rightarrow> FallBackConfigForXray list option \<Rightarrow> string + 'raw InboundFallback list" where
  "buildVlessFallbacks J fallbackConfigs =
     (case fallbackConfigs of None \<Rightarrow> Inl ''you must provide FallBackConfigs'' | Some cs \<Rightarrow> fallback_loop J cs)"

definition buildTrojanFallbacks :: "('raw, 'in, 'out) xray_ops \<Rightarrow> FallBackConfigForXray list option \<Rightarrow> string + 'raw InboundFallback list" where
  "buildTrojanFallbacks J fallbackConfigs =
     (case fallbackConfigs of None \<Rightarrow> Inl ''you must provide FallBackConfigs'' | Some cs \<Rightarrow> fallback_loop J cs)"

definition decode_transport ::
  "('raw, 'in, 'out) xray_ops \<Rightarrow> string \<Rightarrow> string \<Rightarrow> 'raw option \<Rightarrow> string + 'raw StreamConfig" where
  "decode_transport J network kind raw =
     (case xj_transport J kind raw of
        Inl err \<Rightarrow> Inl (''unmarshal '' @ kind @ '' settings error: '' @ err)
      | Inr tr \<Rightarrow>
          (let s = new_stream (Some network)
           in Inr (if kind = ''tcp'' then s\<lparr>sg_TCPSettings := tr\<rparr>
                   else if kind = ''ws'' then s\<lparr>sg_WSSettings := tr\<rparr>
                   else if kind = ''grpc'' then s\<lparr>sg_GRPCSettings := tr\<rparr>
                   else if kind = ''httpupgrade'' then s\<lparr>sg_HTTPUPGRADESettings := tr\<rparr>
                   else s\<lparr>sg_SplitHTTPSettings := tr\<rparr>)))"

definition v2ray_stream :: "('raw, 'in, 'out) xray_ops \<Rightarrow> 'raw VAllssNode \<Rightarrow> string + 'raw StreamConfig" where
  "v2ray_stream J v =
     (if va_Network v \<in> {''tcp'', ''ws'', ''grpc'', ''httpupgrade''}
      then decode_transport J (va_Network v) (va_Network v) (va_NetworkSettings v)
      else if va_Network v \<in> {''splithttp'', ''xhttp''}
      then decode_transport J (va_Network v) ''xhttp'' (normalizeXHTTPSettings J (va_NetworkSettings v))
      else Inl ''the network type is not vail'')"

text \<open>The protocol settings of a VMess or VLESS node.\<close>

definition v2ray_settings :: "('raw, 'in, 'out) xray_ops \<Rightarrow> 'raw Options \<Rightarrow> 'raw NodeInfo \<Rightarrow> (string + string \<times> 'raw) go" where
  "v2ray_settings J config nodeInfo =
     (if ni_Type nodeInfo = ''vless'' then
        (let decryption = resolveVlessInboundDecryption (xj_base64url J) (ni_VAllss nodeInfo);
             decryption = (if decryption = '''' then ''none'' else decryption)
         in case op_XrayOptions config of
              None \<Rightarrow> None
            | Some x \<Rightarrow>
                Some (if xo_EnableFallback x then
                        (case buildVlessFallbacks J (xo_FallBackConfigs x) of
                           Inl e \<Rightarrow> Inl e
                         | Inr fs \<Rightarrow> map_sum id (Pair ''vless'')
                             (with_error ''marshal vless fallback config error: '' (xj_settings J (VLessInboundConfig decryption (Some fs)))))
                      else map_sum id (Pair ''vless'')
                             (with_error ''marshal vless config error: '' (xj_settings J (VLessInboundConfig decryption None)))))
      else Some (map_sum id (Pair ''vmess'') (with_error ''marshal vmess settings error: '' (xj_settings J VMessInboundConfig))))"

definition buildV2ray :: "('raw, 'in, 'out) xray_ops \<Rightarrow> 'raw Options \<Rightarrow> 'raw NodeInfo \<Rightarrow> (string + 'raw InboundDetourConfig) go" where
  "buildV2ray J config nodeInfo =
     then_go (v2ray_settings J config nodeInfo) (\<lambda>(protocol, s).
       case ni_VAllss nodeInfo of
         None \<Rightarrow> None
       | Some v \<Rightarrow>
           (if va_NetworkSettings v = None then Some (Inr (new_inbound protocol s None))
            else Some (map_sum id (\<lambda>t. new_inbound protocol s (Some t)) (v2ray_stream J v))))"

definition trojan_network :: "'raw TrojanNode \<Rightarrow> string" where
  "trojan_network v = (if tj_Network v = '''' then ''tcp'' else tj_Network v)"

definition buildTrojan :: "('raw, 'in, 'out) xray_ops \<Rightarrow> 'raw Options \<Rightarrow> 'raw NodeInfo \<Rightarrow> (string + 'raw InboundDetourConfig) go" where
  "buildTrojan J config nodeInfo =
     then_go (case op_XrayOptions config of
                None \<Rightarrow> None
              | Some x \<Rightarrow>
                  Some (if xo_EnableFallback x then
                          (case buildTrojanFallbacks J (xo_FallBackConfigs x) of
                             Inl e \<Rightarrow> Inl e
                           | Inr fs \<Rightarrow> with_error ''marshal trojan fallback config error: '' (xj_settings J (TrojanServerConfig fs)))
                        else Inr (xj_empty J)))
       (\<lambda>s. case ni_Trojan nodeInfo of
              None \<Rightarrow> None
            | Some v \<Rightarrow>
                Some (if trojan_network v \<in> {''tcp'', ''ws'', ''grpc''}
                      then map_sum id (\<lambda>t. new_inbound ''trojan'' s (Some t))
                             (decode_transport J (trojan_network v) (trojan_network v) (tj_NetworkSettings v))
                      else Inl ''the network type is not vail''))"

definition hex_digit :: "nat \<Rightarrow> char" where
  "hex_digit n = (if n < 10 then char_of (48 + n) else char_of (87 + n))"

definition hex_EncodeToString :: "string \<Rightarrow> string" where
  "hex_EncodeToString s = concat (map (\<lambda>c. [hex_digit (of_char c div 16), hex_digit (of_char c mod 16)]) s)"

definition buildShadowsocks :: "('raw, 'in, 'out) xray_ops \<Rightarrow> 'raw NodeInfo \<Rightarrow> (string + 'raw InboundDetourConfig) go" where
  "buildShadowsocks J nodeInfo =
     (case ni_Shadowsocks nodeInfo of
        None \<Rightarrow> None
      | Some s \<Rightarrow>
          Some (case xj_rand J of
             Inl err \<Rightarrow> Inl (''generate random password error: '' @ err)
           | Inr p \<Rightarrow>
               (let keyed = ss_ServerKey s \<noteq> '''';
                    user = \<lparr>su_Cipher = (if keyed then '''' else ss_Cipher s),
                            su_Password = (if keyed then EncodeToString (take (ss2022KeyLength (ss_Cipher s)) p) else hex_EncodeToString p)\<rparr>
                in map_sum id (\<lambda>sets. new_inbound ''shadowsocks'' sets (Some (new_stream (Some ''tcp''))))
                     (with_error ''marshal shadowsocks settings error: ''
                       (xj_settings J (ShadowsocksServerConfig (ss_Cipher s) (ss_ServerKey s) [user] [''tcp'', ''udp'']))))))"

section \<open>Security\<close>

definition getInboundECHSettings :: "'raw NodeInfo \<Rightarrow> ECHSettings option" where
  "getInboundECHSettings nodeInfo =
     (if ni_Type nodeInfo = ''vmess'' \<or> ni_Type nodeInfo = ''vless'' then map_option (\<lambda>v. ts_ECH (va_TlsSettings v)) (ni_VAllss nodeInfo)
      else if ni_Type nodeInfo = ''trojan'' then map_option (\<lambda>v. ts_ECH (tj_TlsSettings v)) (ni_Trojan nodeInfo)
      else None)"

definition getInboundECHServerKeys :: "'raw NodeInfo \<Rightarrow> string" where
  "getInboundECHServerKeys nodeInfo =
     (case getInboundECHSettings nodeInfo of
        None \<Rightarrow> ''''
      | Some ech \<Rightarrow>
          if \<not> ech_Enabled ech then ''''
          else if strings_TrimSpace (ech_ServerKeys ech) \<noteq> '''' then strings_TrimSpace (ech_ServerKeys ech)
          else strings_TrimSpace (ech_PrivateKey ech))"

definition local_dest :: "string \<Rightarrow> bool" where
  "local_dest dest \<longleftrightarrow> strings_HasPrefix dest ''/'' \<or> strings_HasPrefix dest ''@''"

definition no_target_message :: string where
  "no_target_message = ''reality '' @ [CHR 0xE9, CHR 0x85, CHR 0x8D, CHR 0xE7, CHR 0xBD, CHR 0xAE, CHR 0xE7, CHR 0xBC, CHR 0xBA, CHR 0xE5, CHR 0xB0, CHR 0x91,
     CHR 0xE7, CHR 0x9B, CHR 0xAE, CHR 0xE6, CHR 0xA0, CHR 0x87, CHR 0xE5, CHR 0x9F, CHR 0x9F, CHR 0xE5, CHR 0x90, CHR 0x8D]"

definition missing_message :: "string \<Rightarrow> string" where
  "missing_message what = ''reality '' @ [CHR 0xE9, CHR 0x85, CHR 0x8D, CHR 0xE7, CHR 0xBD, CHR 0xAE, CHR 0xE7, CHR 0xBC, CHR 0xBA, CHR 0xE5, CHR 0xB0, CHR 0x91] @ '' '' @ what"

text \<open>The target: the configured one, else the server name; with a port unless it is a socket.\<close>

definition reality_dest :: "TlsSettings \<Rightarrow> string option" where
  "reality_dest ts =
     (let dest = strings_TrimSpace (ts_Dest ts);
          serverPort = strings_TrimSpace (ts_ServerPort ts);
          serverPort = (if serverPort = '''' then ''443'' else serverPort);
          dest = (if dest = '''' then strings_TrimSpace (ts_ServerName ts) else dest)
      in if dest = '''' then None
         else if local_dest dest \<or> net_SplitHostPort dest \<noteq> None then Some dest
         else Some (net_JoinHostPort dest serverPort))"

definition reality_server_names :: "TlsSettings \<Rightarrow> string \<Rightarrow> string list" where
  "reality_server_names ts dest =
     (let serverNames = splitAndFilter (strings_TrimSpace (ts_ServerName ts))
      in if serverNames = [] \<and> \<not> local_dest dest
         then (case net_SplitHostPort dest of Some (host, _) \<Rightarrow> [host] | None \<Rightarrow> [])
         else serverNames)"

definition reality_settings :: "('raw, 'in, 'out) xray_ops \<Rightarrow> 'raw VAllssNode \<Rightarrow> string + 'raw REALITYConfig" where
  "reality_settings J v =
     (case reality_dest (va_TlsSettings v) of
        None \<Rightarrow> Inl no_target_message
      | Some dest \<Rightarrow>
          (case xj_string J dest of
             Inl err \<Rightarrow> Inl (''marshal reality dest error: '' @ err)
           | Inr d \<Rightarrow>
               (let ts = va_TlsSettings v; rl = va_RealityConfig v;
                    serverNames = reality_server_names ts dest;
                    shortIDs = splitAndFilter (ts_ShortId ts)
                in if serverNames = [] then Inl (missing_message ''server_name'')
                   else if shortIDs = [] then Inl (missing_message ''short_id'')
                   else Inr \<lparr>re_Dest = d, re_Xver = (if ts_Xver ts = 0 then rl_Xver rl else ts_Xver ts), re_ServerNames = serverNames,
                     re_PrivateKey = ts_PrivateKey ts, re_MinClientVer = rl_MinClientVer rl, re_MaxClientVer = rl_MaxClientVer rl,
                     re_MaxTimeDiff = word_of_int (go_div (xj_ParseDuration J (rl_MaxTimeDiff rl)) 1000), re_ShortIds = shortIDs\<rparr>)))"

text \<open>The last switch of \<open>buildInbound\<close>, on the stream settings of the inbound.\<close>

definition secure_stream ::
  "('raw, 'in, 'out) xray_ops \<Rightarrow> 'raw Options \<Rightarrow> 'raw NodeInfo \<Rightarrow> 'raw StreamConfig \<Rightarrow> (string + 'raw StreamConfig) go" where
  "secure_stream J option nodeInfo s =
     (if ni_Security nodeInfo = Security_Tls then
        Some (case op_CertConfig option of
           None \<Rightarrow> Inl ''the CertConfig is not vail''
         | Some cert \<Rightarrow>
             if cc_CertMode cert = ''none'' \<or> cc_CertMode cert = '''' then Inr s
             else Inr (s\<lparr>sg_Security := ''tls'', sg_TLSSettings := Some \<lparr>tl_CertFile = cc_CertFile cert, tl_KeyFile = cc_KeyFile cert,
                    tl_OcspStapling = 3600, tl_RejectUnknownSNI = cc_RejectUnknownSni cert, tl_ECHServerKeys = getInboundECHServerKeys nodeInfo\<rparr>\<rparr>))
      else if ni_Security nodeInfo = Security_Reality then
        (case ni_VAllss nodeInfo of
           None \<Rightarrow> None
         | Some v \<Rightarrow> Some (map_sum id (\<lambda>r. s\<lparr>sg_Security := ''reality'', sg_REALITYSettings := Some r\<rparr>) (reality_settings J v)))
      else Some (Inr s))"

section \<open>The inbound\<close>

definition accept_proxy :: "'raw transport option \<Rightarrow> bool \<Rightarrow> 'raw transport" where
  "accept_proxy tr b = (case tr of Some t \<Rightarrow> t\<lparr>tr_AcceptProxyProtocol := b\<rparr> | None \<Rightarrow> \<lparr>tr_Settings = None, tr_AcceptProxyProtocol = b\<rparr>)"

definition proxy_stream :: "string \<Rightarrow> XrayOptions \<Rightarrow> 'raw StreamConfig \<Rightarrow> 'raw StreamConfig" where
  "proxy_stream network x s =
     (if network = ''tcp'' then s\<lparr>sg_TCPSettings := Some (accept_proxy (sg_TCPSettings s) (xo_EnableProxyProtocol x))\<rparr>
      else if network = ''ws'' then s\<lparr>sg_WSSettings := Some (accept_proxy (sg_WSSettings s) (xo_EnableProxyProtocol x))\<rparr>
      else s\<lparr>sg_SocketSettings := Some \<lparr>sk_AcceptProxyProtocol = xo_EnableProxyProtocol x, sk_TFO = xo_EnableTFO x, sk_DomainStrategy = ''''\<rparr>\<rparr>)"

text \<open>The first switch: the protocol and its network. The network is read before the error is looked at.\<close>

definition inbound_protocol ::
  "('raw, 'in, 'out) xray_ops \<Rightarrow> 'raw Options \<Rightarrow> 'raw NodeInfo \<Rightarrow> (string + 'raw InboundDetourConfig \<times> string) go" where
  "inbound_protocol J option nodeInfo =
     (let typ' = ni_Type nodeInfo;
          on = (\<lambda>network. map_option (map_sum id (\<lambda>i. (i, network))))
      in if typ' = ''vmess'' \<or> typ' = ''vless'' then
           (case ni_VAllss nodeInfo of None \<Rightarrow> None | Some v \<Rightarrow> on (va_Network v) (buildV2ray J option nodeInfo))
         else if typ' = ''trojan'' then
           (case ni_Trojan nodeInfo of None \<Rightarrow> None | Some v \<Rightarrow> on (trojan_network v) (buildTrojan J option nodeInfo))
         else if typ' = ''shadowsocks'' then on ''tcp'' (buildShadowsocks J nodeInfo)
         else Some (Inl (''unsupported node type: '' @ typ' @ '', Only support: V2ray, Trojan, Shadowsocks'')))"

definition buildInbound ::
  "('raw, 'in, 'out) xray_ops \<Rightarrow> 'raw Options \<Rightarrow> 'raw NodeInfo \<Rightarrow> string \<Rightarrow> (string + 'in) go" where
  "buildInbound J option nodeInfo tag =
     then_go (inbound_protocol J option nodeInfo) (\<lambda>(i, network).
       case (ni_Common nodeInfo, op_XrayOptions option, id_StreamSetting i) of
         (Some common, Some x, Some s) \<Rightarrow>
           then_go (secure_stream J option nodeInfo (proxy_stream network x s)) (\<lambda>s.
             let port = word_of_int (cn_ServerPort common)
             in Some (xj_build_in J (i\<lparr>id_PortList := [(port, port)], id_ListenOn := op_ListenIP option,
                  id_SniffingConfig := Some \<lparr>sf_Enabled = \<not> xo_DisableSniffing x, sf_DestOverride = [''http'', ''tls'']\<rparr>,
                  id_StreamSetting := Some s, id_Tag := tag\<rparr>)))
       | _ \<Rightarrow> None)"

section \<open>The outbound\<close>

definition normalizeDomainStrategy :: "string \<Rightarrow> string" where
  "normalizeDomainStrategy input =
     (let s = strings_ToLower (strings_TrimSpace input)
      in if s \<in> {'''', ''useip'', ''use_ip''} then ''UseIP''
         else if s \<in> {''asis'', ''as_is'', ''as is''} then ''AsIs''
         else if s \<in> {''ipv4_only'', ''useipv4'', ''use_ipv4'', ''ipv4''} then ''UseIPv4''
         else if s \<in> {''ipv6_only'', ''useipv6'', ''use_ipv6'', ''ipv6''} then ''UseIPv6''
         else if s \<in> {''prefer_ipv4'', ''preferipv4''} then ''PreferIPv4''
         else if s \<in> {''prefer_ipv6'', ''preferipv6''} then ''PreferIPv6''
         else input)"

definition buildOutbound :: "('raw, 'in, 'out) xray_ops \<Rightarrow> 'raw Options \<Rightarrow> string \<Rightarrow> (string + 'out) go" where
  "buildOutbound J config tag =
     (case op_XrayOptions config of
        None \<Rightarrow> None
      | Some x \<Rightarrow>
          Some (case xj_settings J FreedomConfig of
             Inl err \<Rightarrow> Inl (''marshal proxy config error: '' @ err)
           | Inr setting \<Rightarrow>
               xj_build_out J \<lparr>od_Protocol = ''freedom'', od_Tag = tag, od_SendThrough = (if op_SendIP config \<noteq> '''' then Some (op_SendIP config) else None),
                 od_StreamSetting = (if xo_EnableDNS x
                   then Some ((new_stream None)\<lparr>sg_SocketSettings := Some \<lparr>sk_AcceptProxyProtocol = False, sk_TFO = False,
                          sk_DomainStrategy = normalizeDomainStrategy (xo_DNSType x)\<rparr>\<rparr>)
                   else None),
                 od_Settings = Some setting\<rparr>))"

section \<open>Properties\<close>

text \<open>The shape Xray expects: no array under the keys that name an object, at any depth.\<close>

definition object_key :: "string \<Rightarrow> bool" where
  "object_key k \<longleftrightarrow> strings_ToLower k \<in> {''headers'', ''sockopt'', ''tlssettings'', ''xhttpsettings'', ''downloadsettings'', ''xmux''}"

definition is_array :: "anyval \<Rightarrow> bool" where
  "is_array v = (case v of AnyList _ \<Rightarrow> True | _ \<Rightarrow> False)"

fun xhttp_shaped :: "anyval \<Rightarrow> bool" where
  "xhttp_shaped (AnyMap t) = list_all (\<lambda>(k, child). \<not> (object_key k \<and> is_array child) \<and> xhttp_shaped child) t"
| "xhttp_shaped (AnyList t) = list_all xhttp_shaped t"
| "xhttp_shaped v = True"

lemma fix_entry_id: "\<not> (object_key k \<and> is_array v) \<Longrightarrow> fix_entry k v = v"
  by (cases v) (auto simp: fix_entry_def object_key_def is_array_def)

lemma headers_strings: "\<exists>hs. headersArrayToMap arr = map (\<lambda>(k, s). (k, AnyString s)) hs"
proof -
  have store: "\<exists>hs'. mstore (map (\<lambda>(k, s). (k, AnyString s)) hs) k (AnyString s) = map (\<lambda>(k, s). (k, AnyString s)) hs'" for hs :: "(string \<times> string) list" and k s
  proof (induction hs)
    case Nil
    then show ?case by (auto simp: mstore_def intro: exI [of _ "[(k, s)]"])
  next
    case (Cons h hs)
    obtain k' s' where h: "h = (k', s')" by fastforce
    obtain hs' where hs': "mstore (map (\<lambda>(k, s). (k, AnyString s)) hs) k (AnyString s) = map (\<lambda>(k, s). (k, AnyString s)) hs'" using Cons by blast
    show ?case
    proof (cases "k' = k")
      case True
      then show ?thesis by (auto simp: h mstore_def intro: exI [of _ "(k, s) # hs"])
    next
      case False
      then show ?thesis using hs' by (auto simp: h mstore_def intro: exI [of _ "(k', s') # hs'"])
    qed
  qed
  have "\<exists>hs'. fold (\<lambda>item headers. case header_entry item of None \<Rightarrow> headers | Some (k, v) \<Rightarrow> mstore headers k (AnyString v)) arr
      (map (\<lambda>(k, s). (k, AnyString s)) hs) = map (\<lambda>(k, s). (k, AnyString s)) hs'" for hs
  proof (induction arr arbitrary: hs)
    case (Cons item arr)
    show ?case
    proof (cases "header_entry item")
      case None
      then show ?thesis using Cons by simp
    next
      case (Some e)
      obtain k s where e: "e = (k, s)" by fastforce
      obtain hs' where "mstore (map (\<lambda>(k, s). (k, AnyString s)) hs) k (AnyString s) = map (\<lambda>(k, s). (k, AnyString s)) hs'" using store by blast
      then show ?thesis using Cons Some e by simp
    qed
  qed auto
  from this [of "[]"] show ?thesis by (simp add: headersArrayToMap_def)
qed

lemma fix_entry_shaped:
  assumes "xhttp_shaped v"
  shows "\<not> (object_key k \<and> is_array (fix_entry k v)) \<and> xhttp_shaped (fix_entry k v)"
proof (cases "object_key k \<and> is_array v")
  case False
  then show ?thesis using assms by (simp add: fix_entry_id)
next
  case True
  then obtain arr where v: "v = AnyList arr" by (cases v) (auto simp: is_array_def)
  obtain hs where "headersArrayToMap arr = map (\<lambda>(k, s). (k, AnyString s)) hs" using headers_strings by blast
  then show ?thesis using True
    by (auto simp: v fix_entry_def object_key_def is_array_def list_all_iff)
qed

lemma normalize_shaped: "xhttp_shaped (normalizeXHTTPValue v)"
proof (induction v rule: normalizeXHTTPValue.induct)
  case (1 t)
  then show ?case using fix_entry_shaped by (fastforce simp: list_all_iff)
qed (auto simp: list_all_iff)

lemma shaped_normalize: "xhttp_shaped v \<Longrightarrow> normalizeXHTTPValue v = v"
proof (induction v rule: normalizeXHTTPValue.induct)
  case (1 t)
  then have "(case e of (k, child) \<Rightarrow> (k, fix_entry k (normalizeXHTTPValue child))) = e" if "e \<in> set t" for e
    using that fix_entry_id by (fastforce simp: list_all_iff)
  then show ?case by (simp add: map_idI)
qed (auto simp: list_all_iff map_idI)

lemma mdelete_filter: "mdelete m k = filter (\<lambda>(k', _). k \<noteq> k') m"
  by (simp add: mdelete_def AList.delete_eq)

lemma mstore_same: "mload m k = Some v \<Longrightarrow> mstore m k v = m"
  by (induction m) (auto simp: mload_def mstore_def)

lemma mstore_entries: "e \<in> set (mstore m k v) \<Longrightarrow> e = (k, v) \<or> e \<in> set m"
  by (induction m) (auto simp: mstore_def split: if_splits)

text \<open>The mode that decides is not touched, so the second pass takes the same branch.\<close>

definition stream_one :: "(string, anyval) gomap \<Rightarrow> bool" where
  "stream_one obj \<longleftrightarrow> (\<exists>s. mload obj ''mode'' = Some (AnyString s) \<and> strings_EqualFold (strings_TrimSpace s) ''stream-one'')"

lemma empty_mode: "\<not> strings_EqualFold (strings_TrimSpace '''') ''stream-one''"
  by (simp add: strings_EqualFold_def strings_TrimSpace_def strings_ToLower_def)

lemma ModeCompat_AnyMap:
  "normalizeXHTTPModeCompat (AnyMap obj) =
     (if stream_one obj then
        (let obj = mdelete obj ''downloadSettings''
         in case mload obj ''extra'' of
              Some (AnyMap extra) \<Rightarrow> AnyMap (mstore obj ''extra'' (AnyMap (mdelete extra ''downloadSettings'')))
            | _ \<Rightarrow> AnyMap obj)
      else AnyMap obj)"
  using empty_mode by (auto simp: normalizeXHTTPModeCompat_def stream_one_def Let_def split: option.splits anyval.splits)

lemma ModeCompat_other: "(\<And>obj. v \<noteq> AnyMap obj) \<Longrightarrow> normalizeXHTTPModeCompat v = v"
  by (simp add: normalizeXHTTPModeCompat_def split: anyval.split)

lemma mdelete_twice: "mdelete (mdelete m k) k = mdelete m k"
  by (simp add: mdelete_filter)

lemma mdelete_mstore: "k \<noteq> k' \<Longrightarrow> mdelete (mstore m k v) k' = mstore (mdelete m k') k v"
  by (induction m) (auto simp: mdelete_def mstore_def)

lemma ModeCompat_idem: "normalizeXHTTPModeCompat (normalizeXHTTPModeCompat v) = normalizeXHTTPModeCompat v"
proof (cases "\<exists>obj. v = AnyMap obj \<and> stream_one obj")
  case False
  then have "normalizeXHTTPModeCompat v = v" by (cases v) (auto simp: ModeCompat_AnyMap ModeCompat_other)
  then show ?thesis by simp
next
  case True
  then obtain obj where v: "v = AnyMap obj" "stream_one obj" by blast
  let ?d = "mdelete obj ''downloadSettings''"
  have keep: "stream_one ?d" "stream_one (mstore ?d ''extra'' x)" for x using v(2) by (auto simp: stream_one_def)
  show ?thesis
  proof (cases "\<exists>extra. mload ?d ''extra'' = Some (AnyMap extra)")
    case True
    then show ?thesis using keep v by (auto simp: ModeCompat_AnyMap Let_def mdelete_mstore mdelete_twice mstore_same)
  next
    case False
    then have "normalizeXHTTPModeCompat v = AnyMap ?d" using v by (auto simp: ModeCompat_AnyMap Let_def split: option.splits anyval.splits)
    moreover have "normalizeXHTTPModeCompat (AnyMap ?d) = AnyMap ?d"
      using False keep by (auto simp: ModeCompat_AnyMap Let_def mdelete_twice split: option.splits anyval.splits)
    ultimately show ?thesis by simp
  qed
qed

lemma ModeCompat_drops:
  assumes "normalizeXHTTPModeCompat (AnyMap o1) = AnyMap obj" and "stream_one obj"
  shows "mload obj ''downloadSettings'' = None \<and> (\<forall>extra. mload obj ''extra'' = Some (AnyMap extra) \<longrightarrow> mload extra ''downloadSettings'' = None)"
proof (cases "stream_one o1")
  case True
  then show ?thesis using assms by (auto simp: ModeCompat_AnyMap Let_def split: option.splits anyval.splits)
next
  case False
  then show ?thesis using assms by (simp add: ModeCompat_AnyMap)
qed

lemma shaped_delete: "xhttp_shaped (AnyMap obj) \<Longrightarrow> xhttp_shaped (AnyMap (mdelete obj k))"
  by (auto simp: list_all_iff mdelete_filter)

lemma shaped_member: "xhttp_shaped (AnyMap obj) \<Longrightarrow> mload obj k = Some v \<Longrightarrow> xhttp_shaped v"
  by (auto simp: list_all_iff mload_def dest!: map_of_SomeD)

lemma ModeCompat_shaped:
  assumes "xhttp_shaped v"
  shows "xhttp_shaped (normalizeXHTTPModeCompat v)"
proof (cases v)
  case (AnyMap obj)
  let ?d = "mdelete obj ''downloadSettings''"
  have d: "xhttp_shaped (AnyMap ?d)" using assms AnyMap shaped_delete by simp
  have "xhttp_shaped (AnyMap (mstore ?d ''extra'' (AnyMap (mdelete extra ''downloadSettings''))))" if "mload ?d ''extra'' = Some (AnyMap extra)" for extra
    using shaped_delete [OF shaped_member [OF d that], of "''downloadSettings''"] d
    by (auto simp: list_all_iff is_array_def dest!: mstore_entries)
  then show ?thesis using d assms by (auto simp: AnyMap ModeCompat_AnyMap Let_def split: option.split anyval.split)
qed (use assms in \<open>simp_all add: ModeCompat_other\<close>)

text \<open>
  C30. The XHTTP settings of a panel are brought into the shape Xray accepts: after normalisation no array
  is left where Xray expects an object, at any depth, and a payload in mode \<open>stream-one\<close> has no download
  settings, neither at the top nor under \<open>extra\<close>. Normalising again changes nothing, and a payload that
  has the shape keeps every value.
\<close>

theorem xhttp_settings_normalised:
  "(let w = normalizeXHTTPModeCompat (normalizeXHTTPValue v)
    in xhttp_shaped w \<and> normalizeXHTTPModeCompat (normalizeXHTTPValue w) = w
       \<and> (\<forall>obj. w = AnyMap obj \<longrightarrow> stream_one obj \<longrightarrow> mload obj ''downloadSettings'' = None
            \<and> (\<forall>extra. mload obj ''extra'' = Some (AnyMap extra) \<longrightarrow> mload extra ''downloadSettings'' = None)))
   \<and> (xhttp_shaped v \<longrightarrow> normalizeXHTTPValue v = v)"
proof -
  let ?w = "normalizeXHTTPModeCompat (normalizeXHTTPValue v)"
  have s: "xhttp_shaped ?w" by (rule ModeCompat_shaped [OF normalize_shaped])
  have i: "normalizeXHTTPModeCompat ?w = ?w" by (rule ModeCompat_idem)
  have "mload obj ''downloadSettings'' = None \<and> (\<forall>extra. mload obj ''extra'' = Some (AnyMap extra) \<longrightarrow> mload extra ''downloadSettings'' = None)"
    if w: "?w = AnyMap obj" "stream_one obj" for obj
  proof -
    obtain o1 where "normalizeXHTTPValue v = AnyMap o1" using w(1) ModeCompat_other [of "normalizeXHTTPValue v"] by fastforce
    then show ?thesis using ModeCompat_drops [of o1 obj] w by simp
  qed
  then show ?thesis using s i shaped_normalize by (auto simp: Let_def)
qed

theorem xhttp_settings_normalised_witness:
  "normalizeXHTTPModeCompat (normalizeXHTTPValue (AnyMap [(''mode'', AnyString ''Stream-One''), (''downloadSettings'', AnyList []),
      (''Headers'', AnyList [AnyString ''Host: a.com'', AnyMap [(''key'', AnyString ''X''), (''v'', AnyString ''1'')]])]))
     = AnyMap [(''mode'', AnyString ''Stream-One''), (''Headers'', AnyMap [(''Host'', AnyString ''a.com''), (''X'', AnyString ''1'')])]
   \<and> normalizeXHTTPValue (AnyMap [(''Headers'', AnyMap [(''Host'', AnyString ''a.com'')])]) = AnyMap [(''Headers'', AnyMap [(''Host'', AnyString ''a.com'')])]"
proof -
  have "xhttp_shaped (AnyMap [(''Headers'', AnyMap [(''Host'', AnyString ''a.com'')])])" by code_simp
  then have "normalizeXHTTPValue (AnyMap [(''Headers'', AnyMap [(''Host'', AnyString ''a.com'')])]) = AnyMap [(''Headers'', AnyMap [(''Host'', AnyString ''a.com'')])]"
    using xhttp_settings_normalised by blast
  moreover have "normalizeXHTTPModeCompat (normalizeXHTTPValue (AnyMap [(''mode'', AnyString ''Stream-One''), (''downloadSettings'', AnyList []),
      (''Headers'', AnyList [AnyString ''Host: a.com'', AnyMap [(''key'', AnyString ''X''), (''v'', AnyString ''1'')]])]))
     = AnyMap [(''mode'', AnyString ''Stream-One''), (''Headers'', AnyMap [(''Host'', AnyString ''a.com''), (''X'', AnyString ''1'')])]"
    by code_simp
  ultimately show ?thesis by (rule conjI [rotated])
qed

lemma Split_JoinHostPort:
  assumes "CHR ''['' \<notin> set host" "CHR '']'' \<notin> set host" and "set port \<inter> {CHR '':'', CHR ''['', CHR '']''} = {}"
  shows "net_SplitHostPort (net_JoinHostPort host port) = Some (host, port)"
proof (cases "CHR '':'' \<in> set host \<or> CHR ''%'' \<in> set host")
  case True
  let ?hp = "''['' @ host @ '']:'' @ port"
  have i: "last_index_byte (CHR '':'') ?hp = Some (length host + 2)"
    using last_index_byte_append [of "CHR '':''" port "''['' @ host @ '']''"] assms(3) by simp
  have e: "index_byte (CHR '']'') ?hp = Some (length host + 1)"
    using index_byte_append [of "CHR '']''" "''['' @ host" "'':'' @ port"] assms(2) by simp
  show ?thesis using True i e assms by (simp add: net_JoinHostPort_def net_SplitHostPort_def)
next
  case False
  have "last_index_byte (CHR '':'') (host @ '':'' @ port) = Some (length host)"
    using last_index_byte_append [of "CHR '':''" port host] assms(3) by simp
  moreover have "(host @ '':'' @ port) ! 0 \<noteq> CHR ''[''" using assms(1) by (cases host) auto
  ultimately show ?thesis using False assms by (auto simp: net_JoinHostPort_def net_SplitHostPort_def)
qed

lemma reality_dest_valid:
  assumes "reality_dest ts = Some dest" and "local_dest dest \<or> set (ts_Dest ts @ ts_ServerName ts) \<inter> {CHR ''['', CHR '']''} = {}"
    and "set (ts_ServerPort ts) \<inter> {CHR '':'', CHR ''['', CHR '']''} = {}"
  shows "local_dest dest \<or> (\<exists>host port. net_SplitHostPort dest = Some (host, port))"
proof -
  have trim: "set (strings_TrimSpace s) \<subseteq> set s" for s
    unfolding strings_TrimSpace_def using set_dropWhileD by (metis set_rev subsetI)
  let ?p = "if strings_TrimSpace (ts_ServerPort ts) = '''' then ''443'' else strings_TrimSpace (ts_ServerPort ts)"
  let ?d = "if strings_TrimSpace (ts_Dest ts) = '''' then strings_TrimSpace (ts_ServerName ts) else strings_TrimSpace (ts_Dest ts)"
  have port: "set ?p \<inter> {CHR '':'', CHR ''['', CHR '']''} = {}" using trim [of "ts_ServerPort ts"] assms(3) by auto
  have plain: "set ?d \<inter> {CHR ''['', CHR '']''} = {}" if "\<not> local_dest dest"
    using trim [of "ts_Dest ts"] trim [of "ts_ServerName ts"] assms(2) that by auto
  have "dest = ?d \<and> (local_dest ?d \<or> net_SplitHostPort ?d \<noteq> None) \<or> dest = net_JoinHostPort ?d ?p"
    using assms(1) by (auto simp: reality_dest_def Let_def split: if_splits)
  then show ?thesis using plain port Split_JoinHostPort [of ?d ?p] by fastforce
qed

text \<open>What reaches \<open>Build\<close> when the inbound is built.\<close>

lemma then_go_Inr: "then_go m f = Some (Inr y) \<longleftrightarrow> (\<exists>x. m = Some (Inr x) \<and> f x = Some (Inr y))"
  by (auto simp: then_go_def split: option.splits sum.splits)

lemma then_go_None: "then_go m f = None \<longleftrightarrow> m = None \<or> (\<exists>x. m = Some (Inr x) \<and> f x = None)"
  by (auto simp: then_go_def split: option.splits sum.splits)

lemma buildInbound_Inr:
  assumes "buildInbound J option nodeInfo tag = Some (Inr y)"
  obtains i s s' where "secure_stream J option nodeInfo s = Some (Inr s')" "xj_build_in J i = Inr y" "id_Tag i = tag" "id_StreamSetting i = Some s'"
proof -
  obtain i network where p: "inbound_protocol J option nodeInfo = Some (Inr (i, network))"
    using assms by (auto simp: buildInbound_def then_go_Inr)
  with assms obtain common where c: "ni_Common nodeInfo = Some common" by (cases "ni_Common nodeInfo") (auto simp: buildInbound_def then_go_def)
  with assms p obtain x where x: "op_XrayOptions option = Some x" by (cases "op_XrayOptions option") (auto simp: buildInbound_def then_go_def)
  with assms p c obtain s where s: "id_StreamSetting i = Some s" by (cases "id_StreamSetting i") (auto simp: buildInbound_def then_go_def)
  show thesis using assms p c x s by (auto simp: buildInbound_def then_go_Inr Let_def intro: that)
qed


definition example_xray :: "(string, string InboundDetourConfig, string OutboundDetourConfig) xray_ops" where
  "example_xray = \<lparr>xj_transport = (\<lambda>_ raw. case raw of None \<Rightarrow> Inl ''no input'' | Some _ \<Rightarrow> Inr (Some \<lparr>tr_Settings = raw, tr_AcceptProxyProtocol = False\<rparr>)),
     xj_value = (\<lambda>_. Inr AnyNil), xj_of_value = (\<lambda>_. Inr ''null''), xj_string = Inr, xj_settings = (\<lambda>_. Inr ''{}''), xj_empty = ''{}'',
     xj_base64url = (\<lambda>_. None), xj_rand = Inr (replicate 32 CHR ''r''), xj_ParseDuration = (\<lambda>_. 0), xj_build_in = Inr, xj_build_out = Inr\<rparr>"

definition example_xray_options :: "string Options" where
  "example_xray_options = example_options\<lparr>op_Core := ''xray'', op_XrayOptions := Some NewXrayOptions\<rparr>"

definition example_vless :: "string \<Rightarrow> string option \<Rightarrow> string NodeInfo" where
  "example_vless serverName settings = (let common = \<lparr>cn_Host = '''', cn_ServerPort = 443, cn_ServerName = '''', cn_Routes = [], cn_BaseConfig = None\<rparr>;
       ech = \<lparr>ech_Enabled = False, ech_Config = '''', ech_ConfigList = '''', ech_ForceQuery = '''', ech_QueryServerName = '''', ech_PrivateKey = '''', ech_ServerKeys = ''''\<rparr>;
       tls = \<lparr>ts_ServerName = serverName, ts_Dest = '''', ts_ServerPort = '''', ts_ShortId = ''ab'', ts_PrivateKey = ''k'', ts_Xver = 0, ts_ECH = ech\<rparr>
     in (empty_NodeInfo 1 ''vless'')\<lparr>ni_Security := Security_Reality, ni_Common := Some common, ni_VAllss := Some \<lparr>va_CommonNode = common, va_Tls = 2,
       va_TlsSettings = tls, va_TlsSettingsBack = None, va_ECH = ech, va_Network = ''tcp'', va_NetworkSettings = settings, va_NetworkSettingsBack = None,
       va_ServerName = '''', va_Encryption = '''', va_Decryption = '''', va_Flow = '''',
       va_RealityConfig = \<lparr>rl_Xver = 0, rl_MinClientVer = '''', rl_MaxClientVer = '''', rl_MaxTimeDiff = ''''\<rparr>\<rparr>\<rparr>)"

definition built :: "(string + 'a) go \<Rightarrow> 'a option" where
  "built r = (case r of Some (Inr x) \<Rightarrow> Some x | _ \<Rightarrow> None)"

lemma built_Some: "built r = Some x \<Longrightarrow> r = Some (Inr x)"
  by (auto simp: built_def split: option.splits sum.splits)


text \<open>
  A list of server names is split for the names, but not for the target: without a target of its own the
  inbound forwards to a host with a comma in its name. An address in brackets gets a second pair.
\<close>

lemma reality_list_of_names_as_target:
  "reality_dest \<lparr>ts_ServerName = ''a.com,b.com'', ts_Dest = '''', ts_ServerPort = '''', ts_ShortId = ''ab'', ts_PrivateKey = '''', ts_Xver = 0, ts_ECH = ech\<rparr>
     = Some ''a.com,b.com:443''
   \<and> reality_server_names \<lparr>ts_ServerName = ''a.com,b.com'', ts_Dest = '''', ts_ServerPort = '''', ts_ShortId = ''ab'', ts_PrivateKey = '''', ts_Xver = 0, ts_ECH = ech\<rparr>
       ''a.com,b.com:443'' = [''a.com'', ''b.com'']"
  by code_simp

lemma reality_bracketed_target:
  "reality_dest \<lparr>ts_ServerName = ''a.com'', ts_Dest = ''[::1]'', ts_ServerPort = '''', ts_ShortId = ''ab'', ts_PrivateKey = '''', ts_Xver = 0, ts_ECH = ech\<rparr>
     = Some ''[[::1]]:443''
   \<and> net_SplitHostPort ''[[::1]]:443'' = None"
  by code_simp

lemma map_sum_Inr: "map_sum id f r = Inr y \<longleftrightarrow> (\<exists>x. r = Inr x \<and> y = f x)"
  by (cases r) auto

lemma buildV2ray_stream:
  "buildV2ray J option nodeInfo = Some (Inr i) \<Longrightarrow> ni_VAllss nodeInfo = Some v \<Longrightarrow> id_StreamSetting i = None \<longleftrightarrow> va_NetworkSettings v = None"
  by (auto simp: buildV2ray_def then_go_Inr map_sum_Inr new_inbound_def split: if_splits)

lemma buildTrojan_stream: "buildTrojan J option nodeInfo = Some (Inr i) \<Longrightarrow> id_StreamSetting i \<noteq> None"
  by (auto simp: buildTrojan_def then_go_Inr map_sum_Inr new_inbound_def split: if_splits option.splits)

lemma buildShadowsocks_stream: "buildShadowsocks J nodeInfo = Some (Inr i) \<Longrightarrow> id_StreamSetting i \<noteq> None"
  by (auto simp: buildShadowsocks_def Let_def map_sum_Inr new_inbound_def split: option.splits sum.splits)

lemma inbound_protocol_cases:
  assumes "inbound_protocol J option nodeInfo = Some (Inr (i, network))"
  obtains "ni_Type nodeInfo \<in> {''vmess'', ''vless''}" "buildV2ray J option nodeInfo = Some (Inr i)"
  | "ni_Type nodeInfo = ''trojan''" "buildTrojan J option nodeInfo = Some (Inr i)"
  | "ni_Type nodeInfo = ''shadowsocks''" "buildShadowsocks J nodeInfo = Some (Inr i)"
  using assms by (auto simp: inbound_protocol_def Let_def map_sum_Inr split: if_splits option.splits)

text \<open>
  C32. When building an inbound crashes the process: with the options and the description of the node at
  hand, a VMess or VLESS node panics exactly when the panel sent no network settings (the stream
  settings are then never allocated), and a Trojan or Shadowsocks node exactly when it asks for REALITY;
  errors before that point are returned as errors.
\<close>

theorem inbound_panics_exactly:
  assumes "op_XrayOptions option = Some x" and "ni_Common nodeInfo = Some common"
    and "ni_Type nodeInfo \<in> {''vmess'', ''vless''} \<Longrightarrow> ni_VAllss nodeInfo = Some v"
    and "ni_Type nodeInfo = ''trojan'' \<Longrightarrow> ni_Trojan nodeInfo = Some tv \<and> ni_VAllss nodeInfo = None"
    and "ni_Type nodeInfo = ''shadowsocks'' \<Longrightarrow> ni_Shadowsocks nodeInfo = Some sv \<and> ni_VAllss nodeInfo = None"
  shows "buildInbound J option nodeInfo tag = None \<longleftrightarrow>
     (\<exists>i network. inbound_protocol J option nodeInfo = Some (Inr (i, network)))
     \<and> (if ni_Type nodeInfo \<in> {''vmess'', ''vless''} then va_NetworkSettings v = None else ni_Security nodeInfo = Security_Reality)"
proof -
  have p: "inbound_protocol J option nodeInfo \<noteq> None"
    using assms(1,3,4,5)
    by (auto simp: inbound_protocol_def Let_def buildV2ray_def buildTrojan_def buildShadowsocks_def v2ray_settings_def then_go_None simp del: not_None_eq)
  have s: "id_StreamSetting i = None \<longleftrightarrow> ni_Type nodeInfo \<in> {''vmess'', ''vless''} \<and> va_NetworkSettings v = None"
    if "inbound_protocol J option nodeInfo = Some (Inr (i, network))" for i network
    using that by (rule inbound_protocol_cases) (use buildV2ray_stream buildTrojan_stream buildShadowsocks_stream assms(3) in fastforce)+
  have t: "ni_Type nodeInfo \<in> {''vmess'', ''vless'', ''trojan'', ''shadowsocks''}" if "inbound_protocol J option nodeInfo = Some (Inr (i, network))" for i network
    using that by (rule inbound_protocol_cases) auto
  have sec: "secure_stream J option nodeInfo s = None \<longleftrightarrow> ni_Security nodeInfo = Security_Reality \<and> ni_VAllss nodeInfo = None" for s
    by (auto simp: secure_stream_def Security_Tls_def Security_Reality_def split: option.splits)
  have c: "(case id_StreamSetting i of None \<Rightarrow> None | Some s \<Rightarrow> then_go (secure_stream J option nodeInfo (g s)) (\<lambda>s. Some (f s))) = None
      \<longleftrightarrow> id_StreamSetting i = None \<or> ni_Security nodeInfo = Security_Reality \<and> ni_VAllss nodeInfo = None" for i :: "'a InboundDetourConfig" and f :: "_ \<Rightarrow> string + 'b" and g
    by (cases "id_StreamSetting i") (simp_all add: then_go_None sec)
  have "buildInbound J option nodeInfo tag = None \<longleftrightarrow> (\<exists>i network. inbound_protocol J option nodeInfo = Some (Inr (i, network))
      \<and> (id_StreamSetting i = None \<or> ni_Security nodeInfo = Security_Reality \<and> ni_VAllss nodeInfo = None))"
    unfolding buildInbound_def Let_def using p by (simp add: then_go_None assms(1,2) c del: not_None_eq)
  then show ?thesis using s t assms(3,4,5) by fastforce
qed

lemma built_example: "\<not> Option.is_none (built (inbound_protocol example_xray example_xray_options (example_vless ''a.com'' None)))"
  by code_simp

theorem inbound_panics_exactly_witness:
  "buildInbound example_xray example_xray_options (example_vless ''a.com'' None) ''t'' = None
   \<and> buildInbound example_xray example_xray_options (example_vless ''a.com'' (Some ''{}'')) ''t'' \<noteq> None"
proof -
  have "buildInbound example_xray example_xray_options (example_vless ''a.com'' settings) ''t'' = None \<longleftrightarrow>
      (\<exists>i network. inbound_protocol example_xray example_xray_options (example_vless ''a.com'' settings) = Some (Inr (i, network))) \<and> settings = None" for settings
    using inbound_panics_exactly [of example_xray_options NewXrayOptions "example_vless ''a.com'' settings" "the (ni_Common (example_vless ''a.com'' settings))"
        "the (ni_VAllss (example_vless ''a.com'' settings))" undefined undefined example_xray "''t''"]
    by (simp add: example_xray_options_def example_vless_def empty_NodeInfo_def Let_def)
  moreover have "\<exists>i network. inbound_protocol example_xray example_xray_options (example_vless ''a.com'' None) = Some (Inr (i, network))"
    using built_Some [of "inbound_protocol example_xray example_xray_options (example_vless ''a.com'' None)"]
      built_example by (cases "built (inbound_protocol example_xray example_xray_options (example_vless ''a.com'' None))") (auto simp: Option.is_none_def)
  ultimately show ?thesis by simp
qed

lemma normalizeDomainStrategy_idem: "normalizeDomainStrategy (normalizeDomainStrategy s) = normalizeDomainStrategy s"
proof -
  have "normalizeDomainStrategy t = t" if "t \<in> {''UseIP'', ''AsIs'', ''UseIPv4'', ''UseIPv6'', ''PreferIPv4'', ''PreferIPv6''}" for t
    using that by (elim insertE emptyE; simp only:) code_simp+
  moreover have "normalizeDomainStrategy s \<in> {''UseIP'', ''AsIs'', ''UseIPv4'', ''UseIPv6'', ''PreferIPv4'', ''PreferIPv6''} \<or> normalizeDomainStrategy s = s"
    unfolding normalizeDomainStrategy_def Let_def by simp
  ultimately show ?thesis by metis
qed

end
