(* ===== verification/Go_Paths.thy ===== *)
theory Go_Paths
  imports Go_Strings
begin

text \<open>
  The functions of the Go packages \<open>path\<close> and \<open>path/filepath\<close> (on Unix, where they agree) that the
  sources call, and what they do to cleaned paths: appending a plain file name and taking the
  parent directory.
\<close>

section \<open>Functions\<close>

abbreviation slash :: char where "slash \<equiv> CHR ''/''"

text \<open>One component of \<open>Clean\<close>; the stack of kept components has the last one first.\<close>

definition clean_step :: "bool \<Rightarrow> string \<Rightarrow> string list \<Rightarrow> string list" where
  "clean_step rooted c st =
     (if c = '''' \<or> c = ''.'' then st
      else if c = ''..'' then
        (case st of
           [] \<Rightarrow> if rooted then [] else [''..'']
         | d # ds \<Rightarrow> if d = ''..'' then ''..'' # st else ds)
      else c # st)"

definition clean_stack :: "string \<Rightarrow> string list" where
  "clean_stack p = fold (clean_step (strings_HasPrefix p ''/'')) (strings_Split slash p) []"

definition render :: "bool \<Rightarrow> string list \<Rightarrow> string" where
  "render rooted cs = (if rooted then slash # strings_Join cs ''/'' else if cs = [] then ''.'' else strings_Join cs ''/'')"

definition path_Clean :: "string \<Rightarrow> string" where
  "path_Clean p = render (strings_HasPrefix p ''/'') (rev (clean_stack p))"

definition path_Dir :: "string \<Rightarrow> string" where
  "path_Dir p = (case last_index_byte slash p of None \<Rightarrow> path_Clean '''' | Some i \<Rightarrow> path_Clean (take (Suc i) p))"

definition path_Base :: "string \<Rightarrow> string" where
  "path_Base p =
     (if p = '''' then ''.''
      else
        let s = strings_TrimRight (\<lambda>c. c = slash) p;
            b = (case last_index_byte slash s of None \<Rightarrow> s | Some i \<Rightarrow> drop (Suc i) s)
        in if b = '''' then ''/'' else b)"

text \<open>\<open>filepath.Ext\<close>: the suffix from the last dot after the last slash.\<close>

definition path_Ext :: "string \<Rightarrow> string" where
  "path_Ext p =
     (let r = rev p; b = takeWhile (\<lambda>c. c \<noteq> slash) r
      in if CHR ''.'' \<in> set b then rev (takeWhile (\<lambda>c. c \<noteq> CHR ''.'') b @ ''.'') else '''')"

definition path_Join :: "string list \<Rightarrow> string" where
  "path_Join elem = (case dropWhile (\<lambda>e. e = '''') elem of [] \<Rightarrow> '''' | es \<Rightarrow> path_Clean (strings_Join es ''/''))"

definition path_IsAbs :: "string \<Rightarrow> bool" where
  "path_IsAbs p \<longleftrightarrow> strings_HasPrefix p ''/''"

section \<open>Laws\<close>

text \<open>A component that \<open>Clean\<close> keeps as it is.\<close>

definition proper :: "string \<Rightarrow> bool" where
  "proper c \<longleftrightarrow> c \<noteq> '''' \<and> c \<noteq> ''.'' \<and> c \<noteq> ''..'' \<and> slash \<notin> set c"

lemma clean_step_proper [simp]: "proper c \<Longrightarrow> clean_step rooted c st = c # st"
  by (simp add: clean_step_def proper_def)

lemma clean_step_drop [simp]: "clean_step rooted '''' st = st"
  by (simp add: clean_step_def)

lemma Split_append_sep: "strings_Split sep (s @ sep # t) = strings_Split sep s @ strings_Split sep t"
proof (induction s)
  case (Cons c s)
  then show ?case using Split_ne [of sep s] by (auto split: list.splits)
qed simp

lemma Split_no_sep: "sep \<notin> set s \<Longrightarrow> strings_Split sep s = [s]"
  by (induction s) auto

lemma Join_Cons: "cs \<noteq> [] \<Longrightarrow> strings_Join (c # cs) sep = c @ sep @ strings_Join cs sep"
  by (cases cs) auto

lemma Join_snoc: "cs \<noteq> [] \<Longrightarrow> strings_Join (cs @ [c]) sep = strings_Join cs sep @ sep @ c"
proof (induction cs)
  case (Cons d cs)
  then show ?case by (cases "cs = []") (simp_all add: Join_Cons)
qed simp

lemma HasPrefix_slash: "strings_HasPrefix p ''/'' \<longleftrightarrow> (\<exists>q. p = slash # q)"
  by (cases p) (auto simp: strings_HasPrefix_def)

lemma clean_stack_append:
  assumes "p \<noteq> ''''" and "proper c"
  shows "clean_stack (p @ slash # c) = c # clean_stack p"
proof -
  have "strings_HasPrefix (p @ slash # c) ''/'' = strings_HasPrefix p ''/''" using assms(1) by (cases p) (auto simp: strings_HasPrefix_def)
  then show ?thesis
    using assms(2) Split_no_sep [of slash c] by (simp add: clean_stack_def Split_append_sep proper_def [of c])
qed

text \<open>Components of a rooted path are proper after cleaning.\<close>

lemma clean_fold_proper:
  "list_all (\<lambda>c. slash \<notin> set c) cs \<Longrightarrow> list_all proper st \<Longrightarrow> list_all proper (fold (clean_step True) cs st)"
proof (induction cs arbitrary: st)
  case (Cons c cs)
  have "list_all proper (clean_step True c st)" using Cons.prems by (cases st) (auto simp: clean_step_def list_all_iff, auto simp: proper_def)
  then show ?case using Cons by simp
qed simp

lemma clean_stack_proper: "list_all proper (clean_stack (slash # q))"
  unfolding clean_stack_def
  using clean_fold_proper [of "strings_Split slash (slash # q)" "[]"]
  by (auto simp: strings_HasPrefix_def list_all_iff dest: Split_pieces_no_sep)

lemma path_Clean_rooted:
  "path_Clean (slash # q) = slash # strings_Join (rev (clean_stack (slash # q))) ''/''"
  by (simp add: path_Clean_def render_def strings_HasPrefix_def)

lemma last_index_Join:
  assumes "slash \<notin> set c"
  shows "last_index_byte slash (s @ slash # c) = Some (length s)"
  using assms by (rule last_index_byte_append)

text \<open>The cleaned rooted path with given components, and its parent.\<close>

definition rooted_path :: "string list \<Rightarrow> string" where
  "rooted_path cs = slash # strings_Join cs ''/''"

lemma clean_stack_rooted: "list_all proper cs \<Longrightarrow> clean_stack (rooted_path cs) = rev cs"
proof (induction cs rule: rev_induct)
  case Nil
  show ?case by (simp add: rooted_path_def clean_stack_def)
next
  case (snoc c cs)
  show ?case
  proof (cases "cs = []")
    case True
    then show ?thesis using snoc.prems Split_no_sep [of slash c] by (simp add: rooted_path_def clean_stack_def proper_def [of c])
  next
    case False
    then have "rooted_path (cs @ [c]) = rooted_path cs @ slash # c" by (simp add: rooted_path_def Join_snoc)
    then show ?thesis using snoc clean_stack_append [of "rooted_path cs" c] by (simp add: rooted_path_def)
  qed
qed

lemma Clean_rooted_path: "list_all proper cs \<Longrightarrow> path_Clean (rooted_path cs) = rooted_path cs"
  using clean_stack_rooted [of cs] path_Clean_rooted [of "strings_Join cs ''/''"] by (simp add: rooted_path_def)

lemma Clean_is_rooted_path: "\<exists>cs. list_all proper cs \<and> path_Clean (slash # q) = rooted_path cs"
  using clean_stack_proper [of q] path_Clean_rooted [of q] by (intro exI [of _ "rev (clean_stack (slash # q))"]) (simp add: rooted_path_def)

lemma clean_trailing_slash: "p \<noteq> '''' \<Longrightarrow> path_Clean (p @ ''/'') = path_Clean p"
proof -
  assume "p \<noteq> ''''"
  then have h: "strings_HasPrefix (p @ ''/'') ''/'' = strings_HasPrefix p ''/''" by (cases p) (auto simp: strings_HasPrefix_def)
  then have "clean_stack (p @ ''/'') = clean_stack p" using Split_append_sep [of slash p "''''"] by (simp add: clean_stack_def)
  then show ?thesis using h by (simp add: path_Clean_def)
qed

lemma Dir_rooted_path: "list_all proper (cs @ [c]) \<Longrightarrow> path_Dir (rooted_path (cs @ [c])) = rooted_path cs"
proof -
  assume a: "list_all proper (cs @ [c])"
  have "slash \<notin> set c" using a by (simp add: proper_def)
  show ?thesis
  proof (cases "cs = []")
    case True
    have "path_Dir (rooted_path [c]) = path_Clean ''/''"
      using last_index_Join [of c "''''"] \<open>slash \<notin> set c\<close> by (simp add: path_Dir_def rooted_path_def)
    then show ?thesis using True Clean_rooted_path [of "[]"] by (simp add: rooted_path_def)
  next
    case False
    then have r: "rooted_path (cs @ [c]) = rooted_path cs @ slash # c" by (simp add: rooted_path_def Join_snoc)
    have "path_Dir (rooted_path (cs @ [c])) = path_Clean (rooted_path cs @ ''/'')"
      using last_index_Join [of c "rooted_path cs"] \<open>slash \<notin> set c\<close> unfolding r by (simp add: path_Dir_def)
    then show ?thesis using clean_trailing_slash [of "rooted_path cs"] Clean_rooted_path [of cs] a by (simp add: rooted_path_def)
  qed
qed

text \<open>Joining a directory with two different plain file names gives two different paths.\<close>

lemma Join_dir_file: "proper f \<Longrightarrow> path_Join [dir, f] = (if dir = '''' then f else render (strings_HasPrefix dir ''/'') (rev (clean_stack dir) @ [f]))"
proof -
  assume f: "proper f"
  have "path_Clean f = f"
    using f Split_no_sep [of slash f] by (auto simp: path_Clean_def clean_stack_def render_def strings_HasPrefix_def proper_def [of f] take_Suc
        split: list.splits) (metis list.set_intros(1) list.collapse)+
  moreover have "strings_HasPrefix (dir @ slash # f) ''/'' = strings_HasPrefix dir ''/''" if "dir \<noteq> ''''"
    using that by (cases dir) (auto simp: strings_HasPrefix_def)
  ultimately show ?thesis
    using f clean_stack_append [of dir f] by (auto simp: path_Join_def path_Clean_def [of "dir @ slash # f"] proper_def)
qed

lemma render_snoc_inject:
  assumes "slash \<notin> set c" "slash \<notin> set d"
  shows "render r (cs @ [c]) = render r (cs @ [d]) \<longleftrightarrow> c = d"
  using assms by (cases "cs = []") (auto simp: render_def Join_snoc)

lemma Join_dir_inject: "proper f \<Longrightarrow> proper g \<Longrightarrow> path_Join [dir, f] = path_Join [dir, g] \<longleftrightarrow> f = g"
  using render_snoc_inject by (auto simp: Join_dir_file proper_def)

end
