(* ===== verification/Xray_Server.thy ===== *)
theory Xray_Server
  imports Xray_Inbound Go_Paths
begin

text \<open>
  The Xray core as a server: the DNS file of a node (\<open>core/xray/dns.go\<close>), adding and deleting a node
  (\<open>node.go\<close>), building the instance from the configuration, starting and closing it (\<open>xray.go\<close>). The packages of
  Xray are arguments; the contract of its handler managers is the locale \<open>handler_manager\<close>.
\<close>

section \<open>The DNS file\<close>

record dns_server =
  ds_address :: string
  ds_domains :: "string list"
  ds_port :: "nat option"

text \<open>
  \<open>do_Unmarshal\<close> is the error of decoding the document, \<open>do_Build\<close> the error of building what was decoded.
  \<open>do_Truncate\<close> and \<open>do_Write\<close> are the errors of the file operations on a path.
\<close>

record dns_ops =
  do_Indent :: "string \<Rightarrow> string + string"
  do_MarshalIndent :: "(string + dns_server) list \<Rightarrow> string \<Rightarrow> string + string"
  do_Unmarshal :: "string \<Rightarrow> string option"
  do_Build :: "string \<Rightarrow> string option"
  do_Truncate :: "string \<Rightarrow> string option"
  do_Write :: "string \<Rightarrow> string option"

type_synonym dns_files = "(string, string) gomap"

definition write_dns :: "dns_ops \<Rightarrow> string \<Rightarrow> string \<Rightarrow> dns_files \<Rightarrow> dns_files" where
  "write_dns D dns dnsPath fs =
     (let fs = (if do_Truncate D dnsPath = None then mstore fs dnsPath '''' else fs)
      in if do_Write D dnsPath = None then mstore fs dnsPath dns else fs)"

text \<open>
  The error of \<open>Build\<close> is a new variable, and the errors of the two writes are assigned to it: the
  function returns the error of decoding.
\<close>

definition saveDnsConfig :: "dns_ops \<Rightarrow> dns_files \<Rightarrow> string \<Rightarrow> string \<Rightarrow> dns_files \<times> string option" where
  "saveDnsConfig D fs dns dnsPath =
     (case mload fs dnsPath of
        None \<Rightarrow> (fs, Some (''open '' @ dnsPath @ '': no such file or directory''))
      | Some currentData \<Rightarrow>
          if currentData = dns then (fs, None)
          else case do_Build D dns of
            Some e \<Rightarrow> (fs, Some e)
          | None \<Rightarrow> (write_dns D dns dnsPath fs, do_Unmarshal D dns))"

text \<open>\<open>strconv.ParseUint(port, 10, 16)\<close>, 0 when it fails.\<close>

definition parse_port :: "string \<Rightarrow> nat" where
  "parse_port port = (if port \<noteq> '''' \<and> list_all is_digit port \<and> digits_value port < 65536 then digits_value port else 0)"

definition dns_entry :: "DNSEntry \<Rightarrow> string + dns_server" where
  "dns_entry value =
     (let address = de_address value
      in if strings_Contains address (CHR '':'') \<and> \<not> strings_Contains address (CHR ''/'') then
           (case net_SplitHostPort address of
              None \<Rightarrow> Inl (''address '' @ address @ '': invalid'')
            | Some (host, port) \<Rightarrow> Inr \<lparr>ds_address = host, ds_domains = de_domains value, ds_port = Some (parse_port port)\<rparr>)
         else Inr \<lparr>ds_address = address, ds_domains = de_domains value, ds_port = None\<rparr>)"

fun dns_entries :: "(string \<times> DNSEntry) list \<Rightarrow> string + dns_server list" where
  "dns_entries [] = Inr []"
| "dns_entries ((_, value) # rest) =
     (case dns_entry value of
        Inl e \<Rightarrow> Inl e
      | Inr s \<Rightarrow> (case dns_entries rest of Inl e \<Rightarrow> Inl e | Inr ss \<Rightarrow> Inr (s # ss)))"

text \<open>
  The map is visited in the order of the list. In the second branch \<open>err\<close> is a new variable as well, so
  what \<open>saveDnsConfig\<close> returns there is lost.
\<close>

definition updateDNSConfig :: "dns_ops \<Rightarrow> string \<Rightarrow> dns_files \<Rightarrow> 'raw NodeInfo \<Rightarrow> dns_files \<times> string option" where
  "updateDNSConfig D dnsPath fs node =
     (if dns_DNSJson (ni_RawDNS node) \<noteq> '''' then
        (case do_Indent D (dns_DNSJson (ni_RawDNS node)) of
           Inl e \<Rightarrow> (fs, Some e)
         | Inr prettyJSON \<Rightarrow> saveDnsConfig D fs prettyJSON dnsPath)
      else if dns_DNSMap (ni_RawDNS node) \<noteq> [] then
        (case dns_entries (dns_DNSMap (ni_RawDNS node)) of
           Inl e \<Rightarrow> (fs, Some e)
         | Inr servers \<Rightarrow>
             (case do_MarshalIndent D (Inl ''1.1.1.1'' # Inl ''localhost'' # map Inr servers) ''dns_inbound'' of
                Inl e \<Rightarrow> (fs, Some e)
              | Inr dnsConfigJSON \<Rightarrow> (fst (saveDnsConfig D fs dnsConfigJSON dnsPath), None)))
      else (fs, None))"

section \<open>Nodes\<close>

record ('in, 'hi, 'h, 'out, 'ho, 'o) handler_ops =
  ho_create_in :: "'in \<Rightarrow> string + 'hi option"
  ho_AddInbound :: "'h \<Rightarrow> 'hi \<Rightarrow> 'h \<times> string option"
  ho_RemoveInbound :: "'h \<Rightarrow> string \<Rightarrow> 'h \<times> string option"
  ho_create_out :: "'out \<Rightarrow> string + 'ho option"
  ho_AddOutbound :: "'o \<Rightarrow> 'ho \<Rightarrow> 'o \<times> string option"
  ho_RemoveOutbound :: "'o \<Rightarrow> string \<Rightarrow> 'o \<times> string option"

text \<open>The managers are nil together, before \<open>Start\<close> and after \<open>Close\<close>; \<open>x_shm\<close> tells.\<close>

record ('m, 'h, 'o) XrayServer = "('m, 'h) Xray" +
  x_ohm :: 'o

definition add_handler ::
  "('i \<Rightarrow> string + 'hi option) \<Rightarrow> ('h \<Rightarrow> 'hi \<Rightarrow> 'h \<times> string option) \<Rightarrow> 'i \<Rightarrow> 'h \<Rightarrow> 'h \<times> string option" where
  "add_handler create add config h =
     (case create config of
        Inl e \<Rightarrow> (h, Some e)
      | Inr None \<Rightarrow> (h, Some ''not an InboundHandler: %!s(<nil>)'')
      | Inr (Some handler) \<Rightarrow> add h handler)"

definition addInbound ::
  "('in, 'hi, 'h, 'out, 'ho, 'o) handler_ops \<Rightarrow> 'in \<Rightarrow> ('m, 'h, 'o) XrayServer \<Rightarrow> (('m, 'h, 'o) XrayServer \<times> string option) go" where
  "addInbound H config c =
     (if x_shm c = None \<and> (case ho_create_in H config of Inr (Some _) \<Rightarrow> True | _ \<Rightarrow> False) then None
      else case add_handler (ho_create_in H) (ho_AddInbound H) config (x_ihm c) of (h, e) \<Rightarrow> Some (c\<lparr>x_ihm := h\<rparr>, e))"

definition addOutbound ::
  "('in, 'hi, 'h, 'out, 'ho, 'o) handler_ops \<Rightarrow> 'out \<Rightarrow> ('m, 'h, 'o) XrayServer \<Rightarrow> (('m, 'h, 'o) XrayServer \<times> string option) go" where
  "addOutbound H config c =
     (if x_shm c = None \<and> (case ho_create_out H config of Inr (Some _) \<Rightarrow> True | _ \<Rightarrow> False) then None
      else case add_handler (ho_create_out H) (ho_AddOutbound H) config (x_ohm c) of (h, e) \<Rightarrow> Some (c\<lparr>x_ohm := h\<rparr>, e))"

definition add_both ::
  "('raw, 'in, 'out) xray_ops \<Rightarrow> ('in, 'hi, 'h, 'out, 'ho, 'o) handler_ops \<Rightarrow> ('m, 'h, 'o) XrayServer \<Rightarrow> string \<Rightarrow> 'raw NodeInfo \<Rightarrow> 'raw Options
   \<Rightarrow> (('m, 'h, 'o) XrayServer \<times> string option) go" where
  "add_both J H c tag info config =
     (case buildInbound J config info tag of
        None \<Rightarrow> None
      | Some (Inl e) \<Rightarrow> Some (c, Some (''build inbound error: '' @ e))
      | Some (Inr inboundConfig) \<Rightarrow>
          (case addInbound H inboundConfig c of
             None \<Rightarrow> None
           | Some (c, Some e) \<Rightarrow> Some (c, Some (''add inbound error: '' @ e))
           | Some (c, None) \<Rightarrow>
               (case buildOutbound J config tag of
                  None \<Rightarrow> None
                | Some (Inl e) \<Rightarrow> Some (c, Some (''build outbound error: '' @ e))
                | Some (Inr outBoundConfig) \<Rightarrow>
                    (case addOutbound H outBoundConfig c of
                       None \<Rightarrow> None
                     | Some (c, Some e) \<Rightarrow> Some (c, Some (''add outbound error: '' @ e))
                     | Some (c, None) \<Rightarrow> Some (c, None)))))"

definition Xray_AddNode ::
  "('raw, 'in, 'out) xray_ops \<Rightarrow> dns_ops \<Rightarrow> ('in, 'hi, 'h, 'out, 'ho, 'o) handler_ops \<Rightarrow> string
   \<Rightarrow> dns_files \<times> ('m, 'h, 'o) XrayServer \<Rightarrow> string \<Rightarrow> 'raw NodeInfo \<Rightarrow> 'raw Options
   \<Rightarrow> ((dns_files \<times> ('m, 'h, 'o) XrayServer) \<times> string option) go" where
  "Xray_AddNode J D H dnsPath st tag info config =
     (case updateDNSConfig D dnsPath (fst st) info of
        (fs, Some e) \<Rightarrow> Some ((fs, snd st), Some (''build dns error: '' @ e))
      | (fs, None) \<Rightarrow> map_option (\<lambda>(c, e). ((fs, c), e)) (add_both J H (snd st) tag info config))"

definition removeInbound :: "('in, 'hi, 'h, 'out, 'ho, 'o) handler_ops \<Rightarrow> string \<Rightarrow> ('m, 'h, 'o) XrayServer \<Rightarrow> ('m, 'h, 'o) XrayServer \<times> string option" where
  "removeInbound H tag c = (case ho_RemoveInbound H (x_ihm c) tag of (h, e) \<Rightarrow> (c\<lparr>x_ihm := h\<rparr>, e))"

definition removeOutbound :: "('in, 'hi, 'h, 'out, 'ho, 'o) handler_ops \<Rightarrow> string \<Rightarrow> ('m, 'h, 'o) XrayServer \<Rightarrow> ('m, 'h, 'o) XrayServer \<times> string option" where
  "removeOutbound H tag c = (case ho_RemoveOutbound H (x_ohm c) tag of (h, e) \<Rightarrow> (c\<lparr>x_ohm := h\<rparr>, e))"

definition Xray_DelNode ::
  "('in, 'hi, 'h, 'out, 'ho, 'o) handler_ops \<Rightarrow> ('m, 'h, 'o) XrayServer \<Rightarrow> string \<Rightarrow> (('m, 'h, 'o) XrayServer \<times> string option) go" where
  "Xray_DelNode H c tag =
     (if x_shm c = None then None
      else case removeInbound H tag c of
        (c, Some e) \<Rightarrow> Some (c, Some (''remove in error: '' @ e))
      | (c, None) \<Rightarrow>
          (case removeOutbound H tag c of
             (c, Some e) \<Rightarrow> Some (c, Some (''remove out error: '' @ e))
           | (c, None) \<Rightarrow> Some (c, None)))"

section \<open>Starting and closing\<close>

text \<open>\<open>features\<close> are the managers of the started instance, or the error of starting it.\<close>

definition Xray_Start :: "string + 'm \<times> 'h \<times> 'o \<Rightarrow> ('m, 'h, 'o) XrayServer \<Rightarrow> ('m, 'h, 'o) XrayServer \<times> string option" where
  "Xray_Start features c =
     (case features of
        Inl e \<Rightarrow> (c, Some e)
      | Inr (shm, ihm, ohm) \<Rightarrow> (c\<lparr>x_shm := Some shm, x_ihm := ihm, x_ohm := ohm\<rparr>, None))"

definition Xray_Close :: "string option \<Rightarrow> ('m, 'h, 'o) XrayServer \<Rightarrow> ('m, 'h, 'o) XrayServer \<times> string option" where
  "Xray_Close err c = (c\<lparr>x_shm := None\<rparr>, err)"

definition xray_protocols :: "string list" where
  "xray_protocols = [''vmess'', ''vless'', ''shadowsocks'', ''trojan'']"

section \<open>Building the instance\<close>

definition trimmed_tags :: "string list \<Rightarrow> string list" where
  "trimmed_tags tags = filter (\<lambda>t. t \<noteq> '''') (map strings_TrimSpace tags)"

text \<open>The sets of the code are maps to the empty struct.\<close>

definition collectConfiguredOutboundTags :: "string list \<Rightarrow> (string, unit) gomap" where
  "collectConfiguredOutboundTags outboundTags = fold (\<lambda>t m. mstore m t ()) (trimmed_tags outboundTags) []"

text \<open>\<open>tag_of\<close> decodes a rule and gives its \<open>outboundTag\<close>, \<open>None\<close> when it does not decode.\<close>

definition collectMissingRouteOutboundTags :: "('raw \<Rightarrow> string option) \<Rightarrow> 'raw list \<Rightarrow> (string, unit) gomap \<Rightarrow> (string, unit) gomap" where
  "collectMissingRouteOutboundTags tag_of ruleList definedTags =
     fold (\<lambda>t m. if mload definedTags t \<noteq> None then m else mstore m t ()) (trimmed_tags (List.map_filter tag_of ruleList)) []"

definition collectRouteOutboundTags :: "string list option \<Rightarrow> string list" where
  "collectRouteOutboundTags ruleTags =
     (case ruleTags of None \<Rightarrow> [] | Some tags \<Rightarrow> sort (remdups (trimmed_tags tags)))"

text \<open>The warning: the missing tags in order, and the two sources it names.\<close>

definition validateRouteOutboundReferences ::
  "('raw \<Rightarrow> string option) \<Rightarrow> string \<Rightarrow> 'raw list \<Rightarrow> string \<Rightarrow> string list \<Rightarrow> (string list \<times> string \<times> string) option" where
  "validateRouteOutboundReferences tag_of routeConfigPath ruleList outboundConfigPath outboundTags =
     (if ruleList = [] then None
      else let missing = collectMissingRouteOutboundTags tag_of ruleList (collectConfiguredOutboundTags outboundTags)
           in if missing = [] then None
              else Some (sort (map fst missing),
                (if strings_TrimSpace routeConfigPath = '''' then ''RouteConfigPath'' else routeConfigPath),
                (if strings_TrimSpace outboundConfigPath = '''' then ''OutboundConfigPath, e.g. a custom_outbound.json next to AssetPath'' else outboundConfigPath)))"

record xray_Policy =
  po_StatsUserUplink :: bool
  po_StatsUserDownlink :: bool
  po_Handshake :: int
  po_ConnectionIdle :: int
  po_UplinkOnly :: int
  po_DownlinkOnly :: int
  po_BufferSize :: int

definition parseConnectionConfig :: "XrayConnectionConfig \<Rightarrow> xray_Policy" where
  "parseConnectionConfig c = \<lparr>po_StatsUserUplink = True, po_StatsUserDownlink = True, po_Handshake = xcc_Handshake c,
     po_ConnectionIdle = xcc_ConnIdle c, po_UplinkOnly = xcc_UplinkOnly c, po_DownlinkOnly = xcc_DownlinkOnly c, po_BufferSize = xcc_BufferSize c\<rparr>"

text \<open>
  The structs and builders of Xray: a decoder gives \<open>None\<close> on malformed text, a builder on a document it
  does not understand. \<open>cp_new\<close> is \<open>core.New\<close> on everything built.
\<close>

record ('raw, 'dns, 'route, 'inb, 'outb, 'srv) core_ops =
  cp_read :: "string \<Rightarrow> string option"
  cp_regular :: "string \<Rightarrow> bool"
  cp_dns :: "string \<Rightarrow> 'dns option"
  cp_dns_empty :: 'dns
  cp_dns_build :: "'dns \<Rightarrow> bool"
  cp_route :: "string \<Rightarrow> 'route option"
  cp_route_empty :: 'route
  cp_route_build :: "'route \<Rightarrow> bool"
  cp_rules :: "'route \<Rightarrow> 'raw list"
  cp_rule_tag :: "'raw \<Rightarrow> string option"
  cp_inbounds :: "string \<Rightarrow> 'inb list option"
  cp_in_build :: "'inb \<Rightarrow> bool"
  cp_outbounds :: "string \<Rightarrow> 'outb list option"
  cp_out_build :: "'outb \<Rightarrow> bool"
  cp_out_tag :: "'outb \<Rightarrow> string"
  cp_new :: "XrayLogConfig \<Rightarrow> 'dns \<Rightarrow> 'route \<Rightarrow> 'inb list \<Rightarrow> 'outb list \<Rightarrow> (nat \<times> xray_Policy) list \<Rightarrow> 'srv option"

definition load_or_panic :: "(string \<Rightarrow> string option) \<Rightarrow> (string \<Rightarrow> 'a option) \<Rightarrow> 'a \<Rightarrow> string \<Rightarrow> 'a go" where
  "load_or_panic read decode fallback path =
     (if path = '''' then Some fallback else case read path of None \<Rightarrow> None | Some data \<Rightarrow> decode data)"

definition load_or_default :: "(string \<Rightarrow> string option) \<Rightarrow> (string \<Rightarrow> 'a option) \<Rightarrow> 'a \<Rightarrow> string \<Rightarrow> 'a" where
  "load_or_default read decode fallback path = (case load_or_panic read decode fallback path of None \<Rightarrow> fallback | Some x \<Rightarrow> x)"

record 'srv xray_instance =
  xi_asset_env :: string
  xi_dns_env :: string
  xi_warning :: "(string list \<times> string \<times> string) option"
  xi_server :: 'srv

definition getCore :: "('raw, 'dns, 'route, 'inb, 'outb, 'srv) core_ops \<Rightarrow> XrayConfig \<Rightarrow> 'srv xray_instance go" where
  "getCore P c =
     (case xc_LogConfig c of
        None \<Rightarrow> None
      | Some logConfig \<Rightarrow>
          (let dns = load_or_default (cp_read P) (cp_dns P) (cp_dns_empty P) (xc_DnsConfigPath c);
               outboundConfigPath = fst (ResolveOutboundConfigPath (\<lambda>a b. path_Join [a, b]) (cp_regular P) c)
           in if \<not> cp_dns_build P dns then None
              else case load_or_panic (cp_read P) (cp_route P) (cp_route_empty P) (xc_RouteConfigPath c) of
                None \<Rightarrow> None
              | Some route \<Rightarrow>
                  if \<not> cp_route_build P route then None
                  else case load_or_panic (cp_read P) (cp_inbounds P) [] (xc_InboundConfigPath c) of
                    None \<Rightarrow> None
                  | Some inbounds \<Rightarrow>
                      if \<not> list_all (cp_in_build P) inbounds then None
                      else case load_or_panic (cp_read P) (cp_outbounds P) [] outboundConfigPath of
                        None \<Rightarrow> None
                      | Some outbounds \<Rightarrow>
                          if \<not> list_all (cp_out_build P) outbounds then None
                          else case xc_ConnectionConfig c of
                            None \<Rightarrow> None
                          | Some conn \<Rightarrow>
                              map_option (\<lambda>srv. \<lparr>xi_asset_env = xc_AssetPath c, xi_dns_env = xc_DnsConfigPath c,
                                  xi_warning = validateRouteOutboundReferences (cp_rule_tag P) (xc_RouteConfigPath c) (cp_rules P route) outboundConfigPath (map (cp_out_tag P) outbounds),
                                  xi_server = srv\<rparr>)
                                (cp_new P logConfig dns route inbounds outbounds [(0, parseConnectionConfig conn)])))"

definition Xray_New :: "('raw, 'dns, 'route, 'inb, 'outb, 'srv) core_ops \<Rightarrow> CoreConfig \<Rightarrow> 'srv xray_instance go" where
  "Xray_New P c = (case co_XrayConfig c of None \<Rightarrow> None | Some x \<Rightarrow> getCore P x)"

section \<open>The file follows the panel\<close>

lemma write_dns_other: "p \<noteq> dnsPath \<Longrightarrow> mload (write_dns D dns dnsPath fs) p = mload fs p"
  by (simp add: write_dns_def Let_def)

lemma saveDnsConfig_other: "p \<noteq> dnsPath \<Longrightarrow> mload (fst (saveDnsConfig D fs dns dnsPath)) p = mload fs p"
  by (simp add: saveDnsConfig_def write_dns_other split: option.split)

lemma saveDnsConfig_same: "mload fs dnsPath = Some dns \<Longrightarrow> saveDnsConfig D fs dns dnsPath = (fs, None)"
  by (simp add: saveDnsConfig_def)

text \<open>
  Saving the DNS document of the panel: no other file is touched, the file is only written when Xray
  can build the new document, and then it holds exactly that document if the write succeeds. Saving the
  same document again leaves the file alone, so the watcher on it does not restart the process.
\<close>

theorem dns_file_follows_panel:
  assumes "saveDnsConfig D fs dns dnsPath = (fs', e)" and "do_Write D dnsPath = None"
  shows "(\<forall>p. p \<noteq> dnsPath \<longrightarrow> mload fs' p = mload fs p)
    \<and> (fs' \<noteq> fs \<longrightarrow> do_Build D dns = None \<and> mload fs' dnsPath = Some dns)
    \<and> (e = None \<longrightarrow> mload fs' dnsPath = Some dns)
    \<and> (mload fs' dnsPath = Some dns \<longrightarrow> saveDnsConfig D fs' dns dnsPath = (fs', None))"
proof -
  have o: "\<forall>p. p \<noteq> dnsPath \<longrightarrow> mload fs' p = mload fs p" using saveDnsConfig_other [of _ dnsPath D fs dns] assms(1) by simp
  have w: "mload (write_dns D dns dnsPath fs) dnsPath = Some dns" using assms(2) by (simp add: write_dns_def Let_def)
  show ?thesis
  proof (cases "mload fs dnsPath = None \<or> mload fs dnsPath = Some dns \<or> do_Build D dns \<noteq> None")
    case True
    then have "fs' = fs" and "e = None \<Longrightarrow> mload fs dnsPath = Some dns"
      using assms(1) by (fastforce simp: saveDnsConfig_def split: option.splits if_splits)+
    then show ?thesis using saveDnsConfig_same by simp
  next
    case False
    then have "fs' = write_dns D dns dnsPath fs" "do_Build D dns = None" using assms(1) by (auto simp: saveDnsConfig_def)
    then show ?thesis using o w saveDnsConfig_same by simp
  qed
qed

definition example_dns :: dns_ops where
  "example_dns = \<lparr>do_Indent = Inr, do_MarshalIndent = (\<lambda>ss tag. Inr (concat (map (\<lambda>s. case s of Inl a \<Rightarrow> a @ '';'' | Inr d \<Rightarrow> ds_address d @ '';'') ss) @ tag)),
     do_Unmarshal = (\<lambda>s. if s = ''bad'' then Some ''invalid'' else None), do_Build = (\<lambda>_. None), do_Truncate = (\<lambda>_. None), do_Write = (\<lambda>_. None)\<rparr>"

theorem dns_file_follows_panel_witness:
  "saveDnsConfig example_dns [(''f'', ''old''), (''g'', ''x'')] ''new'' ''f'' = ([(''f'', ''new''), (''g'', ''x'')], None)
   \<and> mload [(''f'', ''new''), (''g'', ''x'')] ''g'' = Some ''x''
   \<and> saveDnsConfig example_dns [(''f'', ''new''), (''g'', ''x'')] ''new'' ''f'' = ([(''f'', ''new''), (''g'', ''x'')], None)"
proof -
  have s: "saveDnsConfig example_dns [(''f'', ''old''), (''g'', ''x'')] ''new'' ''f'' = ([(''f'', ''new''), (''g'', ''x'')], None)" by code_simp
  have "do_Write example_dns ''f'' = None" by (simp add: example_dns_def)
  from dns_file_follows_panel [OF s this] have "mload [(''f'', ''new''), (''g'', ''x'')] ''f'' = Some ''new''
      \<and> saveDnsConfig example_dns [(''f'', ''new''), (''g'', ''x'')] ''new'' ''f'' = ([(''f'', ''new''), (''g'', ''x'')], None)" by blast
  moreover have "mload [(''f'', ''new''), (''g'', ''x'')] ''g'' = Some ''x''" by code_simp
  ultimately show ?thesis using s by blast
qed

text \<open>A document that does not decode is written all the same when Xray can build what was decoded.\<close>

lemma undecodable_dns_is_written:
  "saveDnsConfig example_dns [(''f'', ''old'')] ''bad'' ''f'' = ([(''f'', ''bad'')], Some ''invalid'')"
  by code_simp

text \<open>The routes of the panel without a file to write to: the map is ignored, the document stops the node.\<close>

lemma dns_without_file:
  assumes "mload fs dnsPath = None" and "do_Indent D doc = Inr pretty" and "doc \<noteq> ''''"
  shows "snd (updateDNSConfig D dnsPath fs (info\<lparr>ni_RawDNS := \<lparr>dns_DNSMap = [], dns_DNSJson = doc\<rparr>\<rparr>)) \<noteq> None"
    and "dns_entries m = Inr servers \<Longrightarrow> do_MarshalIndent D (Inl ''1.1.1.1'' # Inl ''localhost'' # map Inr servers) ''dns_inbound'' = Inr j
      \<Longrightarrow> updateDNSConfig D dnsPath fs (info\<lparr>ni_RawDNS := \<lparr>dns_DNSMap = m, dns_DNSJson = ''''\<rparr>\<rparr>) = (fs, None)"
  using assms by (simp_all add: updateDNSConfig_def saveDnsConfig_def)

text \<open>
  The order in which Go visits the DNS map decides what is written. Two visits of the same routes in
  different orders give different documents, so a node with two DNS routes rewrites the watched file
  when it is added again, although the panel changed nothing; and the rewritten file restarts the node.
\<close>

theorem dns_map_order_rewrites_file:
  assumes "dns_DNSJson (ni_RawDNS info) = ''''" and "mset m' = mset (dns_DNSMap (ni_RawDNS info))"
    and "dns_entries (dns_DNSMap (ni_RawDNS info)) = Inr servers" and "dns_entries m' = Inr servers'"
    and "do_MarshalIndent D (Inl ''1.1.1.1'' # Inl ''localhost'' # map Inr servers) ''dns_inbound'' = Inr j"
    and "do_MarshalIndent D (Inl ''1.1.1.1'' # Inl ''localhost'' # map Inr servers') ''dns_inbound'' = Inr j'" and "j' \<noteq> j"
    and "do_Build D j = None" and "do_Build D j' = None" and "do_Write D dnsPath = None" and "mload fs dnsPath \<noteq> None"
  shows "let first = updateDNSConfig D dnsPath fs info;
             again = updateDNSConfig D dnsPath (fst first) (info\<lparr>ni_RawDNS := (ni_RawDNS info)\<lparr>dns_DNSMap := m'\<rparr>\<rparr>)
         in snd first = None \<and> snd again = None \<and> mload (fst first) dnsPath = Some j \<and> mload (fst again) dnsPath = Some j'"
proof -
  have m: "dns_DNSMap (ni_RawDNS info) \<noteq> []" "m' \<noteq> []" using assms(2-7) by auto
  have written: "mload (fst (saveDnsConfig D fs dns dnsPath)) dnsPath = Some dns" if "mload fs dnsPath \<noteq> None" "do_Build D dns = None" for fs dns
    using that assms(10) by (auto simp: saveDnsConfig_def write_dns_def Let_def)
  have a: "updateDNSConfig D dnsPath fs info = (fst (saveDnsConfig D fs j dnsPath), None)"
    using assms(1,3,5) m(1) by (simp add: updateDNSConfig_def)
  have b: "updateDNSConfig D dnsPath fs' (info\<lparr>ni_RawDNS := (ni_RawDNS info)\<lparr>dns_DNSMap := m'\<rparr>\<rparr>) = (fst (saveDnsConfig D fs' j' dnsPath), None)" for fs'
    using assms(1,4,6) m(2) by (simp add: updateDNSConfig_def)
  show ?thesis using written [OF assms(11,8)] written [OF _ assms(9)] by (simp add: a b Let_def)
qed

theorem dns_map_order_rewrites_file_witness:
  "let info = (empty_NodeInfo 1 ''vless'' :: string NodeInfo)\<lparr>ni_RawDNS := \<lparr>dns_DNSMap = [(''0'', \<lparr>de_address = ''8.8.8.8'', de_domains = []\<rparr>), (''1'', \<lparr>de_address = ''9.9.9.9'', de_domains = []\<rparr>)], dns_DNSJson = ''''\<rparr>\<rparr>;
       first = updateDNSConfig example_dns ''f'' [(''f'', '''')] info;
       again = updateDNSConfig example_dns ''f'' (fst first) (info\<lparr>ni_RawDNS := (ni_RawDNS info)\<lparr>dns_DNSMap := rev (dns_DNSMap (ni_RawDNS info))\<rparr>\<rparr>)
   in mload (fst first) ''f'' = Some ''1.1.1.1;localhost;8.8.8.8;9.9.9.9;dns_inbound''
      \<and> mload (fst again) ''f'' = Some ''1.1.1.1;localhost;9.9.9.9;8.8.8.8;dns_inbound''"
proof -
  let ?m = "[(''0'', \<lparr>de_address = ''8.8.8.8'', de_domains = []\<rparr>), (''1'', \<lparr>de_address = ''9.9.9.9'', de_domains = []\<rparr>)]"
  let ?info = "(empty_NodeInfo 1 ''vless'' :: string NodeInfo)\<lparr>ni_RawDNS := \<lparr>dns_DNSMap = ?m, dns_DNSJson = ''''\<rparr>\<rparr>"
  let ?s = "\<lambda>a. \<lparr>ds_address = a, ds_domains = [], ds_port = None\<rparr>"
  have e: "dns_entries ?m = Inr [?s ''8.8.8.8'', ?s ''9.9.9.9'']" "dns_entries (rev ?m) = Inr [?s ''9.9.9.9'', ?s ''8.8.8.8'']"
    by (simp_all add: dns_entry_def strings_Contains_def)
  have "let first = updateDNSConfig example_dns ''f'' [(''f'', '''')] ?info;
            again = updateDNSConfig example_dns ''f'' (fst first) (?info\<lparr>ni_RawDNS := (ni_RawDNS ?info)\<lparr>dns_DNSMap := rev ?m\<rparr>\<rparr>)
        in snd first = None \<and> snd again = None \<and> mload (fst first) ''f'' = Some ''1.1.1.1;localhost;8.8.8.8;9.9.9.9;dns_inbound''
           \<and> mload (fst again) ''f'' = Some ''1.1.1.1;localhost;9.9.9.9;8.8.8.8;dns_inbound''"
    by (rule dns_map_order_rewrites_file [where info = ?info and m' = "rev ?m" and servers = "[?s ''8.8.8.8'', ?s ''9.9.9.9'']" and servers' = "[?s ''9.9.9.9'', ?s ''8.8.8.8'']"])
      (use e in \<open>simp_all add: example_dns_def mload_def\<close>)
  then show ?thesis by (simp add: Let_def)
qed

section \<open>The life of a node\<close>

text \<open>
  What the handler managers of Xray promise. Adding a handler whose tag is taken fails; a handler that fails
  to start may stay registered, so after a failure the tag may be there or not.
\<close>

locale handler_manager =
  fixes tags :: "'h \<Rightarrow> string set"
    and tag_of :: "'i \<Rightarrow> string"
    and add :: "'h \<Rightarrow> 'i \<Rightarrow> 'h \<times> string option"
    and remove :: "'h \<Rightarrow> string \<Rightarrow> 'h \<times> string option"
  assumes add_ok: "add h i = (h', None) \<Longrightarrow> tag_of i \<notin> tags h \<and> tags h' = insert (tag_of i) (tags h)"
    and add_failed: "add h i = (h', Some e) \<Longrightarrow> tags h \<subseteq> tags h' \<and> tags h' \<subseteq> insert (tag_of i) (tags h)"
    and remove_ok: "remove h t = (h', None) \<Longrightarrow> tags h' = tags h - {t}"
    and remove_failed: "remove h t = (h', Some e) \<Longrightarrow> tags h' = tags h"
begin

lemma add_handler_tags:
  assumes "add_handler create add config h = (h', e)" and "\<And>i. create config = Inr (Some i) \<Longrightarrow> tag_of i = t"
  shows "tags h' - {t} = tags h - {t} \<and> (e = None \<longrightarrow> t \<notin> tags h \<and> tags h' = insert t (tags h))"
proof (cases "\<exists>i. create config = Inr (Some i)")
  case True
  then obtain i where i: "create config = Inr (Some i)" "tag_of i = t" using assms(2) by blast
  then have "add h i = (h', e)" using assms(1) by (simp add: add_handler_def)
  then show ?thesis using i(2) add_ok [of h i h'] add_failed [of h i h'] by (cases e) auto
next
  case False
  then show ?thesis using assms(1) by (auto simp: add_handler_def split: sum.splits option.splits)
qed

end

text \<open>The registered nodes other than \<open>tag\<close> are the same.\<close>

definition same_rest ::
  "('h \<Rightarrow> string set) \<Rightarrow> ('o \<Rightarrow> string set) \<Rightarrow> string \<Rightarrow> ('m, 'h, 'o) XrayServer \<Rightarrow> ('m, 'h, 'o) XrayServer \<Rightarrow> bool" where
  "same_rest Tin Tout tag c c' \<longleftrightarrow> Tin (x_ihm c') - {tag} = Tin (x_ihm c) - {tag} \<and> Tout (x_ohm c') - {tag} = Tout (x_ohm c) - {tag}"

locale node_managers = i: handler_manager Tin tin "ho_AddInbound H" "ho_RemoveInbound H" + o: handler_manager Tout tout "ho_AddOutbound H" "ho_RemoveOutbound H"
  for Tin :: "'h \<Rightarrow> string set" and tin :: "'hi \<Rightarrow> string" and Tout :: "'o \<Rightarrow> string set" and tout :: "'ho \<Rightarrow> string"
    and H :: "('in, 'hi, 'h, 'out, 'ho, 'o) handler_ops" +
  fixes J :: "('raw, 'in, 'out) xray_ops"
  assumes inbound_tag: "xj_build_in J c = Inr b \<Longrightarrow> ho_create_in H b = Inr (Some h) \<Longrightarrow> tin h = id_Tag c"
    and outbound_tag: "xj_build_out J d = Inr b' \<Longrightarrow> ho_create_out H b' = Inr (Some h') \<Longrightarrow> tout h' = od_Tag d"
begin

lemma addInbound_tags:
  assumes "buildInbound J config info tag = Some (Inr b)" and "addInbound H b c = Some (c', e)"
  shows "same_rest Tin Tout tag c c' \<and> x_ohm c' = x_ohm c \<and> (e = None \<longrightarrow> Tin (x_ihm c') = insert tag (Tin (x_ihm c)))"
proof -
  obtain i where "xj_build_in J i = Inr b" "id_Tag i = tag" using buildInbound_Inr [OF assms(1)] by metis
  then have t: "ho_create_in H b = Inr (Some h) \<Longrightarrow> tin h = tag" for h using inbound_tag by blast
  obtain h where h: "add_handler (ho_create_in H) (ho_AddInbound H) b (x_ihm c) = (h, e)" "c' = c\<lparr>x_ihm := h\<rparr>"
    using assms(2) by (auto simp: addInbound_def split: if_splits prod.splits)
  show ?thesis using i.add_handler_tags [OF h(1) t] h(2) by (auto simp: same_rest_def)
qed

lemma addOutbound_tags:
  assumes "buildOutbound J config tag = Some (Inr b)" and "addOutbound H b c = Some (c', e)"
  shows "same_rest Tin Tout tag c c' \<and> x_ihm c' = x_ihm c \<and> (e = None \<longrightarrow> Tout (x_ohm c') = insert tag (Tout (x_ohm c)))"
proof -
  obtain d where "xj_build_out J d = Inr b" "od_Tag d = tag"
    using assms(1) by (auto simp: buildOutbound_def split: option.splits sum.splits)
  then have t: "ho_create_out H b = Inr (Some h) \<Longrightarrow> tout h = tag" for h using outbound_tag by blast
  obtain h where h: "add_handler (ho_create_out H) (ho_AddOutbound H) b (x_ohm c) = (h, e)" "c' = c\<lparr>x_ohm := h\<rparr>"
    using assms(2) by (auto simp: addOutbound_def split: if_splits prod.splits)
  show ?thesis using o.add_handler_tags [OF h(1) t] h(2) by (auto simp: same_rest_def)
qed

lemma add_both_tags:
  assumes "add_both J H c tag info config = Some (c', e)"
  shows "same_rest Tin Tout tag c c' \<and> (e = None \<longrightarrow> Tin (x_ihm c') = insert tag (Tin (x_ihm c)) \<and> Tout (x_ohm c') = insert tag (Tout (x_ohm c)))"
proof (cases "buildInbound J config info tag")
  case (Some r)
  show ?thesis
  proof (cases r)
    case (Inl x)
    then show ?thesis using assms Some by (auto simp: add_both_def same_rest_def)
  next
    case (Inr b)
    then obtain c1 e1 where 1: "addInbound H b c = Some (c1, e1)" using assms Some by (auto simp: add_both_def split: option.splits)
    note i = addInbound_tags [OF Some [unfolded Inr] this]
    show ?thesis
    proof (cases e1)
      case None
      then obtain r' where r': "buildOutbound J config tag = Some r'" using assms Some Inr 1 by (auto simp: add_both_def split: option.splits)
      show ?thesis
      proof (cases r')
        case (Inl x)
        then show ?thesis using assms Some Inr 1 None r' i by (auto simp: add_both_def)
      next
        case (Inr b')
        then obtain c2 e2 where 2: "addOutbound H b' c1 = Some (c2, e2)"
          using assms Some \<open>r = Inr b\<close> 1 None r' by (auto simp: add_both_def split: option.splits)
        note o = addOutbound_tags [OF r' [unfolded Inr] this]
        have "c2 = c'" "e2 = None \<longleftrightarrow> e = None"
          using assms Some \<open>r = Inr b\<close> 1 None r' Inr 2 by (auto simp: add_both_def split: option.splits)
        then show ?thesis using i o None by (auto simp: same_rest_def)
      qed
    qed (use assms Some Inr 1 i in \<open>auto simp: add_both_def\<close>)
  qed
qed (use assms in \<open>simp add: add_both_def\<close>)

lemma DelNode_tags:
  assumes "Xray_DelNode H c tag = Some (c', None)"
  shows "Tin (x_ihm c') = Tin (x_ihm c) - {tag} \<and> Tout (x_ohm c') = Tout (x_ohm c) - {tag}"
  using assms i.remove_ok o.remove_ok
  by (auto simp: Xray_DelNode_def removeInbound_def removeOutbound_def split: if_splits prod.splits option.splits)

lemma node_lifecycle:
  assumes "Xray_AddNode J D H dnsPath (fs, c) tag info config = Some ((fs', c'), e)"
  shows "same_rest Tin Tout tag c c'
     \<and> (e = None \<longrightarrow> Tin (x_ihm c') = insert tag (Tin (x_ihm c)) \<and> Tout (x_ohm c') = insert tag (Tout (x_ohm c)))
     \<and> (\<forall>c''. Xray_DelNode H c' tag = Some (c'', None) \<longrightarrow> Tin (x_ihm c'') = Tin (x_ihm c) - {tag} \<and> Tout (x_ohm c'') = Tout (x_ohm c) - {tag})"
proof -
  have s: "same_rest Tin Tout tag c c' \<and> (e = None \<longrightarrow> Tin (x_ihm c') = insert tag (Tin (x_ihm c)) \<and> Tout (x_ohm c') = insert tag (Tout (x_ohm c)))"
  proof (cases "snd (updateDNSConfig D dnsPath fs info)")
    case None
    then have "add_both J H c tag info config = Some (c', e)" using assms by (auto simp: Xray_AddNode_def split: prod.splits)
    then show ?thesis by (rule add_both_tags)
  next
    case (Some x)
    then show ?thesis using assms by (auto simp: Xray_AddNode_def same_rest_def split: prod.splits)
  qed
  then show ?thesis using DelNode_tags [of c' tag] by (auto simp: same_rest_def)
qed

end

text \<open>Managers that keep the tags in a list, and handlers that are the tag of their configuration.\<close>

definition list_add :: "string list \<Rightarrow> string \<Rightarrow> string list \<times> string option" where
  "list_add h t = (if t \<in> set h then (h, Some (''existing tag found: '' @ t)) else (t # h, None))"

definition list_remove :: "string list \<Rightarrow> string \<Rightarrow> string list \<times> string option" where
  "list_remove h t = (if t \<in> set h then (filter (\<lambda>x. x \<noteq> t) h, None) else (h, Some ''not enough information for making a decision''))"

definition list_handlers :: "(string InboundDetourConfig, string, string list, string OutboundDetourConfig, string, string list) handler_ops" where
  "list_handlers = \<lparr>ho_create_in = (\<lambda>c. Inr (Some (id_Tag c))), ho_AddInbound = list_add, ho_RemoveInbound = list_remove,
     ho_create_out = (\<lambda>c. Inr (Some (od_Tag c))), ho_AddOutbound = list_add, ho_RemoveOutbound = list_remove\<rparr>"

interpretation list_manager: handler_manager set "\<lambda>t. t" list_add list_remove
  by unfold_locales (auto simp: list_add_def list_remove_def split: if_splits)

interpretation list_nodes: node_managers set "\<lambda>t. t" set "\<lambda>t. t" list_handlers example_xray
proof -
  have "handler_manager set (\<lambda>t. t) (ho_AddInbound list_handlers) (ho_RemoveInbound list_handlers)"
    "handler_manager set (\<lambda>t. t) (ho_AddOutbound list_handlers) (ho_RemoveOutbound list_handlers)"
    using list_manager.handler_manager_axioms by (simp_all add: list_handlers_def)
  moreover have "node_managers_axioms (\<lambda>t. t) (\<lambda>t. t) list_handlers example_xray"
    by unfold_locales (simp_all add: list_handlers_def example_xray_def)
  ultimately show "node_managers set (\<lambda>t. t) set (\<lambda>t. t) list_handlers example_xray" by (simp add: node_managers_def)
qed

text \<open>
  C33. Adding and deleting a node, over any handler managers that keep their contract: a successful
  \<open>AddNode\<close> registers exactly the tag of the node, as an inbound and as an outbound; a failed one leaves
  all other nodes alone; and whatever it left behind, a successful \<open>DelNode\<close> removes it, so that the node
  can be added again.
\<close>

theorem xray_node_lifecycle:
  assumes "node_managers Tin tin Tout tout H J"
    and "Xray_AddNode J D H dnsPath (fs, c) tag info config = Some ((fs', c'), e)"
  shows "Tin (x_ihm c') - {tag} = Tin (x_ihm c) - {tag} \<and> Tout (x_ohm c') - {tag} = Tout (x_ohm c) - {tag}
     \<and> (e = None \<longrightarrow> Tin (x_ihm c') = insert tag (Tin (x_ihm c)) \<and> Tout (x_ohm c') = insert tag (Tout (x_ohm c)))
     \<and> (\<forall>c''. Xray_DelNode H c' tag = Some (c'', None) \<longrightarrow> Tin (x_ihm c'') = Tin (x_ihm c) - {tag} \<and> Tout (x_ohm c'') = Tout (x_ohm c) - {tag})"
  using node_managers.node_lifecycle [OF assms] by (auto simp: same_rest_def)

definition example_xray_server :: "(unit, string list, string list) XrayServer" where
  "example_xray_server = \<lparr>x_shm = Some (), x_ihm = [''old''], x_ohm = [''old'']\<rparr>"

definition example_added :: "(unit, string list, string list) XrayServer" where
  "example_added = \<lparr>x_shm = Some (), x_ihm = [''t'', ''old''], x_ohm = [''t'', ''old'']\<rparr>"

lemma example_add_node:
  "Xray_AddNode example_xray example_dns list_handlers '''' ([], example_xray_server) ''t'' (example_vless ''a.com'' (Some ''{}'')) example_xray_options
     = Some (([], example_added), None)"
  by code_simp

theorem xray_node_lifecycle_witness:
  "set (x_ihm example_added) = insert ''t'' (set (x_ihm example_xray_server)) \<and> Xray_DelNode list_handlers example_added ''t'' = Some (example_xray_server, None)
   \<and> set (x_ohm example_xray_server) = set (x_ohm example_xray_server) - {''t''}"
proof -
  have d: "Xray_DelNode list_handlers example_added ''t'' = Some (example_xray_server, None)" by code_simp
  from xray_node_lifecycle [OF list_nodes.node_managers_axioms example_add_node] show ?thesis using d by blast
qed

text \<open>When only the outbound fails, the inbound stays registered and a second attempt without \<open>DelNode\<close> fails.\<close>

lemma failed_outbound_keeps_inbound:
  "let J = example_xray\<lparr>xj_build_out := (\<lambda>_. Inl ''unable to parse sendThrough'')\<rparr>;
       add = (\<lambda>c. the (Xray_AddNode J example_dns list_handlers '''' ([], c) ''t'' (example_vless ''a.com'' (Some ''{}'')) example_xray_options));
       c = snd (fst (add example_xray_server))
   in snd (add example_xray_server) = Some ''build outbound error: unable to parse sendThrough''
      \<and> x_ihm c = [''t'', ''old''] \<and> snd (add c) = Some ''add inbound error: existing tag found: t''"
  by code_simp

section \<open>The route warning\<close>

lemma fold_store_keys: "fst ` set (fold (\<lambda>t m. mstore m t ()) ts m) = set ts \<union> fst ` set m"
proof (induction ts arbitrary: m)
  case (Cons t ts)
  have "fst ` set (mstore m t ()) = insert t (fst ` set m)" by (simp add: mstore_def dom_update)
  then show ?case using Cons by auto
qed simp

lemma mload_key: "mload m t \<noteq> None \<longleftrightarrow> t \<in> fst ` set m"
  by (simp add: mload_def map_of_eq_None_iff)

lemma collect_missing_keys:
  "fst ` set (collectMissingRouteOutboundTags tag_of rules defined) = set (trimmed_tags (List.map_filter tag_of rules)) - fst ` set defined
   \<and> mwf (collectMissingRouteOutboundTags tag_of rules defined)"
proof -
  have "fst ` set (fold (\<lambda>t m. if mload defined t \<noteq> None then m else mstore m t ()) ts m) = (set ts - fst ` set defined) \<union> fst ` set m
      \<and> (mwf m \<longrightarrow> mwf (fold (\<lambda>t m. if mload defined t \<noteq> None then m else mstore m t ()) ts m))" for ts and m :: "(string, unit) gomap"
  proof (induction ts arbitrary: m)
    case (Cons t ts)
    have "fst ` set (mstore m t ()) = insert t (fst ` set m)" by (simp add: mstore_def dom_update)
    then show ?case using Cons mload_key [of defined t] by auto
  qed simp
  from this [of "trimmed_tags (List.map_filter tag_of rules)" "[]"] show ?thesis by (simp add: collectMissingRouteOutboundTags_def)
qed

text \<open>The tags that the rules name and no loaded outbound has.\<close>

definition missing_tags :: "('raw \<Rightarrow> string option) \<Rightarrow> 'raw list \<Rightarrow> string list \<Rightarrow> string set" where
  "missing_tags tag_of rules outboundTags =
     {strings_TrimSpace t | t. t \<in> Some -` (tag_of ` set rules)} - {''''} - {strings_TrimSpace t | t. t \<in> set outboundTags}"

text \<open>
  The warning about routes is exact: \<open>validateRouteOutboundReferences\<close> is silent when every rule names an
  outbound that is loaded (or none), and otherwise lists exactly the missing tags, each once and in
  order, so that the message does not depend on the iteration order of the maps.
\<close>

theorem route_warning_exact:
  "case validateRouteOutboundReferences tag_of routePath rules outPath outboundTags of
     None \<Rightarrow> missing_tags tag_of rules outboundTags = {}
   | Some (tags, _) \<Rightarrow> set tags = missing_tags tag_of rules outboundTags \<and> tags \<noteq> [] \<and> sorted tags \<and> distinct tags"
proof -
  let ?d = "collectConfiguredOutboundTags outboundTags" and ?m = "collectMissingRouteOutboundTags tag_of rules (collectConfiguredOutboundTags outboundTags)"
  have d: "fst ` set ?d = set (trimmed_tags outboundTags)" using fold_store_keys [of "trimmed_tags outboundTags" "[]"] by (simp add: collectConfiguredOutboundTags_def)
  have r: "set (List.map_filter tag_of rules) = Some -` (tag_of ` set rules)" 
    by (induction rules) (auto simp: List.map_filter_simps vimage_def split: option.splits)
  have m: "fst ` set ?m = missing_tags tag_of rules outboundTags"
    using collect_missing_keys [of tag_of rules ?d] d r by (auto simp: missing_tags_def trimmed_tags_def)
  have "rules = [] \<Longrightarrow> missing_tags tag_of rules outboundTags = {}" by (simp add: missing_tags_def)
  moreover have "sort xs = [] \<longleftrightarrow> xs = []" for xs :: "string list" by (metis length_0_conv length_sort)
  ultimately show ?thesis
    using m collect_missing_keys [of tag_of rules ?d] by (auto simp: validateRouteOutboundReferences_def Let_def mwf_def)
qed

text \<open>A DNS file that is missing or malformed never keeps the core from starting; a route file does.\<close>

lemma dns_file_never_stops_core:
  assumes "getCore P (c\<lparr>xc_DnsConfigPath := ''''\<rparr>) = Some x" and "\<And>d. cp_dns_build P d" and "\<And>l d r i out levels. cp_new P l d r i out levels \<noteq> None"
  shows "getCore P c \<noteq> None"
proof -
  have r: "ResolveOutboundConfigPath join reg (c\<lparr>xc_DnsConfigPath := p\<rparr>) = ResolveOutboundConfigPath join reg c" for join reg p
    by (simp add: ResolveOutboundConfigPath_def)
  show ?thesis using assms(1) unfolding getCore_def Let_def
    by (simp add: r assms(2) split: option.splits if_splits) (use assms(3) in blast)
qed

end
