(* ===== verification/Sing_Node.thy ===== *)
theory Sing_Node
  imports Xray_Inbound Sing_Hook
begin

text \<open>
  The nodes of the sing core: \<open>core/sing/node.go\<close> (the inbound of a node), \<open>utils.go\<close>, \<open>naive.go\<close> (the inbound of
  a naive node, rebuilt whenever its users change) and the users of \<open>user.go\<close>. The option structs of sing-box are
  records of the fields the code sets; decoders, URL and address parsing and the random source are
  arguments. The inbound manager of sing-box is \<open>box_ops\<close>, its contract the locale \<open>inbound_box\<close>.
\<close>

section \<open>Options of sing-box\<close>

record ListenOptions =
  lo_Listen :: string
  lo_ListenPort :: "16 word"
  lo_TCPFastOpen :: bool
  lo_SniffEnabled :: bool
  lo_SniffOverrideDestination :: bool
  lo_DomainStrategy :: nat

record InboundRealityOptions =
  ir_ShortID :: "string list"
  ir_PrivateKey :: string
  ir_Xver :: "8 word"
  ir_Server :: string
  ir_ServerPort :: "16 word"
  ir_MaxTimeDifference :: duration

record InboundTLSOptions =
  it_Enabled :: bool
  it_ServerName :: string
  it_CertificatePath :: string
  it_KeyPath :: string
  it_ALPN :: "string list"
  it_Reality :: "InboundRealityOptions option"

record V2RayWebsocketOptions =
  wo_Path :: string
  wo_EarlyDataHeaderName :: string
  wo_MaxEarlyData :: "32 word"
  wo_Headers :: "(string, string list) gomap"

record V2RayTransportOptions =
  vt_Type :: string
  vt_HTTPHost :: "string list"
  vt_HTTPPath :: string
  vt_HTTPMethod :: string
  vt_Websocket :: "V2RayWebsocketOptions option"
  vt_ServiceName :: string
  vt_UpgradePath :: string
  vt_UpgradeHost :: string

record ServerOptions =
  sv_Server :: string
  sv_ServerPort :: "16 word"

record auth_User =
  au_Username :: string
  au_Password :: string

datatype inbound_options =
    VLESSInboundOptions ListenOptions InboundTLSOptions V2RayTransportOptions "MultiplexConfig option"
  | VMessInboundOptions ListenOptions InboundTLSOptions V2RayTransportOptions "MultiplexConfig option"
  | ShadowsocksInboundOptions ListenOptions string string "string list" "MultiplexConfig option"
  | TrojanInboundOptions ListenOptions InboundTLSOptions V2RayTransportOptions "MultiplexConfig option" "ServerOptions option" "(string, ServerOptions) gomap"
  | TUICInboundOptions ListenOptions InboundTLSOptions string bool
  | AnyTLSInboundOptions ListenOptions InboundTLSOptions "string list"
  | NaiveInboundOptions ListenOptions InboundTLSOptions "auth_User list" string
  | HysteriaInboundOptions ListenOptions InboundTLSOptions int int string
  | Hysteria2InboundOptions ListenOptions InboundTLSOptions int int bool "(string \<times> string) option"
  | NoOptions

record 'raw HttpNetworkConfig =
  hn_Type :: string
  hn_Request :: "'raw option"

record HttpRequest =
  hr_Method :: string
  hr_Path :: "string list"
  hr_Host :: "string list"

record WsNetworkConfig =
  wn_Path :: string
  wn_Headers :: "(string, string) gomap"

record HttpupgradeNetworkConfig =
  un_Path :: string
  un_Host :: string

text \<open>\<open>sb_url\<close> gives the path of a URL and its query value \<open>ed\<close>; \<open>sb_rand\<close> the given number of random bytes.\<close>

record 'raw sing_ops =
  sb_ParseAddr :: "string \<Rightarrow> bool"
  sb_ParseDuration :: "string \<Rightarrow> duration"
  sb_http :: "'raw \<Rightarrow> string + 'raw HttpNetworkConfig"
  sb_request :: "'raw \<Rightarrow> string + HttpRequest"
  sb_ws :: "'raw \<Rightarrow> string + WsNetworkConfig"
  sb_url :: "string \<Rightarrow> string + string \<times> string"
  sb_grpc :: "'raw \<Rightarrow> string + string"
  sb_upgrade :: "'raw \<Rightarrow> string + HttpupgradeNetworkConfig"
  sb_padding :: "'raw \<Rightarrow> string list option"
  sb_rand :: "nat \<Rightarrow> string"

section \<open>Transports\<close>

definition new_transport :: "string \<Rightarrow> V2RayTransportOptions" where
  "new_transport typ' = \<lparr>vt_Type = typ', vt_HTTPHost = [], vt_HTTPPath = '''', vt_HTTPMethod = '''', vt_Websocket = None,
     vt_ServiceName = '''', vt_UpgradePath = '''', vt_UpgradeHost = ''''\<rparr>"

definition decode_error :: "string + 'a \<Rightarrow> string + 'a" where
  "decode_error r = with_error ''decode NetworkSettings error: '' r"

text \<open>A request without a path is indexed out of range.\<close>

definition tcp_transport :: "'raw sing_ops \<Rightarrow> 'raw option \<Rightarrow> (string + V2RayTransportOptions) go" where
  "tcp_transport B settings =
     (case settings of
        None \<Rightarrow> Some (Inr (new_transport ''''))
      | Some raw \<Rightarrow>
          then_go (Some (decode_error (sb_http B raw))) (\<lambda>network.
            if hn_Type network \<noteq> ''http'' then Some (Inr (new_transport ''''))
            else case hn_Request network of
              None \<Rightarrow> Some (Inr (new_transport ''http''))
            | Some req \<Rightarrow>
                then_go (Some (with_error ''decode HttpRequest error: '' (sb_request B req))) (\<lambda>request.
                  case hr_Path request of
                    [] \<Rightarrow> None
                  | p # _ \<Rightarrow> Some (Inr ((new_transport ''http'')\<lparr>vt_HTTPHost := hr_Host request, vt_HTTPPath := p, vt_HTTPMethod := hr_Method request\<rparr>)))))"

definition ws_options :: "string \<Rightarrow> string \<Rightarrow> (string, string list) gomap \<Rightarrow> V2RayWebsocketOptions" where
  "ws_options path ed headers = \<lparr>wo_Path = path, wo_EarlyDataHeaderName = ''Sec-WebSocket-Protocol'',
     wo_MaxEarlyData = word_of_int (fst (strconv_Atoi ed)), wo_Headers = headers\<rparr>"

definition ws_transport :: "'raw sing_ops \<Rightarrow> 'raw option \<Rightarrow> string + V2RayTransportOptions" where
  "ws_transport B settings =
     (let t = (\<lambda>o'. (new_transport ''ws'')\<lparr>vt_Websocket := Some o'\<rparr>)
      in case settings of
           None \<Rightarrow> Inr (t (ws_options '''' '''' []))
         | Some raw \<Rightarrow>
             (case decode_error (sb_ws B raw) of
                Inl e \<Rightarrow> Inl e
              | Inr network \<Rightarrow>
                  (case sb_url B (wn_Path network) of
                     Inl e \<Rightarrow> Inl (''parse path error: '' @ e)
                   | Inr (path, ed) \<Rightarrow> Inr (t (ws_options path ed (map (\<lambda>(k, v). (k, [v])) (wn_Headers network)))))))"

definition grpc_transport :: "'raw sing_ops \<Rightarrow> 'raw option \<Rightarrow> string + V2RayTransportOptions" where
  "grpc_transport B settings =
     map_sum id (\<lambda>s. (new_transport ''grpc'')\<lparr>vt_ServiceName := s\<rparr>)
       (case settings of None \<Rightarrow> Inr '''' | Some raw \<Rightarrow> decode_error (sb_grpc B raw))"

definition upgrade_transport :: "'raw sing_ops \<Rightarrow> 'raw option \<Rightarrow> string + V2RayTransportOptions" where
  "upgrade_transport B settings =
     map_sum id (\<lambda>n. (new_transport ''httpupgrade'')\<lparr>vt_UpgradePath := un_Path n, vt_UpgradeHost := un_Host n\<rparr>)
       (case settings of None \<Rightarrow> Inr \<lparr>un_Path = '''', un_Host = ''''\<rparr> | Some raw \<Rightarrow> decode_error (sb_upgrade B raw))"

definition v2ray_transport :: "'raw sing_ops \<Rightarrow> 'raw VAllssNode \<Rightarrow> (string + V2RayTransportOptions) go" where
  "v2ray_transport B n =
     (if va_Network n = ''tcp'' then tcp_transport B (va_NetworkSettings n)
      else Some (if va_Network n = ''ws'' then ws_transport B (va_NetworkSettings n)
                 else if va_Network n = ''grpc'' then grpc_transport B (va_NetworkSettings n)
                 else if va_Network n = ''httpupgrade'' then upgrade_transport B (va_NetworkSettings n)
                 else Inr (new_transport (va_Network n))))"

definition trojan_transport :: "'raw sing_ops \<Rightarrow> 'raw TrojanNode \<Rightarrow> string + V2RayTransportOptions" where
  "trojan_transport B n =
     (if tj_Network n = ''ws'' then ws_transport B (tj_NetworkSettings n)
      else if tj_Network n = ''grpc'' then grpc_transport B (tj_NetworkSettings n)
      else Inr (new_transport ''''))"

section \<open>Security and fallbacks\<close>

definition no_tls :: InboundTLSOptions where
  "no_tls = \<lparr>it_Enabled = False, it_ServerName = '''', it_CertificatePath = '''', it_KeyPath = '''', it_ALPN = [], it_Reality = None\<rparr>"

text \<open>A port that is no number counts as 0, a port out of range is cut to 16 bits.\<close>

definition reality_tls :: "'raw sing_ops \<Rightarrow> TlsSettings \<Rightarrow> RealityConfig \<Rightarrow> InboundTLSOptions" where
  "reality_tls B ts rl =
     no_tls\<lparr>it_Enabled := True, it_ServerName := ts_ServerName ts,
       it_Reality := Some \<lparr>ir_ShortID = [ts_ShortId ts], ir_PrivateKey = ts_PrivateKey ts, ir_Xver = word_of_nat (ts_Xver ts),
         ir_Server = (if ts_Dest ts \<noteq> '''' then ts_Dest ts else ts_ServerName ts),
         ir_ServerPort = word_of_int (fst (strconv_Atoi (ts_ServerPort ts))),
         ir_MaxTimeDifference = sb_ParseDuration B (rl_MaxTimeDiff rl)\<rparr>\<rparr>"

definition sing_tls :: "'raw sing_ops \<Rightarrow> 'raw NodeInfo \<Rightarrow> 'raw Options \<Rightarrow> (string + InboundTLSOptions) go" where
  "sing_tls B info c =
     (if ni_Security info = Security_Tls then
        Some (case op_CertConfig c of
           None \<Rightarrow> Inl ''the CertConfig is not vail''
         | Some cert \<Rightarrow>
             if cc_CertMode cert = ''none'' \<or> cc_CertMode cert = '''' then Inr no_tls
             else Inr (no_tls\<lparr>it_Enabled := True, it_CertificatePath := cc_CertFile cert, it_KeyPath := cc_KeyFile cert\<rparr>))
      else if ni_Security info = Security_Reality then
        (if ni_Type info = ''anytls''
         then map_option (\<lambda>v. Inr (reality_tls B (at_TlsSettings v) (at_RealityConfig v))) (ni_AnyTLS info)
         else map_option (\<lambda>v. Inr (reality_tls B (va_TlsSettings v) (va_RealityConfig v))) (ni_VAllss info))
      else Some (Inr no_tls))"

definition fallback_server :: "FallBack \<Rightarrow> ServerOptions option" where
  "fallback_server f =
     (case strconv_Atoi (fb_ServerPort f) of
        (port, ok) \<Rightarrow> if ok then Some \<lparr>sv_Server = fb_Server f, sv_ServerPort = word_of_int port\<rparr> else None)"

fun processFallback :: "(string, FallBack) gomap \<Rightarrow> (string, ServerOptions) gomap \<Rightarrow> (string, ServerOptions) gomap option" where
  "processFallback [] acc = Some acc"
| "processFallback ((k, v) # rest) acc =
     (case fallback_server v of None \<Rightarrow> None | Some s \<Rightarrow> processFallback rest (mstore acc k s))"

section \<open>The inbound\<close>

definition sing_listen :: "'raw NodeInfo \<Rightarrow> 'raw Options \<Rightarrow> SingOptions \<Rightarrow> CommonNode \<Rightarrow> ListenOptions" where
  "sing_listen info c so common =
     \<lparr>lo_Listen = op_ListenIP c, lo_ListenPort = word_of_int (cn_ServerPort common), lo_TCPFastOpen = so_TCPFastOpen so,
      lo_SniffEnabled = so_SniffEnabled so, lo_SniffOverrideDestination = so_SniffOverrideDestination so,
      lo_DomainStrategy = (if so_EnableDNS so then so_DomainStrategy so else 0)\<rparr>"

definition contains_2022 :: "string \<Rightarrow> bool" where
  "contains_2022 s = list_ex (\<lambda>i. take 4 (drop i s) = ''2022'') [0..<length s]"

definition ss_options :: "'raw sing_ops \<Rightarrow> ListenOptions \<Rightarrow> MultiplexConfig option \<Rightarrow> ShadowsocksNode \<Rightarrow> inbound_options" where
  "ss_options B listen multiplex n =
     (let keyLength = (if ss_Cipher n = ''2022-blake3-aes-256-gcm'' \<or> ss_Cipher n = ''2022-blake3-chacha20-poly1305'' then 32 else 16);
          p = sb_rand B keyLength
      in if contains_2022 (ss_Cipher n) then ShadowsocksInboundOptions listen (ss_Cipher n) (ss_ServerKey n) [EncodeToString p] multiplex
         else ShadowsocksInboundOptions listen (ss_Cipher n) '''' [p] multiplex)"

definition trojan_options :: "SingOptions \<Rightarrow> ListenOptions \<Rightarrow> InboundTLSOptions \<Rightarrow> V2RayTransportOptions \<Rightarrow> inbound_options" where
  "trojan_options so listen tls t =
     (case so_FallBackConfigs so of
        None \<Rightarrow> TrojanInboundOptions listen tls t (so_Multiplex so) None []
      | Some fb \<Rightarrow>
          TrojanInboundOptions listen tls t (so_Multiplex so) (fallback_server (fbs_FallBack fb))
            (case processFallback (fbs_FallBackForALPN fb) [] of None \<Rightarrow> [] | Some m \<Rightarrow> m))"

definition hy2_obfs :: "Hysteria2Node \<Rightarrow> (string \<times> string) option" where
  "hy2_obfs h =
     (if h2_ObfsType h \<noteq> '''' \<and> h2_ObfsPassword h \<noteq> '''' then Some (h2_ObfsType h, h2_ObfsPassword h)
      else if h2_ObfsType h \<noteq> '''' then Some (''salamander'', h2_ObfsType h)
      else None)"

text \<open>The switch on the type of the node; a node description that is not there is a nil pointer.\<close>

definition inbound_of_type ::
  "'raw sing_ops \<Rightarrow> 'raw NodeInfo \<Rightarrow> SingOptions \<Rightarrow> auth_User list \<Rightarrow> ListenOptions \<Rightarrow> InboundTLSOptions \<Rightarrow> (string + string \<times> inbound_options) go" where
  "inbound_of_type B info so naiveUsers listen tls =
     (let typ' = ni_Type info; multiplex = so_Multiplex so;
          ok = (\<lambda>x. Some (Inr (typ', x)))
      in if typ' = ''vmess'' \<or> typ' = ''vless'' then
           (case ni_VAllss info of
              None \<Rightarrow> None
            | Some n \<Rightarrow> then_go (v2ray_transport B n) (\<lambda>t. ok ((if typ' = ''vless'' then VLESSInboundOptions else VMessInboundOptions) listen tls t multiplex)))
         else if typ' = ''shadowsocks'' then (case ni_Shadowsocks info of None \<Rightarrow> None | Some n \<Rightarrow> ok (ss_options B listen multiplex n))
         else if typ' = ''trojan'' then
           (case ni_Trojan info of
              None \<Rightarrow> None
            | Some n \<Rightarrow>
                then_go (Some (trojan_transport B n)) (\<lambda>t. ok (trojan_options so listen tls t)))
         else if typ' = ''tuic'' then
           (case ni_Tuic info of None \<Rightarrow> None | Some n \<Rightarrow> ok (TUICInboundOptions listen (tls\<lparr>it_ALPN := it_ALPN tls @ [''h3'']\<rparr>) (tu_CongestionControl n) (tu_ZeroRTTHandshake n)))
         else if typ' = ''anytls'' then
           (case ni_AnyTLS info of
              None \<Rightarrow> None
            | Some n \<Rightarrow> ok (AnyTLSInboundOptions listen tls (case at_PaddingScheme n of None \<Rightarrow> [] | Some raw \<Rightarrow> (case sb_padding B raw of None \<Rightarrow> [] | Some arr \<Rightarrow> arr))))
         else if typ' = ''naive'' then
           (case ni_Naive info of
              None \<Rightarrow> Some (Inl ''missing naive node config'')
            | Some n \<Rightarrow>
                if naiveUsers = [] then Some (Inl ''naive inbound requires at least one user'')
                else ok (NaiveInboundOptions listen tls naiveUsers (nv_Network n)))
         else if typ' = ''hysteria'' then
           (case ni_Hysteria info of None \<Rightarrow> None | Some n \<Rightarrow> ok (HysteriaInboundOptions listen tls (hy_UpMbps n) (hy_DownMbps n) (hy_Obfs n)))
         else if typ' = ''hysteria2'' then
           (case ni_Hysteria2 info of
              None \<Rightarrow> None
            | Some n \<Rightarrow> ok (Hysteria2InboundOptions listen tls (h2_UpMbps n) (h2_DownMbps n) (h2_Ignore_Client_Bandwidth n) (hy2_obfs n)))
         else Some (Inr ('''', NoOptions)))"

definition getInboundOptions ::
  "'raw sing_ops \<Rightarrow> 'raw NodeInfo \<Rightarrow> 'raw Options \<Rightarrow> auth_User list \<Rightarrow> (string + string \<times> inbound_options) go" where
  "getInboundOptions B info c naiveUsers =
     (if \<not> sb_ParseAddr B (op_ListenIP c) then Some (Inl ''the listen ip not vail'')
      else case (op_SingOptions c, ni_Common info) of
        (Some so, Some common) \<Rightarrow>
          then_go (sing_tls B info c) (\<lambda>tls. inbound_of_type B info so naiveUsers (sing_listen info c so common) tls)
      | _ \<Rightarrow> None)"

section \<open>Nodes and users\<close>

datatype sing_users =
    VLESSUsers "(string \<times> string \<times> string) list"
  | VMessUsers "(string \<times> string) list"
  | ShadowsocksUsers "(string \<times> string) list"
  | TrojanUsers "(string \<times> string) list"
  | TUICUsers "(string \<times> string \<times> string) list" "int list"
  | AnyTLSUsers "(string \<times> string) list" "int list"
  | HysteriaUsers "(string \<times> string) list"
  | Hysteria2Users "(string \<times> string) list" "int list"

text \<open>
  The inbound manager. \<open>bx_Get\<close> gives the dynamic type of the inbound under a tag, by the name of its package
  (for Shadowsocks the type with several users). Users are added to and removed from the inbound itself.
\<close>

record 'b box_ops =
  bx_Get :: "'b \<Rightarrow> string \<Rightarrow> string option"
  bx_Create :: "'b \<Rightarrow> string \<Rightarrow> string \<Rightarrow> inbound_options \<Rightarrow> 'b \<times> string option"
  bx_Remove :: "'b \<Rightarrow> string \<Rightarrow> 'b \<times> string option"
  bx_AddUsers :: "'b \<Rightarrow> string \<Rightarrow> sing_users \<Rightarrow> 'b \<times> string option"
  bx_DelUsers :: "'b \<Rightarrow> string \<Rightarrow> string list \<Rightarrow> 'b \<times> string option"

record 'raw naiveInboundState =
  ns_info :: "'raw NodeInfo"
  ns_config :: "'raw Options"
  ns_users :: "(string, UserInfo) gomap"

record ('raw, 'b) Sing =
  si_box :: 'b
  si_naive :: "(string, 'raw naiveInboundState) gomap"

definition create_inbound :: "'b box_ops \<Rightarrow> string \<Rightarrow> string \<times> inbound_options \<Rightarrow> 'b \<Rightarrow> 'b \<times> string option" where
  "create_inbound X tag opts box =
     (case bx_Create X box tag (fst opts) (snd opts) of
        (box, Some e) \<Rightarrow> (box, Some (''add inbound error: '' @ e))
      | (box, None) \<Rightarrow> (box, None))"

definition remove_inbound :: "'b box_ops \<Rightarrow> string \<Rightarrow> 'b \<Rightarrow> 'b \<times> string option" where
  "remove_inbound X tag box =
     (case bx_Remove X box tag of
        (box, Some e) \<Rightarrow> (box, Some (''delete inbound error: '' @ e))
      | (box, None) \<Rightarrow> (box, None))"

definition addNaiveNode :: "string \<Rightarrow> 'raw NodeInfo \<Rightarrow> 'raw Options \<Rightarrow> ('raw, 'b) Sing \<Rightarrow> ('raw, 'b) Sing" where
  "addNaiveNode tag info config b = b\<lparr>si_naive := mstore (si_naive b) tag \<lparr>ns_info = info, ns_config = config, ns_users = []\<rparr>\<rparr>"

definition hasNaiveNode :: "string \<Rightarrow> ('raw, 'b) Sing \<Rightarrow> bool" where
  "hasNaiveNode tag b \<longleftrightarrow> mload (si_naive b) tag \<noteq> None"

definition deleteNaiveNode :: "string \<Rightarrow> ('raw, 'b) Sing \<Rightarrow> ('raw, 'b) Sing" where
  "deleteNaiveNode tag b = b\<lparr>si_naive := mdelete (si_naive b) tag\<rparr>"

definition Sing_AddNode ::
  "'raw sing_ops \<Rightarrow> 'b box_ops \<Rightarrow> ('raw, 'b) Sing \<Rightarrow> string \<Rightarrow> 'raw NodeInfo \<Rightarrow> 'raw Options \<Rightarrow> (('raw, 'b) Sing \<times> string option) go" where
  "Sing_AddNode B X b tag info config =
     (if ni_Type info = ''naive'' then Some (addNaiveNode tag info config b, None)
      else case getInboundOptions B info config [] of
        None \<Rightarrow> None
      | Some (Inl e) \<Rightarrow> Some (b, Some e)
      | Some (Inr opts) \<Rightarrow> (case create_inbound X tag opts (si_box b) of (box, e) \<Rightarrow> Some (b\<lparr>si_box := box\<rparr>, e)))"

definition Sing_DelNode :: "'b box_ops \<Rightarrow> ('raw, 'b) Sing \<Rightarrow> string \<Rightarrow> ('raw, 'b) Sing \<times> string option" where
  "Sing_DelNode X b tag =
     (let naive = hasNaiveNode tag b;
          b = (if naive then deleteNaiveNode tag b else b)
      in if naive \<and> bx_Get X (si_box b) tag = None then (b, None)
         else case remove_inbound X tag (si_box b) of (box, e) \<Rightarrow> (b\<lparr>si_box := box\<rparr>, e))"

definition buildNaiveAuthUsers :: "(string, UserInfo) gomap \<Rightarrow> auth_User list" where
  "buildNaiveAuthUsers users = map (\<lambda>uuid. \<lparr>au_Username = uuid, au_Password = uuid\<rparr>) (sort (map fst users))"

definition applyNaiveInboundLocked ::
  "'raw sing_ops \<Rightarrow> 'b box_ops \<Rightarrow> string \<Rightarrow> 'raw naiveInboundState \<Rightarrow> 'b \<Rightarrow> ('b \<times> string option) go" where
  "applyNaiveInboundLocked B X tag state box =
     (if ns_users state = [] then
        Some (if bx_Get X box tag \<noteq> None then remove_inbound X tag box else (box, None))
      else case getInboundOptions B (ns_info state) (ns_config state) (buildNaiveAuthUsers (ns_users state)) of
        None \<Rightarrow> None
      | Some (Inl e) \<Rightarrow> Some (box, Some e)
      | Some (Inr opts) \<Rightarrow>
          Some (case (if bx_Get X box tag \<noteq> None then remove_inbound X tag box else (box, None)) of
                  (box, Some e) \<Rightarrow> (box, Some e)
                | (box, None) \<Rightarrow> create_inbound X tag opts box))"

text \<open>The state is updated in place, whether or not the inbound can be rebuilt.\<close>

definition update_naive ::
  "'raw sing_ops \<Rightarrow> 'b box_ops \<Rightarrow> string \<Rightarrow> ('raw naiveInboundState \<Rightarrow> 'raw naiveInboundState) \<Rightarrow> ('raw, 'b) Sing \<Rightarrow> (('raw, 'b) Sing \<times> string option) go" where
  "update_naive B X tag f b =
     (case mload (si_naive b) tag of
        None \<Rightarrow> Some (b, Some ''the naive inbound state not found'')
      | Some state \<Rightarrow>
          (case applyNaiveInboundLocked B X tag (f state) (si_box b) of
             None \<Rightarrow> None
           | Some (box, e) \<Rightarrow> Some (b\<lparr>si_box := box, si_naive := mstore (si_naive b) tag (f state)\<rparr>, e)))"

definition addNaiveUsers ::
  "'raw sing_ops \<Rightarrow> 'b box_ops \<Rightarrow> ('raw, 'b) Sing \<Rightarrow> string \<Rightarrow> UserInfo list \<Rightarrow> 'raw NodeInfo \<Rightarrow> (('raw, 'b) Sing \<times> int \<times> string option) go" where
  "addNaiveUsers B X b tag users info =
     map_option (\<lambda>(b, e). (b, if e = None then int (length users) else 0, e))
       (update_naive B X tag (\<lambda>s. s\<lparr>ns_info := info, ns_users := fold (\<lambda>u m. mstore m (ui_Uuid u) u) users (ns_users s)\<rparr>) b)"

definition delNaiveUsers ::
  "'raw sing_ops \<Rightarrow> 'b box_ops \<Rightarrow> ('raw, 'b) Sing \<Rightarrow> UserInfo list \<Rightarrow> string \<Rightarrow> (('raw, 'b) Sing \<times> string option) go" where
  "delNaiveUsers B X b users tag =
     update_naive B X tag (\<lambda>s. s\<lparr>ns_users := fold (\<lambda>u m. mdelete m (ui_Uuid u)) users (ns_users s)\<rparr>) b"

text \<open>The key of a Shadowsocks user; slicing a shorter uuid panics.\<close>

definition ss_password :: "string \<Rightarrow> string \<Rightarrow> string go" where
  "ss_password cipher uuid =
     (let n = (if cipher = ''2022-blake3-aes-128-gcm'' then 16 else if cipher = ''2022-blake3-aes-256-gcm'' then 32 else 0)
      in if n = 0 then Some uuid
         else if length uuid < n then None
         else Some (EncodeToString (take n uuid)))"

fun ss_users :: "string \<Rightarrow> UserInfo list \<Rightarrow> (string \<times> string) list go" where
  "ss_users cipher [] = Some []"
| "ss_users cipher (u # us) =
     (case (ss_password cipher (ui_Uuid u), ss_users cipher us) of
        (Some p, Some ps) \<Rightarrow> Some ((ui_Uuid u, p) # ps)
      | _ \<Rightarrow> None)"

text \<open>The users as the inbound of each type takes them; the ids of AnyTLS are never filled in.\<close>

definition sing_accounts :: "'raw NodeInfo \<Rightarrow> UserInfo list \<Rightarrow> sing_users option go" where
  "sing_accounts info users =
     (let typ' = ni_Type info; named = map (\<lambda>u. (ui_Uuid u, ui_Uuid u)) users; ids = map ui_Id users
      in if typ' = ''vless'' then
           (case ni_VAllss info of
              None \<Rightarrow> if users = [] then Some (Some (VLESSUsers [])) else None
            | Some v \<Rightarrow> Some (Some (VLESSUsers (map (\<lambda>u. (ui_Uuid u, va_Flow v, ui_Uuid u)) users))))
         else if typ' = ''vmess'' then Some (Some (VMessUsers named))
         else if typ' = ''shadowsocks'' then
           (case ni_Shadowsocks info of
              None \<Rightarrow> if users = [] then Some (Some (ShadowsocksUsers [])) else None
            | Some s \<Rightarrow> map_option (\<lambda>us. Some (ShadowsocksUsers us)) (ss_users (ss_Cipher s) users))
         else if typ' = ''trojan'' then Some (Some (TrojanUsers named))
         else if typ' = ''tuic'' then Some (Some (TUICUsers (map (\<lambda>u. (ui_Uuid u, ui_Uuid u, ui_Uuid u)) users) ids))
         else if typ' = ''anytls'' then Some (Some (AnyTLSUsers named (replicate (length users) 0)))
         else if typ' = ''hysteria'' then Some (Some (HysteriaUsers named))
         else if typ' = ''hysteria2'' then Some (Some (Hysteria2Users named ids))
         else Some None)"

definition Sing_AddUsers ::
  "'raw sing_ops \<Rightarrow> 'b box_ops \<Rightarrow> ('raw, 'b) Sing \<Rightarrow> string \<Rightarrow> UserInfo list \<Rightarrow> 'raw NodeInfo \<Rightarrow> (('raw, 'b) Sing \<times> int \<times> string option) go" where
  "Sing_AddUsers B X b tag users info =
     (if ni_Type info = ''naive'' then addNaiveUsers B X b tag users info
      else case bx_Get X (si_box b) tag of
        None \<Rightarrow> Some (b, 0, Some ''the inbound not found'')
      | Some kind \<Rightarrow>
          (case sing_accounts info users of
             None \<Rightarrow> None
           | Some None \<Rightarrow> Some (b, int (length users), None)
           | Some (Some us) \<Rightarrow>
               if kind \<noteq> ni_Type info then None
               else case bx_AddUsers X (si_box b) tag us of
                 (box, Some e) \<Rightarrow> Some (b\<lparr>si_box := box\<rparr>, 0, Some e)
               | (box, None) \<Rightarrow> Some (b\<lparr>si_box := box\<rparr>, int (length users), None)))"

definition sing_user_types :: "string list" where
  "sing_user_types = [''vmess'', ''vless'', ''shadowsocks'', ''trojan'', ''tuic'', ''anytls'', ''hysteria'', ''hysteria2'']"

definition Sing_DelUsers ::
  "'raw sing_ops \<Rightarrow> 'b box_ops \<Rightarrow> ('raw, 'b) Sing \<Rightarrow> UserInfo list \<Rightarrow> string \<Rightarrow> 'raw NodeInfo \<Rightarrow> (('raw, 'b) Sing \<times> string option) go" where
  "Sing_DelUsers B X b users tag info =
     (if ni_Type info = ''naive'' then delNaiveUsers B X b users tag
      else case bx_Get X (si_box b) tag of
        None \<Rightarrow> Some (b, Some ''the inbound not found'')
      | Some kind \<Rightarrow>
          if ni_Type info \<notin> set sing_user_types \<or> kind \<noteq> ni_Type info then None
          else (case bx_DelUsers X (si_box b) tag (map ui_Uuid users) of (box, e) \<Rightarrow> Some (b\<lparr>si_box := box\<rparr>, e)))"

section \<open>The core\<close>

text \<open>\<open>unmarshal\<close> decodes the original options, \<open>box\<close> is \<open>box.New\<close> with the log and time settings put over them.\<close>

definition Sing_New ::
  "(string \<Rightarrow> string + string) \<Rightarrow> (string \<Rightarrow> string + 'opts) \<Rightarrow> 'opts \<Rightarrow> (SingLogConfig \<Rightarrow> SingNtpConfig \<Rightarrow> 'opts \<Rightarrow> string + 'b) \<Rightarrow> CoreConfig
   \<Rightarrow> (string + ('raw, 'b) Sing) go" where
  "Sing_New read unmarshal noOptions box c =
     (case co_SingConfig c of
        None \<Rightarrow> None
      | Some sc \<Rightarrow>
          Some (case (if sc_OriginalPath sc = '''' then Inr noOptions
                      else case read (sc_OriginalPath sc) of
                        Inl e \<Rightarrow> Inl (''read original config error: '' @ e)
                      | Inr data \<Rightarrow> with_error ''unmarshal original config error: '' (unmarshal data)) of
             Inl e \<Rightarrow> Inl e
           | Inr options \<Rightarrow> map_sum id (\<lambda>b. \<lparr>si_box = b, si_naive = []\<rparr>) (box (sc_LogConfig sc) (sc_NtpConfig sc) options)))"

definition sing_protocols :: "string list" where
  "sing_protocols = [''vmess'', ''vless'', ''shadowsocks'', ''trojan'', ''tuic'', ''anytls'', ''naive'', ''hysteria'', ''hysteria2'']"

section \<open>Naive inbounds and their users\<close>

text \<open>
  What the inbound manager promises: an inbound that was created is there with its options, one that could not
  be created changes nothing, a removed one is gone; when closing it fails it may be gone already.
\<close>

locale inbound_box =
  fixes content :: "'b \<Rightarrow> string \<Rightarrow> (string \<times> inbound_options) option"
    and X :: "'b box_ops"
  assumes get: "bx_Get X b t = map_option fst (content b t)"
    and create_ok: "bx_Create X b t ty opts = (b', None) \<Longrightarrow> content b' = (content b)(t \<mapsto> (ty, opts))"
    and create_failed: "bx_Create X b t ty opts = (b', Some e) \<Longrightarrow> content b' = content b"
    and remove_ok: "bx_Remove X b t = (b', None) \<Longrightarrow> content b' = (content b)(t := None)"
    and remove_failed: "bx_Remove X b t = (b', Some e) \<Longrightarrow> content b' = content b \<or> content b' = (content b)(t := None)"
begin

lemma create_inbound_content:
  "create_inbound X tag opts b = (b', e) \<Longrightarrow> content b' = (if e = None then (content b)(tag \<mapsto> opts) else content b)"
  using create_ok create_failed by (cases opts) (auto simp: create_inbound_def split: prod.splits option.splits)

lemma clear_inbound_content:
  assumes "(if bx_Get X b tag \<noteq> None then remove_inbound X tag b else (b, None)) = (b', e)"
  shows "(e = None \<longrightarrow> content b' = (content b)(tag := None)) \<and> (content b' = content b \<or> content b' = (content b)(tag := None))"
proof (cases "bx_Get X b tag")
  case None
  then show ?thesis using assms get [of b tag] by (auto simp: fun_eq_iff)
next
  case (Some k)
  then show ?thesis using assms remove_ok [of b tag] remove_failed [of b tag] by (auto simp: remove_inbound_def split: prod.splits option.splits)
qed

lemma apply_naive:
  assumes "applyNaiveInboundLocked B X tag state b = Some (b', e)"
  shows "(\<forall>t. t \<noteq> tag \<longrightarrow> content b' t = content b t) \<and> (e \<noteq> None \<longrightarrow> content b' tag = content b tag \<or> content b' tag = None)
     \<and> (e = None \<longrightarrow> (if ns_users state = [] then content b' tag = None
          else \<exists>opts. getInboundOptions B (ns_info state) (ns_config state) (buildNaiveAuthUsers (ns_users state)) = Some (Inr opts) \<and> content b' tag = Some opts))"
proof (cases "ns_users state = []")
  case True
  then have "(if bx_Get X b tag \<noteq> None then remove_inbound X tag b else (b, None)) = (b', e)" using assms by (simp add: applyNaiveInboundLocked_def)
  from clear_inbound_content [OF this] show ?thesis using True by auto
next
  case False
  then obtain r where r: "getInboundOptions B (ns_info state) (ns_config state) (buildNaiveAuthUsers (ns_users state)) = Some r"
    using assms by (auto simp: applyNaiveInboundLocked_def split: option.splits)
  show ?thesis
  proof (cases r)
    case (Inl x)
    then show ?thesis using assms False r by (auto simp: applyNaiveInboundLocked_def)
  next
    case (Inr opts)
    obtain b1 e1 where c: "(if bx_Get X b tag \<noteq> None then remove_inbound X tag b else (b, None)) = (b1, e1)" by fastforce
    have c': "(if \<exists>y. bx_Get X b tag = Some y then remove_inbound X tag b else (b, None)) = (b1, e1)" using c by simp
    have "(case e1 of Some e \<Rightarrow> (b1, Some e) | None \<Rightarrow> create_inbound X tag opts b1) = (b', e)"
      using assms False r Inr c' by (simp add: applyNaiveInboundLocked_def split: option.splits)
    then show ?thesis using False r Inr clear_inbound_content [OF c] create_inbound_content [of tag opts b1 b' e] by (cases e1) auto
  qed
qed

end

text \<open>The inbound of a naive node serves exactly the users of its state, in order; without users there is none.\<close>

definition naive_served :: "('b \<Rightarrow> string \<Rightarrow> (string \<times> inbound_options) option) \<Rightarrow> 'b \<Rightarrow> string \<Rightarrow> 'raw naiveInboundState \<Rightarrow> bool" where
  "naive_served content b tag state \<longleftrightarrow>
     (if ns_users state = [] then content b tag = None
      else \<exists>listen tls users network. content b tag = Some (''naive'', NaiveInboundOptions listen tls users network)
        \<and> map au_Username users = sort (map fst (ns_users state)) \<and> map au_Password users = map au_Username users)"

lemma naive_options:
  assumes "getInboundOptions B info c users = Some (Inr opts)" and "ni_Type info = ''naive''"
  obtains listen tls network where "opts = (''naive'', NaiveInboundOptions listen tls users network)"
  using assms by (auto simp: getInboundOptions_def then_go_Inr inbound_of_type_def Let_def split: if_splits option.splits)

lemma fold_mdelete_keys: "fst ` set (fold (\<lambda>u m. mdelete m (ui_Uuid u)) users m) = fst ` set m - ui_Uuid ` set users"
proof (induction users arbitrary: m)
  case (Cons u users)
  have "fst ` set (mdelete m (ui_Uuid u)) = fst ` set m - {ui_Uuid u}" by (auto simp: mdelete_filter)
  then show ?case using Cons by auto
qed simp

lemma fold_mstore_keys: "fst ` set (fold (\<lambda>u m. mstore m (ui_Uuid u) u) users m) = fst ` set m \<union> ui_Uuid ` set users"
proof (induction users arbitrary: m)
  case (Cons u users)
  have "fst ` set (mstore m (ui_Uuid u) u) = insert (ui_Uuid u) (fst ` set m)" by (simp add: mstore_def dom_update)
  then show ?case using Cons by auto
qed simp

lemma update_naive_served:
  assumes "inbound_box content X" and "update_naive B X tag f b = Some (b', None)"
    and "\<And>s. mload (si_naive b) tag = Some s \<Longrightarrow> ni_Type (ns_info (f s)) = ''naive''"
  obtains s where "mload (si_naive b) tag = Some s" "mload (si_naive b') tag = Some (f s)" "naive_served content (si_box b') tag (f s)"
    "\<forall>t. t \<noteq> tag \<longrightarrow> content (si_box b') t = content (si_box b) t \<and> mload (si_naive b') t = mload (si_naive b) t"
proof -
  obtain s box where s: "mload (si_naive b) tag = Some s" "applyNaiveInboundLocked B X tag (f s) (si_box b) = Some (box, None)"
    and b': "b' = b\<lparr>si_box := box, si_naive := mstore (si_naive b) tag (f s)\<rparr>"
    using assms(2) by (auto simp: update_naive_def split: option.splits)
  note a = inbound_box.apply_naive [OF assms(1) s(2)]
  have "naive_served content box tag (f s)"
  proof (cases "ns_users (f s) = []")
    case False
    then obtain opts where o: "getInboundOptions B (ns_info (f s)) (ns_config (f s)) (buildNaiveAuthUsers (ns_users (f s))) = Some (Inr opts)" "content box tag = Some opts"
      using a by auto
    obtain listen tls network where "opts = (''naive'', NaiveInboundOptions listen tls (buildNaiveAuthUsers (ns_users (f s))) network)"
      by (rule naive_options [OF o(1) assms(3) [OF s(1)]])
    then show ?thesis using False o(2) by (auto simp: naive_served_def buildNaiveAuthUsers_def comp_def)
  qed (use a in \<open>simp add: naive_served_def\<close>)
  then show thesis using that [of s] s(1) a b' by simp
qed

text \<open>
  C34. The inbound of a naive node follows its users. The inbound cannot change its users while it runs, so
  it is rebuilt: after every successful \<open>AddUsers\<close> or \<open>DelUsers\<close> it serves exactly the users added so far
  and not deleted, each with its uuid as name and password, in sorted order; when the last user leaves
  it is closed; and no other inbound is touched.
\<close>

theorem naive_inbound_matches_users:
  assumes "inbound_box content X" and "ni_Type info = ''naive''"
    and "mload (si_naive b) tag = Some s" and "ni_Type (ns_info s) = ''naive''"
  shows "(\<forall>users b' n. Sing_AddUsers B X b tag users info = Some (b', n, None) \<longrightarrow> n = int (length users)
        \<and> (\<exists>s'. mload (si_naive b') tag = Some s' \<and> fst ` set (ns_users s') = fst ` set (ns_users s) \<union> ui_Uuid ` set users
             \<and> naive_served content (si_box b') tag s' \<and> (\<forall>t. t \<noteq> tag \<longrightarrow> content (si_box b') t = content (si_box b) t)))
    \<and> (\<forall>users b'. Sing_DelUsers B X b users tag info = Some (b', None) \<longrightarrow>
        (\<exists>s'. mload (si_naive b') tag = Some s' \<and> fst ` set (ns_users s') = fst ` set (ns_users s) - ui_Uuid ` set users
             \<and> naive_served content (si_box b') tag s' \<and> (\<forall>t. t \<noteq> tag \<longrightarrow> content (si_box b') t = content (si_box b) t)))"
proof (intro conjI allI impI)
  fix users b' n
  assume "Sing_AddUsers B X b tag users info = Some (b', n, None)"
  then have u: "update_naive B X tag (\<lambda>s. s\<lparr>ns_info := info, ns_users := fold (\<lambda>u m. mstore m (ui_Uuid u) u) users (ns_users s)\<rparr>) b = Some (b', None)"
    and n: "n = int (length users)" using assms(2) by (auto simp: Sing_AddUsers_def addNaiveUsers_def)
  show "n = int (length users)" by (rule n)
  show "\<exists>s'. mload (si_naive b') tag = Some s' \<and> fst ` set (ns_users s') = fst ` set (ns_users s) \<union> ui_Uuid ` set users
      \<and> naive_served content (si_box b') tag s' \<and> (\<forall>t. t \<noteq> tag \<longrightarrow> content (si_box b') t = content (si_box b) t)"
    by (rule update_naive_served [OF assms(1) u]) (use assms(2,3) in \<open>simp_all add: fold_mstore_keys\<close>)
next
  fix users b'
  assume "Sing_DelUsers B X b users tag info = Some (b', None)"
  then have u: "update_naive B X tag (\<lambda>s. s\<lparr>ns_users := fold (\<lambda>u m. mdelete m (ui_Uuid u)) users (ns_users s)\<rparr>) b = Some (b', None)"
    using assms(2) by (auto simp: Sing_DelUsers_def delNaiveUsers_def)
  show "\<exists>s'. mload (si_naive b') tag = Some s' \<and> fst ` set (ns_users s') = fst ` set (ns_users s) - ui_Uuid ` set users
      \<and> naive_served content (si_box b') tag s' \<and> (\<forall>t. t \<noteq> tag \<longrightarrow> content (si_box b') t = content (si_box b) t)"
    by (rule update_naive_served [OF assms(1) u]) (use assms(3,4) in \<open>simp_all add: fold_mdelete_keys\<close>)
qed

text \<open>
  The manager of the bundled sing-box (\<open>adapter/inbound/manager.go\<close>): creating starts the new inbound first and
  then closes the one it replaces; removing forgets the inbound before it closes it. \<open>start\<close> and \<open>close\<close> are the
  errors of creating and closing an inbound of a started manager; there are no endpoints.
\<close>

definition manager_ops ::
  "(string \<Rightarrow> inbound_options \<Rightarrow> string option) \<Rightarrow> (string \<Rightarrow> string option)
   \<Rightarrow> (string, string \<times> inbound_options) gomap box_ops" where
  "manager_ops start close =
     \<lparr>bx_Get = (\<lambda>m t. map_option fst (mload m t)),
      bx_Create = (\<lambda>m t ty opts.
        case start ty opts of
          Some e \<Rightarrow> (m, Some e)
        | None \<Rightarrow>
            (case (if mload m t \<noteq> None then close t else None) of
               Some e \<Rightarrow> (m, Some e)
             | None \<Rightarrow> (mstore m t (ty, opts), None))),
      bx_Remove = (\<lambda>m t. if mload m t = None then (m, Some ''invalid argument'') else (mdelete m t, close t)),
      bx_AddUsers = (\<lambda>m _ _. (m, None)), bx_DelUsers = (\<lambda>m _ _. (m, None))\<rparr>"

interpretation manager: inbound_box mload "manager_ops start close" for start close
  by unfold_locales (auto simp: manager_ops_def split: option.splits if_splits)

definition example_sing :: "string sing_ops" where
  "example_sing = \<lparr>sb_ParseAddr = (\<lambda>_. True), sb_ParseDuration = (\<lambda>_. 0), sb_http = (\<lambda>_. Inr \<lparr>hn_Type = ''http'', hn_Request = Some ''r''\<rparr>),
     sb_request = (\<lambda>_. Inr \<lparr>hr_Method = ''GET'', hr_Path = [], hr_Host = []\<rparr>), sb_ws = (\<lambda>_. Inr \<lparr>wn_Path = ''/'', wn_Headers = []\<rparr>),
     sb_url = (\<lambda>p. Inr (p, '''')), sb_grpc = (\<lambda>_. Inr ''''), sb_upgrade = (\<lambda>_. Inr \<lparr>un_Path = '''', un_Host = ''''\<rparr>), sb_padding = (\<lambda>_. None),
     sb_rand = (\<lambda>n. replicate n CHR ''r'')\<rparr>"

definition example_sing_options :: "string Options" where
  "example_sing_options = example_options\<lparr>op_SingOptions := Some NewSingOptions\<rparr>"

definition example_naive :: "int \<Rightarrow> string NodeInfo" where
  "example_naive security = (let common = \<lparr>cn_Host = '''', cn_ServerPort = 443, cn_ServerName = '''', cn_Routes = [], cn_BaseConfig = None\<rparr>;
       v = the (ni_VAllss (example_vless ''a.com'' None))
     in (empty_NodeInfo 1 ''naive'')\<lparr>ni_Security := security, ni_Common := Some common, ni_Naive := Some \<lparr>nv_CommonNode = common, nv_Network = ''tcp'',
       nv_NetworkSettings = None, nv_NetworkSettingsBack = None, nv_Tls = security, nv_TlsSettings = va_TlsSettings v, nv_TlsSettingsBack = None\<rparr>\<rparr>)"

definition example_sing_core :: "(string, (string, string \<times> inbound_options) gomap) Sing" where
  "example_sing_core = addNaiveNode ''t'' (example_naive 0) example_sing_options \<lparr>si_box = [], si_naive = []\<rparr>"

definition two_users :: "UserInfo list" where
  "two_users = [example_user\<lparr>ui_Uuid := ''u2''\<rparr>, example_user\<lparr>ui_Uuid := ''u1''\<rparr>]"

definition added_two :: "((string, (string, string \<times> inbound_options) gomap) Sing \<times> int \<times> string option) go" where
  "added_two = Sing_AddUsers example_sing (manager_ops (\<lambda>_ _. None) (\<lambda>_. None)) example_sing_core ''t'' two_users (example_naive 0)"

lemma added_two_ok: "map_option snd added_two = Some (2, None)"
  by code_simp

theorem naive_inbound_matches_users_witness:
  "\<exists>b' s' listen tls users network. added_two = Some (b', 2, None) \<and> mload (si_naive b') ''t'' = Some s' \<and> fst ` set (ns_users s') = {''u1'', ''u2''}
     \<and> mload (si_box b') ''t'' = Some (''naive'', NaiveInboundOptions listen tls users network)"
proof -
  obtain b' where b': "added_two = Some (b', 2, None)" using added_two_ok by (cases added_two) auto
  obtain s where s: "mload (si_naive example_sing_core) ''t'' = Some s" "ni_Type (ns_info s) = ''naive''" "ns_users s = []"
    by (simp add: example_sing_core_def addNaiveNode_def example_naive_def empty_NodeInfo_def Let_def)
  have t: "ni_Type (example_naive 0) = ''naive''" by (simp add: example_naive_def empty_NodeInfo_def Let_def)
  have u: "ui_Uuid ` set two_users = {''u1'', ''u2''}" by (auto simp: two_users_def)
  from conjunct1 [OF naive_inbound_matches_users [OF manager.inbound_box_axioms [of "\<lambda>_ _. None" "\<lambda>_. None"] t s(1,2), where B = example_sing],
      rule_format, OF b' [unfolded added_two_def]]
  obtain s' where s': "mload (si_naive b') ''t'' = Some s'" "fst ` set (ns_users s') = fst ` set (ns_users s) \<union> ui_Uuid ` set two_users" "naive_served mload (si_box b') ''t'' s'"
    by - (elim conjE exE, rule that)
  have k: "fst ` set (ns_users s') = {''u1'', ''u2''}" using s'(2) s(3) u by simp
  then have "ns_users s' \<noteq> []" by (metis image_empty insert_not_empty list.set(1))
  then obtain listen tls users network where "mload (si_box b') ''t'' = Some (''naive'', NaiveInboundOptions listen tls users network)"
    using s'(3) by (auto simp: naive_served_def)
  then show ?thesis using b' s'(1) k by blast
qed

section \<open>What the inbound serves\<close>

text \<open>The listener and the security of an inbound, of whatever protocol.\<close>

fun options_listen :: "inbound_options \<Rightarrow> ListenOptions option" where
  "options_listen (VLESSInboundOptions l _ _ _) = Some l"
| "options_listen (VMessInboundOptions l _ _ _) = Some l"
| "options_listen (ShadowsocksInboundOptions l _ _ _ _) = Some l"
| "options_listen (TrojanInboundOptions l _ _ _ _ _) = Some l"
| "options_listen (TUICInboundOptions l _ _ _) = Some l"
| "options_listen (AnyTLSInboundOptions l _ _) = Some l"
| "options_listen (NaiveInboundOptions l _ _ _) = Some l"
| "options_listen (HysteriaInboundOptions l _ _ _ _) = Some l"
| "options_listen (Hysteria2InboundOptions l _ _ _ _ _) = Some l"
| "options_listen NoOptions = None"

fun options_tls :: "inbound_options \<Rightarrow> InboundTLSOptions option" where
  "options_tls (VLESSInboundOptions _ t _ _) = Some t"
| "options_tls (VMessInboundOptions _ t _ _) = Some t"
| "options_tls (TrojanInboundOptions _ t _ _ _ _) = Some t"
| "options_tls (TUICInboundOptions _ t _ _) = Some t"
| "options_tls (AnyTLSInboundOptions _ t _) = Some t"
| "options_tls (NaiveInboundOptions _ t _ _) = Some t"
| "options_tls (HysteriaInboundOptions _ t _ _ _) = Some t"
| "options_tls (Hysteria2InboundOptions _ t _ _ _ _) = Some t"
| "options_tls _ = None"

lemma options_parts [simp]:
  "options_listen (ss_options B listen m n) = Some listen" "options_listen (trojan_options so listen tls t) = Some listen"
  "options_tls (trojan_options so listen tls t) = Some tls"
  by (simp_all add: ss_options_def trojan_options_def Let_def split: option.split)

lemma inbound_of_type_parts:
  assumes "inbound_of_type B info so users listen tls = Some (Inr (ty, opts))"
  shows "ty = (if ni_Type info \<in> set sing_protocols then ni_Type info else [])
     \<and> (ni_Type info \<in> set sing_protocols \<longrightarrow> options_listen opts = Some listen
        \<and> (ni_Type info \<noteq> ''shadowsocks'' \<longrightarrow> (\<exists>t. options_tls opts = Some t \<and> it_Enabled t = it_Enabled tls \<and> it_Reality t = it_Reality tls)))"
  using assms unfolding inbound_of_type_def Let_def sing_protocols_def
  by (auto simp: then_go_Inr split: if_splits option.splits)

text \<open>
  The inbound of a sing node is the one the panel describes: a supported type keeps its name and
  listens on the port of the node, cut to 16 bits; the transport is encrypted exactly when the panel asks
  for REALITY, or for TLS and a certificate is configured; and REALITY options are there exactly when
  the panel asks for them.
\<close>

theorem sing_inbound_serves_node:
  assumes "getInboundOptions B info c users = Some (Inr (ty, opts))" and "ni_Type info \<in> set sing_protocols"
  shows "ty = ni_Type info
    \<and> (\<exists>listen common. options_listen opts = Some listen \<and> ni_Common info = Some common \<and> lo_Listen listen = op_ListenIP c
         \<and> uint (lo_ListenPort listen) = cn_ServerPort common mod 2 ^ 16)
    \<and> (ni_Type info \<noteq> ''shadowsocks'' \<longrightarrow>
         (\<exists>t. options_tls opts = Some t
           \<and> (it_Enabled t \<longleftrightarrow> ni_Security info = Security_Reality
                \<or> ni_Security info = Security_Tls \<and> (\<exists>cert. op_CertConfig c = Some cert \<and> cc_CertMode cert \<notin> {'''', ''none''}))
           \<and> (it_Reality t \<noteq> None \<longleftrightarrow> ni_Security info = Security_Reality)))"
proof -
  obtain so common tls where o: "op_SingOptions c = Some so" "ni_Common info = Some common" "sing_tls B info c = Some (Inr tls)"
    and i: "inbound_of_type B info so users (sing_listen info c so common) tls = Some (Inr (ty, opts))"
    using assms(1) by (auto simp: getInboundOptions_def then_go_Inr split: if_splits option.splits)
  have t: "it_Enabled tls \<longleftrightarrow> ni_Security info = Security_Reality
      \<or> ni_Security info = Security_Tls \<and> (\<exists>cert. op_CertConfig c = Some cert \<and> cc_CertMode cert \<notin> {'''', ''none''})"
    "it_Reality tls \<noteq> None \<longleftrightarrow> ni_Security info = Security_Reality"
    using o(3) by (auto simp: sing_tls_def Security_Tls_def Security_Reality_def reality_tls_def no_tls_def split: if_splits option.splits)
  show ?thesis using inbound_of_type_parts [OF i] assms(2) o(2) t
    by (auto simp: sing_listen_def uint_word_of_int)
qed

theorem sing_inbound_serves_node_witness:
  "\<exists>opts listen. getInboundOptions example_sing (example_naive 0) example_sing_options [\<lparr>au_Username = ''u'', au_Password = ''u''\<rparr>] = Some (Inr (''naive'', opts))
     \<and> options_listen opts = Some listen \<and> uint (lo_ListenPort listen) = 443"
proof -
  have s: "getInboundOptions example_sing (example_naive 0) example_sing_options [\<lparr>au_Username = ''u'', au_Password = ''u''\<rparr>]
      = Some (Inr (''naive'', NaiveInboundOptions (sing_listen (example_naive 0) example_sing_options NewSingOptions (the (ni_Common (example_naive 0)))) no_tls
          [\<lparr>au_Username = ''u'', au_Password = ''u''\<rparr>] ''tcp''))"
    by (simp add: getInboundOptions_def example_sing_def example_sing_options_def example_naive_def empty_NodeInfo_def Let_def sing_tls_def
        Security_Tls_def Security_Reality_def then_go_def inbound_of_type_def)
  have t: "ni_Type (example_naive 0) \<in> set sing_protocols" by (simp add: example_naive_def empty_NodeInfo_def sing_protocols_def Let_def)
  have c: "cn_ServerPort common = 443" if "ni_Common (example_naive 0) = Some common" for common using that by (auto simp: example_naive_def Let_def)
  obtain listen common where "options_listen (NaiveInboundOptions (sing_listen (example_naive 0) example_sing_options NewSingOptions (the (ni_Common (example_naive 0)))) no_tls
          [\<lparr>au_Username = ''u'', au_Password = ''u''\<rparr>] ''tcp'') = Some listen" "ni_Common (example_naive 0) = Some common" "uint (lo_ListenPort listen) = cn_ServerPort common mod 2 ^ 16"
    using sing_inbound_serves_node [OF s t] by blast
  then show ?thesis using s c by (intro exI conjI) auto
qed

text \<open>A node with REALITY that is neither VMess, VLESS nor AnyTLS reads the description of another protocol, which is nil.\<close>

lemma sing_reality_panics:
  "op_SingOptions c = Some so \<Longrightarrow> ni_Common info = Some common \<Longrightarrow> sb_ParseAddr B (op_ListenIP c) \<Longrightarrow>
   ni_Type info \<noteq> ''anytls'' \<Longrightarrow> ni_Security info = Security_Reality \<Longrightarrow> ni_VAllss info = None \<Longrightarrow> getInboundOptions B info c users = None"
  by (simp add: getInboundOptions_def sing_tls_def Security_Tls_def Security_Reality_def then_go_def)

text \<open>An HTTP header with a request that names no path indexes an empty list.\<close>

lemma http_request_without_path_panics: "tcp_transport example_sing (Some raw) = None"
  by (simp add: tcp_transport_def example_sing_def decode_error_def with_error_def then_go_def)

text \<open>Without a port REALITY forwards to port 0, where the Xray core takes 443.\<close>

lemma reality_without_port: "ts_ServerPort ts = '''' \<Longrightarrow> map_option ir_ServerPort (it_Reality (reality_tls B ts rl)) = Some 0"
  by (simp add: reality_tls_def strconv_Atoi_def Let_def)

text \<open>With the ChaCha20 cipher of 2022 the users keep the plain uuid, while the server key and the placeholder user are encoded keys.\<close>

lemma chacha20_users_not_encoded: "ss_password ''2022-blake3-chacha20-poly1305'' uuid = Some uuid"
  by (simp add: ss_password_def)

end
