(* ===== verification/Geo_Loader.thy ===== *)
theory Geo_Loader
  imports Go_Prelude Go_Strings
begin

text \<open>
  \<open>core/hy2/geoloader.go\<close>: the databases of the ACL engine, loaded on demand and kept up to date. Files are a
  map from names to contents and times; the network, the temporary file and the parser of package \<open>v2geo\<close>
  are arguments.
\<close>

section \<open>Files\<close>

record 'd geo_file =
  gf_data :: 'd
  gf_ModTime :: gotime

type_synonym 'd geo_files = "string \<rightharpoonup> 'd geo_file"

text \<open>
  The environment of one call: \<open>ge_Stat\<close> is an error of \<open>os.Stat\<close> other than a missing file, \<open>ge_Get\<close> the body of a
  response (of whatever status), \<open>ge_CreateTemp\<close> the name of the temporary file, \<open>ge_Copy\<close> and \<open>ge_Rename\<close> their
  errors. \<open>ge_Load\<close> is the parser and \<open>ge_Size\<close> the size of a content.
\<close>

record ('d, 'm) geo_env =
  ge_now :: gotime
  ge_Stat :: "string \<Rightarrow> bool"
  ge_Get :: "string \<Rightarrow> string + 'd"
  ge_CreateTemp :: "string + string"
  ge_Copy :: "string option"
  ge_Rename :: "string option"
  ge_Load :: "'d \<Rightarrow> string + 'm"
  ge_Size :: "'d \<Rightarrow> nat"

record ('i, 's) GeoLoader =
  gl_GeoIPFilename :: string
  gl_GeoSiteFilename :: string
  gl_UpdateInterval :: duration
  gl_geoipMap :: "'i option"
  gl_geositeMap :: "'s option"

definition geoDefaultUpdateInterval :: duration where "geoDefaultUpdateInterval = 7 * 24 * time_Hour"

text \<open>\<open>v2geo.LoadGeoIP\<close> and \<open>LoadGeoSite\<close> read the file.\<close>

definition load_file :: "('d, 'm) geo_env \<Rightarrow> 'd geo_files \<Rightarrow> string \<Rightarrow> string + 'm" where
  "load_file E fs filename = (case fs filename of None \<Rightarrow> Inl ''no such file'' | Some f \<Rightarrow> ge_Load E (gf_data f))"

text \<open>When \<open>os.Stat\<close> fails otherwise than by a missing file, the file info is nil.\<close>

definition shouldDownload :: "('d, 'm) geo_env \<Rightarrow> 'd geo_files \<Rightarrow> duration \<Rightarrow> string \<Rightarrow> bool go" where
  "shouldDownload E fs interval filename =
     (if ge_Stat E filename then None
      else case fs filename of
        None \<Rightarrow> Some True
      | Some f \<Rightarrow>
          Some (ge_Size E (gf_data f) = 0
                \<or> time_Sub (ge_now E) (gf_ModTime f) > (if interval = 0 then geoDefaultUpdateInterval else interval)))"

text \<open>
  A response is written to a temporary file, parsed, and renamed over the database; the temporary file is
  removed in every case.
\<close>

definition downloadAndCheck :: "('d, 'm) geo_env \<Rightarrow> 'd geo_files \<Rightarrow> string \<Rightarrow> string \<Rightarrow> 'd geo_files \<times> string option" where
  "downloadAndCheck E fs filename url =
     (case ge_Get E url of
        Inl e \<Rightarrow> (fs, Some e)
      | Inr body \<Rightarrow>
          (case ge_CreateTemp E of
             Inl e \<Rightarrow> (fs, Some e)
           | Inr tmp \<Rightarrow>
               let file = \<lparr>gf_data = body, gf_ModTime = ge_now E\<rparr>; gone = fs(tmp := None)
               in case ge_Copy E of
                    Some e \<Rightarrow> (gone, Some e)
                  | None \<Rightarrow>
                      (case load_file E (fs(tmp \<mapsto> file)) tmp of
                         Inl e \<Rightarrow> (gone, Some e)
                       | Inr _ \<Rightarrow>
                           (case ge_Rename E of
                              Some e \<Rightarrow> (gone, Some e)
                            | None \<Rightarrow> (gone(filename \<mapsto> file), None)))))"

section \<open>Loading\<close>

text \<open>\<open>LoadGeoIP\<close> and \<open>LoadGeoSite\<close> differ in the parser, the map they fill and the names only.\<close>

definition load_geo ::
  "('d, 'm) geo_env \<Rightarrow> 'd geo_files \<Rightarrow> duration \<Rightarrow> 'm option \<Rightarrow> string \<Rightarrow> string \<Rightarrow> string \<Rightarrow> ('d geo_files \<times> 'm option \<times> (string + 'm)) go" where
  "load_geo E fs interval cached configured dflt url =
     (case cached of
        Some m \<Rightarrow> Some (fs, cached, Inr m)
      | None \<Rightarrow>
          let autoDL = (configured = '''');
              filename = (if autoDL then dflt else configured);
              final = (\<lambda>fs. case load_file E fs filename of Inl e \<Rightarrow> (fs, cached, Inl e) | Inr m \<Rightarrow> (fs, Some m, Inr m));
              fetch = (\<lambda>_::unit. case downloadAndCheck E fs filename url of
                  (fs, None) \<Rightarrow> Some (final fs)
                | (fs, Some e) \<Rightarrow> if \<not> ge_Stat E filename \<and> fs filename = None then Some (fs, cached, Inl e) else Some (final fs))
          in if \<not> autoDL then Some (final fs)
             else case shouldDownload E fs interval filename of
               None \<Rightarrow> None
             | Some True \<Rightarrow> fetch ()
             | Some False \<Rightarrow>
                 (case load_file E fs filename of
                    Inr m \<Rightarrow> Some (fs, Some m, Inr m)
                  | Inl _ \<Rightarrow> fetch ()))"

definition geoipFilename :: string where "geoipFilename = ''geoip.dat''"

definition geositeFilename :: string where "geositeFilename = ''geosite.dat''"

definition geoipURL :: string where "geoipURL = ''https://cdn.jsdelivr.net/gh/Loyalsoldier/v2ray-rules-dat@release/geoip.dat''"

definition geositeURL :: string where "geositeURL = ''https://cdn.jsdelivr.net/gh/Loyalsoldier/v2ray-rules-dat@release/geosite.dat''"

definition LoadGeoIP ::
  "('d, 'i) geo_env \<Rightarrow> 'd geo_files \<Rightarrow> ('i, 's) GeoLoader \<Rightarrow> ('d geo_files \<times> ('i, 's) GeoLoader \<times> (string + 'i)) go" where
  "LoadGeoIP E fs l =
     map_option (\<lambda>(fs, m, r). (fs, l\<lparr>gl_geoipMap := m\<rparr>, r))
       (load_geo E fs (gl_UpdateInterval l) (gl_geoipMap l) (gl_GeoIPFilename l) geoipFilename geoipURL)"

definition LoadGeoSite ::
  "('d, 's) geo_env \<Rightarrow> 'd geo_files \<Rightarrow> ('i, 's) GeoLoader \<Rightarrow> ('d geo_files \<times> ('i, 's) GeoLoader \<times> (string + 's)) go" where
  "LoadGeoSite E fs l =
     map_option (\<lambda>(fs, m, r). (fs, l\<lparr>gl_geositeMap := m\<rparr>, r))
       (load_geo E fs (gl_UpdateInterval l) (gl_geositeMap l) (gl_GeoSiteFilename l) geositeFilename geositeURL)"

section \<open>Correctness\<close>

text \<open>
  What a load promises, from the files before and after. The database that is used is the one in the file, or
  the one loaded before; a file that is configured is never written; the automatic one is only ever
  replaced by a downloaded content that parses; nothing else changes.
\<close>

definition geo_spec ::
  "('d, 'm) geo_env \<Rightarrow> string \<Rightarrow> string \<Rightarrow> string \<Rightarrow> 'd geo_files \<Rightarrow> 'm option \<Rightarrow> 'd geo_files \<Rightarrow> 'm option \<Rightarrow> string + 'm \<Rightarrow> bool" where
  "geo_spec E configured dflt url fs cached fs' cached' r \<longleftrightarrow>
     (let filename = (if configured = '''' then dflt else configured)
      in (\<forall>name. name \<noteq> filename \<longrightarrow> fs' name = fs name)
         \<and> (fs' filename = fs filename \<or> configured = '''' \<and> cached = None
             \<and> (\<exists>body m. ge_Get E url = Inr body \<and> ge_Load E body = Inr m \<and> fs' filename = Some \<lparr>gf_data = body, gf_ModTime = ge_now E\<rparr>))
         \<and> (case r of
              Inr m \<Rightarrow> cached' = Some m \<and> (cached = Some m \<or> load_file E fs' filename = Inr m)
            | Inl _ \<Rightarrow> cached' = None \<and> cached = None \<and> (\<forall>m. load_file E fs filename \<noteq> Inr m)))"

lemma download_changes:
  assumes "downloadAndCheck E fs filename url = (fs', e)" and "\<And>tmp. ge_CreateTemp E = Inr tmp \<Longrightarrow> fs tmp = None"
  shows "(e \<noteq> None \<longrightarrow> fs' = fs)
    \<and> (e = None \<longrightarrow> (\<exists>body m. ge_Get E url = Inr body \<and> ge_Load E body = Inr m
         \<and> fs' = fs(filename \<mapsto> \<lparr>gf_data = body, gf_ModTime = ge_now E\<rparr>)))"
proof -
  have gone: "fs(tmp := None) = fs" if "ge_CreateTemp E = Inr tmp" for tmp using assms(2) [OF that] by auto
  show ?thesis using assms(1)
    by (cases "ge_Get E url"; cases "ge_CreateTemp E"; cases "ge_Copy E"; cases "ge_Rename E")
      (auto simp: downloadAndCheck_def load_file_def Let_def gone split: sum.splits dest: sym)
qed

lemma load_geo_spec:
  assumes "load_geo E fs interval cached configured dflt url = Some (fs', cached', r)"
    and "\<And>tmp. ge_CreateTemp E = Inr tmp \<Longrightarrow> fs tmp = None"
  shows "geo_spec E configured dflt url fs cached fs' cached' r"
proof (cases cached)
  case (Some m)
  then show ?thesis using assms(1) by (auto simp: load_geo_def geo_spec_def)
next
  case None
  define filename where "filename = (if configured = '''' then dflt else configured)"
  have keep: ?thesis if "fs' = fs" "cached' = None \<and> load_file E fs filename = r \<and> (\<exists>e. r = Inl e) \<or> (\<exists>m. r = Inr m \<and> cached' = Some m \<and> load_file E fs filename = Inr m)"
    using that None by (auto simp: geo_spec_def filename_def Let_def)
  show ?thesis
  proof (cases "configured = ''''")
    case False
    then have "(fs', cached', r) = (case load_file E fs filename of Inl e \<Rightarrow> (fs, None, Inl e) | Inr m \<Rightarrow> (fs, Some m, Inr m))"
      using assms(1) None by (simp add: load_geo_def filename_def)
    then show ?thesis by (intro keep) (auto split: sum.splits)
  next
    case True
    obtain fs1 e where d: "downloadAndCheck E fs filename url = (fs1, e)" by fastforce
    note c = download_changes [OF d assms(2)]
    consider m where "fs' = fs" "load_file E fs filename = Inr m" "cached' = Some m" "r = Inr m"
      | x where "e = Some x" "fs' = fs1" "fs1 filename = None" "cached' = None" "r = Inl x"
      | "fs' = fs1" "\<exists>x. load_file E fs1 filename = Inl x \<and> cached' = None \<and> r = Inl x"
      | m where "fs' = fs1" "load_file E fs1 filename = Inr m" "cached' = Some m" "r = Inr m"
      using assms(1) None True d by (auto simp: load_geo_def filename_def Let_def split: sum.splits option.splits if_splits bool.splits)
    then show ?thesis
    proof cases
      case 1 then show ?thesis by (intro keep) auto
    next
      case 2
      then have "fs' = fs" using c by simp
      then show ?thesis using 2 None True by (auto simp: geo_spec_def filename_def load_file_def)
    next
      case 3
      show ?thesis
      proof (cases e)
        case None
        then show ?thesis using c 3 by (auto simp: load_file_def)
      next
        case (Some x)
        then show ?thesis using c 3 by (intro keep) auto
      qed
    next
      case 4
      then show ?thesis using c None True by (cases e) (auto simp: geo_spec_def filename_def)
    qed
  qed
qed

text \<open>
  C35. The databases of the ACL engine. Where the temporary file is a new one, a load of the GeoIP or the GeoSite
  database that returns keeps \<open>geo_spec\<close>: it fails only when the file there was before does not parse, so a
  failed download falls back to the previous database; files that are configured are never written; the automatic
  file is replaced by parsed content only, and no temporary file is left. A database that was loaded is
  returned by every later call, which then touches no file.
\<close>

theorem geo_load_falls_back:
  assumes "\<And>tmp. ge_CreateTemp E = Inr tmp \<Longrightarrow> fs tmp = None" and "\<And>tmp. ge_CreateTemp E' = Inr tmp \<Longrightarrow> fs tmp = None"
  shows "(\<forall>fs' l' r. LoadGeoIP E fs l = Some (fs', l', r) \<longrightarrow>
        geo_spec E (gl_GeoIPFilename l) geoipFilename geoipURL fs (gl_geoipMap l) fs' (gl_geoipMap l') r
        \<and> (\<forall>m F gs. r = Inr m \<longrightarrow> LoadGeoIP F gs l' = Some (gs, l', Inr m)))
    \<and> (\<forall>fs' l' r. LoadGeoSite E' fs l = Some (fs', l', r) \<longrightarrow>
        geo_spec E' (gl_GeoSiteFilename l) geositeFilename geositeURL fs (gl_geositeMap l) fs' (gl_geositeMap l') r
        \<and> (\<forall>m F gs. r = Inr m \<longrightarrow> LoadGeoSite F gs l' = Some (gs, l', Inr m)))"
proof (intro conjI allI impI)
  fix fs' l' r
  assume l: "LoadGeoIP E fs l = Some (fs', l', r)"
  show s: "geo_spec E (gl_GeoIPFilename l) geoipFilename geoipURL fs (gl_geoipMap l) fs' (gl_geoipMap l') r"
    using l assms(1) by (auto simp: LoadGeoIP_def intro!: load_geo_spec)
  show "LoadGeoIP F gs l' = Some (gs, l', Inr m)" if "r = Inr m" for m F gs
    using s that by (auto simp: geo_spec_def Let_def LoadGeoIP_def load_geo_def)
next
  fix fs' l' r
  assume l: "LoadGeoSite E' fs l = Some (fs', l', r)"
  show s: "geo_spec E' (gl_GeoSiteFilename l) geositeFilename geositeURL fs (gl_geositeMap l) fs' (gl_geositeMap l') r"
    using l assms(2) by (auto simp: LoadGeoSite_def intro!: load_geo_spec)
  show "LoadGeoSite F gs l' = Some (gs, l', Inr m)" if "r = Inr m" for m F gs
    using s that by (auto simp: geo_spec_def Let_def LoadGeoSite_def load_geo_def)
qed

text \<open>An old database and no network.\<close>

definition offline_env :: "(string, string) geo_env" where
  "offline_env = \<lparr>ge_now = geoDefaultUpdateInterval + 1, ge_Stat = (\<lambda>_. False), ge_Get = (\<lambda>_. Inl ''no route to host''), ge_CreateTemp = Inr ''tmp'',
     ge_Copy = None, ge_Rename = None, ge_Load = (\<lambda>d. Inr d), ge_Size = length\<rparr>"

definition old_database :: "string geo_files" where
  "old_database = [''geoip.dat'' \<mapsto> \<lparr>gf_data = ''v1'', gf_ModTime = 0\<rparr>]"

definition example_loader :: "(string, string) GeoLoader" where
  "example_loader = \<lparr>gl_GeoIPFilename = '''', gl_GeoSiteFilename = '''', gl_UpdateInterval = 0, gl_geoipMap = None, gl_geositeMap = None\<rparr>"

theorem geo_load_falls_back_witness:
  "\<exists>l'. LoadGeoIP offline_env old_database example_loader = Some (old_database, l', Inr ''v1'') \<and> gl_geoipMap l' = Some ''v1''
     \<and> LoadGeoIP offline_env Map.empty l' = Some (Map.empty, l', Inr ''v1'')"
proof -
  have f: "old_database tmp = None" if "ge_CreateTemp offline_env = Inr tmp" for tmp using that by (auto simp: offline_env_def old_database_def)
  have l: "LoadGeoIP offline_env old_database example_loader = Some (old_database, example_loader\<lparr>gl_geoipMap := Some ''v1''\<rparr>, Inr ''v1'')"
    by (simp add: LoadGeoIP_def load_geo_def example_loader_def offline_env_def old_database_def shouldDownload_def downloadAndCheck_def
        load_file_def geoipFilename_def geoDefaultUpdateInterval_def time_consts time_Sub_def i64_range_defs Let_def)
  then show ?thesis using geo_load_falls_back [of offline_env old_database offline_env example_loader, OF f f] by auto
qed

text \<open>
  A response is checked by parsing it only, not by its status or size. An empty body parses, as the comment in
  \<open>shouldDownload\<close> says, and replaces a good database.
\<close>

lemma empty_response_replaces_database:
  assumes "ge_Get E url = Inr body" and "ge_Load E body = Inr m" and "ge_Size E body = 0" and "ge_CreateTemp E = Inr tmp"
    and "ge_Copy E = None" and "ge_Rename E = None" and "\<not> ge_Stat E filename"
  shows "\<exists>fs'. downloadAndCheck E fs filename url = (fs', None) \<and> load_file E fs' filename = Inr m \<and> shouldDownload E fs' interval filename = Some True"
  using assms by (simp add: downloadAndCheck_def load_file_def shouldDownload_def Let_def)

text \<open>A file that is there but cannot be examined makes the loader dereference nil.\<close>

lemma stat_error_panics:
  "ge_Stat E geoipFilename \<Longrightarrow> gl_GeoIPFilename l = '''' \<Longrightarrow> gl_geoipMap l = None \<Longrightarrow> LoadGeoIP E fs l = None"
  by (simp add: LoadGeoIP_def load_geo_def shouldDownload_def)

end
