(* ===== verification/Hy2_Config.thy ===== *)
theory Hy2_Config
  imports Xray_Inbound Hy2 Geo_Loader
begin

text \<open>
  The configuration of the Hysteria2 server: the structs of \<open>core/hy2/serverConfig.go\<close> and the parts of a
  server configuration that \<open>core/hy2/config.go\<close> derives from them and from the panel. Outbounds, ACL engines
  and resolvers are built by the hysteria packages, which are the arguments \<open>outbound_ops\<close>.
\<close>

section \<open>The configuration file (\<open>serverConfig.go\<close>)\<close>

record serverConfigObfsSalamander =
  os_Password :: string

record serverConfigObfs =
  ob_Type :: string
  ob_Salamander :: serverConfigObfsSalamander

record serverConfigTLS =
  st_Cert :: string
  st_Key :: string

record serverConfigACME =
  ac_Domains :: "string list"
  ac_Email :: string
  ac_CA :: string
  ac_DisableHTTP :: bool
  ac_DisableTLSALPN :: bool
  ac_AltHTTPPort :: int
  ac_AltTLSALPNPort :: int
  ac_Dir :: string

record serverConfigQUIC =
  sq_InitStreamReceiveWindow :: "64 word"
  sq_MaxStreamReceiveWindow :: "64 word"
  sq_InitConnectionReceiveWindow :: "64 word"
  sq_MaxConnectionReceiveWindow :: "64 word"
  sq_MaxIdleTimeout :: duration
  sq_MaxIncomingStreams :: int
  sq_DisablePathMTUDiscovery :: bool

record serverConfigBandwidth =
  sbw_Up :: string
  sbw_Down :: string

record serverConfigAuthHTTP =
  sah_URL :: string
  sah_Insecure :: bool

record serverConfigAuth =
  sau_Type :: string
  sau_Password :: string
  sau_UserPass :: "(string, string) gomap"
  sau_HTTP :: serverConfigAuthHTTP
  sau_Command :: string

text \<open>The resolvers over TCP and UDP have the same two fields, those over TLS and HTTPS the same four.\<close>

record serverConfigResolverTCP =
  rt_Addr :: string
  rt_Timeout :: duration

record serverConfigResolverTLS = serverConfigResolverTCP +
  rt_SNI :: string
  rt_Insecure :: bool

record serverConfigResolver =
  sr_Type :: string
  sr_TCP :: serverConfigResolverTCP
  sr_UDP :: serverConfigResolverTCP
  sr_TLS :: serverConfigResolverTLS
  sr_HTTPS :: serverConfigResolverTLS

record serverConfigSniff =
  sf_Enable :: bool
  sf_Timeout :: duration
  sf_RewriteDomain :: bool
  sf_TCPPorts :: string
  sf_UDPPorts :: string

record serverConfigACL =
  acl_File :: string
  acl_Inline :: "string list"
  acl_GeoIP :: string
  acl_GeoSite :: string
  acl_GeoUpdateInterval :: duration

record serverConfigOutboundDirect =
  od_Mode :: string
  od_BindIPv4 :: string
  od_BindIPv6 :: string
  od_BindDevice :: string

record serverConfigOutboundSOCKS5 =
  o5_Addr :: string
  o5_Username :: string
  o5_Password :: string

record serverConfigOutboundHTTP =
  oh_URL :: string
  oh_Insecure :: bool

record serverConfigOutboundEntry =
  oe_Name :: string
  oe_Type :: string
  oe_Direct :: serverConfigOutboundDirect
  oe_SOCKS5 :: serverConfigOutboundSOCKS5
  oe_HTTP :: serverConfigOutboundHTTP

record serverConfigTrafficStats =
  sts_Listen :: string
  sts_Secret :: string

record serverConfigMasqueradeString =
  ms_Content :: string
  ms_Headers :: "(string, string) gomap"
  ms_StatusCode :: int

text \<open>The masquerade section; the one field of its file part and the two of its proxy part stand in it directly.\<close>

record serverConfigMasquerade =
  mq_Type :: string
  mq_File_Dir :: string
  mq_Proxy_URL :: string
  mq_Proxy_RewriteHost :: bool
  mq_String :: serverConfigMasqueradeString
  mq_ListenHTTP :: string
  mq_ListenHTTPS :: string
  mq_ForceHTTPS :: bool

record serverConfig =
  svc_Listen :: string
  svc_Obfs :: serverConfigObfs
  svc_TLS :: "serverConfigTLS option"
  svc_ACME :: "serverConfigACME option"
  svc_QUIC :: serverConfigQUIC
  svc_Bandwidth :: serverConfigBandwidth
  svc_IgnoreClientBandwidth :: bool
  svc_SpeedTest :: bool
  svc_DisableUDP :: bool
  svc_UDPIdleTimeout :: duration
  svc_Auth :: serverConfigAuth
  svc_Resolver :: serverConfigResolver
  svc_Sniff :: serverConfigSniff
  svc_ACL :: serverConfigACL
  svc_Outbounds :: "serverConfigOutboundEntry list"
  svc_TrafficStats :: serverConfigTrafficStats
  svc_Masquerade :: serverConfigMasquerade

text \<open>The zero value of the struct, for a node without a configuration file.\<close>

definition zero_serverConfig :: serverConfig where
  "zero_serverConfig = \<lparr>svc_Listen = '''', svc_Obfs = \<lparr>ob_Type = '''', ob_Salamander = \<lparr>os_Password = ''''\<rparr>\<rparr>, svc_TLS = None, svc_ACME = None,
     svc_QUIC = \<lparr>sq_InitStreamReceiveWindow = 0, sq_MaxStreamReceiveWindow = 0, sq_InitConnectionReceiveWindow = 0, sq_MaxConnectionReceiveWindow = 0,
       sq_MaxIdleTimeout = 0, sq_MaxIncomingStreams = 0, sq_DisablePathMTUDiscovery = False\<rparr>,
     svc_Bandwidth = \<lparr>sbw_Up = '''', sbw_Down = ''''\<rparr>, svc_IgnoreClientBandwidth = False, svc_SpeedTest = False, svc_DisableUDP = False, svc_UDPIdleTimeout = 0,
     svc_Auth = \<lparr>sau_Type = '''', sau_Password = '''', sau_UserPass = [], sau_HTTP = \<lparr>sah_URL = '''', sah_Insecure = False\<rparr>, sau_Command = ''''\<rparr>,
     svc_Resolver = \<lparr>sr_Type = '''', sr_TCP = \<lparr>rt_Addr = '''', rt_Timeout = 0\<rparr>, sr_UDP = \<lparr>rt_Addr = '''', rt_Timeout = 0\<rparr>,
       sr_TLS = \<lparr>rt_Addr = '''', rt_Timeout = 0, rt_SNI = '''', rt_Insecure = False\<rparr>, sr_HTTPS = \<lparr>rt_Addr = '''', rt_Timeout = 0, rt_SNI = '''', rt_Insecure = False\<rparr>\<rparr>,
     svc_Sniff = \<lparr>sf_Enable = False, sf_Timeout = 0, sf_RewriteDomain = False, sf_TCPPorts = '''', sf_UDPPorts = ''''\<rparr>,
     svc_ACL = \<lparr>acl_File = '''', acl_Inline = [], acl_GeoIP = '''', acl_GeoSite = '''', acl_GeoUpdateInterval = 0\<rparr>,
     svc_Outbounds = [], svc_TrafficStats = \<lparr>sts_Listen = '''', sts_Secret = ''''\<rparr>,
     svc_Masquerade = \<lparr>mq_Type = '''', mq_File_Dir = '''', mq_Proxy_URL = '''', mq_Proxy_RewriteHost = False,
       mq_String = \<lparr>ms_Content = '''', ms_Headers = [], ms_StatusCode = 0\<rparr>, mq_ListenHTTP = '''', mq_ListenHTTPS = '''', mq_ForceHTTPS = False\<rparr>\<rparr>"

section \<open>QUIC and bandwidth\<close>

definition defaultStreamReceiveWindow :: "64 word" where "defaultStreamReceiveWindow = 8388608"

definition defaultConnReceiveWindow :: "64 word" where "defaultConnReceiveWindow = defaultStreamReceiveWindow * 5 div 2"

definition defaultMaxIdleTimeout :: duration where "defaultMaxIdleTimeout = 30 * time_Second"

definition defaultMaxIncomingStreams :: int where "defaultMaxIncomingStreams = 4096"

definition Kilobyte :: int where "Kilobyte = 1000"

definition Megabyte :: int where "Megabyte = Kilobyte * 1000"

record QUICConfig =
  qc_InitialStreamReceiveWindow :: "64 word"
  qc_MaxStreamReceiveWindow :: "64 word"
  qc_InitialConnectionReceiveWindow :: "64 word"
  qc_MaxConnectionReceiveWindow :: "64 word"
  qc_MaxIdleTimeout :: duration
  qc_MaxIncomingStreams :: int
  qc_DisablePathMTUDiscovery :: bool

definition new_QUICConfig :: QUICConfig where
  "new_QUICConfig = \<lparr>qc_InitialStreamReceiveWindow = 0, qc_MaxStreamReceiveWindow = 0, qc_InitialConnectionReceiveWindow = 0,
     qc_MaxConnectionReceiveWindow = 0, qc_MaxIdleTimeout = 0, qc_MaxIncomingStreams = 0, qc_DisablePathMTUDiscovery = False\<rparr>"

text \<open>One receive window: zero stands for the default, less than 16384 is refused.\<close>

definition quic_window :: "string \<Rightarrow> 64 word \<Rightarrow> 64 word \<Rightarrow> string + 64 word" where
  "quic_window name dflt v =
     (if v = 0 then Inr dflt else if v < 16384 then Inl (''QUICConfig.'' @ name @ ''f must be at least 16384'') else Inr v)"

text \<open>
  The valid initial stream window is not stored: that branch assigns the connection window instead, which
  the third setting overwrites.
\<close>

definition getQUICConfig :: "serverConfig \<Rightarrow> string + QUICConfig" where
  "getQUICConfig config =
     (let q = svc_QUIC config in
      case quic_window ''InitialStreamReceiveWindow'' defaultStreamReceiveWindow (sq_InitStreamReceiveWindow q) of
        Inl e \<Rightarrow> Inl e
      | Inr w \<Rightarrow>
      let quic = (if sq_InitStreamReceiveWindow q = 0 then new_QUICConfig\<lparr>qc_InitialStreamReceiveWindow := w\<rparr>
                  else new_QUICConfig\<lparr>qc_InitialConnectionReceiveWindow := sq_InitConnectionReceiveWindow q\<rparr>) in
      case quic_window ''MaxStreamReceiveWindow'' defaultStreamReceiveWindow (sq_MaxStreamReceiveWindow q) of
        Inl e \<Rightarrow> Inl e
      | Inr w \<Rightarrow>
      let quic = quic\<lparr>qc_MaxStreamReceiveWindow := w\<rparr> in
      case quic_window ''InitialConnectionReceiveWindow'' defaultConnReceiveWindow (sq_InitConnectionReceiveWindow q) of
        Inl e \<Rightarrow> Inl e
      | Inr w \<Rightarrow>
      let quic = quic\<lparr>qc_InitialConnectionReceiveWindow := w\<rparr> in
      case quic_window ''MaxConnectionReceiveWindow'' defaultConnReceiveWindow (sq_MaxConnectionReceiveWindow q) of
        Inl e \<Rightarrow> Inl e
      | Inr w \<Rightarrow>
      let quic = quic\<lparr>qc_MaxConnectionReceiveWindow := w\<rparr> in
      if sq_MaxIdleTimeout q \<noteq> 0 \<and> (sq_MaxIdleTimeout q < 4 * time_Second \<or> sq_MaxIdleTimeout q > 120 * time_Second)
      then Inl ''QUICConfig.MaxIdleTimeoutf must be between 4s and 120s''
      else
      let quic = quic\<lparr>qc_MaxIdleTimeout := (if sq_MaxIdleTimeout q = 0 then defaultMaxIdleTimeout else sq_MaxIdleTimeout q)\<rparr> in
      if sq_MaxIncomingStreams q \<noteq> 0 \<and> sq_MaxIncomingStreams q < 8
      then Inl ''QUICConfig.MaxIncomingStreamsf must be at least 8''
      else Inr (quic\<lparr>qc_MaxIncomingStreams := (if sq_MaxIncomingStreams q = 0 then defaultMaxIncomingStreams else sq_MaxIncomingStreams q),
                     qc_DisablePathMTUDiscovery := False\<rparr>))"

text \<open>Megabits to bytes per second: the product wraps, the division truncates, the conversion is to an unsigned integer.\<close>

definition mbps_bytes :: "int \<Rightarrow> 64 word" where
  "mbps_bytes mbps = (if mbps = 0 then 0 else word_of_int (go_div (i64 (mbps * Megabyte)) 8))"

definition getBandwidthConfig :: "Hysteria2Node \<Rightarrow> 64 word \<times> 64 word" where
  "getBandwidthConfig h = (mbps_bytes (h2_UpMbps h), mbps_bytes (h2_DownMbps h))"

section \<open>TLS and addresses\<close>

record 'cert server_TLSConfig =
  tc_Certificates :: "'cert list"
  tc_GetCertificate :: "string \<times> string"

text \<open>\<open>load\<close> is \<open>tls.LoadX509KeyPair\<close>; \<open>GetCertificate\<close> reads the two files again at every handshake.\<close>

definition getTLSConfig :: "(string \<Rightarrow> string \<Rightarrow> string + 'cert) \<Rightarrow> 'raw Options \<Rightarrow> string + 'cert server_TLSConfig" where
  "getTLSConfig load config =
     (case op_CertConfig config of
        None \<Rightarrow> Inl ''the CertConfig is not vail''
      | Some cert \<Rightarrow>
          if cc_CertMode cert = ''none'' \<or> cc_CertMode cert = '''' then Inl ''the CertMode cannot be none''
          else map_sum id (\<lambda>x. \<lparr>tc_Certificates = [x], tc_GetCertificate = (cc_CertFile cert, cc_KeyFile cert)\<rparr>) (load (cc_CertFile cert) (cc_KeyFile cert)))"

definition formatAddress :: "string \<Rightarrow> int \<Rightarrow> string" where
  "formatAddress ip port =
     (if strings_Contains ip (CHR '':'') then ''['' @ ip @ '']:'' @ strconv_Itoa port else ip @ '':'' @ strconv_Itoa port)"

definition extractPortFromAddr :: "string \<Rightarrow> int" where
  "extractPortFromAddr addr =
     (case net_SplitHostPort addr of
        None \<Rightarrow> 0
      | Some (_, portStr) \<Rightarrow> (case strconv_Atoi portStr of (port, ok) \<Rightarrow> if ok then port else 0))"

section \<open>Sniffing\<close>

record 'ports Sniffer =
  sn_Timeout :: duration
  sn_RewriteDomain :: bool
  sn_TCPPorts :: "'ports option"
  sn_UDPPorts :: "'ports option"

definition port_union :: "(string \<Rightarrow> 'ports option) \<Rightarrow> string \<Rightarrow> string \<Rightarrow> string + 'ports option" where
  "port_union parse name s =
     (if s = '''' then Inr None
      else case parse s of None \<Rightarrow> Inl (''sniff.'' @ name @ '': invalid port union'') | Some p \<Rightarrow> Inr (Some p))"

definition getRequestHook :: "(string \<Rightarrow> 'ports option) \<Rightarrow> serverConfig \<Rightarrow> string + 'ports Sniffer option" where
  "getRequestHook parse c =
     (let s = svc_Sniff c
      in if \<not> sf_Enable s then Inr None
         else case port_union parse ''tcpPorts'' (sf_TCPPorts s) of
           Inl e \<Rightarrow> Inl e
         | Inr tcp \<Rightarrow>
             (case port_union parse ''udpPorts'' (sf_UDPPorts s) of
                Inl e \<Rightarrow> Inl e
              | Inr udp \<Rightarrow> Inr (Some \<lparr>sn_Timeout = sf_Timeout s, sn_RewriteDomain = sf_RewriteDomain s, sn_TCPPorts = tcp, sn_UDPPorts = udp\<rparr>)))"

section \<open>Outbounds\<close>

datatype DirectOutboundMode = ModeAuto | Mode64 | Mode46 | Mode6 | Mode4

text \<open>The constructors of package \<open>outbounds\<close>; \<open>oo_ParseIP\<close> is whether \<open>net.ParseIP\<close> accepts an address.\<close>

record ('ob, 'i, 's) outbound_ops =
  oo_ParseIP :: "string \<Rightarrow> bool"
  oo_Simple :: "DirectOutboundMode \<Rightarrow> 'ob"
  oo_BindToIPs :: "DirectOutboundMode \<Rightarrow> string option \<Rightarrow> string option \<Rightarrow> string + 'ob"
  oo_BindToDevice :: "DirectOutboundMode \<Rightarrow> string \<Rightarrow> string + 'ob"
  oo_SOCKS5 :: "string \<Rightarrow> string \<Rightarrow> string \<Rightarrow> 'ob"
  oo_HTTP :: "string \<Rightarrow> bool \<Rightarrow> string + 'ob"
  oo_ACLFile :: "string \<Rightarrow> (string \<times> 'ob) list \<Rightarrow> ('i, 's) GeoLoader \<Rightarrow> string + 'ob"
  oo_ACLString :: "string \<Rightarrow> (string \<times> 'ob) list \<Rightarrow> ('i, 's) GeoLoader \<Rightarrow> string + 'ob"
  oo_System :: "'ob \<Rightarrow> 'ob"
  oo_TCP :: "string \<Rightarrow> duration \<Rightarrow> 'ob \<Rightarrow> 'ob"
  oo_UDP :: "string \<Rightarrow> duration \<Rightarrow> 'ob \<Rightarrow> 'ob"
  oo_TLS :: "string \<Rightarrow> duration \<Rightarrow> string \<Rightarrow> bool \<Rightarrow> 'ob \<Rightarrow> 'ob"
  oo_DoH :: "string \<Rightarrow> duration \<Rightarrow> string \<Rightarrow> bool \<Rightarrow> 'ob \<Rightarrow> 'ob"

definition direct_mode :: "string \<Rightarrow> DirectOutboundMode option" where
  "direct_mode s =
     (let m = strings_ToLower s
      in if m = '''' \<or> m = ''auto'' then Some ModeAuto
         else if m = ''64'' then Some Mode64
         else if m = ''46'' then Some Mode46
         else if m = ''6'' then Some Mode6
         else if m = ''4'' then Some Mode4
         else None)"

text \<open>\<open>net.ParseIP\<close> of an address that is not set is nil.\<close>

definition serverConfigOutboundDirectToOutbound :: "('ob, 'i, 's) outbound_ops \<Rightarrow> serverConfigOutboundDirect \<Rightarrow> string + 'ob" where
  "serverConfigOutboundDirectToOutbound X c =
     (case direct_mode (od_Mode c) of
        None \<Rightarrow> Inl ''outbounds.direct.mode unsupported mode''
      | Some mode \<Rightarrow>
          let bindIP = (od_BindIPv4 c \<noteq> '''' \<or> od_BindIPv6 c \<noteq> '''');
              bindDevice = (od_BindDevice c \<noteq> '''');
              ip = (\<lambda>s. if s \<noteq> '''' \<and> oo_ParseIP X s then Some s else None)
          in if bindIP \<and> bindDevice then Inl ''outbounds.direct cannot bind both IP and device''
             else if bindIP then
               (if od_BindIPv4 c \<noteq> '''' \<and> ip (od_BindIPv4 c) = None then Inl ''outbounds.direct.bindIPv4 invalid IPv4 address''
                else if od_BindIPv6 c \<noteq> '''' \<and> ip (od_BindIPv6 c) = None then Inl ''outbounds.direct.bindIPv6 invalid IPv6 address''
                else oo_BindToIPs X mode (ip (od_BindIPv4 c)) (ip (od_BindIPv6 c)))
             else if bindDevice then oo_BindToDevice X mode (od_BindDevice c)
             else Inr (oo_Simple X mode))"

definition serverConfigOutboundSOCKS5ToOutbound :: "('ob, 'i, 's) outbound_ops \<Rightarrow> serverConfigOutboundSOCKS5 \<Rightarrow> string + 'ob" where
  "serverConfigOutboundSOCKS5ToOutbound X c =
     (if o5_Addr c = '''' then Inl ''outbounds.socks5.addr empty socks5 address''
      else Inr (oo_SOCKS5 X (o5_Addr c) (o5_Username c) (o5_Password c)))"

definition serverConfigOutboundHTTPToOutbound :: "('ob, 'i, 's) outbound_ops \<Rightarrow> serverConfigOutboundHTTP \<Rightarrow> string + 'ob" where
  "serverConfigOutboundHTTPToOutbound X c =
     (if oh_URL c = '''' then Inl ''outbounds.http.url empty http address'' else oo_HTTP X (oh_URL c) (oh_Insecure c))"

definition outbound_entry :: "('ob, 'i, 's) outbound_ops \<Rightarrow> serverConfigOutboundEntry \<Rightarrow> string + string \<times> 'ob" where
  "outbound_entry X e =
     (if oe_Name e = '''' then Inl ''empty outbound name''
      else let typ' = strings_ToLower (oe_Type e)
        in map_sum id (\<lambda>ob. (oe_Name e, ob))
             (if typ' = ''direct'' then serverConfigOutboundDirectToOutbound X (oe_Direct e)
              else if typ' = ''socks5'' then serverConfigOutboundSOCKS5ToOutbound X (oe_SOCKS5 e)
              else if typ' = ''http'' then serverConfigOutboundHTTPToOutbound X (oe_HTTP e)
              else Inl ''outbounds.type unsupported outbound type''))"

fun outbound_loop :: "('ob, 'i, 's) outbound_ops \<Rightarrow> serverConfigOutboundEntry list \<Rightarrow> string + (string \<times> 'ob) list" where
  "outbound_loop X [] = Inr []"
| "outbound_loop X (e # es) =
     (case outbound_entry X e of
        Inl err \<Rightarrow> Inl err
      | Inr ob \<Rightarrow> map_sum id ((#) ob) (outbound_loop X es))"

definition outbound_entries :: "('ob, 'i, 's) outbound_ops \<Rightarrow> serverConfigOutboundEntry list \<Rightarrow> string + (string \<times> 'ob) list" where
  "outbound_entries X es = (if es = [] then Inr [(''default'', oo_Simple X ModeAuto)] else outbound_loop X es)"

definition geo_loader :: "serverConfigACL \<Rightarrow> ('i, 's) GeoLoader" where
  "geo_loader a = \<lparr>gl_GeoIPFilename = acl_GeoIP a, gl_GeoSiteFilename = acl_GeoSite a, gl_UpdateInterval = acl_GeoUpdateInterval a,
     gl_geoipMap = None, gl_geositeMap = None\<rparr>"

text \<open>The ACL engine over the outbounds, or the first outbound; the flag tells whether there is an ACL.\<close>

definition acl_outbound :: "('ob, 'i, 's) outbound_ops \<Rightarrow> serverConfigACL \<Rightarrow> (string \<times> 'ob) list \<Rightarrow> string + bool \<times> 'ob" where
  "acl_outbound X a obs =
     (if acl_File a \<noteq> '''' \<and> acl_Inline a \<noteq> [] then Inl ''cannot set both acl.file and acl.inline''
      else if acl_File a \<noteq> '''' then map_sum id (Pair True) (oo_ACLFile X (acl_File a) obs (geo_loader a))
      else if acl_Inline a \<noteq> [] then map_sum id (Pair True) (oo_ACLString X (strings_Join (acl_Inline a) [CHR 0x0A]) obs (geo_loader a))
      else Inr (False, snd (hd obs)))"

definition resolver_outbound :: "('ob, 'i, 's) outbound_ops \<Rightarrow> serverConfigResolver \<Rightarrow> bool \<Rightarrow> 'ob \<Rightarrow> string + 'ob" where
  "resolver_outbound X r hasACL uOb =
     (let typ' = strings_ToLower (sr_Type r);
          addressed = (\<lambda>addr ob. if addr = '''' then Inl ''empty resolver address'' else Inr ob)
      in if typ' = '''' \<or> typ' = ''system'' then Inr (if hasACL then oo_System X uOb else uOb)
         else if typ' = ''tcp'' then addressed (rt_Addr (sr_TCP r)) (oo_TCP X (rt_Addr (sr_TCP r)) (rt_Timeout (sr_TCP r)) uOb)
         else if typ' = ''udp'' then addressed (rt_Addr (sr_UDP r)) (oo_UDP X (rt_Addr (sr_UDP r)) (rt_Timeout (sr_UDP r)) uOb)
         else if typ' = ''tls'' \<or> typ' = ''tcp-tls'' then
           addressed (rt_Addr (sr_TLS r)) (oo_TLS X (rt_Addr (sr_TLS r)) (rt_Timeout (sr_TLS r)) (rt_SNI (sr_TLS r)) (rt_Insecure (sr_TLS r)) uOb)
         else if typ' = ''https'' \<or> typ' = ''http'' then
           addressed (rt_Addr (sr_HTTPS r)) (oo_DoH X (rt_Addr (sr_HTTPS r)) (rt_Timeout (sr_HTTPS r)) (rt_SNI (sr_HTTPS r)) (rt_Insecure (sr_HTTPS r)) uOb)
         else Inl ''unsupported resolver type'')"

definition getOutboundConfig :: "('ob, 'i, 's) outbound_ops \<Rightarrow> serverConfig \<Rightarrow> string + 'ob" where
  "getOutboundConfig X c =
     (case outbound_entries X (svc_Outbounds c) of
        Inl e \<Rightarrow> Inl e
      | Inr obs \<Rightarrow>
          (case acl_outbound X (svc_ACL c) obs of
             Inl e \<Rightarrow> Inl e
           | Inr (hasACL, uOb) \<Rightarrow> resolver_outbound X (svc_Resolver c) hasACL uOb))"

section \<open>Masquerade\<close>

text \<open>The handler of requests that are not Hysteria; \<open>ReverseProxy\<close> holds the scheme and the host of its URL.\<close>

datatype masq_handler =
    NotFoundHandler
  | FileServer string
  | ReverseProxy "string \<times> string" bool
  | StringHandler serverConfigMasqueradeString

record MasqTCPServer =
  mt_QUICPort :: int
  mt_HTTPSPort :: int
  mt_Handler :: masq_handler
  mt_ForceHTTPS :: bool
  mt_httpAddr :: string
  mt_httpsAddr :: string

definition bad_status :: "int \<Rightarrow> bool" where
  "bad_status code \<longleftrightarrow> code \<noteq> 0 \<and> (code < 200 \<or> code > 599 \<or> code = 233)"

text \<open>\<open>parse\<close> gives the scheme and host of a URL.\<close>

definition masq_handler_of :: "(string \<Rightarrow> string + string \<times> string) \<Rightarrow> serverConfigMasquerade \<Rightarrow> string + masq_handler" where
  "masq_handler_of parse m =
     (let typ' = strings_ToLower (mq_Type m)
      in if typ' = '''' \<or> typ' = ''404'' then Inr NotFoundHandler
         else if typ' = ''file'' then
           (if mq_File_Dir m = '''' then Inl ''masquerade.file.dir empty file directory'' else Inr (FileServer (mq_File_Dir m)))
         else if typ' = ''proxy'' then
           (if mq_Proxy_URL m = '''' then Inl ''masquerade.proxy.url empty proxy url''
            else map_sum ((@) ''masquerade.proxy.url '') (\<lambda>u. ReverseProxy u (mq_Proxy_RewriteHost m)) (parse (mq_Proxy_URL m)))
         else if typ' = ''string'' then
           (if ms_Content (mq_String m) = '''' then Inl ''masquerade.string.content empty string content''
            else if bad_status (ms_StatusCode (mq_String m))
            then Inl ''masquerade.string.statusCode invalid status code (must be 200-599, except 233)''
            else Inr (StringHandler (mq_String m)))
         else Inl ''masquerade.type unsupported masquerade type'')"

text \<open>\<open>local\<close> is the address of the UDP socket. The TCP server is the one that is started, if any.\<close>

definition getMasqHandler ::
  "(string \<Rightarrow> string + string \<times> string) \<Rightarrow> string \<Rightarrow> serverConfig \<Rightarrow> string + masq_handler \<times> MasqTCPServer option" where
  "getMasqHandler parse local c =
     (let m = svc_Masquerade c
      in case masq_handler_of parse m of
           Inl e \<Rightarrow> Inl e
         | Inr handler \<Rightarrow>
             if mq_ListenHTTP m = '''' \<and> mq_ListenHTTPS m = '''' then Inr (handler, None)
             else if mq_ListenHTTP m \<noteq> '''' \<and> mq_ListenHTTPS m = ''''
             then Inl ''masquerade.listenHTTPS having only HTTP server without HTTPS is not supported''
             else Inr (handler, Some \<lparr>mt_QUICPort = extractPortFromAddr local, mt_HTTPSPort = extractPortFromAddr (mq_ListenHTTPS m),
                    mt_Handler = handler, mt_ForceHTTPS = mq_ForceHTTPS m, mt_httpAddr = mq_ListenHTTP m, mt_httpsAddr = mq_ListenHTTPS m\<rparr>))"

text \<open>The addresses \<open>runMasqTCPServer\<close> listens on.\<close>

definition runMasqTCPServer :: "MasqTCPServer \<Rightarrow> string list" where
  "runMasqTCPServer s = filter (\<lambda>a. a \<noteq> '''') [mt_httpAddr s, mt_httpsAddr s]"

text \<open>The response of the string handler, over the headers of the writer; \<open>canon\<close> is the canonical form of a header key.\<close>

definition string_response ::
  "(string \<Rightarrow> string) \<Rightarrow> serverConfigMasqueradeString \<Rightarrow> (string, string) gomap \<Rightarrow> (string, string) gomap \<times> int \<times> string" where
  "string_response canon s headers =
     (fold (\<lambda>(k, v) h. mstore h (canon k) v) (ms_Headers s) headers,
      if ms_StatusCode s \<noteq> 0 then ms_StatusCode s else 200, ms_Content s)"

text \<open>A request as the director of the reverse proxy sees it, with the value of \<open>X-Forwarded-For\<close> (empty when absent).\<close>

record http_request =
  rq_Scheme :: string
  rq_URLHost :: string
  rq_Host :: string
  rq_RemoteAddr :: string
  rq_Forwarded :: string

definition append_forwarded :: "http_request \<Rightarrow> http_request" where
  "append_forwarded req =
     (case net_SplitHostPort (rq_RemoteAddr req) of
        None \<Rightarrow> req
      | Some (clientIP, _) \<Rightarrow>
          req\<lparr>rq_Forwarded := (if rq_Forwarded req \<noteq> '''' then rq_Forwarded req @ '', '' @ clientIP else clientIP)\<rparr>)"

definition proxy_director :: "string \<times> string \<Rightarrow> bool \<Rightarrow> http_request \<Rightarrow> http_request" where
  "proxy_director u rewrite req =
     (let req = append_forwarded (req\<lparr>rq_Scheme := fst u, rq_URLHost := snd u\<rparr>)
      in if rewrite then req\<lparr>rq_Host := rq_URLHost req\<rparr> else req)"

text \<open>\<open>httputil.ReverseProxy\<close> with a director appends the client to \<open>X-Forwarded-For\<close> itself, after the director.\<close>

definition proxied_request :: "string \<times> string \<Rightarrow> bool \<Rightarrow> http_request \<Rightarrow> http_request" where
  "proxied_request u rewrite req = append_forwarded (proxy_director u rewrite req)"

section \<open>Correctness\<close>

text \<open>A setting that is left at zero or lies in its range.\<close>

definition quic_in_range :: "serverConfigQUIC \<Rightarrow> bool" where
  "quic_in_range q \<longleftrightarrow>
     list_all (\<lambda>w. w = 0 \<or> 16384 \<le> w) [sq_InitStreamReceiveWindow q, sq_MaxStreamReceiveWindow q, sq_InitConnectionReceiveWindow q, sq_MaxConnectionReceiveWindow q]
     \<and> (sq_MaxIdleTimeout q = 0 \<or> 4 * time_Second \<le> sq_MaxIdleTimeout q \<and> sq_MaxIdleTimeout q \<le> 120 * time_Second)
     \<and> (sq_MaxIncomingStreams q = 0 \<or> 8 \<le> sq_MaxIncomingStreams q)"

lemma quic_window_Inr:
  "(case quic_window name dflt v of Inl e \<Rightarrow> Inl e | Inr w \<Rightarrow> f w) = Inr q \<longleftrightarrow> (v = 0 \<or> 16384 \<le> v) \<and> f (if v = 0 then dflt else v) = Inr q"
  by (auto simp: quic_window_def not_less)

lemma getQUICConfig_Inr:
  "getQUICConfig c = Inr q \<longleftrightarrow> quic_in_range (svc_QUIC c) \<and>
     q = \<lparr>qc_InitialStreamReceiveWindow = (if sq_InitStreamReceiveWindow (svc_QUIC c) = 0 then defaultStreamReceiveWindow else 0),
          qc_MaxStreamReceiveWindow = (if sq_MaxStreamReceiveWindow (svc_QUIC c) = 0 then defaultStreamReceiveWindow else sq_MaxStreamReceiveWindow (svc_QUIC c)),
          qc_InitialConnectionReceiveWindow = (if sq_InitConnectionReceiveWindow (svc_QUIC c) = 0 then defaultConnReceiveWindow else sq_InitConnectionReceiveWindow (svc_QUIC c)),
          qc_MaxConnectionReceiveWindow = (if sq_MaxConnectionReceiveWindow (svc_QUIC c) = 0 then defaultConnReceiveWindow else sq_MaxConnectionReceiveWindow (svc_QUIC c)),
          qc_MaxIdleTimeout = (if sq_MaxIdleTimeout (svc_QUIC c) = 0 then defaultMaxIdleTimeout else sq_MaxIdleTimeout (svc_QUIC c)),
          qc_MaxIncomingStreams = (if sq_MaxIncomingStreams (svc_QUIC c) = 0 then defaultMaxIncomingStreams else sq_MaxIncomingStreams (svc_QUIC c)),
          qc_DisablePathMTUDiscovery = False\<rparr>"
  unfolding getQUICConfig_def Let_def quic_window_Inr quic_in_range_def new_QUICConfig_def
  by (simp add: not_less conj_ac) auto


text \<open>A configured initial stream window never reaches the server, nor does the switch for path MTU discovery.\<close>

lemma init_stream_window_ignored:
  assumes "sq_InitStreamReceiveWindow (svc_QUIC c) \<noteq> 0" and "getQUICConfig c = Inr q"
  shows "qc_InitialStreamReceiveWindow q = 0"
    and "getQUICConfig (c\<lparr>svc_QUIC := (svc_QUIC c)\<lparr>sq_DisablePathMTUDiscovery := b\<rparr>\<rparr>) = Inr q"
  using assms by (simp_all add: getQUICConfig_Inr quic_in_range_def)

text \<open>The bandwidth in bytes, exact unless the product overflows; a negative bandwidth becomes a huge one.\<close>

lemma mbps_bytes_exact: "0 \<le> mbps \<Longrightarrow> mbps \<le> 9223372036854 \<Longrightarrow> uint (mbps_bytes mbps) = mbps * 125000"
proof -
  assume m: "0 \<le> mbps" "mbps \<le> 9223372036854"
  then have "go_div (i64 (mbps * Megabyte)) 8 = mbps * 125000"
    by (simp add: Megabyte_def Kilobyte_def go_div_nonneg i64_range_defs)
  then have "mbps_bytes mbps = word_of_int (mbps * 125000)" by (simp only: mbps_bytes_def) simp
  moreover have "uint (word_of_int (mbps * 125000) :: 64 word) = mbps * 125000" using m by (subst uint_word_of_int) (simp add: mod_pos_pos_trivial)
  ultimately show ?thesis by metis
qed

lemma negative_bandwidth_unlimited: "mbps_bytes (- 1) = - 125000"
  by (simp add: mbps_bytes_def Megabyte_def Kilobyte_def go_div_def signed_divide_int_def i64_range_defs)

lemma Itoa_chars: "c \<in> set (strconv_Itoa i) \<Longrightarrow> is_digit c \<or> c = CHR ''-''"
  using nat_digits_digits by (auto simp: strconv_Itoa_def list_all_iff split: if_splits)

lemma Itoa_no_address_char: "CHR '':'' \<notin> set (strconv_Itoa i)" "CHR ''['' \<notin> set (strconv_Itoa i)" "CHR '']'' \<notin> set (strconv_Itoa i)"
  by (auto dest!: Itoa_chars simp: is_digit_def)

lemma SplitHostPort_host:
  assumes "CHR '':'' \<notin> set ip" "CHR ''['' \<notin> set ip" "CHR '']'' \<notin> set ip" "CHR '':'' \<notin> set p" "CHR ''['' \<notin> set p" "CHR '']'' \<notin> set p"
  shows "net_SplitHostPort (ip @ '':'' @ p) = Some (ip, p)"
proof -
  have "(ip @ '':'' @ p) ! 0 \<noteq> CHR ''[''" using assms by (cases ip) auto
  then show ?thesis using assms last_index_byte_append [of "CHR '':''" p ip] by (simp add: net_SplitHostPort_def)
qed

lemma SplitHostPort_bracketed:
  assumes "CHR ''['' \<notin> set ip" "CHR '']'' \<notin> set ip" "CHR '':'' \<notin> set p" "CHR ''['' \<notin> set p" "CHR '']'' \<notin> set p"
  shows "net_SplitHostPort (''['' @ ip @ '']:'' @ p) = Some (ip, p)"
  using assms last_index_byte_append [of "CHR '':''" p "CHR ''['' # ip @ '']''"] index_byte_append [of "CHR '']''" "CHR ''['' # ip" "CHR '':'' # p"]
  by (simp add: net_SplitHostPort_def)

text \<open>
  The listen address of a node can be read back: for a listen IP without brackets, of either family, the
  address that is formatted splits into that IP and port, and the port that the masquerade server announces
  for it is the port of the node.
\<close>

theorem listen_address_roundtrip:
  assumes "CHR ''['' \<notin> set ip" and "CHR '']'' \<notin> set ip" and "in_i64 port"
  shows "net_SplitHostPort (formatAddress ip port) = Some (ip, strconv_Itoa port) \<and> extractPortFromAddr (formatAddress ip port) = port"
proof -
  have "net_SplitHostPort (formatAddress ip port) = Some (ip, strconv_Itoa port)"
    using assms(1,2) SplitHostPort_host [of ip "strconv_Itoa port"] SplitHostPort_bracketed [of ip "strconv_Itoa port"] Itoa_no_address_char
    by (auto simp: formatAddress_def strings_Contains_def)
  then show ?thesis using assms(3) by (simp add: extractPortFromAddr_def Atoi_Itoa)
qed

theorem listen_address_roundtrip_witness:
  "net_SplitHostPort (formatAddress ''::'' 443) = Some (''::'', strconv_Itoa 443) \<and> extractPortFromAddr (formatAddress ''::'' 443) = 443"
  by (rule listen_address_roundtrip) (simp_all add: i64_range_defs)

text \<open>
  The masquerade never looks like Hysteria. The fixed response answers with the configured content and a status
  from 200 to 599 other than 233, the status of a successful authentication; and a masquerade server over
  TCP is only started with an HTTPS address, serving the same content.
\<close>

theorem masquerade_never_authenticates:
  assumes "getMasqHandler parse local c = Inr (h, srv)"
  shows "(\<forall>s canon headers. h = StringHandler s \<longrightarrow>
        (case string_response canon s headers of (_, code, body) \<Rightarrow> 200 \<le> code \<and> code \<le> 599 \<and> code \<noteq> 233 \<and> body = ms_Content (mq_String (svc_Masquerade c)) \<and> body \<noteq> ''''))
    \<and> (\<forall>m. srv = Some m \<longrightarrow> mt_Handler m = h \<and> mt_httpsAddr m \<in> set (runMasqTCPServer m))"
proof -
  have h: "masq_handler_of parse (svc_Masquerade c) = Inr h" "\<And>m. srv = Some m \<Longrightarrow> mt_Handler m = h \<and> mt_httpsAddr m \<noteq> ''''"
    using assms by (auto simp: getMasqHandler_def Let_def split: sum.splits if_splits)
  have "s = mq_String (svc_Masquerade c) \<and> ms_Content s \<noteq> '''' \<and> \<not> bad_status (ms_StatusCode s)" if "h = StringHandler s" for s
    using h(1) that by (cases "parse (mq_Proxy_URL (svc_Masquerade c))") (auto simp: masq_handler_of_def Let_def split: if_splits)
  then show ?thesis using h(2) by (auto simp: string_response_def bad_status_def runMasqTCPServer_def)
qed

definition example_server_config :: serverConfig where
  "example_server_config = zero_serverConfig\<lparr>svc_Masquerade := (svc_Masquerade zero_serverConfig)\<lparr>mq_Type := ''string'',
     mq_String := \<lparr>ms_Content = ''hello'', ms_Headers = [(''a'', ''b'')], ms_StatusCode = 0\<rparr>, mq_ListenHTTPS := '':443''\<rparr>\<rparr>"

theorem masquerade_never_authenticates_witness:
  "\<exists>s m. getMasqHandler (\<lambda>_. Inl '''') '':8443'' example_server_config = Inr (StringHandler s, Some m)
     \<and> fst (snd (string_response id s [])) = 200 \<and> mt_QUICPort m = 8443 \<and> mt_Handler m = StringHandler s"
proof -
  obtain s m where g: "getMasqHandler (\<lambda>_. Inl '''') '':8443'' example_server_config = Inr (StringHandler s, Some m)" "ms_StatusCode s = 0" "mt_QUICPort m = extractPortFromAddr '':8443''"
    by (simp add: getMasqHandler_def masq_handler_of_def example_server_config_def zero_serverConfig_def strings_ToLower_def to_lower_def bad_status_def Let_def)
  have "extractPortFromAddr '':8443'' = 8443" by code_simp
  then show ?thesis using masquerade_never_authenticates [OF g(1)] g by (auto simp: string_response_def)
qed

text \<open>The proxied request names the client twice, since the reverse proxy adds what the director has added.\<close>

lemma forwarded_twice:
  "net_SplitHostPort (rq_RemoteAddr req) = Some (ip, port) \<Longrightarrow> ip \<noteq> '''' \<Longrightarrow> rq_Forwarded req = '''' \<Longrightarrow>
   rq_Forwarded (proxied_request u rewrite req) = ip @ '', '' @ ip"
  by (simp add: proxied_request_def proxy_director_def append_forwarded_def Let_def)

section \<open>The chain of outbounds\<close>

lemma outbound_loop_names: "outbound_loop X es = Inr obs \<Longrightarrow> map fst obs = map oe_Name es \<and> '''' \<notin> set (map fst obs)"
proof (induction es arbitrary: obs)
  case (Cons e es)
  then obtain ob rest where o: "outbound_entry X e = Inr ob" "outbound_loop X es = Inr rest" "obs = ob # rest"
    by (cases "outbound_loop X es") (auto split: sum.splits)
  have "fst ob = oe_Name e \<and> oe_Name e \<noteq> ''''" using o(1) by (auto simp: outbound_entry_def map_sum_Inr Let_def split: if_splits)
  moreover from this have "map fst obs = map oe_Name (e # es)" using Cons.IH [OF o(2)] o(3) by simp
  ultimately show ?case using Cons.IH [OF o(2)] o(3) by (metis list.set_intros(1) list.simps(9) set_ConsD)
qed simp

text \<open>
  The chain is \<open>Resolver(ACL(Outbounds...))\<close>: all named outbounds are there, in order; without rules the first
  carries everything; and rules on addresses always stand behind a resolver.
\<close>

lemma outbound_chain:
  assumes "getOutboundConfig X c = Inr ob"
  obtains obs base where "obs \<noteq> []" "map fst obs = (if svc_Outbounds c = [] then [''default''] else map oe_Name (svc_Outbounds c))" "'''' \<notin> set (map fst obs)"
    "acl_File (svc_ACL c) = '''' \<and> acl_Inline (svc_ACL c) = [] \<Longrightarrow> base = snd (hd obs)"
    "ob = base \<and> acl_File (svc_ACL c) = '''' \<and> acl_Inline (svc_ACL c) = [] \<or> ob = oo_System X base
       \<or> (\<exists>a t. ob = oo_TCP X a t base \<or> ob = oo_UDP X a t base) \<or> (\<exists>a t sni i. ob = oo_TLS X a t sni i base \<or> ob = oo_DoH X a t sni i base)"
proof -
  obtain obs hasACL base where o: "outbound_entries X (svc_Outbounds c) = Inr obs" "acl_outbound X (svc_ACL c) obs = Inr (hasACL, base)"
    "resolver_outbound X (svc_Resolver c) hasACL base = Inr ob"
    using assms by (auto simp: getOutboundConfig_def split: sum.splits)
  have n: "map fst obs = (if svc_Outbounds c = [] then [''default''] else map oe_Name (svc_Outbounds c))" "'''' \<notin> set (map fst obs)"
    using o(1) outbound_loop_names [of X "svc_Outbounds c" obs] by (auto simp: outbound_entries_def split: if_splits)
  have a: "hasACL \<longleftrightarrow> \<not> (acl_File (svc_ACL c) = '''' \<and> acl_Inline (svc_ACL c) = [])" "\<not> hasACL \<Longrightarrow> base = snd (hd obs)"
    using o(2) by (auto simp: acl_outbound_def map_sum_Inr split: if_splits)
  have r: "ob = base \<and> \<not> hasACL \<or> ob = oo_System X base \<or> (\<exists>a t. ob = oo_TCP X a t base \<or> ob = oo_UDP X a t base)
      \<or> (\<exists>a t sni i. ob = oo_TLS X a t sni i base \<or> ob = oo_DoH X a t sni i base)"
    using o(3) unfolding resolver_outbound_def Let_def by (simp split: if_splits) blast+
  have "obs \<noteq> []" using n(1) by (metis list.simps(8) not_Cons_self2 map_is_Nil_conv)
  then show thesis using that [of obs base] n a r by blast
qed

end
