(* ===== verification/Hy2_Server.thy ===== *)
theory Hy2_Server
  imports Hy2_Config
begin

text \<open>
  The nodes of the Hysteria2 core: \<open>core/hy2/node.go\<close>, \<open>hy2.go\<close> and the parts of \<open>config.go\<close> that open the socket.
  Sockets and servers are those of the operating system and of the hysteria packages; their contract is the
  locale \<open>udp_sockets\<close>.
\<close>

section \<open>The configuration of a server (\<open>config.go\<close>)\<close>

record ('cert, 'ports, 'conn, 'ob) server_Config =
  hk_TLSConfig :: "'cert server_TLSConfig"
  hk_QUICConfig :: QUICConfig
  hk_Conn :: 'conn
  hk_RequestHook :: "'ports Sniffer option"
  hk_Outbound :: 'ob
  hk_MaxTx :: "64 word"
  hk_MaxRx :: "64 word"
  hk_IgnoreClientBandwidth :: bool
  hk_DisableUDP :: bool
  hk_UDPIdleTimeout :: duration
  hk_Tag :: string
  hk_MasqHandler :: masq_handler

text \<open>
  \<open>'net\<close> is the state of the sockets. \<open>he_Read\<close> and \<open>he_Unmarshal\<close> are viper's, \<open>he_Resolve\<close> is \<open>net.ResolveUDPAddr\<close>,
  \<open>he_Listen\<close> opens a socket, \<open>he_Salamander\<close> wraps it, \<open>he_NewServer\<close> starts a server on it and \<open>he_Close\<close> stops
  the server. The tag stands for the event logger and the traffic logger of the node.
\<close>

record ('net, 'addr, 'conn, 'srv, 'cert, 'ports, 'ob, 'i, 's) hy_env =
  he_Read :: "string \<Rightarrow> string option"
  he_Unmarshal :: "string \<Rightarrow> string + serverConfig"
  he_LoadKeyPair :: "string \<Rightarrow> string \<Rightarrow> string + 'cert"
  he_Resolve :: "string \<Rightarrow> string + 'addr"
  he_Listen :: "'net \<Rightarrow> 'addr \<Rightarrow> 'net \<times> (string + 'conn)"
  he_Salamander :: "'conn \<Rightarrow> string \<Rightarrow> string + 'conn"
  he_LocalAddr :: "'conn \<Rightarrow> string"
  he_ParsePorts :: "string \<Rightarrow> 'ports option"
  he_outbounds :: "('ob, 'i, 's) outbound_ops"
  he_ParseURL :: "string \<Rightarrow> string + string \<times> string"
  he_NewServer :: "('cert, 'ports, 'conn, 'ob) server_Config \<Rightarrow> 'net \<Rightarrow> 'net \<times> (string + 'srv)"
  he_Close :: "'srv \<Rightarrow> 'net \<Rightarrow> 'net \<times> string option"

definition obfuscated ::
  "('net, 'addr, 'conn, 'srv, 'cert, 'ports, 'ob, 'i, 's) hy_env \<Rightarrow> Hysteria2Node \<Rightarrow> 'conn \<Rightarrow> string + 'conn" where
  "obfuscated E n conn =
     (let obfs = strings_ToLower (h2_ObfsType n)
      in if obfs = '''' \<or> obfs = ''plain'' then Inr conn
         else if obfs = ''salamander'' then he_Salamander E conn (h2_ObfsPassword n)
         else Inl ''unsupported obfuscation type'')"

definition getConn ::
  "('net, 'addr, 'conn, 'srv, 'cert, 'ports, 'ob, 'i, 's) hy_env \<Rightarrow> 'net \<Rightarrow> 'raw NodeInfo \<Rightarrow> 'raw Options \<Rightarrow> ('net \<times> (string + 'conn)) go" where
  "getConn E net info config =
     (case ni_Common info of
        None \<Rightarrow> None
      | Some common \<Rightarrow>
          (case he_Resolve E (formatAddress (op_ListenIP config) (cn_ServerPort common)) of
             Inl e \<Rightarrow> Some (net, Inl e)
           | Inr uAddr \<Rightarrow>
               (case he_Listen E net uAddr of
                  (net, Inl e) \<Rightarrow> Some (net, Inl e)
                | (net, Inr conn) \<Rightarrow>
                    (case ni_Hysteria2 info of
                       None \<Rightarrow> None
                     | Some n \<Rightarrow> Some (net, obfuscated E n conn)))))"

text \<open>The rest of the configuration, once the socket is open; the masquerade server is started with it.\<close>

definition server_config ::
  "('net, 'addr, 'conn, 'srv, 'cert, 'ports, 'ob, 'i, 's) hy_env \<Rightarrow> string \<Rightarrow> Hysteria2Node \<Rightarrow> serverConfig \<Rightarrow> 'cert server_TLSConfig \<Rightarrow> QUICConfig \<Rightarrow> 'conn
   \<Rightarrow> string + ('cert, 'ports, 'conn, 'ob) server_Config \<times> MasqTCPServer option" where
  "server_config E tag n c tls quic conn =
     (case getRequestHook (he_ParsePorts E) c of
        Inl e \<Rightarrow> Inl e
      | Inr sniff \<Rightarrow>
          (case getOutboundConfig (he_outbounds E) c of
             Inl e \<Rightarrow> Inl e
           | Inr Outbound \<Rightarrow>
               (case getMasqHandler (he_ParseURL E) (he_LocalAddr E conn) c of
                  Inl e \<Rightarrow> Inl e
                | Inr (Masq, tcp) \<Rightarrow>
                    Inr (\<lparr>hk_TLSConfig = tls, hk_QUICConfig = quic, hk_Conn = conn, hk_RequestHook = sniff, hk_Outbound = Outbound,
                          hk_MaxTx = fst (getBandwidthConfig n), hk_MaxRx = snd (getBandwidthConfig n),
                          hk_IgnoreClientBandwidth = h2_Ignore_Client_Bandwidth n, hk_DisableUDP = svc_DisableUDP c,
                          hk_UDPIdleTimeout = svc_UDPIdleTimeout c, hk_Tag = tag, hk_MasqHandler = Masq\<rparr>, tcp))))"

definition getHyConfig ::
  "('net, 'addr, 'conn, 'srv, 'cert, 'ports, 'ob, 'i, 's) hy_env \<Rightarrow> 'net \<Rightarrow> string \<Rightarrow> 'raw NodeInfo \<Rightarrow> 'raw Options \<Rightarrow> serverConfig
   \<Rightarrow> ('net \<times> (string + ('cert, 'ports, 'conn, 'ob) server_Config \<times> MasqTCPServer option)) go" where
  "getHyConfig E net tag info config c =
     (case getTLSConfig (he_LoadKeyPair E) config of
        Inl e \<Rightarrow> Some (net, Inl e)
      | Inr tls \<Rightarrow>
          (case getQUICConfig c of
             Inl e \<Rightarrow> Some (net, Inl e)
           | Inr quic \<Rightarrow>
               (case getConn E net info config of
                  None \<Rightarrow> None
                | Some (net, Inl e) \<Rightarrow> Some (net, Inl e)
                | Some (net, Inr conn) \<Rightarrow>
                    (case ni_Hysteria2 info of
                       None \<Rightarrow> None
                     | Some n \<Rightarrow> Some (net, server_config E tag n c tls quic conn)))))"

section \<open>Nodes (\<open>node.go\<close>, \<open>hy2.go\<close>)\<close>

text \<open>
  The core. \<open>hyc_servers\<close> is the field \<open>Hy2server\<close> of the registered nodes, \<open>hyc_masq\<close> the masquerade servers that
  were started.
\<close>

record ('net, 'srv) Hysteria2 =
  hyc_Nodes :: hy2_nodes
  hyc_servers :: "(string, 'srv) gomap"
  hyc_Auth :: hy2_auth
  hyc_net :: 'net
  hyc_masq :: "MasqTCPServer list"

definition read_server_config ::
  "('net, 'addr, 'conn, 'srv, 'cert, 'ports, 'ob, 'i, 's) hy_env \<Rightarrow> string \<Rightarrow> string + serverConfig" where
  "read_server_config E path =
     (if path = '''' then Inr zero_serverConfig
      else case he_Read E path of
        Some e \<Rightarrow> Inl (''failed to read hysteria2 server config: '' @ e)
      | None \<Rightarrow> with_error ''failed to parse hysteria2 server config: '' (he_Unmarshal E path))"

definition new_Hysteria2node :: "string \<Rightarrow> Hysteria2node" where
  "new_Hysteria2node tag = \<lparr>hn_Tag = tag, hn_TrafficLogger = Some \<lparr>hs_Tag = tag, hs_Counter = []\<rparr>\<rparr>"

definition Hy2_AddNode ::
  "('net, 'addr, 'conn, 'srv, 'cert, 'ports, 'ob, 'i, 's) hy_env \<Rightarrow> ('net, 'srv) Hysteria2 \<Rightarrow> string \<Rightarrow> 'raw NodeInfo \<Rightarrow> 'raw Options
   \<Rightarrow> (('net, 'srv) Hysteria2 \<times> string option) go" where
  "Hy2_AddNode E h tag info config =
     (case read_server_config E (op_Hysteria2ConfigPath config) of
        Inl e \<Rightarrow> Some (h, Some e)
      | Inr c \<Rightarrow>
          (case getHyConfig E (hyc_net h) tag info config c of
             None \<Rightarrow> None
           | Some (net, Inl e) \<Rightarrow> Some (h\<lparr>hyc_net := net\<rparr>, Some e)
           | Some (net, Inr (hyconfig, tcp)) \<Rightarrow>
               let h = h\<lparr>hyc_masq := (case tcp of None \<Rightarrow> hyc_masq h | Some s \<Rightarrow> s # hyc_masq h)\<rparr>
               in case he_NewServer E hyconfig net of
                    (net, Inl e) \<Rightarrow> Some (h\<lparr>hyc_net := net\<rparr>, Some e)
                  | (net, Inr s) \<Rightarrow>
                      Some (h\<lparr>hyc_net := net, hyc_Nodes := Hy2_setNode (hyc_Nodes h) tag (new_Hysteria2node tag),
                              hyc_servers := mstore (hyc_servers h) tag s\<rparr>, None)))"

definition Hy2_DelNode ::
  "('net, 'addr, 'conn, 'srv, 'cert, 'ports, 'ob, 'i, 's) hy_env \<Rightarrow> ('net, 'srv) Hysteria2 \<Rightarrow> string \<Rightarrow> ('net, 'srv) Hysteria2 \<times> string option" where
  "Hy2_DelNode E h tag =
     (case mload (hyc_servers h) tag of
        None \<Rightarrow> (h, Some (''node '' @ tag @ '' not found''))
      | Some s \<Rightarrow>
          (case he_Close E s (hyc_net h) of
             (net, Some e) \<Rightarrow> (h\<lparr>hyc_net := net\<rparr>, Some e)
           | (net, None) \<Rightarrow>
               (h\<lparr>hyc_net := net, hyc_Nodes := Hy2_deleteNode (hyc_Nodes h) tag, hyc_servers := mdelete (hyc_servers h) tag\<rparr>, None)))"

text \<open>\<open>Close\<close> stops the servers in the order of the snapshot, up to the first error.\<close>

fun close_servers :: "('srv \<Rightarrow> 'net \<Rightarrow> 'net \<times> string option) \<Rightarrow> 'srv list \<Rightarrow> 'net \<Rightarrow> 'net \<times> string option" where
  "close_servers close [] net = (net, None)"
| "close_servers close (s # rest) net =
     (case close s net of (net, Some e) \<Rightarrow> (net, Some e) | (net, None) \<Rightarrow> close_servers close rest net)"

definition nodesSnapshot :: "('net, 'srv) Hysteria2 \<Rightarrow> 'srv list" where
  "nodesSnapshot h = map snd (hyc_servers h)"

definition Hy2_Close ::
  "('net, 'addr, 'conn, 'srv, 'cert, 'ports, 'ob, 'i, 's) hy_env \<Rightarrow> ('net, 'srv) Hysteria2 \<Rightarrow> ('net, 'srv) Hysteria2 \<times> string option" where
  "Hy2_Close E h = (case close_servers (he_Close E) (nodesSnapshot h) (hyc_net h) of (net, e) \<Rightarrow> (h\<lparr>hyc_net := net\<rparr>, e))"

text \<open>The levels and formats of the log (\<open>logger.go\<close>); \<open>build\<close> is zap's.\<close>

definition logLevelMap :: "string list" where "logLevelMap = [''debug'', ''info'', ''warn'', ''error'']"

definition logFormatMap :: "string list" where "logFormatMap = [''console'', ''json'']"

definition initLogger :: "(string \<Rightarrow> string \<Rightarrow> string option) \<Rightarrow> string \<Rightarrow> string \<Rightarrow> string option" where
  "initLogger build logLevel logFormat =
     (if strings_ToLower logLevel \<notin> set logLevelMap then Some (''unsupported log level: '' @ logLevel)
      else if strings_ToLower logFormat \<notin> set logFormatMap then Some (''unsupported log format: '' @ logFormat)
      else map_option ((@) ''failed to initialize logger: '') (build (strings_ToLower logLevel) (strings_ToLower logFormat)))"

definition Hy2_New :: "(string \<Rightarrow> string \<Rightarrow> string option) \<Rightarrow> 'net \<Rightarrow> CoreConfig \<Rightarrow> (string + ('net, 'srv) Hysteria2) go" where
  "Hy2_New build net c =
     (case co_Hysteria2Config c of
        None \<Rightarrow> None
      | Some hc \<Rightarrow>
          let level = hlc_Level (hc_LogConfig hc); loglever = (if level \<noteq> '''' then level else ''error'')
          in Some (case initLogger build loglever ''console'' of
               Some e \<Rightarrow> Inl e
             | None \<Rightarrow> Inr \<lparr>hyc_Nodes = [], hyc_servers = [], hyc_Auth = [], hyc_net = net, hyc_masq = []\<rparr>))"

section \<open>Sockets\<close>

text \<open>The listen address of a node, when it resolves, has a fixed port.\<close>

definition fixed_listen ::
  "('addr \<Rightarrow> bool) \<Rightarrow> ('net, 'addr, 'conn, 'srv, 'cert, 'ports, 'ob, 'i, 's) hy_env \<Rightarrow> 'raw NodeInfo \<Rightarrow> 'raw Options \<Rightarrow> bool" where
  "fixed_listen fixed E info config \<longleftrightarrow>
     (\<forall>common a. ni_Common info = Some common \<longrightarrow> he_Resolve E (formatAddress (op_ListenIP config) (cn_ServerPort common)) = Inr a \<longrightarrow> fixed a)"

text \<open>
  What the operating system and the hysteria server promise: an address with a fixed port is bound once, a socket
  that could not be opened changes nothing, wrapping keeps the address, a server takes over the address of its
  socket, and closing it releases the address. A server that cannot start may or may not have closed the
  socket, and so may a server that fails to close.
\<close>

locale udp_sockets =
  fixes fixed :: "'addr \<Rightarrow> bool" and bound :: "'net \<Rightarrow> 'addr set" and caddr :: "'conn \<Rightarrow> 'addr" and saddr :: "'srv \<Rightarrow> 'addr"
    and E :: "('net, 'addr, 'conn, 'srv, 'cert, 'ports, 'ob, 'i, 's) hy_env"
  assumes listen_ok: "fixed a \<Longrightarrow> he_Listen E net a = (net', Inr c) \<Longrightarrow> caddr c = a \<and> a \<notin> bound net \<and> bound net' = insert a (bound net)"
    and listen_failed: "he_Listen E net a = (net', Inl e) \<Longrightarrow> bound net' = bound net"
    and salamander: "he_Salamander E c p = Inr c' \<Longrightarrow> caddr c' = caddr c"
    and start_ok: "he_NewServer E cfg net = (net', Inr s) \<Longrightarrow> bound net' = bound net \<and> saddr s = caddr (hk_Conn cfg)"
    and start_failed: "he_NewServer E cfg net = (net', Inl e) \<Longrightarrow> bound net' = bound net \<or> bound net' = bound net - {caddr (hk_Conn cfg)}"
    and close_ok: "he_Close E s net = (net', None) \<Longrightarrow> bound net' = bound net - {saddr s}"
    and close_failed: "he_Close E s net = (net', Some e) \<Longrightarrow> bound net' = bound net \<or> bound net' = bound net - {saddr s}"
begin

lemma obfuscated_addr: "obfuscated E n c = Inr c' \<Longrightarrow> caddr c' = caddr c"
  using salamander by (auto simp: obfuscated_def Let_def split: if_splits)

lemma getConn_bound:
  assumes "getConn E net info config = Some (net', r)"
    and "fixed_listen fixed E info config"
  shows "case r of
      Inr c \<Rightarrow> caddr c \<notin> bound net \<and> bound net' = insert (caddr c) (bound net)
    | Inl _ \<Rightarrow> bound net \<subseteq> bound net'"
proof -
  obtain common where m: "ni_Common info = Some common" using assms(1) by (auto simp: getConn_def split: option.splits)
  show ?thesis
  proof (cases "he_Resolve E (formatAddress (op_ListenIP config) (cn_ServerPort common))")
    case (Inl e)
    then show ?thesis using assms(1) m by (auto simp: getConn_def)
  next
    case (Inr a)
    obtain net1 l where l: "he_Listen E net a = (net1, l)" by fastforce
    show ?thesis
    proof (cases l)
      case (Inl e)
      then show ?thesis using assms(1) m Inr l listen_failed [of net a net1 e] by (auto simp: getConn_def)
    next
      case c: (Inr c)
      obtain n where "net' = net1" "r = obfuscated E n c" using assms(1) m Inr l c by (auto simp: getConn_def split: option.splits)
      then show ?thesis using listen_ok [OF _ l [unfolded c]] assms(2) m Inr obfuscated_addr [of n c] by (auto simp: fixed_listen_def split: sum.splits)
    qed
  qed
qed

lemma getHyConfig_bound:
  assumes "getHyConfig E net tag info config c = Some (net', r)"
    and "fixed_listen fixed E info config"
  shows "case r of
      Inr (cfg, _) \<Rightarrow> caddr (hk_Conn cfg) \<notin> bound net \<and> bound net' = insert (caddr (hk_Conn cfg)) (bound net)
    | Inl _ \<Rightarrow> bound net \<subseteq> bound net'"
proof -
  consider e where "net' = net" "r = Inl e"
    | e where "getConn E net info config = Some (net', Inl e)" "r = Inl e"
    | conn n tls quic where "getConn E net info config = Some (net', Inr conn)" "r = server_config E tag n c tls quic conn"
    using assms(1) by (auto simp: getHyConfig_def split: sum.splits option.splits)
  then show ?thesis
  proof cases
    case 3
    then have "hk_Conn cfg = conn" if "r = Inr (cfg, tcp)" for cfg tcp
      using that by (auto simp: server_config_def split: sum.splits)
    then show ?thesis using getConn_bound [OF 3(1) assms(2)] by (auto split: sum.splits)
  qed (use getConn_bound [OF _ assms(2)] in \<open>fastforce+\<close>)
qed

text \<open>An address that is bound cannot be bound again.\<close>

lemma bound_blocks: "fixed a \<Longrightarrow> a \<in> bound net \<Longrightarrow> \<exists>net' e. he_Listen E net a = (net', Inl e)"
  using listen_ok [of a net] by (cases "he_Listen E net a"; cases "snd (he_Listen E net a)") auto

end

text \<open>Every registered node has a server on a socket of its own.\<close>

definition hy2_inv :: "('net \<Rightarrow> 'addr set) \<Rightarrow> ('srv \<Rightarrow> 'addr) \<Rightarrow> ('net, 'srv) Hysteria2 \<Rightarrow> bool" where
  "hy2_inv bound saddr h \<longleftrightarrow>
     (\<forall>t. mload (hyc_Nodes h) t = None \<longleftrightarrow> mload (hyc_servers h) t = None)
     \<and> (\<forall>t s. mload (hyc_servers h) t = Some s \<longrightarrow> saddr s \<in> bound (hyc_net h))
     \<and> (\<forall>t u s s'. mload (hyc_servers h) t = Some s \<longrightarrow> mload (hyc_servers h) u = Some s' \<longrightarrow> saddr s = saddr s' \<longrightarrow> t = u)"

lemma hy2_inv_sockets:
  assumes "hy2_inv bound saddr h" and "hyc_Nodes h' = hyc_Nodes h" and "hyc_servers h' = hyc_servers h" and "bound (hyc_net h) \<subseteq> bound (hyc_net h')"
  shows "hy2_inv bound saddr h'"
  using assms by (auto simp: hy2_inv_def)

text \<open>The ways in which adding a node ends.\<close>

lemma Hy2_AddNode_cases:
  assumes "Hy2_AddNode E h tag info config = Some (h', e)"
  obtains x where "h' = h" "e = Some x"
    | c net x where "getHyConfig E (hyc_net h) tag info config c = Some (net, Inl x)" "h' = h\<lparr>hyc_net := net\<rparr>" "e = Some x"
    | c net cfg tcp net' x where "getHyConfig E (hyc_net h) tag info config c = Some (net, Inr (cfg, tcp))" "he_NewServer E cfg net = (net', Inl x)"
        "hyc_net h' = net'" "hyc_servers h' = hyc_servers h" "hyc_Nodes h' = hyc_Nodes h" "e = Some x"
    | c net cfg tcp net' s where "getHyConfig E (hyc_net h) tag info config c = Some (net, Inr (cfg, tcp))" "he_NewServer E cfg net = (net', Inr s)"
        "hyc_net h' = net'" "hyc_servers h' = mstore (hyc_servers h) tag s" "hyc_Nodes h' = mstore (hyc_Nodes h) tag (new_Hysteria2node tag)" "e = None"
proof (cases "read_server_config E (op_Hysteria2ConfigPath config)")
  case (Inl x)
  show thesis by (rule that(1) [of x]) (use assms Inl in \<open>simp_all add: Hy2_AddNode_def\<close>)
next
  case c: (Inr c)
  show thesis
  proof (cases "getHyConfig E (hyc_net h) tag info config c")
    case None
    then show thesis using assms c by (simp add: Hy2_AddNode_def)
  next
    case (Some p)
    then obtain net r where g: "getHyConfig E (hyc_net h) tag info config c = Some (net, r)" by (cases p) auto
    show thesis
    proof (cases r)
      case (Inl x)
      show thesis by (rule that(2) [of c net x]) (use assms c g Inl in \<open>simp_all add: Hy2_AddNode_def\<close>)
    next
      case (Inr y)
      then obtain cfg tcp where r: "r = Inr (cfg, tcp)" by (cases y) auto
      obtain net' w where w: "he_NewServer E cfg net = (net', w)" by fastforce
      show thesis
      proof (cases w)
        case (Inl x)
        show thesis by (rule that(3) [of c net cfg tcp net' x]) (use assms c g r w Inl in \<open>auto simp: Hy2_AddNode_def Let_def\<close>)
      next
        case (Inr srv)
        show thesis by (rule that(4) [of c net cfg tcp net' srv]) (use assms c g r w Inr in \<open>auto simp: Hy2_AddNode_def Hy2_setNode_def Let_def\<close>)
      qed
    qed
  qed
qed

lemma Hy2_AddNode_outcome:
  assumes "udp_sockets fixed bound caddr saddr E" and "hy2_inv bound saddr h"
    and "fixed_listen fixed E info config" and "Hy2_AddNode E h tag info config = Some (h', e)"
  shows "hy2_inv bound saddr h' \<and>
        (if e = None then \<exists>s. saddr s \<notin> bound (hyc_net h) \<and> bound (hyc_net h') = insert (saddr s) (bound (hyc_net h))
              \<and> hyc_servers h' = mstore (hyc_servers h) tag s \<and> hyc_Nodes h' = mstore (hyc_Nodes h) tag (new_Hysteria2node tag)
         else hyc_servers h' = hyc_servers h \<and> hyc_Nodes h' = hyc_Nodes h)"
  using assms(4)
proof (cases rule: Hy2_AddNode_cases)
  case 1
  then show ?thesis using assms(2) by simp
next
  case 2
  then show ?thesis using hy2_inv_sockets [OF assms(2), of h'] udp_sockets.getHyConfig_bound [OF assms(1) 2(1) assms(3)] by auto
next
  case 3
  note b = udp_sockets.getHyConfig_bound [OF assms(1) 3(1) assms(3)]
  have "bound (hyc_net h) \<subseteq> bound (hyc_net h')" using b udp_sockets.start_failed [OF assms(1) 3(2)] 3(3) by auto
  then show ?thesis using hy2_inv_sockets [OF assms(2), of h'] 3 by auto
next
  case (4 c net cfg tcp net' s)
  note b = udp_sockets.getHyConfig_bound [OF assms(1) 4(1) assms(3)]
  have s: "saddr s \<notin> bound (hyc_net h)" "bound (hyc_net h') = insert (saddr s) (bound (hyc_net h))"
    using b udp_sockets.start_ok [OF assms(1) 4(2)] 4(3) by auto
  then have "hy2_inv bound saddr h'" using assms(2) 4(4,5) unfolding hy2_inv_def by (auto; metis)
  then show ?thesis using s 4 by auto
qed

lemma Hy2_DelNode_outcome:
  assumes "udp_sockets fixed bound caddr saddr E" and "hy2_inv bound saddr h"
    and d: "Hy2_DelNode E h tag = (h', e)" and s: "mload (hyc_servers h) tag = Some s"
  shows "if e = None then hy2_inv bound saddr h' \<and> bound (hyc_net h') = bound (hyc_net h) - {saddr s}
              \<and> hyc_servers h' = mdelete (hyc_servers h) tag \<and> hyc_Nodes h' = mdelete (hyc_Nodes h) tag
         else hyc_servers h' = hyc_servers h \<and> hyc_Nodes h' = hyc_Nodes h"
proof -
  obtain net where c: "he_Close E s (hyc_net h) = (net, e)" "hyc_net h' = net" using d s by (auto simp: Hy2_DelNode_def split: prod.splits option.splits)
  show ?thesis
  proof (cases e)
    case None
    have h': "hyc_servers h' = mdelete (hyc_servers h) tag" "hyc_Nodes h' = mdelete (hyc_Nodes h) tag"
      using d s c None by (auto simp: Hy2_DelNode_def Hy2_deleteNode_def)
    have b: "bound (hyc_net h') = bound (hyc_net h) - {saddr s}" using udp_sockets.close_ok [OF assms(1)] c None by simp
    have "hy2_inv bound saddr h'" using assms(2) h' b s unfolding hy2_inv_def by (auto split: if_splits)
    then show ?thesis using h' b None by simp
  next
    case (Some x)
    then show ?thesis using d s c by (auto simp: Hy2_DelNode_def)
  qed
qed

text \<open>
  C37. The life of a Hysteria2 node. Adding a node, whatever comes of it, keeps every registered node on a socket of its
  own; when it succeeds exactly one new address is bound, its server is registered with empty counters, and
  no other node changes; when it fails no node changes. Deleting a node that is there releases its address
  and forgets it; when the server cannot be closed the node stays registered. This needs the contract of the
  sockets and listen addresses with a port other than 0.
\<close>

theorem hy2_node_lifecycle:
  assumes "udp_sockets fixed bound caddr saddr E" and "hy2_inv bound saddr h"
    and "fixed_listen fixed E info config"
  shows "(\<forall>h' e. Hy2_AddNode E h tag info config = Some (h', e) \<longrightarrow> hy2_inv bound saddr h' \<and>
        (if e = None then \<exists>s. saddr s \<notin> bound (hyc_net h) \<and> bound (hyc_net h') = insert (saddr s) (bound (hyc_net h))
              \<and> hyc_servers h' = mstore (hyc_servers h) tag s \<and> hyc_Nodes h' = mstore (hyc_Nodes h) tag (new_Hysteria2node tag)
         else hyc_servers h' = hyc_servers h \<and> hyc_Nodes h' = hyc_Nodes h))
    \<and> (\<forall>h' e s. Hy2_DelNode E h tag = (h', e) \<longrightarrow> mload (hyc_servers h) tag = Some s \<longrightarrow>
        (if e = None then hy2_inv bound saddr h' \<and> bound (hyc_net h') = bound (hyc_net h) - {saddr s}
              \<and> hyc_servers h' = mdelete (hyc_servers h) tag \<and> hyc_Nodes h' = mdelete (hyc_Nodes h) tag
         else hyc_servers h' = hyc_servers h \<and> hyc_Nodes h' = hyc_Nodes h))"
  using Hy2_AddNode_outcome [OF assms] Hy2_DelNode_outcome [OF assms(1,2)] by blast

text \<open>
  Sockets as the list of the bound addresses, each address the text that was formatted. Salamander wants a
  password of at least four bytes. \<open>configs\<close> are the configuration files.
\<close>

definition list_sockets :: "(string \<Rightarrow> string + serverConfig) \<Rightarrow> (string list, string, string, string, unit, unit, unit, unit, unit) hy_env" where
  "list_sockets configs =
     \<lparr>he_Read = (\<lambda>_. None), he_Unmarshal = configs, he_LoadKeyPair = (\<lambda>_ _. Inr ()), he_Resolve = Inr,
      he_Listen = (\<lambda>net a. if a \<in> set net then (net, Inl ''address already in use'') else (a # net, Inr a)),
      he_Salamander = (\<lambda>c p. if length p < 4 then Inl ''PSK must be at least 4 bytes'' else Inr c), he_LocalAddr = id, he_ParsePorts = (\<lambda>_. Some ()),
      he_outbounds = \<lparr>oo_ParseIP = (\<lambda>_. True), oo_Simple = (\<lambda>_. ()), oo_BindToIPs = (\<lambda>_ _ _. Inr ()), oo_BindToDevice = (\<lambda>_ _. Inr ()),
        oo_SOCKS5 = (\<lambda>_ _ _. ()), oo_HTTP = (\<lambda>_ _. Inr ()), oo_ACLFile = (\<lambda>_ _ _. Inr ()), oo_ACLString = (\<lambda>_ _ _. Inr ()), oo_System = id,
        oo_TCP = (\<lambda>_ _. id), oo_UDP = (\<lambda>_ _. id), oo_TLS = (\<lambda>_ _ _ _. id), oo_DoH = (\<lambda>_ _ _ _. id)\<rparr>,
      he_ParseURL = (\<lambda>_. Inl ''''), he_NewServer = (\<lambda>cfg net. (net, Inr (hk_Conn cfg))), he_Close = (\<lambda>s net. (removeAll s net, None))\<rparr>"

interpretation listed: udp_sockets "\<lambda>a. extractPortFromAddr a \<noteq> 0" set id id "list_sockets configs" for configs
  by unfold_locales (auto simp: list_sockets_def split: if_splits)

definition example_hy2_info :: "string NodeInfo" where
  "example_hy2_info = (let common = \<lparr>cn_Host = '''', cn_ServerPort = 443, cn_ServerName = '''', cn_Routes = [], cn_BaseConfig = None\<rparr>
     in (empty_NodeInfo 1 ''hysteria2'')\<lparr>ni_Common := Some common, ni_Hysteria2 := Some \<lparr>h2_CommonNode = common,
       h2_Ignore_Client_Bandwidth = False, h2_UpMbps = 100, h2_DownMbps = 0, h2_ObfsType = '''', h2_ObfsPassword = ''''\<rparr>\<rparr>)"

definition example_hy2_options :: "string \<Rightarrow> string Options" where
  "example_hy2_options path = example_options\<lparr>op_ListenIP := ''::'', op_Hysteria2ConfigPath := path,
     op_CertConfig := Some (NewCertConfig\<lparr>cc_CertMode := ''file''\<rparr>)\<rparr>"

definition no_hy2 :: "(string list, string) Hysteria2" where
  "no_hy2 = \<lparr>hyc_Nodes = [], hyc_servers = [], hyc_Auth = [], hyc_net = [], hyc_masq = []\<rparr>"

text \<open>A configuration with a masquerade type that is not known.\<close>

definition bad_masquerade :: serverConfig where
  "bad_masquerade = zero_serverConfig\<lparr>svc_Masquerade := (svc_Masquerade zero_serverConfig)\<lparr>mq_Type := ''none''\<rparr>\<rparr>"

lemmas hy2_example_defs = example_hy2_info_def example_hy2_options_def empty_NodeInfo_def no_hy2_def Let_def

lemma no_hy2_inv: "hy2_inv set id no_hy2"
  by (simp add: hy2_inv_def no_hy2_def)

lemma example_hy2_config:
  "getTLSConfig (he_LoadKeyPair (list_sockets configs)) (example_hy2_options path) = Inr \<lparr>tc_Certificates = [()], tc_GetCertificate = (cc_CertFile NewCertConfig, cc_KeyFile NewCertConfig)\<rparr>"
  "getConn (list_sockets configs) net example_hy2_info (example_hy2_options path)
     = Some (if ''[::]:443'' \<in> set net then (net, Inl ''address already in use'') else (''[::]:443'' # net, Inr ''[::]:443''))"
proof -
  have "formatAddress ''::'' 443 = ''[::]:443''" by code_simp
  then show "getConn (list_sockets configs) net example_hy2_info (example_hy2_options path)
     = Some (if ''[::]:443'' \<in> set net then (net, Inl ''address already in use'') else (''[::]:443'' # net, Inr ''[::]:443''))"
    by (simp add: getConn_def list_sockets_def obfuscated_def strings_ToLower_def hy2_example_defs)
qed (simp add: getTLSConfig_def list_sockets_def NewCertConfig_def hy2_example_defs)

lemma zero_config_parts:
  "\<exists>q. getQUICConfig zero_serverConfig = Inr q" "getQUICConfig bad_masquerade = getQUICConfig zero_serverConfig"
  "getRequestHook p zero_serverConfig = Inr None" "getRequestHook p bad_masquerade = Inr None"
  "getOutboundConfig X zero_serverConfig = Inr (oo_Simple X ModeAuto)" "getOutboundConfig X bad_masquerade = Inr (oo_Simple X ModeAuto)"
  "getMasqHandler parse a zero_serverConfig = Inr (NotFoundHandler, None)" "getMasqHandler parse a bad_masquerade = Inl ''masquerade.type unsupported masquerade type''"
proof -
  show "\<exists>q. getQUICConfig zero_serverConfig = Inr q" by (simp add: getQUICConfig_Inr quic_in_range_def zero_serverConfig_def)
  show "getQUICConfig bad_masquerade = getQUICConfig zero_serverConfig" unfolding getQUICConfig_def by (simp add: bad_masquerade_def)
qed (simp_all add: bad_masquerade_def zero_serverConfig_def getRequestHook_def getOutboundConfig_def outbound_entries_def acl_outbound_def resolver_outbound_def
    getMasqHandler_def masq_handler_of_def strings_ToLower_def to_lower_def Let_def)

lemma example_node_added:
  "\<exists>h. Hy2_AddNode (list_sockets configs) no_hy2 ''t'' example_hy2_info (example_hy2_options '''') = Some (h, None) \<and> hyc_net h = [''[::]:443'']"
proof -
  obtain q where q: "getQUICConfig zero_serverConfig = Inr q" using zero_config_parts(1) by blast
  have i: "\<exists>n. ni_Hysteria2 example_hy2_info = Some n" by (simp add: hy2_example_defs)
  have p: "op_Hysteria2ConfigPath (example_hy2_options '''') = ''''" "hyc_net no_hy2 = []" by (simp_all add: hy2_example_defs)
  have s: "he_NewServer (list_sockets configs) cfg net = (net, Inr (hk_Conn cfg))" for cfg net by (simp add: list_sockets_def)
  show ?thesis using i
    by (auto simp: Hy2_AddNode_def read_server_config_def p getHyConfig_def example_hy2_config q server_config_def zero_config_parts(3,5,7) s)
qed

theorem hy2_node_lifecycle_witness:
  "\<exists>h s. Hy2_AddNode (list_sockets Inl) no_hy2 ''t'' example_hy2_info (example_hy2_options '''') = Some (h, None)
     \<and> hy2_inv set id h \<and> hyc_servers h = [(''t'', s)] \<and> set (hyc_net h) = {s}"
proof -
  obtain h where h: "Hy2_AddNode (list_sockets Inl) no_hy2 ''t'' example_hy2_info (example_hy2_options '''') = Some (h, None)" using example_node_added by blast
  have "extractPortFromAddr (formatAddress ''::'' 443) = 443" by code_simp
  then have f: "fixed_listen (\<lambda>a. extractPortFromAddr a \<noteq> 0) (list_sockets Inl) example_hy2_info (example_hy2_options [])"
    by (simp add: fixed_listen_def hy2_example_defs list_sockets_def)
  obtain s where "hy2_inv set id h" "set (hyc_net h) = insert (id s) (set (hyc_net no_hy2))" "hyc_servers h = mstore (hyc_servers no_hy2) ''t'' s"
    using hy2_node_lifecycle [OF listed.udp_sockets_axioms [of Inl] no_hy2_inv f, where tag = "''t''"] h by auto
  then show ?thesis using h by (auto simp: no_hy2_def mstore_def)
qed

section \<open>What is left behind\<close>

text \<open>
  The socket is opened before the rest of the configuration is checked, and no error path closes it. A node whose
  masquerade type is misspelled leaves its port bound; with the file corrected, the node cannot be added until
  the process ends.
\<close>

lemma failed_node_blocks_port:
  defines "E \<equiv> list_sockets (\<lambda>_. Inr bad_masquerade)"
  shows "\<exists>h. Hy2_AddNode E no_hy2 ''t'' example_hy2_info (example_hy2_options ''hy2.yaml'') = Some (h, Some ''masquerade.type unsupported masquerade type'')
     \<and> Hy2_AddNode E h ''t'' example_hy2_info (example_hy2_options '''') = Some (h, Some ''address already in use'')"
proof -
  obtain q where q: "getQUICConfig zero_serverConfig = Inr q" using zero_config_parts(1) by blast
  have i: "\<exists>n. ni_Hysteria2 example_hy2_info = Some n" by (simp add: hy2_example_defs)
  have p: "op_Hysteria2ConfigPath (example_hy2_options path) = path" "hyc_net no_hy2 = []" for path by (simp_all add: hy2_example_defs)
  have r: "read_server_config E ''hy2.yaml'' = Inr bad_masquerade" "read_server_config E '''' = Inr zero_serverConfig"
    by (simp_all add: read_server_config_def E_def list_sockets_def with_error_def)
  have b: "Hy2_AddNode E no_hy2 ''t'' example_hy2_info (example_hy2_options ''hy2.yaml'')
      = Some (no_hy2\<lparr>hyc_net := [''[::]:443'']\<rparr>, Some ''masquerade.type unsupported masquerade type'')"
    using i unfolding Hy2_AddNode_def p r getHyConfig_def
    by (auto simp: E_def example_hy2_config q server_config_def zero_config_parts(2,4,6,8))
  have "Hy2_AddNode E (no_hy2\<lparr>hyc_net := [''[::]:443'']\<rparr>) ''t'' example_hy2_info (example_hy2_options '''')
      = Some (no_hy2\<lparr>hyc_net := [''[::]:443'']\<rparr>, Some ''address already in use'')"
    unfolding Hy2_AddNode_def p r getHyConfig_def by (simp add: E_def example_hy2_config q)
  then show ?thesis using b by blast
qed

text \<open>The masquerade servers over TCP are never stopped: deleting the node or closing the core leaves them running.\<close>

lemma masquerade_outlives_node: "hyc_masq (fst (Hy2_DelNode E h tag)) = hyc_masq h" "hyc_masq (fst (Hy2_Close E h)) = hyc_masq h"
  by (auto simp: Hy2_DelNode_def Hy2_Close_def split: option.splits prod.splits)

text \<open>Closing the core stops at the first server that fails, whose successors keep their sockets.\<close>

lemma close_skips_rest: "close s net = (net', Some e) \<Longrightarrow> close_servers close (s # rest) net = (net', Some e)"
  by simp

text \<open>When every server closes, the core releases the sockets of all its nodes.\<close>

lemma close_releases_all:
  assumes "udp_sockets fixed bound caddr saddr E" and "Hy2_Close E h = (h', None)"
  shows "bound (hyc_net h') = bound (hyc_net h) - saddr ` set (nodesSnapshot h)"
proof -
  have "close_servers (he_Close E) ss net = (net', None) \<Longrightarrow> bound net' = bound net - saddr ` set ss" for ss net net'
  proof (induction ss arbitrary: net)
    case (Cons s ss)
    obtain net1 where n: "he_Close E s net = (net1, None)" "close_servers (he_Close E) ss net1 = (net', None)"
      using Cons.prems by (auto split: prod.splits option.splits)
    show ?case using Cons.IH [OF n(2)] udp_sockets.close_ok [OF assms(1) n(1)] by auto
  qed simp
  then show ?thesis using assms(2) by (auto simp: Hy2_Close_def split: prod.splits)
qed

end
