(* ===== verification/Lego.thy ===== *)
theory Lego
  imports Controller Go_Paths
begin

text \<open>
  Certificates: \<open>node/lego.go\<close> (accounts, issuing and renewing by ACME) and the files of \<open>node/cert.go\<close>. The disk is
  an explicit state of files and directories. The ACME client, the key and JSON encodings and the errors
  of the operating system are the fields of \<open>lego_env\<close>.
\<close>

section \<open>Disk and environment\<close>

record world =
  wo_files :: "string \<Rightarrow> string option"
  wo_dirs :: "string \<Rightarrow> bool"
  wo_environ :: "(string, string) gomap"

record certificate_Resource =
  cr_Certificate :: string
  cr_PrivateKey :: string

record ('key, 'reg) User =
  us_Email :: string
  us_Registration :: "'reg option"
  us_key :: "'key option"
  us_KeyEncoded :: string

text \<open>
  \<open>le_stat\<close> is an error of \<open>os.Stat\<close> other than a missing file; \<open>le_write\<close> an error of writing a file, with what the
  file then holds (\<open>None\<close> when it was not opened); \<open>le_PEM\<close> the bytes of the first PEM block; \<open>le_NotAfter\<close> the end of a
  parsed certificate; \<open>le_Self\<close> the certificate and the key of a self-signed template, in PEM.
\<close>

record ('key, 'reg) lego_env =
  le_now :: gotime
  le_stat :: "string \<Rightarrow> bool"
  le_mkdir :: "string \<Rightarrow> string option"
  le_read :: "string \<Rightarrow> string option"
  le_write :: "string \<Rightarrow> (string \<times> string option) option"
  le_GenerateKey :: "string + 'key"
  le_NewClient :: "('key, 'reg) User \<Rightarrow> string option"
  le_Register :: "('key, 'reg) User \<Rightarrow> string + 'reg"
  le_EncodeKey :: "'key \<Rightarrow> string"
  le_PEM :: "string \<Rightarrow> string option"
  le_ParseKey :: "string \<Rightarrow> string + 'key"
  le_Encode :: "('key, 'reg) User \<Rightarrow> string + string"
  le_Decode :: "string \<Rightarrow> string + ('key, 'reg) User"
  le_HTTP01 :: "string option"
  le_DNSProvider :: "(string, string) gomap \<Rightarrow> string \<Rightarrow> string option"
  le_DNS01 :: "string option"
  le_Obtain :: "('key, 'reg) User \<Rightarrow> string \<Rightarrow> string + certificate_Resource"
  le_Renew :: "('key, 'reg) User \<Rightarrow> string \<Rightarrow> string \<Rightarrow> string + certificate_Resource"
  le_NotAfter :: "string \<Rightarrow> string + gotime"
  le_Self :: "string \<Rightarrow> gotime \<Rightarrow> string + certificate_Resource"

definition IsExist :: "('key, 'reg) lego_env \<Rightarrow> world \<Rightarrow> string \<Rightarrow> bool" where
  "IsExist E w p \<longleftrightarrow> le_stat E p \<or> wo_files w p \<noteq> None \<or> wo_dirs w p"

definition os_ReadFile :: "('key, 'reg) lego_env \<Rightarrow> world \<Rightarrow> string \<Rightarrow> string + string" where
  "os_ReadFile E w p =
     (case le_read E p of
        Some e \<Rightarrow> Inl e
      | None \<Rightarrow> (case wo_files w p of None \<Rightarrow> Inl ''no such file or directory'' | Some d \<Rightarrow> Inr d))"

text \<open>A file can be written in a directory that is there.\<close>

definition os_WriteFile :: "('key, 'reg) lego_env \<Rightarrow> world \<Rightarrow> string \<Rightarrow> string \<Rightarrow> world \<times> string option" where
  "os_WriteFile E w p d =
     (case le_write E p of
        Some (e, None) \<Rightarrow> (w, Some e)
      | Some (e, Some left) \<Rightarrow> (w\<lparr>wo_files := (wo_files w)(p \<mapsto> left)\<rparr>, Some e)
      | None \<Rightarrow>
          if wo_dirs w (path_Dir p) then (w\<lparr>wo_files := (wo_files w)(p \<mapsto> d)\<rparr>, None)
          else (w, Some ''no such file or directory''))"

text \<open>\<open>os.MkdirAll\<close> of a cleaned directory; its parents are not tracked.\<close>

definition checkPath :: "('key, 'reg) lego_env \<Rightarrow> world \<Rightarrow> string \<Rightarrow> world \<times> string option" where
  "checkPath E w p =
     (if IsExist E w (path_Dir p) then (w, None)
      else case le_mkdir E (path_Dir p) of
        Some e \<Rightarrow> (w, Some (''create dir error: '' @ e))
      | None \<Rightarrow> (w\<lparr>wo_dirs := (wo_dirs w)(path_Dir p := True)\<rparr>, None))"

section \<open>Accounts\<close>

text \<open>The key that is nil fails the type assertion.\<close>

definition User_Save :: "('key, 'reg) lego_env \<Rightarrow> world \<Rightarrow> ('key, 'reg) User \<Rightarrow> string \<Rightarrow> (world \<times> ('key, 'reg) User \<times> string option) go" where
  "User_Save E w u path =
     (case checkPath E w path of
        (w, Some e) \<Rightarrow> Some (w, u, Some (''check path error: '' @ e))
      | (w, None) \<Rightarrow>
          (case us_key u of
             None \<Rightarrow> None
           | Some key \<Rightarrow>
               let u = u\<lparr>us_KeyEncoded := le_EncodeKey E key\<rparr>
               in case le_Encode E u of
                    Inl e \<Rightarrow>
                      (case os_WriteFile E w path '''' of
                         (w, Some e') \<Rightarrow> Some (w, u, Some e')
                       | (w, None) \<Rightarrow> Some (w, u, Some (''marshal json error: '' @ e)))
                  | Inr d \<Rightarrow>
                      (case os_WriteFile E w path d of
                         (w, Some e) \<Rightarrow> Some (w, u, Some e)
                       | (w, None) \<Rightarrow> Some (w, u\<lparr>us_KeyEncoded := ''''\<rparr>, None))))"

text \<open>A text without a PEM block is dereferenced as nil.\<close>

definition DecodePrivate :: "('key, 'reg) lego_env \<Rightarrow> string \<Rightarrow> (string + 'key) go" where
  "DecodePrivate E pemEncodedPriv = map_option (le_ParseKey E) (le_PEM E pemEncodedPriv)"

definition User_Load :: "('key, 'reg) lego_env \<Rightarrow> world \<Rightarrow> string \<Rightarrow> (string + ('key, 'reg) User) go" where
  "User_Load E w path =
     (case os_ReadFile E w path of
        Inl e \<Rightarrow> Some (Inl (''open file error: '' @ e))
      | Inr data \<Rightarrow>
          (case le_Decode E data of
             Inl e \<Rightarrow> Some (Inl (''unmarshal json error: '' @ e))
           | Inr u \<Rightarrow>
               (case DecodePrivate E (us_KeyEncoded u) of
                  None \<Rightarrow> None
                | Some (Inl e) \<Rightarrow> Some (Inl (''decode private key error: '' @ e))
                | Some (Inr key) \<Rightarrow> Some (Inr (u\<lparr>us_key := Some key\<rparr>)))))"

definition registerUser :: "('key, 'reg) lego_env \<Rightarrow> world \<Rightarrow> ('key, 'reg) User \<Rightarrow> string \<Rightarrow> (world \<times> ('key, 'reg) User \<times> string option) go" where
  "registerUser E w user path =
     (case le_GenerateKey E of
        Inl e \<Rightarrow> Some (w, user, Some (''generate key error: '' @ e))
      | Inr privateKey \<Rightarrow>
          let user = user\<lparr>us_key := Some privateKey\<rparr>
          in case le_NewClient E user of
               Some e \<Rightarrow> Some (w, user, Some (''create lego client error: '' @ e))
             | None \<Rightarrow>
                 (case le_Register E user of
                    Inl e \<Rightarrow> Some (w, user, Some e)
                  | Inr reg \<Rightarrow>
                      (case User_Save E w (user\<lparr>us_Registration := Some reg\<rparr>) path of
                         None \<Rightarrow> None
                       | Some (w, user, Some e) \<Rightarrow> Some (w, user, Some (''save user error: '' @ e))
                       | Some (w, user, None) \<Rightarrow> Some (w, user, None))))"

definition new_User :: "string \<Rightarrow> ('key, 'reg) User" where
  "new_User email = \<lparr>us_Email = email, us_Registration = None, us_key = None, us_KeyEncoded = ''''\<rparr>"

text \<open>A user that could not be loaded or registered is not returned.\<close>

definition NewLegoUser :: "('key, 'reg) lego_env \<Rightarrow> world \<Rightarrow> string \<Rightarrow> string \<Rightarrow> (world \<times> (string + ('key, 'reg) User)) go" where
  "NewLegoUser E w path email =
     (let register = (\<lambda>user. case registerUser E w user path of
            None \<Rightarrow> None
          | Some (w, user, Some e) \<Rightarrow> Some (w, Inl e)
          | Some (w, user, None) \<Rightarrow> Some (w, Inr user))
      in if IsExist E w path then
           (case User_Load E w path of
              None \<Rightarrow> None
            | Some (Inl e) \<Rightarrow> Some (w, Inl e)
            | Some (Inr user) \<Rightarrow>
                if us_Email user \<noteq> email then register (user\<lparr>us_Registration := None, us_Email := email\<rparr>)
                else Some (w, Inr user))
         else register (new_User email))"

section \<open>The ACME client\<close>

record ('key, 'reg) Lego =
  lg_user :: "('key, 'reg) User"
  lg_config :: CertConfig

definition SetProvider :: "('key, 'reg) lego_env \<Rightarrow> world \<Rightarrow> CertConfig \<Rightarrow> world \<times> string option" where
  "SetProvider E w config =
     (if cc_CertMode config = ''http'' then (w, le_HTTP01 E)
      else if cc_CertMode config = ''dns'' then
        let w = w\<lparr>wo_environ := fold (\<lambda>(k, v) m. mstore m k v) (cc_DNSEnv config) (wo_environ w)\<rparr>
        in (w, case le_DNSProvider E (wo_environ w) (cc_Provider config) of
                 Some e \<Rightarrow> Some (''create dns challenge provider error: '' @ e)
               | None \<Rightarrow> map_option ((@) ''set dns provider error: '') (le_DNS01 E))
      else (w, None))"

definition user_path :: "CertConfig \<Rightarrow> string" where
  "user_path config = path_Join [path_Dir (cc_CertFile config), ''user'', ''user-'' @ cc_Email config @ ''.json'']"

definition NewLego :: "('key, 'reg) lego_env \<Rightarrow> world \<Rightarrow> CertConfig \<Rightarrow> (world \<times> (string + ('key, 'reg) Lego)) go" where
  "NewLego E w config =
     (case NewLegoUser E w (user_path config) (cc_Email config) of
        None \<Rightarrow> None
      | Some (w, Inl e) \<Rightarrow> Some (w, Inl (''create user error: '' @ e))
      | Some (w, Inr user) \<Rightarrow>
          (case le_NewClient E user of
             Some e \<Rightarrow> Some (w, Inl e)
           | None \<Rightarrow>
               Some (case SetProvider E w config of
                  (w, Some e) \<Rightarrow> (w, Inl (''set provider error: '' @ e))
                | (w, None) \<Rightarrow> (w, Inr \<lparr>lg_user = user, lg_config = config\<rparr>))))"

lemma HasPrefix_length: "strings_HasPrefix s p \<Longrightarrow> length p \<le> length s"
  by (metis strings_HasPrefix_def length_take min.cobounded1)

text \<open>\<open>strings.NewReplacer\<close> replaces in one pass and does not look at what it has put in.\<close>

function replace_params :: "string \<Rightarrow> string \<Rightarrow> string \<Rightarrow> string" where
  "replace_params domain email s =
     (if strings_HasPrefix s ''{domain}'' then domain @ replace_params domain email (drop 8 s)
      else if strings_HasPrefix s ''{email}'' then email @ replace_params domain email (drop 7 s)
      else case s of [] \<Rightarrow> [] | c # cs \<Rightarrow> c # replace_params domain email cs)"
  by pat_completeness auto

termination replace_params
  by (relation "measure (\<lambda>(_, _, s). length s)") (auto dest: HasPrefix_length)

declare replace_params.simps [simp del]

definition parseParams :: "CertConfig \<Rightarrow> string \<Rightarrow> string" where
  "parseParams config p = replace_params (cc_CertDomain config) (cc_Email config) p"

definition writeCert :: "('key, 'reg) lego_env \<Rightarrow> world \<Rightarrow> CertConfig \<Rightarrow> certificate_Resource \<Rightarrow> world \<times> string option" where
  "writeCert E w config certificates =
     (case checkPath E w (cc_CertFile config) of
        (w, Some e) \<Rightarrow> (w, Some (''check path error: '' @ e))
      | (w, None) \<Rightarrow>
          (case os_WriteFile E w (parseParams config (cc_CertFile config)) (cr_Certificate certificates) of
             (w, Some e) \<Rightarrow> (w, Some e)
           | (w, None) \<Rightarrow>
               (case checkPath E w (cc_KeyFile config) of
                  (w, Some e) \<Rightarrow> (w, Some (''check path error: '' @ e))
                | (w, None) \<Rightarrow> os_WriteFile E w (parseParams config (cc_KeyFile config)) (cr_PrivateKey certificates))))"

definition written :: "world \<times> string option \<Rightarrow> world \<times> string option" where
  "written r = (case r of (w, Some e) \<Rightarrow> (w, Some (''write certificate error: '' @ e)) | (w, None) \<Rightarrow> (w, None))"

definition CreateCert :: "('key, 'reg) lego_env \<Rightarrow> world \<Rightarrow> ('key, 'reg) Lego \<Rightarrow> world \<times> string option" where
  "CreateCert E w l =
     (case le_Obtain E (lg_user l) (cc_CertDomain (lg_config l)) of
        Inl e \<Rightarrow> (w, Some (''obtain certificate error: '' @ e))
      | Inr certificates \<Rightarrow> written (writeCert E w (lg_config l) certificates))"

text \<open>
  The days left are truncated; computed in floating point hours, the truncation is exact at the limit of 31 days, where
  the distance of a nanosecond is larger than the rounding.
\<close>

definition CheckCert :: "('key, 'reg) lego_env \<Rightarrow> string \<Rightarrow> bool \<times> string option" where
  "CheckCert E file =
     (case le_NotAfter E file of
        Inl e \<Rightarrow> (False, Some e)
      | Inr na \<Rightarrow> (\<not> go_div (time_Sub na (le_now E)) (24 * time_Hour) > 30, None))"

definition RenewCert :: "('key, 'reg) lego_env \<Rightarrow> world \<Rightarrow> ('key, 'reg) Lego \<Rightarrow> world \<times> string option" where
  "RenewCert E w l =
     (case os_ReadFile E w (cc_CertFile (lg_config l)) of
        Inl e \<Rightarrow> (w, Some (''read cert file error: '' @ e))
      | Inr file \<Rightarrow>
          (case CheckCert E file of
             (False, _) \<Rightarrow> (w, None)
           | (True, Some e) \<Rightarrow> (w, Some (''check cert error: '' @ e))
           | (True, None) \<Rightarrow>
               (case le_Renew E (lg_user l) (cc_CertDomain (lg_config l)) file of
                  Inl e \<Rightarrow> (w, Some e)
                | Inr res \<Rightarrow> written (writeCert E w (lg_config l) res))))"

section \<open>Certificates of a controller (\<open>cert.go\<close>)\<close>

text \<open>The task of the day only logs its errors; the panic is that of \<open>NewLego\<close>.\<close>

definition renewCertTask :: "('key, 'reg) lego_env \<Rightarrow> world \<Rightarrow> CertConfig \<Rightarrow> world go" where
  "renewCertTask E w config =
     (case NewLego E w config of
        None \<Rightarrow> None
      | Some (w, Inl _) \<Rightarrow> Some w
      | Some (w, Inr l) \<Rightarrow> Some (fst (RenewCert E w l)))"

text \<open>The branch of \<open>requestCert\<close> that asks for a certificate, with the errors as the caller wraps them.\<close>

definition createCert :: "('key, 'reg) lego_env \<Rightarrow> world \<Rightarrow> CertConfig \<Rightarrow> (world \<times> string option) go" where
  "createCert E w config =
     (case NewLego E w config of
        None \<Rightarrow> None
      | Some (w, Inl e) \<Rightarrow> Some (w, Some (''create lego object error: '' @ e))
      | Some (w, Inr l) \<Rightarrow>
          Some (case CreateCert E w l of
             (w, Some e) \<Rightarrow> (w, Some (''create lego cert error: '' @ e))
           | (w, None) \<Rightarrow> (w, None)))"

definition generateSelfSslCertificate :: "('key, 'reg) lego_env \<Rightarrow> world \<Rightarrow> string \<Rightarrow> string \<Rightarrow> string \<Rightarrow> world \<times> string option" where
  "generateSelfSslCertificate E w domain certPath keyPath =
     (case le_Self E domain (le_now E) of
        Inl e \<Rightarrow> (w, Some e)
      | Inr r \<Rightarrow>
          (case os_WriteFile E w certPath (cr_Certificate r) of
             (w, Some e) \<Rightarrow> (w, Some e)
           | (w, None) \<Rightarrow> os_WriteFile E w keyPath (cr_PrivateKey r)))"

section \<open>Accounts are kept\<close>

text \<open>
  What the encodings promise: a document decodes to the exported fields of the user that was encoded, and an
  encoded key to the key.
\<close>

locale account_codec =
  fixes E :: "('key, 'reg) lego_env"
  assumes document: "le_Encode E u = Inr d \<Longrightarrow> le_Decode E d = Inr (u\<lparr>us_key := None\<rparr>)"
    and private_key: "DecodePrivate E (le_EncodeKey E k) = Some (Inr k)"
begin

lemma Save_Load:
  assumes "User_Save E w u path = Some (w', u', None)" and "le_read E path = None"
  shows "u' = u\<lparr>us_KeyEncoded := ''''\<rparr> \<and> wo_files w' path \<noteq> None \<and> (\<exists>k. User_Load E w' path = Some (Inr (u\<lparr>us_KeyEncoded := k\<rparr>)))"
proof -
  obtain w1 key d where s: "checkPath E w path = (w1, None)" "us_key u = Some key" "le_Encode E (u\<lparr>us_KeyEncoded := le_EncodeKey E key\<rparr>) = Inr d"
    "os_WriteFile E w1 path d = (w', None)" "u' = u\<lparr>us_KeyEncoded := ''''\<rparr>"
    using assms(1) by (auto simp: User_Save_def Let_def split: prod.splits option.splits sum.splits)
  have f: "wo_files w' path = Some d" using s(4) by (auto simp: os_WriteFile_def split: option.splits if_splits)
  have "le_Decode E d = Inr (u\<lparr>us_KeyEncoded := le_EncodeKey E key, us_key := None\<rparr>)" using document [OF s(3)] by simp
  then have "User_Load E w' path = Some (Inr (u\<lparr>us_KeyEncoded := le_EncodeKey E key, us_key := Some key\<rparr>))"
    using f assms(2) by (simp add: User_Load_def os_ReadFile_def private_key)
  moreover have "u\<lparr>us_KeyEncoded := le_EncodeKey E key, us_key := Some key\<rparr> = u\<lparr>us_KeyEncoded := le_EncodeKey E key\<rparr>" using s(2) by (cases u) simp
  ultimately show ?thesis using s(5) f by auto
qed

lemma registered:
  assumes "registerUser E w u path = Some (w', u', None)" and "le_read E path = None"
  obtains k where "User_Load E w' path = Some (Inr (u'\<lparr>us_KeyEncoded := k\<rparr>))" "wo_files w' path \<noteq> None" "us_Email u' = us_Email u"
proof -
  obtain u1 where u1: "User_Save E w u1 path = Some (w', u', None)" "us_Email u1 = us_Email u"
    using assms(1) by (auto simp: registerUser_def Let_def split: sum.splits option.splits)
  show thesis using Save_Load [OF u1(1) assms(2)] u1(2) that by auto
qed

end

text \<open>
  C38. ACME accounts are registered once. When an account was loaded or registered, the next call for the same
  address returns the same account (but for the text of the encoded key, which is only used while saving) and
  changes nothing on the disk, whatever the random source and the ACME server would answer then. This needs
  a readable file and encodings that round trip.
\<close>

theorem account_registered_once:
  assumes "account_codec E" and "NewLegoUser E w path email = Some (w', Inr u)" and "le_read E path = None"
  shows "\<exists>k. NewLegoUser (E\<lparr>le_GenerateKey := g, le_Register := r\<rparr>) w' path email = Some (w', Inr (u\<lparr>us_KeyEncoded := k\<rparr>))"
proof -
  let ?E = "E\<lparr>le_GenerateKey := g, le_Register := r\<rparr>"
  have load: "User_Load ?E w' path = User_Load E w' path" "IsExist ?E w' path = IsExist E w' path"
    unfolding User_Load_def os_ReadFile_def DecodePrivate_def IsExist_def lego_env.simps by (simp_all cong: option.case_cong sum.case_cong)
  consider "w' = w" "IsExist E w path" "User_Load E w path = Some (Inr u)" "us_Email u = email"
    | u0 where "registerUser E w u0 path = Some (w', u, None)" "us_Email u0 = email"
    using assms(2) by (auto simp: NewLegoUser_def new_User_def Let_def split: if_splits option.splits sum.splits)
  then show ?thesis
  proof cases
    case 1
    then have "NewLegoUser ?E w' path email = Some (w', Inr (u\<lparr>us_KeyEncoded := us_KeyEncoded u\<rparr>))"
      using load by (simp add: NewLegoUser_def)
    then show ?thesis by blast
  next
    case 2
    obtain k where "User_Load E w' path = Some (Inr (u\<lparr>us_KeyEncoded := k\<rparr>))" "wo_files w' path \<noteq> None" "us_Email u = email"
      using account_codec.registered [OF assms(1) 2(1) assms(3)] 2(2) by metis
    then show ?thesis by (auto simp: NewLegoUser_def load IsExist_def)
  qed
qed

section \<open>Certificate files\<close>

lemma replace_params_id: "CHR ''{'' \<notin> set s \<Longrightarrow> replace_params domain email s = s"
proof (induction s)
  case (Cons c s)
  then show ?case by (subst replace_params.simps) (auto simp: strings_HasPrefix_def)
qed (subst replace_params.simps, simp add: strings_HasPrefix_def)

lemma checkPath_files: "checkPath E w p = (w', e) \<Longrightarrow> wo_files w' = wo_files w"
  by (auto simp: checkPath_def split: if_splits option.splits)

lemma WriteFile_files:
  assumes "os_WriteFile E w p d = (w', e)"
  shows "(\<forall>q. q \<noteq> p \<longrightarrow> wo_files w' q = wo_files w q) \<and> (e = None \<longrightarrow> wo_files w' = (wo_files w)(p \<mapsto> d))"
  using assms by (auto simp: os_WriteFile_def split: option.splits if_splits)

lemma writeCert_files:
  assumes "writeCert E w config res = (w', e)"
  shows "(\<forall>q. q \<notin> {parseParams config (cc_CertFile config), parseParams config (cc_KeyFile config)} \<longrightarrow> wo_files w' q = wo_files w q)
    \<and> (e = None \<longrightarrow> wo_files w' = (wo_files w)(parseParams config (cc_CertFile config) \<mapsto> cr_Certificate res, parseParams config (cc_KeyFile config) \<mapsto> cr_PrivateKey res))"
proof -
  obtain w1 e1 where c: "checkPath E w (cc_CertFile config) = (w1, e1)" by fastforce
  obtain w2 e2 where f: "os_WriteFile E w1 (parseParams config (cc_CertFile config)) (cr_Certificate res) = (w2, e2)" by fastforce
  obtain w3 e3 where k: "checkPath E w2 (cc_KeyFile config) = (w3, e3)" by fastforce
  obtain w4 e4 where g: "os_WriteFile E w3 (parseParams config (cc_KeyFile config)) (cr_PrivateKey res) = (w4, e4)" by fastforce
  note facts = checkPath_files [OF c] checkPath_files [OF k] WriteFile_files [OF f] WriteFile_files [OF g]
  show ?thesis
  proof (cases e1)
    case None
    then show ?thesis using assms facts c f k g by (cases e2; cases e3) (auto simp: writeCert_def)
  next
    case (Some x)
    then show ?thesis using assms facts c by (auto simp: writeCert_def)
  qed
qed

lemma written_None: "written r = (w, None) \<longleftrightarrow> r = (w, None)" "fst (written r) = fst r"
  by (cases r; cases "snd r"; auto simp: written_def)+

lemma div_at_least: "0 < c \<Longrightarrow> n \<le> x div c \<longleftrightarrow> n * c \<le> x" for c x n :: int
proof
  assume c: "0 < c" and "n \<le> x div c"
  then have "n * c \<le> x div c * c" by simp
  also have "\<dots> \<le> x" using c by (simp add: minus_mod_eq_div_mult [symmetric])
  finally show "n * c \<le> x" .
next
  assume c: "0 < c" and "n * c \<le> x"
  then show "n \<le> x div c" using zdiv_mono1 [of "n * c" x c] by simp
qed

lemma days_left: "go_div (time_Sub t now) (24 * time_Hour) > 30 \<longleftrightarrow> 31 * 24 * time_Hour \<le> t - now"
proof -
  have s: "31 * 24 * time_Hour \<le> time_Sub t now \<longleftrightarrow> 31 * 24 * time_Hour \<le> t - now"
    by (auto simp: time_Sub_def i64_range_defs time_consts)
  have "go_div x (24 * time_Hour) > 30 \<longleftrightarrow> 31 * 24 * time_Hour \<le> x" for x
  proof (cases "0 \<le> x")
    case True
    have c: "0 < 24 * time_Hour" by (simp add: time_consts)
    have "31 \<le> x div (24 * time_Hour) \<longleftrightarrow> 31 * (24 * time_Hour) \<le> x" by (rule div_at_least [OF c])
    then show ?thesis using go_div_nonneg [OF True c] by (simp add: int_one_le_iff_zero_less) linarith
  next
    case False
    then have "go_div x (24 * time_Hour) \<le> 0" by (simp add: go_div_def signed_divide_int_def time_consts)
    then show ?thesis using False by (simp add: time_consts)
  qed
  then show ?thesis using s by blast
qed

lemma RenewCert_checked:
  assumes "os_ReadFile E w (cc_CertFile (lg_config l)) = Inr file" and "le_NotAfter E file = Inr na"
  shows "RenewCert E w l =
    (if 31 * 24 * time_Hour \<le> na - le_now E then (w, None)
     else case le_Renew E (lg_user l) (cc_CertDomain (lg_config l)) file of
       Inl e \<Rightarrow> (w, Some e)
     | Inr res \<Rightarrow> written (writeCert E w (lg_config l) res))"
  unfolding RenewCert_def CheckCert_def assms(1) sum.case assms(2) days_left by simp

lemma RenewCert_writes:
  assumes "RenewCert E w l = (w', e)"
  shows "w' = w \<or> (\<exists>res x. writeCert E w (lg_config l) res = (w', x))"
proof (cases "w' = w")
  case False
  then obtain res where "written (writeCert E w (lg_config l) res) = (w', e)"
    using assms by (auto simp: RenewCert_def split: sum.splits prod.splits bool.splits option.splits)
  then show ?thesis using written_None(2) [of "writeCert E w (lg_config l) res"] by (metis fst_conv prod.collapse)
qed simp


lemma createCert_files:
  assumes "createCert E w cc = Some (w', None)"
  shows "wo_files w' (parseParams cc (cc_CertFile cc)) \<noteq> None \<and> wo_files w' (parseParams cc (cc_KeyFile cc)) \<noteq> None"
proof -
  obtain w0 l where l: "NewLego E w cc = Some (w0, Inr l)" "CreateCert E w0 l = (w', None)"
    using assms by (auto simp: createCert_def split: option.splits prod.splits sum.splits)
  have "lg_config l = cc" using l(1) by (auto simp: NewLego_def split: option.splits prod.splits sum.splits)
  then obtain res where "writeCert E w0 cc res = (w', None)"
    using l(2) by (auto simp: CreateCert_def written_None split: sum.splits)
  from writeCert_files [OF this] show ?thesis by auto
qed

lemma selfmade_files:
  assumes "generateSelfSslCertificate E w domain cert key = (w', None)"
  shows "wo_files w' cert \<noteq> None \<and> wo_files w' key \<noteq> None"
proof -
  obtain r where r: "le_Self E domain (le_now E) = Inr r" using assms by (auto simp: generateSelfSslCertificate_def split: sum.splits)
  obtain w0 e where f: "os_WriteFile E w cert (cr_Certificate r) = (w0, e)" by fastforce
  have "e = None" "os_WriteFile E w0 key (cr_PrivateKey r) = (w', None)"
    using assms r f by (auto simp: generateSelfSslCertificate_def split: option.splits)
  then show ?thesis using WriteFile_files [OF f] WriteFile_files [of E w0 key "cr_PrivateKey r" w' None] by auto
qed


section \<open>Examples\<close>

text \<open>A document as three strings, each with its length in front, and keys with a letter in front.\<close>

definition put_string :: "string \<Rightarrow> string" where
  "put_string s = replicate (length s) (CHR ''1'') @ CHR ''0'' # s"

definition get_string :: "string \<Rightarrow> string \<times> string" where
  "get_string t = (let n = length (takeWhile ((=) (CHR ''1'')) t); r = drop (Suc n) t in (take n r, drop n r))"

lemma get_put [simp]: "get_string (put_string s @ t) = (s, t)"
proof -
  have "takeWhile ((=) (CHR ''1'')) (replicate n (CHR ''1'') @ CHR ''0'' # r) = replicate n (CHR ''1'')" for n r
    by (induction n) auto
  then show ?thesis by (simp add: get_string_def put_string_def)
qed

definition put_user :: "(string, string) User \<Rightarrow> string" where
  "put_user u = put_string (us_Email u) @ put_string (case us_Registration u of None \<Rightarrow> [] | Some r \<Rightarrow> CHR ''+'' # r) @ put_string (us_KeyEncoded u) @ []"

definition get_user :: "string \<Rightarrow> (string, string) User" where
  "get_user t = (case get_string t of (email, t) \<Rightarrow> (case get_string t of (reg, t) \<Rightarrow> (case get_string t of (key, _) \<Rightarrow>
     \<lparr>us_Email = email, us_Registration = (case reg of [] \<Rightarrow> None | _ # r \<Rightarrow> Some r), us_key = None, us_KeyEncoded = key\<rparr>)))"

definition plain_env :: "gotime \<Rightarrow> (string \<Rightarrow> (string \<times> string option) option) \<Rightarrow> (string, string) lego_env" where
  "plain_env now fails =
     \<lparr>le_now = now, le_stat = (\<lambda>_. False), le_mkdir = (\<lambda>_. None), le_read = (\<lambda>_. None), le_write = fails, le_GenerateKey = Inr ''key'',
      le_NewClient = (\<lambda>_. None), le_Register = (\<lambda>_. Inr ''reg''), le_EncodeKey = (#) (CHR ''P''), le_PEM = (\<lambda>s. case s of [] \<Rightarrow> None | _ # r \<Rightarrow> Some r), le_ParseKey = Inr,
      le_Encode = (\<lambda>u. Inr (put_user u)), le_Decode = (\<lambda>d. Inr (get_user d)), le_HTTP01 = None, le_DNSProvider = (\<lambda>_ _. None), le_DNS01 = None,
      le_Obtain = (\<lambda>_ _. Inr \<lparr>cr_Certificate = ''cert'', cr_PrivateKey = ''ckey''\<rparr>), le_Renew = (\<lambda>_ _ _. Inr \<lparr>cr_Certificate = ''cert2'', cr_PrivateKey = ''ckey2''\<rparr>),
      le_NotAfter = (\<lambda>s. if s = ''cert'' then Inr 0 else Inl ''no certificate''), le_Self = (\<lambda>_ _. Inr \<lparr>cr_Certificate = ''self'', cr_PrivateKey = ''skey''\<rparr>)\<rparr>"

interpretation plain: account_codec "plain_env now fails" for now fails
proof
  show "le_Decode (plain_env now fails) d = Inr (u\<lparr>us_key := None\<rparr>)" if "le_Encode (plain_env now fails) u = Inr d" for u d
    using that by (cases u) (auto simp: plain_env_def put_user_def get_user_def simp del: append_Nil2 split: option.split)
  show "DecodePrivate (plain_env now fails) (le_EncodeKey (plain_env now fails) k) = Some (Inr k)" for k
    by (simp add: plain_env_def DecodePrivate_def)
qed

definition example_cert :: CertConfig where
  "example_cert = NewCertConfig\<lparr>cc_CertMode := ''dns'', cc_CertFile := ''/c/1.pem'', cc_KeyFile := ''/c/1.key'', cc_CertDomain := ''a.com'', cc_Email := ''m''\<rparr>"

definition example_disk :: world where
  "example_disk = \<lparr>wo_files = [''/c/1.pem'' \<mapsto> ''cert'', ''/c/1.key'' \<mapsto> ''ckey''], wo_dirs = (\<lambda>d. d = ''/c''), wo_environ = []\<rparr>"

lemma example_paths: "path_Dir ''/c/1.pem'' = ''/c''" "path_Dir ''/c/1.key'' = ''/c''" "path_Dir ''/u/m.json'' = ''/u''"
  by code_simp+

theorem account_registered_once_witness:
  "\<exists>w u k. NewLegoUser (plain_env 0 (\<lambda>_. None)) example_disk ''/u/m.json'' ''m'' = Some (w, Inr u) \<and> us_Registration u = Some ''reg''
     \<and> NewLegoUser ((plain_env 0 (\<lambda>_. None))\<lparr>le_GenerateKey := Inl '''', le_Register := (\<lambda>_. Inl ''rate limited'')\<rparr>) w ''/u/m.json'' ''m'' = Some (w, Inr (u\<lparr>us_KeyEncoded := k\<rparr>))"
proof -
  obtain w u where n: "NewLegoUser (plain_env 0 (\<lambda>_. None)) example_disk ''/u/m.json'' ''m'' = Some (w, Inr u)" "us_Registration u = Some ''reg''"
    by (simp add: NewLegoUser_def IsExist_def registerUser_def User_Save_def checkPath_def os_WriteFile_def example_disk_def plain_env_def example_paths new_User_def Let_def)
  have "le_read (plain_env 0 (\<lambda>_. None)) ''/u/m.json'' = None" by (simp add: plain_env_def)
  from account_registered_once [OF plain.account_codec_axioms n(1) this, where g = "Inl ''''" and r = "\<lambda>_. Inl ''rate limited''"]
  show ?thesis using n by blast
qed

definition example_lego :: "(string, string) Lego" where
  "example_lego = \<lparr>lg_user = new_User ''m'', lg_config = example_cert\<rparr>"


text \<open>A controller in mode \<open>self\<close> on a disk with the directory only.\<close>

definition self_cert :: CertConfig where
  "self_cert = example_cert\<lparr>cc_CertMode := ''self''\<rparr>"

definition bare_disk :: world where
  "bare_disk = example_disk\<lparr>wo_files := Map.empty\<rparr>"

definition self_controller :: "(string, int, string, hook_counters) Controller" where
  "self_controller = example_controller\<lparr>co_Options := example_options\<lparr>op_CertConfig := Some self_cert\<rparr>\<rparr>"

definition issuing_env :: "(string, string, hook_counters) env" where
  "issuing_env =
     (let E = plain_env 0 (\<lambda>_. None)
      in example_env\<lparr>env_IsExist := IsExist E bare_disk,
           env_createCert := (\<lambda>cc. case createCert E bare_disk cc of None \<Rightarrow> Some ''panic'' | Some r \<Rightarrow> snd r),
           env_selfCert := (\<lambda>d c k. snd (generateSelfSslCertificate E bare_disk d c k))\<rparr>)"


text \<open>A certificate file that does not parse is never renewed: \<open>CheckCert\<close> answers no, and its error is not looked at.\<close>

lemma broken_certificate_not_renewed:
  "os_ReadFile E w (cc_CertFile (lg_config l)) = Inr d \<Longrightarrow> le_NotAfter E d = Inl e \<Longrightarrow> RenewCert E w l = (w, None)"
  by (simp add: RenewCert_def CheckCert_def)

text \<open>
  With a placeholder in its name the certificate is written where neither the renewal nor the test for an existing
  file looks.
\<close>

lemma placeholder_certificate_not_found:
  assumes "writeCert E w config res = (w', None)" and "wo_files w (cc_CertFile config) = None"
    and "parseParams config (cc_CertFile config) \<noteq> cc_CertFile config" and "parseParams config (cc_KeyFile config) \<noteq> cc_CertFile config"
  shows "wo_files w' (cc_CertFile config) = None \<and> (lg_config l = config \<longrightarrow> (\<exists>e. RenewCert E w' l = (w', Some e)))"
proof -
  have "wo_files w' (cc_CertFile config) = None" using writeCert_files [OF assms(1)] assms(2,3,4) by auto
  then show ?thesis by (auto simp: RenewCert_def os_ReadFile_def split: option.split)
qed

text \<open>The certificate is replaced before its key: when the key cannot be written, the files no longer belong together.\<close>

lemma key_write_error_splits_pair:
  "\<exists>w'. RenewCert (plain_env 0 (\<lambda>p. if p = ''/c/1.key'' then Some (''disk full'', None) else None)) example_disk example_lego = (w', Some ''write certificate error: disk full'')
     \<and> wo_files w' ''/c/1.pem'' = Some ''cert2'' \<and> wo_files w' ''/c/1.key'' = Some ''ckey''"
proof -
  have p: "parseParams example_cert ''/c/1.pem'' = ''/c/1.pem''" "parseParams example_cert ''/c/1.key'' = ''/c/1.key''" by (simp_all add: parseParams_def replace_params_id)
  have c: "cc_CertFile example_cert = ''/c/1.pem''" "cc_KeyFile example_cert = ''/c/1.key''" by (simp_all add: example_cert_def)
  show ?thesis
    by (simp add: RenewCert_def os_ReadFile_def CheckCert_def writeCert_def checkPath_def IsExist_def os_WriteFile_def written_def p c example_lego_def plain_env_def
        example_disk_def example_paths go_div_def time_Sub_def i64_range_defs)
qed

text \<open>An account file whose key is no PEM block, like the empty key that an encoding error leaves, is a nil pointer at every later start.\<close>

lemma account_without_key_panics:
  "wo_files w path = Some d \<Longrightarrow> le_read E path = None \<Longrightarrow> le_Decode E d = Inr u \<Longrightarrow> le_PEM E (us_KeyEncoded u) = None \<Longrightarrow> NewLegoUser E w path email = None"
  by (simp add: NewLegoUser_def IsExist_def User_Load_def os_ReadFile_def DecodePrivate_def)

end
