(* ===== verification/Panel_Status.thy ===== *)
theory Panel_Status
  imports Panel_Client
begin

text \<open>
  The rest of the panel client: the lenient decoder of the alive list (\<open>api/panel/user.go\<close>), the decoder of TLS settings
  and the status report (\<open>api/panel/node.go\<close>), with the system status it reports
  (\<open>common/serverstatus/serverstatus.go\<close>). The JSON package and the readings of the system are arguments.
\<close>

section \<open>The alive list\<close>

text \<open>The decoder of a body at each type it is tried at; \<open>ad_wrapped\<close> is the field \<open>alive\<close>, \<open>None\<close> inside when it is nil.\<close>

record 'raw alive_decoders =
  ad_wrapped :: "'raw \<Rightarrow> (int, int) gomap option option"
  ad_ints :: "'raw \<Rightarrow> (int, int) gomap option"
  ad_strs :: "'raw \<Rightarrow> (string, int) gomap option"
  ad_any :: "'raw \<Rightarrow> (string, anyval) gomap option"
  ad_payload :: "'raw \<Rightarrow> (string, 'raw) gomap option"

definition alive_of_strs :: "(string, int) gomap \<Rightarrow> (int, int) gomap" where
  "alive_of_strs m = fold (\<lambda>(k, v) alive. case strconv_Atoi k of (uid, ok) \<Rightarrow> if ok then mstore alive uid v else alive) m []"

definition alive_entry :: "string \<times> anyval \<Rightarrow> (int, int) gomap \<Rightarrow> (int, int) gomap" where
  "alive_entry kv alive =
     (case strconv_Atoi (fst kv) of
        (uid, ok) \<Rightarrow>
          if \<not> ok then alive
          else case snd kv of
            AnyFloat n \<Rightarrow> mstore alive uid (float_to_i64 n)
          | AnyString s \<Rightarrow> (case strconv_Atoi s of (iv, ok) \<Rightarrow> if ok then mstore alive uid iv else alive)
          | _ \<Rightarrow> alive)"

definition alive_of_any :: "(string, anyval) gomap \<Rightarrow> (int, int) gomap" where
  "alive_of_any m = fold alive_entry m []"

text \<open>What the body itself gives, \<open>None\<close> when its members have to be looked at.\<close>

definition alive_direct :: "'raw alive_decoders \<Rightarrow> 'raw \<Rightarrow> (int, int) gomap option" where
  "alive_direct D body =
     (case ad_wrapped D body of
        Some (Some alive) \<Rightarrow> Some alive
      | _ \<Rightarrow>
          (case ad_ints D body of
             Some (e # m) \<Rightarrow> Some (e # m)
           | _ \<Rightarrow>
               (case ad_strs D body of
                  Some (e # m) \<Rightarrow> Some (alive_of_strs (e # m))
                | _ \<Rightarrow>
                    (case ad_any D body of
                       Some (e # m) \<Rightarrow> if alive_of_any (e # m) \<noteq> [] then Some (alive_of_any (e # m)) else None
                     | _ \<Rightarrow> None))))"

text \<open>The recursion into the members \<open>alive\<close> and \<open>data\<close>; a decoder that does not end is \<open>None\<close>.\<close>

partial_function (option) decodeAliveMap :: "'raw alive_decoders \<Rightarrow> 'raw \<Rightarrow> (int, int) gomap option" where
  "decodeAliveMap D body =
     (case alive_direct D body of
        Some alive \<Rightarrow> Some alive
      | None \<Rightarrow>
          (case ad_payload D body of
             None \<Rightarrow> Some []
           | Some payload \<Rightarrow>
               Option.bind (case mload payload ''alive'' of None \<Rightarrow> Some [] | Some raw \<Rightarrow> decodeAliveMap D raw) (\<lambda>decoded.
                 if decoded \<noteq> [] then Some decoded
                 else case mload payload ''data'' of None \<Rightarrow> Some [] | Some raw \<Rightarrow> decodeAliveMap D raw)))"

section \<open>TLS settings\<close>

record 'raw tlsSettingsJSON =
  tsj_ServerName :: string
  tsj_Dest :: string
  tsj_ServerPort :: "'raw option"
  tsj_ShortId :: string
  tsj_PrivateKey :: string
  tsj_Xver :: nat
  tsj_ECH :: ECHSettings

text \<open>\<open>port\<close> is \<open>decodeStringOrNumber\<close> with its decoders; the settings are left alone when an error is returned.\<close>

definition TlsSettings_UnmarshalJSON ::
  "('data \<Rightarrow> string + 'raw tlsSettingsJSON) \<Rightarrow> ('raw option \<Rightarrow> string + string) \<Rightarrow> 'data \<Rightarrow> TlsSettings \<Rightarrow> TlsSettings \<times> string option" where
  "TlsSettings_UnmarshalJSON unmarshal port data t =
     (case unmarshal data of
        Inl e \<Rightarrow> (t, Some e)
      | Inr aux \<Rightarrow>
          (case port (tsj_ServerPort aux) of
             Inl e \<Rightarrow> (t, Some (''decode tls server_port error: '' @ e))
           | Inr serverPort \<Rightarrow>
               (t\<lparr>ts_ServerName := tsj_ServerName aux, ts_Dest := tsj_Dest aux, ts_ServerPort := serverPort, ts_ShortId := tsj_ShortId aux,
                  ts_PrivateKey := tsj_PrivateKey aux, ts_Xver := tsj_Xver aux, ts_ECH := tsj_ECH aux\<rparr>, None)))"

section \<open>The status of the system\<close>

text \<open>Floating point values are rationals here.\<close>

record SystemStatus =
  sy_CPU :: rat
  sy_MemTotal :: "64 word"
  sy_MemUsed :: "64 word"
  sy_SwapTotal :: "64 word"
  sy_SwapUsed :: "64 word"
  sy_DiskTotal :: "64 word"
  sy_DiskUsed :: "64 word"
  sy_Uptime :: "64 word"

text \<open>The readings of gopsutil: total and used, or an error; the CPU is a list with its error.\<close>

record system_readings =
  rd_cpu :: "rat list \<times> string option"
  rd_mem :: "string + 64 word \<times> 64 word"
  rd_swap :: "string + 64 word \<times> 64 word"
  rd_disk :: "string + 64 word \<times> 64 word"
  rd_uptime :: "string + 64 word"

definition reading_error :: "string \<Rightarrow> string + 'a \<Rightarrow> string" where
  "reading_error what r = (case r of Inl e \<Rightarrow> ''get '' @ what @ '' failed: '' @ e @ '' '' | Inr _ \<Rightarrow> '''')"

definition reading :: "string + 64 word \<times> 64 word \<Rightarrow> 64 word \<times> 64 word" where
  "reading r = (case r of Inl _ \<Rightarrow> (0, 0) | Inr x \<Rightarrow> x)"

text \<open>The text of a nil error is \<open>%!s(<nil>)\<close>. The last error is the one of the uptime, unless a text was collected.\<close>

definition GetSystemStatus :: "system_readings \<Rightarrow> SystemStatus \<times> string option" where
  "GetSystemStatus r =
     (let ok = (fst (rd_cpu r) \<noteq> [] \<and> snd (rd_cpu r) = None);
          errorString = (if ok then '''' else ''get cpu usage failed: '' @ (case snd (rd_cpu r) of None \<Rightarrow> ''%!s(<nil>)'' | Some e \<Rightarrow> e) @ '' '')
            @ reading_error ''mem usage'' (rd_mem r) @ reading_error ''swap usage'' (rd_swap r) @ reading_error ''disk usage'' (rd_disk r)
            @ reading_error ''uptime'' (rd_uptime r)
      in (\<lparr>sy_CPU = (if ok then hd (fst (rd_cpu r)) else 0), sy_MemTotal = fst (reading (rd_mem r)), sy_MemUsed = snd (reading (rd_mem r)),
           sy_SwapTotal = fst (reading (rd_swap r)), sy_SwapUsed = snd (reading (rd_swap r)), sy_DiskTotal = fst (reading (rd_disk r)),
           sy_DiskUsed = snd (reading (rd_disk r)), sy_Uptime = (case rd_uptime r of Inl _ \<Rightarrow> 0 | Inr u \<Rightarrow> u)\<rparr>,
          if errorString \<noteq> '''' then Some errorString else None))"

definition percent :: "64 word \<Rightarrow> 64 word \<Rightarrow> rat" where
  "percent used whole = (if whole > 0 then of_int (uint used) / of_int (uint whole) * 100 else 0)"

definition GetSystemInfo :: "system_readings \<Rightarrow> string + rat \<times> rat \<times> rat \<times> 64 word" where
  "GetSystemInfo r =
     (case GetSystemStatus r of
        (_, Some e) \<Rightarrow> Inl e
      | (st, None) \<Rightarrow> Inr (sy_CPU st, percent (sy_MemUsed st) (sy_MemTotal st), percent (sy_DiskUsed st) (sy_DiskTotal st), sy_Uptime st))"

section \<open>The status report\<close>

record NodeStatus =
  ns_CPU :: rat
  ns_Mem :: rat
  ns_Disk :: rat
  ns_Uptime :: "64 word"
  ns_MemTotal :: "64 word"
  ns_MemUsed :: "64 word"
  ns_SwapTotal :: "64 word"
  ns_SwapUsed :: "64 word"
  ns_DiskTotal :: "64 word"
  ns_DiskUsed :: "64 word"

record ServerPushStatusRequest =
  sp_Cpu :: rat
  sp_Mem :: rat
  sp_Disk :: rat
  sp_UpdatedAt :: int

text \<open>A body: the request of ppanel, or the CPU with the pairs of total and used memory, swap and disk.\<close>

datatype status_body =
    StatusRequest ServerPushStatusRequest
  | StatusPayload rat "64 word \<times> 64 word" "64 word \<times> 64 word" "64 word \<times> 64 word"

fun post_status ::
  "(string \<Rightarrow> 'body http_result) \<Rightarrow> (string \<Rightarrow> 'body http_result \<Rightarrow> string option go) \<Rightarrow> string list \<Rightarrow> string option \<Rightarrow> (string list \<times> string option) go" where
  "post_status post check [] lastErr = Some ([], lastErr)"
| "post_status post check (path # paths) lastErr =
     (case check path (post path) of
        None \<Rightarrow> None
      | Some None \<Rightarrow> Some ([path], None)
      | Some (Some e) \<Rightarrow> map_option (\<lambda>(ps, err). (path # ps, err)) (post_status post check paths (Some e)))"

text \<open>The posts that were made and the error. Of an answer of ppanel only the transport error is looked at.\<close>

definition ReportNodeStatus ::
  "(string \<Rightarrow> status_body \<Rightarrow> 'body http_result) \<Rightarrow> ('body \<Rightarrow> string) \<Rightarrow> gotime \<Rightarrow> Client \<Rightarrow> NodeStatus \<Rightarrow> (string list \<times> string option) go" where
  "ReportNodeStatus post str now c n =
     (if pc_PanelType c = ''ppanel'' then
        let path = ''/v1/server/status'';
            status = \<lparr>sp_Cpu = ns_CPU n, sp_Mem = ns_Mem n, sp_Disk = ns_Disk n, sp_UpdatedAt = now div 1000000\<rparr>
        in Some ([path], map_option (\<lambda>e. ''request '' @ assembleURL c path @ '' failed: '' @ e) (hr_err (post path (StatusRequest status))))
      else
        let payload = StatusPayload (ns_CPU n) (ns_MemTotal n, ns_MemUsed n) (ns_SwapTotal n, ns_SwapUsed n) (ns_DiskTotal n, ns_DiskUsed n)
        in post_status (\<lambda>path. post path payload) (\<lambda>path r. checkResponse str c r path)
             [''/api/v1/server/UniProxy/status'', ''/api/v2/server/status''] None)"

text \<open>
  The end of the report of a controller (\<open>node/user.go\<close>): the readings become a node status, also when one of them
  failed, and it is sent; what is returned is the list of warnings, which only get logged.
\<close>

definition node_status :: "system_readings \<Rightarrow> NodeStatus" where
  "node_status r =
     (let st = fst (GetSystemStatus r)
      in \<lparr>ns_CPU = sy_CPU st, ns_Mem = percent (sy_MemUsed st) (sy_MemTotal st), ns_Disk = percent (sy_DiskUsed st) (sy_DiskTotal st),
          ns_Uptime = sy_Uptime st, ns_MemTotal = sy_MemTotal st, ns_MemUsed = sy_MemUsed st, ns_SwapTotal = sy_SwapTotal st,
          ns_SwapUsed = sy_SwapUsed st, ns_DiskTotal = sy_DiskTotal st, ns_DiskUsed = sy_DiskUsed st\<rparr>)"

definition report_status ::
  "(string \<Rightarrow> status_body \<Rightarrow> 'body http_result) \<Rightarrow> ('body \<Rightarrow> string) \<Rightarrow> gotime \<Rightarrow> system_readings \<Rightarrow> Client \<Rightarrow> (string list \<times> string list) go" where
  "report_status post str now r c =
     (let warned = (case snd (GetSystemStatus r) of None \<Rightarrow> [] | Some _ \<Rightarrow> [''Get system status failed''])
      in map_option (\<lambda>(posts, err). (posts, warned @ (case err of None \<Rightarrow> [] | Some _ \<Rightarrow> [''Report node status failed''])))
           (ReportNodeStatus post str now c (node_status r)))"

section \<open>Correctness\<close>

text \<open>The documents that are reached through the members \<open>alive\<close> and \<open>data\<close>.\<close>

inductive nested :: "'raw alive_decoders \<Rightarrow> 'raw \<Rightarrow> 'raw \<Rightarrow> bool" for D where
  nested_self: "nested D body body"
| nested_member: "ad_payload D body = Some payload \<Longrightarrow> k \<in> {''alive'', ''data''} \<Longrightarrow> mload payload k = Some raw \<Longrightarrow> nested D raw x \<Longrightarrow> nested D body x"

text \<open>
  The alive list is always decoded. Where the members of a document are smaller than the document, the decoder ends; what
  it returns was found in the document or in one nested in it under \<open>alive\<close> or \<open>data\<close>, or nothing was found in the
  document itself and the list is empty; and what the document itself gives is returned as it is.
\<close>

theorem alive_list_decoded:
  assumes "\<And>body payload k raw. ad_payload D body = Some payload \<Longrightarrow> mload payload k = Some raw \<Longrightarrow> (size_of raw :: nat) < size_of body"
  shows "\<exists>m. decodeAliveMap D body = Some m \<and> (m = [] \<and> alive_direct D body = None \<or> (\<exists>raw. nested D body raw \<and> alive_direct D raw = Some m))
     \<and> (\<forall>m'. alive_direct D body = Some m' \<longrightarrow> m = m')"
proof (induction "size_of body" arbitrary: body rule: less_induct)
  case less
  show ?case
  proof (cases "alive_direct D body")
    case (Some m)
    then show ?thesis using nested_self [of D body] by (simp add: decodeAliveMap.simps) blast
  next
    case None
    show ?thesis
    proof (cases "ad_payload D body")
      case n: None
      show ?thesis using None n by (simp add: decodeAliveMap.simps)
    next
      case (Some payload)
      define member where "member k = (case mload payload k of None \<Rightarrow> Some [] | Some raw \<Rightarrow> decodeAliveMap D raw)" for k
      have m: "\<exists>m. member k = Some m \<and> (m = [] \<or> (\<exists>raw. nested D body raw \<and> alive_direct D raw = Some m))" if "k \<in> {''alive'', ''data''}" for k
      proof (cases "mload payload k")
        case (Some raw)
        then show ?thesis using less [OF assms [OF \<open>ad_payload D body = Some payload\<close> Some]] nested_member [OF \<open>ad_payload D body = Some payload\<close> that Some]
          by (auto simp: member_def)
      qed (simp add: member_def)
      have "decodeAliveMap D body = Option.bind (member ''alive'') (\<lambda>decoded. if decoded \<noteq> [] then Some decoded else member ''data'')"
        unfolding member_def using None Some by (subst decodeAliveMap.simps) simp
      then show ?thesis using m [of "''alive''"] m [of "''data''"] None by auto
    qed
  qed
qed

text \<open>Decoders of documents that are already values.\<close>

definition value_decoders :: "anyval alive_decoders" where
  "value_decoders = \<lparr>ad_wrapped = (\<lambda>_. None), ad_ints = (\<lambda>_. None), ad_strs = (\<lambda>_. None),
     ad_any = (\<lambda>v. case v of AnyMap m \<Rightarrow> Some m | _ \<Rightarrow> None), ad_payload = (\<lambda>v. case v of AnyMap m \<Rightarrow> Some m | _ \<Rightarrow> None)\<rparr>"

lemma value_members_smaller:
  assumes "ad_payload value_decoders body = Some payload" and "mload payload k = Some raw"
  shows "size raw < size body"
proof -
  have b: "body = AnyMap payload" using assms(1) by (auto simp: value_decoders_def split: anyval.splits)
  have "(k, raw) \<in> set payload" by (rule mload_SomeD [OF assms(2)])
  then have "size raw < size_list (size_prod (\<lambda>_. 0) size) payload" by (induction payload) auto
  then show ?thesis by (simp add: b)
qed

theorem alive_list_decoded_witness:
  "\<exists>m. decodeAliveMap value_decoders (AnyMap [(''data'', AnyMap [(''7'', AnyString ''2'')])]) = Some m \<and> m \<noteq> []"
proof -
  have payload: "ad_payload value_decoders (AnyMap m) = Some m" for m by (simp add: value_decoders_def)
  let ?doc = "AnyMap [(''data'', AnyMap [(''7'', AnyString ''2'')])]"
  have "alive_direct value_decoders (AnyMap [(''7'', AnyString ''2'')]) = Some [(7, 2)]" "alive_direct value_decoders ?doc = None"
    by (simp_all add: alive_direct_def value_decoders_def alive_of_any_def alive_entry_def strconv_Atoi_def is_digit_def digits_value_def i64_range_defs mstore_def Let_def)
  then have "decodeAliveMap value_decoders ?doc = decodeAliveMap value_decoders (AnyMap [(''7'', AnyString ''2'')])"
    using payload by (subst decodeAliveMap.simps) (simp add: mload_def)
  moreover have "\<exists>m. decodeAliveMap value_decoders (AnyMap [(''7'', AnyString ''2'')]) = Some m \<and> m = [(7, 2)]"
    using alive_list_decoded [of value_decoders size "AnyMap [(''7'', AnyString ''2'')]", OF value_members_smaller]
      \<open>alive_direct value_decoders (AnyMap [(''7'', AnyString ''2'')]) = Some [(7, 2)]\<close> by auto
  ultimately show ?thesis by auto
qed

text \<open>The shares of memory and disk are between 0 and 100 when no more is used than there is.\<close>

lemma percent_range: "used \<le> whole \<Longrightarrow> 0 \<le> percent used whole \<and> percent used whole \<le> 100"
proof -
  assume "used \<le> whole"
  then have u: "uint used \<le> uint whole" by (simp add: word_le_def)
  show ?thesis
  proof (cases "whole > 0")
    case True
    then have w: "0 < uint whole" by (simp add: word_less_def)
    define a b :: rat where ab: "a = of_int (uint used)" "b = of_int (uint whole)"
    have "0 < b" "a \<le> b" "0 \<le> a" unfolding ab using w u by (simp_all only: of_int_0_less_iff of_int_le_iff of_int_0_le_iff uint_ge_0)
    then have "0 \<le> a / b * 100 \<and> a / b * 100 \<le> 100" by (simp add: divide_le_eq)
    moreover have "percent used whole = a / b * 100" using True by (simp only: percent_def ab if_True)
    ultimately show ?thesis by simp
  qed (simp add: percent_def)
qed

text \<open>A system that reports no swap, or any one reading that fails, gives no information at all, though the other readings are there.\<close>

lemma one_failed_reading_hides_all: "rd_swap r = Inl e \<Longrightarrow> \<exists>x. GetSystemInfo r = Inl x"
  by (auto simp: GetSystemInfo_def GetSystemStatus_def reading_error_def Let_def)

text \<open>An error status of ppanel is taken for success.\<close>

lemma ppanel_status_error_ignored:
  "pc_PanelType c = ''ppanel'' \<Longrightarrow> (\<And>p b. hr_err (post p b) = None) \<Longrightarrow> (\<And>p b. hr_status (post p b) = 500) \<Longrightarrow>
   ReportNodeStatus post str now c n = Some ([''/v1/server/status''], None)"
  by (simp add: ReportNodeStatus_def Let_def)

lemma post_status_stops: "post_status post check paths e = Some (ps, None) \<Longrightarrow> paths = [] \<or> (ps \<noteq> [] \<and> check (last ps) (post (last ps)) = Some None)"
proof (induction paths arbitrary: e ps)
  case (Cons p paths)
  show ?case
  proof (cases "check p (post p)")
    case (Some r)
    show ?thesis
    proof (cases r)
      case None
      then show ?thesis using Cons.prems Some by auto
    next
      case e: (Some x)
      then obtain qs where q: "post_status post check paths (Some x) = Some (qs, None)" "ps = p # qs" using Cons.prems Some by auto
      show ?thesis using Cons.IH [OF q(1)] q by (cases "paths = []") auto
    qed
  qed (use Cons.prems in simp)
qed simp

text \<open>Without errors the controller sends the figures of \<open>GetSystemInfo\<close>; a reading that failed is sent as zero.\<close>

lemma node_status_GetSystemInfo:
  "GetSystemInfo r = Inr (cpu, mem, disk, up) \<Longrightarrow>
   ns_CPU (node_status r) = cpu \<and> ns_Mem (node_status r) = mem \<and> ns_Disk (node_status r) = disk \<and> ns_Uptime (node_status r) = up"
  by (auto simp: GetSystemInfo_def node_status_def Let_def split: prod.splits option.splits)

lemma failed_reading_sent_as_zero:
  "rd_mem r = Inl e \<Longrightarrow> ns_MemTotal (node_status r) = 0 \<and> ns_Mem (node_status r) = 0"
  by (simp add: node_status_def GetSystemStatus_def reading_def percent_def Let_def)

end
