(* ===== verification/Commands.thy ===== *)
theory Commands
  imports Crypt Go_Strings
begin

text \<open>
  The commands that manage the service (\<open>cmd/action_linux.go\<close>, \<open>cmd/install_linux.go\<close>, \<open>cmd/common.go\<close>), generate keys
  (\<open>cmd/x25519.go\<close>) and set the clock (\<open>cmd/synctime.go\<close>), with \<open>common/exec/exec.go\<close>. The machine is a state \<open>'s\<close>
  that shell commands change; what is printed is a list of messages, by their meaning.
\<close>

section \<open>Shell commands (\<open>common/exec/exec.go\<close>)\<close>

datatype exec_error = ErrNotFound | ExecError string

text \<open>A shell runs a command: the new state, the output and the error.\<close>

type_synonym 's shell = "string \<Rightarrow> string \<Rightarrow> 's \<Rightarrow> 's \<times> string \<times> exec_error option"

definition RunCommandByShell :: "'s shell \<Rightarrow> string \<Rightarrow> 's \<Rightarrow> 's \<times> string \<times> exec_error option" where
  "RunCommandByShell sh cmd s =
     (case sh ''bash'' cmd s of
        (s, out, Some ErrNotFound) \<Rightarrow> sh ''sh'' cmd s
      | r \<Rightarrow> r)"

section \<open>Messages and the state of the service (\<open>common.go\<close>)\<close>

datatype message =
    CheckError exec_error
  | CommandError exec_error
  | TextError string
  | Failed
  | AlreadyRunning
  | MaybeFailed
  | Cancelled
  | Asked
  | Succeeded
  | Output string

definition contains :: "string \<Rightarrow> string \<Rightarrow> bool" where
  "contains s sub = list_ex (\<lambda>i. take (length sub) (drop i s) = sub) [0..<Suc (length s)]"

definition checkRunning :: "'s shell \<Rightarrow> 's \<Rightarrow> 's \<times> (exec_error + bool)" where
  "checkRunning sh s =
     (case RunCommandByShell sh ''systemctl status V2bX | grep Active'' s of
        (s, _, Some e) \<Rightarrow> (s, Inl e)
      | (s, out, None) \<Rightarrow> (s, Inr (contains out ''running'')))"

section \<open>Start, stop and restart (\<open>action_linux.go\<close>)\<close>

text \<open>A second check that fails goes on with the answer no.\<close>

definition startHandle :: "'s shell \<Rightarrow> 's \<Rightarrow> 's \<times> message list" where
  "startHandle sh s =
     (case checkRunning sh s of
        (s, Inl e) \<Rightarrow> (s, [CheckError e, Failed])
      | (s, Inr r) \<Rightarrow>
          let told = (if r then [AlreadyRunning] else [])
          in case RunCommandByShell sh ''systemctl start V2bX.service'' s of
               (s, _, Some e) \<Rightarrow> (s, told @ [CommandError e, Failed])
             | (s, _, None) \<Rightarrow>
                 (case checkRunning sh s of
                    (s, Inl e) \<Rightarrow> (s, told @ [CheckError e, Failed, MaybeFailed])
                  | (s, Inr False) \<Rightarrow> (s, told @ [MaybeFailed])
                  | (s, Inr True) \<Rightarrow> (s, told @ [Succeeded])))"

definition stopHandle :: "'s shell \<Rightarrow> 's \<Rightarrow> 's \<times> message list" where
  "stopHandle sh s =
     (case RunCommandByShell sh ''systemctl stop V2bX.service'' s of
        (s, _, Some e) \<Rightarrow> (s, [CommandError e, Failed])
      | (s, _, None) \<Rightarrow>
          (case checkRunning sh s of
             (s, Inl e) \<Rightarrow> (s, [CheckError e, Failed])
           | (s, Inr True) \<Rightarrow> (s, [MaybeFailed])
           | (s, Inr False) \<Rightarrow> (s, [Succeeded])))"

definition restartHandle :: "'s shell \<Rightarrow> 's \<Rightarrow> 's \<times> message list" where
  "restartHandle sh s =
     (case RunCommandByShell sh ''systemctl restart V2bX.service'' s of
        (s, _, Some e) \<Rightarrow> (s, [CommandError e, Failed])
      | (s, _, None) \<Rightarrow>
          (case checkRunning sh s of
             (s, Inl e) \<Rightarrow> (s, [CheckError e, Failed])
           | (s, Inr False) \<Rightarrow> (s, [MaybeFailed])
           | (s, Inr True) \<Rightarrow> (s, [Succeeded])))"

section \<open>Update and uninstall (\<open>install_linux.go\<close>)\<close>

definition update_cmd :: "string \<Rightarrow> string" where
  "update_cmd targetVersion =
     ''wget -N -O /tmp/v2bx_install.sh https://raw.githubusercontent.com/yamatu/yabx/main/install.sh && bash /tmp/v2bx_install.sh''
     @ (if targetVersion \<noteq> '''' then '' '' @ targetVersion else '''')"

definition updateHandle :: "'s shell \<Rightarrow> string \<Rightarrow> 's \<Rightarrow> 's \<times> message list" where
  "updateHandle sh targetVersion s =
     (case RunCommandByShell sh (update_cmd targetVersion) s of
        (s, _, Some e) \<Rightarrow> (s, [CommandError e])
      | (s, _, None) \<Rightarrow> (s, []))"

definition installed_paths :: "string list" where
  "installed_paths = [''/etc/systemd/system/V2bX.service'', ''/etc/V2bX/'', ''/usr/local/V2bX/'', ''/usr/bin/V2bX'', ''/usr/bin/v2bx'', ''/usr/bin/v2bx-bin'', ''/bin/V2bX'']"

text \<open>\<open>remove\<close> is \<open>os.RemoveAll\<close>, whose errors are dropped; \<open>yes\<close> is the answer that was read.\<close>

definition uninstallHandle :: "'s shell \<Rightarrow> (string \<Rightarrow> 's \<Rightarrow> 's) \<Rightarrow> string \<Rightarrow> 's \<Rightarrow> 's \<times> message list" where
  "uninstallHandle sh remove yes s =
     (let told = Asked # (if strings_ToLower yes \<noteq> ''y'' then [Cancelled] else [])
      in case RunCommandByShell sh ''systemctl stop V2bX&&systemctl disable V2bX'' s of
           (s, _, Some e) \<Rightarrow> (s, told @ [CommandError e, Failed])
         | (s, _, None) \<Rightarrow>
             (case RunCommandByShell sh ''systemctl daemon-reload&&systemctl reset-failed'' (fold remove installed_paths s) of
                (s, _, Some e) \<Rightarrow> (s, told @ [CommandError e, Failed])
              | (s, _, None) \<Rightarrow> (s, told @ [Succeeded])))"

section \<open>The clock and keys (\<open>synctime.go\<close>, \<open>x25519.go\<close>)\<close>

definition synctimeHandle :: "(string \<Rightarrow> string + int) \<Rightarrow> (int \<Rightarrow> 's \<Rightarrow> 's \<times> string option) \<Rightarrow> string \<Rightarrow> 's \<Rightarrow> 's \<times> message list" where
  "synctimeHandle ntp_Time SetSystemTime ntpServer s =
     (case ntp_Time ntpServer of
        Inl e \<Rightarrow> (s, [TextError (''get time from server error: '' @ e), Failed])
      | Inr t \<Rightarrow>
          (case SetSystemTime t s of
             (s, Some e) \<Rightarrow> (s, [TextError (''set system time error: '' @ e), Failed])
           | (s, None) \<Rightarrow> (s, [Succeeded])))"

text \<open>\<open>base64.RawURLEncoding\<close>: the standard encoding without padding, with two other characters.\<close>

definition RawURLEncoding :: "string \<Rightarrow> string" where
  "RawURLEncoding data =
     map (\<lambda>c. if c = CHR ''+'' then CHR ''-'' else if c = CHR ''/'' then CHR ''_'' else c) (filter (\<lambda>c. c \<noteq> CHR ''='') (EncodeToString data))"

definition bytes_string :: "8 word list \<Rightarrow> string" where
  "bytes_string ws = map (\<lambda>w. char_of (unat w)) ws"

text \<open>
  The answers are the words that were read: yes, the node id, its type and the token. \<open>Sum256\<close> is the digest of
  \<open>GenX25519Private\<close>, \<open>random\<close> the answer of the random source and \<open>curve\<close> the public key of a private key.
\<close>

definition executeX25519 ::
  "(string \<Rightarrow> 8 word list) \<Rightarrow> string + 8 word list \<Rightarrow> (8 word list \<Rightarrow> string + 8 word list) \<Rightarrow> string \<Rightarrow> string \<Rightarrow> string \<Rightarrow> string \<Rightarrow> message" where
  "executeX25519 Sum256 random curve yes nodeId nodeType token =
     (case (if strings_ToLower yes = ''y'' then Inr (GenX25519Private Sum256 (nodeId @ strings_ToLower nodeType @ token))
            else case random of Inl e \<Rightarrow> Inl (''read rand error: '' @ e) | Inr k \<Rightarrow> Inr k) of
        Inl e \<Rightarrow> TextError e
      | Inr privateKey \<Rightarrow>
          (case curve privateKey of
             Inl e \<Rightarrow> TextError (''gen X25519 error: '' @ e)
           | Inr publicKey \<Rightarrow>
               Output (''Private key: '' @ RawURLEncoding (bytes_string privateKey) @ CHR 0x0A # ''Public key: '' @ RawURLEncoding (bytes_string publicKey))))"

section \<open>Correctness\<close>

lemmas handle_defs = startHandle_def stopHandle_def restartHandle_def

text \<open>
  The service commands report what they saw. Start and restart report success only when a last look at the service found it
  running, and stop only when it found it not running; the machine is left as that look left it. A command that reports
  success reports no failure beside it.
\<close>

theorem service_success_checked:
  shows "Succeeded \<in> set (snd (startHandle sh s)) \<Longrightarrow>
           (\<exists>t. checkRunning sh t = (fst (startHandle sh s), Inr True)) \<and> Failed \<notin> set (snd (startHandle sh s))"
    and "Succeeded \<in> set (snd (restartHandle sh s)) \<Longrightarrow>
           (\<exists>t. checkRunning sh t = (fst (restartHandle sh s), Inr True)) \<and> Failed \<notin> set (snd (restartHandle sh s))"
    and "Succeeded \<in> set (snd (stopHandle sh s)) \<Longrightarrow>
           (\<exists>t. checkRunning sh t = (fst (stopHandle sh s), Inr False)) \<and> Failed \<notin> set (snd (stopHandle sh s))"
  by (auto simp: handle_defs Let_def split: prod.splits sum.splits option.splits bool.splits if_splits)

text \<open>Starting a service that runs tells so, and runs the start command all the same.\<close>

lemma start_of_running_service:
  assumes "checkRunning sh s = (s1, Inr True)" and "RunCommandByShell sh ''systemctl start V2bX.service'' s1 = (s2, out, None)"
    and "checkRunning sh s2 = (s3, Inr True)"
  shows "startHandle sh s = (s3, [AlreadyRunning, Succeeded])"
  using assms by (simp add: startHandle_def)

text \<open>
  The answer to the question of uninstall changes the messages only: whatever is answered, the machine ends as after yes. An
  answer of no prints that the removal was cancelled and then removes everything.
\<close>

lemma uninstall_ignores_answer: "fst (uninstallHandle sh remove yes s) = fst (uninstallHandle sh remove yes' s)"
  by (auto simp: uninstallHandle_def Let_def split: prod.splits option.splits)

lemma cancelled_uninstall_removes:
  assumes "RunCommandByShell sh ''systemctl stop V2bX&&systemctl disable V2bX'' s = (s1, out, None)"
    and "RunCommandByShell sh ''systemctl daemon-reload&&systemctl reset-failed'' (fold remove installed_paths s1) = (s2, out', None)"
  shows "uninstallHandle sh remove ''n'' s = (s2, [Asked, Cancelled, Succeeded])"
  using assms by (simp add: uninstallHandle_def strings_ToLower_def to_lower_def)

text \<open>The key of a node does not depend on how its type is written, nor on the random source.\<close>

lemma node_key_stable:
  assumes "strings_ToLower yes = ''y''" and "strings_EqualFold t t'"
  shows "executeX25519 Sum256 random curve yes nodeId t token = executeX25519 Sum256 random' curve yes nodeId t' token"
  using assms by (simp add: executeX25519_def strings_EqualFold_def)

end
