(* ===== verification/Json5.thy ===== *)
theory Json5
  imports Go_Prelude
begin

text \<open>
  \<open>common/json5/json5.go\<close>: the reader that blanks comments and trailing commas before a configuration
  file is decoded. The code works in place on a byte slice with an index; so does the model, with
  the loops as functions on the slice and the index. A reference function on suffixes is proved equal
  and carries the properties.
\<close>

section \<open>The loops\<close>

abbreviation blank :: char where "blank \<equiv> CHR '' ''"

definition isNL :: "char \<Rightarrow> bool" where
  "isNL c \<longleftrightarrow> c = CHR 0x0A \<or> c = CHR 0x0D"

definition isWS :: "char \<Rightarrow> bool" where
  "isWS c \<longleftrightarrow> c = blank \<or> c = CHR 0x09 \<or> isNL c"

function line_loop :: "string \<Rightarrow> nat \<Rightarrow> string \<times> nat" where
  "line_loop s i = (if i < length s \<and> \<not> isNL (s ! i) then line_loop (s[i := blank]) (i + 1) else (s, i))"
  by pat_completeness auto
termination by (relation "measure (\<lambda>(s, i). length s - i)") auto

function block_loop :: "string \<Rightarrow> nat \<Rightarrow> string \<times> nat" where
  "block_loop s i =
     (if i < length s then
        if s ! i \<noteq> CHR ''*'' then block_loop (s[i := blank]) (i + 1)
        else if i + 1 < length s \<and> s ! (i + 1) = CHR ''/'' then (s[i := blank, i + 1 := blank], i + 1)
        else block_loop (s[i := blank]) (i + 2)
      else (s, i))"
  by pat_completeness auto
termination by (relation "measure (\<lambda>(s, i). length s - i)") auto

definition consumeComment :: "string \<Rightarrow> nat \<Rightarrow> string \<times> nat" where
  "consumeComment s i =
     (let (s, i) = (if i < length s \<and> s ! i = CHR ''/'' then line_loop (s[i - 1 := blank]) i else (s, i))
      in if i < length s \<and> s ! i = CHR ''*'' then block_loop (s[i - 1 := blank, i := blank]) i else (s, i))"

function string_loop :: "string \<Rightarrow> nat \<Rightarrow> nat" where
  "string_loop s i =
     (if i < length s then
        if s ! i = CHR 0x22 then i + 1
        else if s ! i = CHR 0x5C then string_loop s (i + 2)
        else string_loop s (i + 1)
      else i)"
  by pat_completeness auto
termination by (relation "measure (\<lambda>(s, i). length s - i)") auto

declare line_loop.simps [simp del] block_loop.simps [simp del] string_loop.simps [simp del]

lemma line_loop_length: "line_loop s i = (s', i') \<Longrightarrow> length s' = length s \<and> i \<le> i'"
proof (induction s i rule: line_loop.induct)
  case (1 s i)
  then show ?case by (subst (asm) (2) line_loop.simps) (fastforce split: if_splits)
qed

lemma block_loop_length: "block_loop s i = (s', i') \<Longrightarrow> length s' = length s \<and> i \<le> i'"
proof (induction s i rule: block_loop.induct)
  case (1 s i)
  then show ?case by (subst (asm) (3) block_loop.simps) (fastforce split: if_splits)
qed

lemma consumeComment_length: "consumeComment s i = (s', i') \<Longrightarrow> length s' = length s \<and> i \<le> i'"
  by (auto simp: consumeComment_def Let_def split: if_splits prod.splits dest!: line_loop_length block_loop_length)

lemma consumeComment_keeps [simp]: "length (fst (consumeComment s i)) = length s"
  using consumeComment_length [of s i] by (metis prod.collapse)

lemma consumeComment_mono: "i \<le> snd (consumeComment s i)"
  using consumeComment_length [of s i] by (metis prod.collapse)

function comma_loop :: "nat \<Rightarrow> string \<Rightarrow> nat \<Rightarrow> string \<times> nat" where
  "comma_loop j s i =
     (if i + 1 \<ge> length s then (s, i + 1)
      else if s ! (i + 1) = CHR ''}'' \<or> s ! (i + 1) = CHR '']'' then (s[j := blank], i + 1)
      else if s ! (i + 1) = CHR ''/'' then comma_loop j (fst (consumeComment s (i + 2))) (snd (consumeComment s (i + 2)))
      else if \<not> isWS (s ! (i + 1)) then (s, i + 1)
      else comma_loop j s (i + 1))"
  by pat_completeness auto
termination
proof (relation "measure (\<lambda>(j, s, i). length s - i)", goal_cases)
  case (2 j s i)
  then show ?case using consumeComment_mono [of "i + 2" s] by (simp add: split_def)
qed auto

declare comma_loop.simps [simp del]

lemma comma_loop_keeps [simp]: "length (fst (comma_loop j s i)) = length s"
proof (induction j s i rule: comma_loop.induct)
  case (1 j s i)
  then show ?case by (subst comma_loop.simps) auto
qed

lemma comma_loop_mono: "i < snd (comma_loop j s i)"
proof (induction j s i rule: comma_loop.induct)
  case (1 j s i)
  then show ?case using consumeComment_mono [of "i + 2" s] by (subst comma_loop.simps) (auto dest: Suc_lessD intro: less_trans)
qed

lemma string_loop_ge: "i \<le> string_loop s i"
proof (induction s i rule: string_loop.induct)
  case (1 s i)
  then show ?case by (subst string_loop.simps) auto
qed

function prep_loop :: "string \<Rightarrow> nat \<Rightarrow> string" where
  "prep_loop s i =
     (if i < length s then
        if s ! i = CHR 0x22 then prep_loop s (string_loop s (i + 1))
        else if s ! i = CHR ''/'' then prep_loop (fst (consumeComment s (i + 1))) (snd (consumeComment s (i + 1)))
        else if s ! i = CHR '','' then prep_loop (fst (comma_loop i s i)) (snd (comma_loop i s i))
        else prep_loop s (i + 1)
      else s)"
  by pat_completeness auto
termination
proof (relation "measure (\<lambda>(s, i). length s - i)", goal_cases)
  case (2 s i)
  then show ?case using string_loop_ge [of "i + 1" s] by simp
next
  case (3 s i)
  then show ?case using consumeComment_mono [of "i + 1" s] by (simp add: split_def)
next
  case (4 s i)
  then show ?case using comma_loop_mono [of i i s] by (simp add: split_def)
qed auto

declare prep_loop.simps [simp del]

text \<open>\<open>prep\<close> of a reader that delivers the bytes \<open>s\<close>, and \<open>TrimNodeReader.Read\<close> on the buffered result.\<close>

definition prep :: "string + string \<Rightarrow> string + string" where
  "prep r = (case r of Inl e \<Rightarrow> Inl e | Inr s \<Rightarrow> Inr (prep_loop s 0))"

record TrimNodeReader =
  tr_r :: "string + string"
  tr_br :: "string option"

definition NewTrimNodeReader :: "string + string \<Rightarrow> TrimNodeReader" where
  "NewTrimNodeReader r = \<lparr>tr_r = r, tr_br = None\<rparr>"

text \<open>\<open>n\<close> is the length of the buffer; \<open>None\<close> as data is \<open>io.EOF\<close>.\<close>

definition TrimNodeReader_Read :: "TrimNodeReader \<Rightarrow> nat \<Rightarrow> TrimNodeReader \<times> (string + string option)" where
  "TrimNodeReader_Read st n =
     (let serve = (\<lambda>st s. if s = '''' then (st, Inr None) else (st\<lparr>tr_br := Some (drop n s)\<rparr>, Inr (Some (take n s))))
      in case tr_br st of
           Some s \<Rightarrow> serve st s
         | None \<Rightarrow>
             (case prep (tr_r st) of
                Inl e \<Rightarrow> (st, Inl e)
              | Inr s \<Rightarrow> serve (st\<lparr>tr_br := Some s\<rparr>) s))"

section \<open>A reference on suffixes\<close>

definition line_ref :: "string \<Rightarrow> string \<times> string" where
  "line_ref s = (map (\<lambda>_. blank) (takeWhile (\<lambda>c. \<not> isNL c) s), dropWhile (\<lambda>c. \<not> isNL c) s)"

text \<open>The rest of a block comment: what becomes of it, and what follows.\<close>

fun block_ref :: "string \<Rightarrow> string \<times> string" where
  "block_ref [] = ([], [])"
| "block_ref [c] = ([blank], [])"
| "block_ref (c # d # s) =
     (if c \<noteq> CHR ''*'' then (blank # fst (block_ref (d # s)), snd (block_ref (d # s)))
      else if d = CHR ''/'' then ([blank, blank], s)
      else (blank # d # fst (block_ref s), snd (block_ref s)))"

lemma block_ref_length [simp]: "length (fst (block_ref s)) + length (snd (block_ref s)) = length s"
  by (induction s rule: block_ref.induct) auto

lemma line_ref_length [simp]: "length (fst (line_ref s)) + length (snd (line_ref s)) = length s"
  unfolding line_ref_def by (induction s) auto

lemma block_ref_le: "length (snd (block_ref s)) \<le> length s"
  using block_ref_length [of s] by linarith

lemma line_ref_le: "length (snd (line_ref s)) \<le> length s"
  using line_ref_length [of s] by linarith

text \<open>A comment after its first slash: what becomes of it together with the slash, and what follows.\<close>

definition comment_ref :: "string \<Rightarrow> (string \<times> string) option" where
  "comment_ref s =
     (case s of
        [] \<Rightarrow> None
      | d # s' \<Rightarrow>
          if d = CHR ''/'' then Some (blank # fst (line_ref s), snd (line_ref s))
          else if d = CHR ''*'' then Some (blank # blank # fst (block_ref s'), snd (block_ref s'))
          else None)"

text \<open>One round of the loop after a comma: what it passes and what follows; \<open>None\<close> where the loop stops.\<close>

definition comma_next :: "string \<Rightarrow> (string \<times> string) option" where
  "comma_next s =
     (case s of
        [] \<Rightarrow> None
      | c # s \<Rightarrow>
          if c = CHR ''}'' \<or> c = CHR '']'' then None
          else if c = CHR ''/'' then
            (case comment_ref s of
               None \<Rightarrow> Some (c # take 1 s, tl s)
             | Some (out, rest) \<Rightarrow>
                 if hd s = CHR ''/'' then Some (out @ take 1 rest, tl rest) else Some (out, rest))
          else if \<not> isWS c then None
          else Some ([c], s))"

lemma comment_ref_length: "comment_ref s = Some (out, rest) \<Longrightarrow> length out + length rest = Suc (length s) \<and> 0 < length out"
  using line_ref_length [of s] block_ref_length [of "tl s"]
  by (auto simp: comment_ref_def split: list.splits if_splits simp del: line_ref_length block_ref_length)

lemma comma_next_length: "comma_next s = Some (out, rest) \<Longrightarrow> length out + length rest = length s \<and> 0 < length out"
proof -
  assume a: "comma_next s = Some (out, rest)"
  then obtain c t where s: "s = c # t" by (cases s) (auto simp: comma_next_def)
  have tl: "min (length x) 1 + (length x - 1) = length x" for x :: string by (cases x) auto
  show ?thesis
  proof (cases "c = CHR ''/''")
    case True
    then show ?thesis using a s tl [of t]
      by (cases "comment_ref t") (auto simp: comma_next_def split: if_splits dest!: comment_ref_length)
  qed (use a s in \<open>auto simp: comma_next_def split: if_splits\<close>)
qed

lemma comma_next_less: "comma_next s = Some (out, rest) \<Longrightarrow> length rest < length s"
  using comma_next_length [of s out rest] by linarith

lemma comment_ref_le: "comment_ref s = Some (out, rest) \<Longrightarrow> length rest \<le> length s"
  using comment_ref_length [of s out rest] by linarith

function comma_ref :: "string \<Rightarrow> string \<times> string" where
  "comma_ref s =
     (case comma_next s of
        None \<Rightarrow> ([], s)
      | Some (out, rest) \<Rightarrow> (out @ fst (comma_ref rest), snd (comma_ref rest)))"
  by pat_completeness auto
termination
  by (relation "measure length") (auto dest: comma_next_less)

declare comma_ref.simps [simp del]

lemma comma_ref_length: "length (fst (comma_ref s)) + length (snd (comma_ref s)) = length s"
proof (induction s rule: comma_ref.induct)
  case (1 s)
  show ?case
  proof (cases "comma_next s")
    case (Some x)
    obtain out rest where x: "x = (out, rest)" by fastforce
    have "length (fst (comma_ref rest)) + length (snd (comma_ref rest)) = length rest" using 1 [OF Some x [symmetric]] by simp
    then show ?thesis using Some x comma_next_length [of s out rest] by (simp add: comma_ref.simps [of s])
  qed (simp add: comma_ref.simps [of s])
qed

definition closes :: "string \<Rightarrow> bool" where
  "closes s \<longleftrightarrow> s \<noteq> [] \<and> (hd s = CHR ''}'' \<or> hd s = CHR '']'')"

fun string_ref :: "string \<Rightarrow> string \<times> string" where
  "string_ref [] = ([], [])"
| "string_ref [c] = ([c], [])"
| "string_ref (c # d # s) =
     (if c = CHR 0x22 then ([c], d # s)
      else if c = CHR 0x5C then (c # d # fst (string_ref s), snd (string_ref s))
      else (c # fst (string_ref (d # s)), snd (string_ref (d # s))))"

lemma string_ref_append: "fst (string_ref s) @ snd (string_ref s) = s"
  by (induction s rule: string_ref.induct) auto

lemma string_ref_le: "length (snd (string_ref s)) \<le> length s"
  using string_ref_append [of s] by (metis length_append le_add2)

function trim :: "string \<Rightarrow> string" where
  "trim [] = []"
| "trim (c # s) =
     (if c = CHR 0x22 then c # fst (string_ref s) @ trim (snd (string_ref s))
      else if c = CHR ''/'' then
        (case comment_ref s of None \<Rightarrow> c # trim s | Some (out, rest) \<Rightarrow> out @ trim rest)
      else if c = CHR '','' then
        (if closes (snd (comma_ref s)) then blank else c) # fst (comma_ref s) @ trim (snd (comma_ref s))
      else c # trim s)"
  by pat_completeness auto
termination
proof (relation "measure length", goal_cases)
  case (2 c s)
  then show ?case using string_ref_le [of s] by simp
next
  case (4 c s out rest)
  then show ?case by (auto dest!: comment_ref_le)
next
  case (5 c s)
  then show ?case using comma_ref_length [of s] by simp
qed auto

section \<open>The loops implement the reference\<close>

text \<open>Throughout, the index stands behind a prefix \<open>p\<close> that is already done.\<close>

lemma line_loop_ref:
  "line_loop (p @ s) (length p) = (p @ fst (line_ref s) @ snd (line_ref s), length p + length (fst (line_ref s)))"
proof (induction s arbitrary: p)
  case (Cons c s)
  show ?case
    using Cons.IH [of "p @ [blank]"]
    by (subst line_loop.simps) (simp add: line_ref_def list_update_append)
qed (subst line_loop.simps, simp add: line_ref_def)

lemma block_loop_end: "length s \<le> i \<Longrightarrow> block_loop s i = (s, i)"
  by (subst block_loop.simps) simp

text \<open>The index where the block loop stops is the blanked slash that closes it, or beyond the end.\<close>

lemma block_loop_ref:
  "\<exists>k. block_loop (p @ s) (length p) = (p @ fst (block_ref s) @ snd (block_ref s), k)
     \<and> (length (p @ s) \<le> k \<and> snd (block_ref s) = []
        \<or> k + 1 = length p + length (fst (block_ref s)) \<and> (p @ fst (block_ref s) @ snd (block_ref s)) ! k = blank)"
proof (induction s arbitrary: p rule: block_ref.induct)
  case 1
  show ?case by (subst block_loop.simps) simp
next
  case (2 c)
  show ?case
    by (subst block_loop.simps) (auto simp: list_update_append block_loop_end)
next
  case (3 c d s)
  consider (other) "c \<noteq> CHR ''*''" | (close) "c = CHR ''*''" "d = CHR ''/''" | (skip) "c = CHR ''*''" "d \<noteq> CHR ''/''" by blast
  then show ?case
  proof cases
    case other
    then show ?thesis
      using "3.IH"(1) [OF other, of "p @ [blank]"] by (subst block_loop.simps) (simp add: list_update_append)
  next
    case close
    then show ?thesis
      by (subst block_loop.simps) (simp add: list_update_append nth_append)
  next
    case skip
    have "block_loop (p @ c # d # s) (length p) = block_loop ((p @ [blank, d]) @ s) (length (p @ [blank, d]))"
      using skip by (subst block_loop.simps) (simp add: list_update_append nth_append)
    moreover have "\<not> c \<noteq> CHR ''*''" using skip by simp
    note "3.IH"(3) [OF this skip(2), of "p @ [blank, d]"]
    ultimately show ?thesis using skip by simp
  qed
qed

lemma consume_none: "comment_ref s = None \<Longrightarrow> consumeComment (p @ c # s) (Suc (length p)) = (p @ c # s, Suc (length p))"
  by (cases s) (auto simp: comment_ref_def consumeComment_def nth_append split: if_splits)

lemma line_ref_stop: "snd (line_ref s) = [] \<or> isNL (hd (snd (line_ref s)))"
  unfolding line_ref_def by (metis (no_types, lifting) hd_dropWhile snd_conv)

lemma consume_line:
  assumes "comment_ref s = Some (out, rest)" and "hd s = CHR ''/''"
  shows "consumeComment (p @ c # s) (Suc (length p)) = (p @ out @ rest, length p + length out)"
proof -
  obtain t where s: "s = CHR ''/'' # t" using assms by (cases s) (auto simp: comment_ref_def)
  have o: "out = blank # fst (line_ref s)" "rest = snd (line_ref s)" using assms(1) s by (auto simp: comment_ref_def)
  have l: "line_loop (p @ blank # s) (Suc (length p)) = (p @ out @ rest, length p + length out)"
    using line_loop_ref [of "p @ [blank]" s] o by simp
  have stop: "\<not> (length p + length out < length (p @ out @ rest) \<and> (p @ out @ rest) ! (length p + length out) = CHR ''*'')"
    using line_ref_stop [of s] unfolding o(2) [symmetric] by (cases rest) (auto simp: nth_append isNL_def)
  have i: "Suc (length p) < length (p @ c # s) \<and> (p @ c # s) ! Suc (length p) = CHR ''/''" by (simp add: s nth_append)
  have u: "(p @ c # s)[length p := blank] = p @ blank # s" by (simp add: list_update_append)
  show ?thesis
    unfolding consumeComment_def Let_def if_P [OF i] diff_Suc_1 u l prod.case by (rule if_not_P [OF stop])
qed

lemma consume_block:
  assumes "comment_ref s = Some (out, rest)" and "hd s \<noteq> CHR ''/''"
  shows "\<exists>k. consumeComment (p @ c # s) (Suc (length p)) = (p @ out @ rest, k)
     \<and> (length (p @ c # s) \<le> k \<and> rest = [] \<or> k + 1 = length p + length out \<and> (p @ out @ rest) ! k = blank)"
proof -
  obtain t where s: "s = CHR ''*'' # t" using assms by (cases s) (auto simp: comment_ref_def split: if_splits)
  have o: "out = blank # blank # fst (block_ref t)" "rest = snd (block_ref t)" using assms(1) s by (auto simp: comment_ref_def)
  have "consumeComment (p @ c # s) (Suc (length p)) = block_loop (p @ [blank, blank] @ t) (Suc (length p))"
    by (simp add: s consumeComment_def list_update_append nth_append)
  also have "\<dots> = block_loop ((p @ [blank, blank]) @ t) (length (p @ [blank, blank]))"
    by (subst block_loop.simps) (simp add: nth_append list_update_append)
  finally show ?thesis using block_loop_ref [of "p @ [blank, blank]" t] o s by simp
qed

lemma prep_loop_end: "length s \<le> i \<Longrightarrow> prep_loop s i = s"
  by (subst prep_loop.simps) simp

lemma prep_loop_plain:
  "i < length s \<Longrightarrow> s ! i \<noteq> CHR 0x22 \<Longrightarrow> s ! i \<noteq> CHR ''/'' \<Longrightarrow> s ! i \<noteq> CHR '','' \<Longrightarrow> prep_loop s i = prep_loop s (Suc i)"
  by (subst prep_loop.simps) simp

text \<open>A comment in the main loop: the index ends up behind it.\<close>

lemma prep_comment:
  assumes "comment_ref s = Some (out, rest)"
  shows "prep_loop (fst (consumeComment (p @ c # s) (Suc (length p)))) (snd (consumeComment (p @ c # s) (Suc (length p))))
     = prep_loop (p @ out @ rest) (length (p @ out))"
proof (cases "hd s = CHR ''/''")
  case True
  then show ?thesis using consume_line [OF assms] by simp
next
  case False
  obtain k where k: "consumeComment (p @ c # s) (Suc (length p)) = (p @ out @ rest, k)"
    "length (p @ c # s) \<le> k \<and> rest = [] \<or> k + 1 = length p + length out \<and> (p @ out @ rest) ! k = blank"
    using consume_block [OF assms False] by blast
  have len: "length (p @ c # s) = length (p @ out @ rest)" using comment_ref_length [OF assms] by simp
  show ?thesis
  proof (cases "length (p @ c # s) \<le> k \<and> rest = []")
    case True
    then show ?thesis using k(1) len by (simp add: prep_loop_end)
  next
    case False
    then have k': "k + 1 = length p + length out" "(p @ out @ rest) ! k = blank" using k(2) by auto
    then have "prep_loop (p @ out @ rest) k = prep_loop (p @ out @ rest) (Suc k)" by (intro prep_loop_plain) auto
    then show ?thesis using k(1) k'(1) by simp
  qed
qed

lemma comma_loop_end: "length s \<le> Suc i \<Longrightarrow> comma_loop j s i = (s, Suc i)"
  by (subst comma_loop.simps) simp

lemma comma_loop_slash:
  assumes "s = CHR ''/'' # t" and "comma_next s = Some (out, rest)" and "P \<noteq> []"
  shows "comma_loop j (P @ s) (length P - 1) = comma_loop j (P @ out @ rest) (length P + length out - 1)
    \<or> rest = [] \<and> (\<exists>k. comma_loop j (P @ s) (length P - 1) = (P @ out, k) \<and> length (P @ s) \<le> k)"
proof -
  let ?cc = "consumeComment (P @ s) (Suc (length P))"
  have P: "length P - 1 + 1 = length P" "length P - 1 + 2 = Suc (length P)" using \<open>P \<noteq> []\<close> by (cases P; simp)+
  have step: "comma_loop j (P @ s) (length P - 1) = comma_loop j (fst ?cc) (snd ?cc)"
    by (subst comma_loop.simps) (simp add: P [simplified] assms(1) nth_append)
  show ?thesis
  proof (cases "comment_ref t")
    case None
    then have cc: "?cc = (P @ s, Suc (length P))" unfolding assms(1) by (rule consume_none)
    have o: "out = CHR ''/'' # take 1 t" "rest = tl t" using assms None by (auto simp: comma_next_def)
    show ?thesis using step cc o assms(1) by (cases t) (auto simp: comma_loop_end)
  next
    case (Some x)
    obtain o' r where x: "x = (o', r)" by fastforce
    note c = Some [unfolded x]
    have len: "length o' + length r = length s" using comment_ref_length [OF c] assms(1) by simp
    show ?thesis
    proof (cases "hd t = CHR ''/''")
      case True
      have cc: "?cc = (P @ o' @ r, length P + length o')" unfolding assms(1) by (rule consume_line [OF c True])
      have o: "out = o' @ take 1 r" "rest = tl r" using assms c True by (auto simp: comma_next_def)
      show ?thesis using step cc o len by (cases r) (auto simp: comma_loop_end)
    next
      case False
      obtain k where k: "?cc = (P @ o' @ r, k)"
        "length (P @ s) \<le> k \<and> r = [] \<or> k + 1 = length P + length o'"
        using consume_block [OF c False, of P "CHR ''/''"] assms(1) by auto
      have o: "out = o'" "rest = r" using assms c False by (auto simp: comma_next_def)
      show ?thesis
      proof (cases "length (P @ s) \<le> k \<and> r = []")
        case True
        then show ?thesis using step k(1) o len by (auto simp: comma_loop_end)
      next
        case False
        then have "k = length P + length out - 1" using k(2) o by auto
        then show ?thesis using step k(1) o by simp
      qed
    qed
  qed
qed

lemma comma_loop_ref:
  "\<exists>k. comma_loop (length q) (q @ CHR '','' # p @ s) (length q + length p)
       = (q @ (if closes (snd (comma_ref s)) then blank else CHR '','') # p @ fst (comma_ref s) @ snd (comma_ref s), k)
     \<and> (k = length q + Suc (length p + length (fst (comma_ref s))) \<or> snd (comma_ref s) = [] \<and> length q + Suc (length p + length s) \<le> k)"
proof (induction s arbitrary: p rule: comma_ref.induct)
  case (1 s)
  let ?S = "q @ CHR '','' # p @ s" and ?i = "length q + length p"
  show ?case
  proof (cases "comma_next s")
    case None
    then have r: "comma_ref s = ([], s)" by (simp add: comma_ref.simps [of s])
    show ?thesis
    proof (cases s)
      case (Cons c t)
      then show ?thesis using None r
        by (subst comma_loop.simps) (auto simp: comma_next_def closes_def nth_append list_update_append split: if_splits option.splits)
    qed (use r in \<open>simp add: comma_loop.simps closes_def\<close>)
  next
    case (Some x)
    obtain out rest where x: "x = (out, rest)" by fastforce
    have len: "length out + length rest = length s" using comma_next_length Some x by blast
    have r: "comma_ref s = (out @ fst (comma_ref rest), snd (comma_ref rest))" using Some x by (simp add: comma_ref.simps [of s])
    obtain c t where s: "s = c # t" using Some by (cases s) (auto simp: comma_next_def)
    have IH: "\<exists>k. comma_loop (length q) (q @ CHR '','' # (p @ out) @ rest) (length q + length (p @ out))
       = (q @ (if closes (snd (comma_ref rest)) then blank else CHR '','') # (p @ out) @ fst (comma_ref rest) @ snd (comma_ref rest), k)
     \<and> (k = length q + Suc (length (p @ out) + length (fst (comma_ref rest))) \<or>
        snd (comma_ref rest) = [] \<and> length q + Suc (length (p @ out) + length rest) \<le> k)"
      by (rule 1(1) [OF Some x [symmetric], of "p @ out"])
    have step: "comma_loop (length q) ?S ?i = comma_loop (length q) (q @ CHR '','' # (p @ out) @ rest) (length q + length (p @ out))
      \<or> rest = [] \<and> (\<exists>k. comma_loop (length q) ?S ?i = (q @ CHR '','' # p @ out, k) \<and> length q + Suc (length p + length s) \<le> k)"
    proof (cases "c = CHR ''/''")
      case True
      let ?P = "q @ CHR '','' # p"
      have P: "length ?P - 1 = ?i" "length ?P + length out - 1 = length q + length (p @ out)" by simp_all
      have "comma_loop (length q) (?P @ s) (length ?P - 1) = comma_loop (length q) (?P @ out @ rest) (length ?P + length out - 1)
        \<or> rest = [] \<and> (\<exists>k. comma_loop (length q) (?P @ s) (length ?P - 1) = (?P @ out, k) \<and> length (?P @ s) \<le> k)"
        using True s Some x by (intro comma_loop_slash) auto
      then show ?thesis unfolding P by simp
    next
      case False
      then have "isWS c" "c \<noteq> CHR ''}''" "c \<noteq> CHR '']''" "out = [c]" "rest = t"
        using Some x s by (auto simp: comma_next_def split: if_splits)
      then show ?thesis using False s by (subst comma_loop.simps) (simp add: nth_append)
    qed
    then show ?thesis
    proof
      assume "comma_loop (length q) ?S ?i = comma_loop (length q) (q @ CHR '','' # (p @ out) @ rest) (length q + length (p @ out))"
      then show ?thesis using IH r len by auto
    next
      assume e: "rest = [] \<and> (\<exists>k. comma_loop (length q) ?S ?i = (q @ CHR '','' # p @ out, k) \<and> length q + Suc (length p + length s) \<le> k)"
      then have "comma_ref rest = ([], [])" by (simp add: comma_ref.simps [of "[]"] comma_next_def)
      then show ?thesis using e r by (auto simp: closes_def)
    qed
  qed
qed

lemma string_loop_end: "length s \<le> i \<Longrightarrow> string_loop s i = i"
  by (subst string_loop.simps) simp

lemma string_loop_ref:
  "string_loop (p @ s) (length p) = length p + length (fst (string_ref s))
   \<or> snd (string_ref s) = [] \<and> length (p @ s) \<le> string_loop (p @ s) (length p)"
proof (induction s arbitrary: p rule: string_ref.induct)
  case (2 c)
  show ?case by (subst (1 2) string_loop.simps) (auto simp: nth_append string_loop_end)
next
  case (3 c d s)
  consider (quote) "c = CHR 0x22" | (escape) "c = CHR 0x5C" | (other) "c \<noteq> CHR 0x22" "c \<noteq> CHR 0x5C" by blast
  then show ?case
  proof cases
    case quote
    then show ?thesis by (subst (1 2) string_loop.simps) (simp add: nth_append)
  next
    case escape
    have "string_loop (p @ c # d # s) (length p) = string_loop ((p @ [c, d]) @ s) (length (p @ [c, d]))"
      using escape by (subst string_loop.simps) (simp add: nth_append)
    moreover have "c \<noteq> CHR 0x22" using escape by simp
    ultimately show ?thesis using "3.IH"(1) [of "p @ [c, d]"] escape by (simp del: append_assoc)
  next
    case other
    have "string_loop (p @ c # d # s) (length p) = string_loop ((p @ [c]) @ d # s) (length (p @ [c]))"
      using other by (subst string_loop.simps) (simp add: nth_append)
    then show ?thesis using "3.IH"(3) [OF other, of "p @ [c]"] other by simp
  qed
qed (simp add: string_loop_end)

lemma prep_loop_trim: "prep_loop (p @ s) (length p) = p @ trim s"
proof (induction s arbitrary: p rule: trim.induct)
  case 1
  show ?case by (simp add: prep_loop_end)
next
  case (2 c s)
  have nth: "(p @ c # s) ! length p = c" by simp
  consider (quote) "c = CHR 0x22" | (slash) "c = CHR ''/''" | (comma) "c = CHR '',''"
    | (other) "c \<noteq> CHR 0x22" "c \<noteq> CHR ''/''" "c \<noteq> CHR '',''" by blast
  then show ?case
  proof cases
    case quote
    let ?k = "string_loop (p @ c # s) (Suc (length p))"
    have st: "prep_loop (p @ c # s) (length p) = prep_loop (p @ c # s) ?k" using quote by (subst prep_loop.simps) simp
    have IH: "prep_loop ((p @ c # fst (string_ref s)) @ snd (string_ref s)) (length (p @ c # fst (string_ref s)))
        = (p @ c # fst (string_ref s)) @ trim (snd (string_ref s))"
      using "2.IH"(1) [OF quote] .
    have "?k = length (p @ c # fst (string_ref s)) \<or> snd (string_ref s) = [] \<and> length (p @ c # s) \<le> ?k"
      using string_loop_ref [of "p @ [c]" s] by simp
    then show ?thesis
    proof
      assume k: "?k = length (p @ c # fst (string_ref s))"
      show ?thesis using st IH k string_ref_append [of s] quote by simp
    next
      assume "snd (string_ref s) = [] \<and> length (p @ c # s) \<le> ?k"
      then show ?thesis using st quote string_ref_append [of s] by (simp add: prep_loop_end)
    qed
  next
    case slash
    have st: "prep_loop (p @ c # s) (length p) =
        prep_loop (fst (consumeComment (p @ c # s) (Suc (length p)))) (snd (consumeComment (p @ c # s) (Suc (length p))))"
      using slash by (subst prep_loop.simps) simp
    show ?thesis
    proof (cases "comment_ref s")
      case None
      then show ?thesis using st consume_none [OF None, of p c] "2.IH"(2) [OF _ slash None, of "p @ [c]"] slash by simp
    next
      case (Some x)
      obtain out rest where x: "x = (out, rest)" by fastforce
      then show ?thesis
        using st prep_comment [of s out rest p c] Some "2.IH"(3) [OF _ slash Some x [symmetric], of "p @ out"] slash by simp
    qed
  next
    case comma
    let ?c = "if closes (snd (comma_ref s)) then blank else CHR '',''"
    obtain k where k: "comma_loop (length p) (p @ c # s) (length p) = (p @ ?c # fst (comma_ref s) @ snd (comma_ref s), k)"
      "k = length p + Suc (length (fst (comma_ref s))) \<or> snd (comma_ref s) = [] \<and> length p + Suc (length s) \<le> k"
      using comma_loop_ref [of p "[]" s] comma by auto
    have st: "prep_loop (p @ c # s) (length p) = prep_loop (p @ ?c # fst (comma_ref s) @ snd (comma_ref s)) k"
      using comma k(1) by (subst prep_loop.simps) simp
    have IH: "prep_loop ((p @ ?c # fst (comma_ref s)) @ snd (comma_ref s)) (length (p @ ?c # fst (comma_ref s)))
        = (p @ ?c # fst (comma_ref s)) @ trim (snd (comma_ref s))"
      using "2.IH"(4) [OF _ _ comma] comma by blast
    show ?thesis
      using k(2)
    proof
      assume "k = length p + Suc (length (fst (comma_ref s)))"
      then show ?thesis using st IH comma by simp
    next
      assume e: "snd (comma_ref s) = [] \<and> length p + Suc (length s) \<le> k"
      then show ?thesis using st comma comma_ref_length [of s] by (simp add: prep_loop_end)
    qed
  next
    case other
    then show ?thesis using "2.IH"(5) [OF other, of "p @ [c]"] nth by (simp add: prep_loop_plain)
  qed
qed

section \<open>What a decoder reads\<close>

definition blanked :: "string \<Rightarrow> string \<Rightarrow> bool" where
  "blanked = list_all2 (\<lambda>a b. b = a \<or> b = blank)"

lemma blanked_simps [simp]:
  "blanked [] t \<longleftrightarrow> t = []" "blanked (c # s) (d # t) \<longleftrightarrow> (d = c \<or> d = blank) \<and> blanked s t"
  "length a = length b \<Longrightarrow> blanked (a @ s) (b @ t) \<longleftrightarrow> blanked a b \<and> blanked s t" "blanked s s"
  by (auto simp: blanked_def list_all2_append list_all2_same)

lemma line_ref_split: "takeWhile (\<lambda>c. \<not> isNL c) s @ snd (line_ref s) = s" "length (fst (line_ref s)) = length (takeWhile (\<lambda>c. \<not> isNL c) s)"
  by (simp_all add: line_ref_def)

text \<open>Each reference scanner splits its input into a part it rewrites by blanking and the part that follows.\<close>

definition splits :: "string \<Rightarrow> string \<times> string \<Rightarrow> bool" where
  "splits s r \<longleftrightarrow> (\<exists>a. s = a @ snd r \<and> blanked a (fst r))"

lemma blanked_length: "blanked a b \<Longrightarrow> length a = length b"
  by (simp add: blanked_def list_all2_lengthD)

lemma blanked_appendI: "blanked a b \<Longrightarrow> blanked s t \<Longrightarrow> blanked (a @ s) (b @ t)"
  by (simp add: blanked_length)

lemma splits_cons: "splits s (o', r) \<Longrightarrow> d = c \<or> d = blank \<Longrightarrow> splits (c # s) (d # o', r)"
  unfolding splits_def by (metis append_Cons blanked_simps(2) fst_conv snd_conv)

lemma splits_append: "splits s (o', r) \<Longrightarrow> splits r (o'', r') \<Longrightarrow> splits s (o' @ o'', r')"
  unfolding splits_def by (metis append_assoc blanked_appendI fst_conv snd_conv)

lemma splits_none: "splits s ([], s)"
  by (simp add: splits_def)

lemma splits_one: "splits s (take 1 s, tl s)"
  by (cases s) (auto simp: splits_def intro!: exI [of _ "[_]"])

lemma splits_line: "splits s (line_ref s)"
proof (induction s)
  case (Cons c s)
  then show ?case by (cases "isNL c") (auto simp: line_ref_def splits_none intro!: splits_cons)
qed (simp add: line_ref_def splits_none)

lemma splits_block: "splits s (block_ref s)"
  by (induction s rule: block_ref.induct) (auto simp: splits_none intro!: splits_cons)

lemma splits_comment: "comment_ref s = Some (o', r) \<Longrightarrow> splits (CHR ''/'' # s) (o', r)"
  using splits_line [of s] splits_block [of "tl s"]
  by (auto simp: comment_ref_def split: list.splits if_splits intro!: splits_cons)

lemma splits_comma_next: "comma_next s = Some (o', r) \<Longrightarrow> splits s (o', r)"
proof -
  assume a: "comma_next s = Some (o', r)"
  then obtain c t where s: "s = c # t" by (cases s) (auto simp: comma_next_def)
  show ?thesis
  proof (cases "c = CHR ''/''")
    case True
    then show ?thesis using a s splits_one [of t] splits_append [OF _ splits_one]
      by (cases "comment_ref t")
        (auto simp: comma_next_def split: if_splits dest!: splits_comment intro: splits_cons)
  qed (use a s in \<open>auto simp: comma_next_def split: if_splits intro!: splits_cons splits_none\<close>)
qed

lemma splits_comma: "splits s (comma_ref s)"
proof (induction s rule: comma_ref.induct)
  case (1 s)
  show ?case
  proof (cases "comma_next s")
    case (Some x)
    obtain o' r where x: "x = (o', r)" by fastforce
    then show ?thesis
      using splits_append [OF splits_comma_next] Some 1 [OF Some x [symmetric]] by (simp add: comma_ref.simps [of s])
  qed (simp add: comma_ref.simps [of s] splits_none)
qed

lemma splits_blanked: "splits s (o', r) \<Longrightarrow> blanked r t \<Longrightarrow> blanked s (o' @ t)"
  by (auto simp: splits_def intro: blanked_appendI)

lemma trim_blanked: "blanked s (trim s)"
proof (induction s rule: trim.induct)
  case (2 c s)
  have string: "blanked s (fst (string_ref s) @ trim (snd (string_ref s)))" if "c = CHR 0x22"
    using blanked_appendI [OF blanked_simps(4) [of "fst (string_ref s)"] 2(1) [OF that]] by (simp add: string_ref_append)
  have comma: "blanked s (fst (comma_ref s) @ trim (snd (comma_ref s)))" if "c = CHR '',''"
    using splits_blanked [of s "fst (comma_ref s)" "snd (comma_ref s)"] splits_comma [of s] 2(4) that by simp
  have comment: "blanked (c # s) (out @ trim rest)" if "c = CHR ''/''" "comment_ref s = Some (out, rest)" for out rest
    using splits_blanked [OF splits_comment [OF that(2)] 2(3) [OF _ that refl]] that(1) by simp
  show ?case
  proof (cases "comment_ref s")
    case None
    then show ?thesis using string comma 2(2) 2(5) by simp
  next
    case (Some x)
    then show ?thesis using string comma comment [of "fst x" "snd x"] 2(5) by (cases x) simp
  qed
qed simp

text \<open>Successive reads into buffers of the given lengths.\<close>

fun read_all :: "TrimNodeReader \<Rightarrow> nat list \<Rightarrow> string" where
  "read_all st [] = []"
| "read_all st (n # ns) =
     (case TrimNodeReader_Read st n of (st', r) \<Rightarrow> (case r of Inr (Some d) \<Rightarrow> d @ read_all st' ns | _ \<Rightarrow> read_all st' ns))"

lemma read_all_buffered: "read_all \<lparr>tr_r = r, tr_br = Some s\<rparr> ns = take (sum_list ns) s"
proof (induction ns arbitrary: s)
  case (Cons n ns)
  then show ?case
    using take_add [of n "sum_list ns" s] by (cases "s = []") (simp_all add: TrimNodeReader_Read_def)
qed simp

lemma read_all_fresh: "read_all (NewTrimNodeReader (Inr s)) ns = take (sum_list ns) (trim s)"
proof (cases ns)
  case (Cons n ms)
  have "TrimNodeReader_Read (NewTrimNodeReader (Inr s)) n = TrimNodeReader_Read \<lparr>tr_r = Inr s, tr_br = Some (trim s)\<rparr> n"
    using prep_loop_trim [of "[]" s] by (simp add: TrimNodeReader_Read_def NewTrimNodeReader_def prep_def)
  then have "read_all (NewTrimNodeReader (Inr s)) ns = read_all \<lparr>tr_r = Inr s, tr_br = Some (trim s)\<rparr> ns"
    unfolding Cons by simp
  then show ?thesis by (simp add: read_all_buffered)
qed simp

section \<open>Plain JSON\<close>

text \<open>A text with no slash outside its string literals and no comma that only white space separates
  from a closing bracket.\<close>

function plain :: "string \<Rightarrow> bool" where
  "plain [] \<longleftrightarrow> True"
| "plain (c # s) \<longleftrightarrow>
     (if c = CHR 0x22 then plain (snd (string_ref s))
      else c \<noteq> CHR ''/'' \<and> (c = CHR '','' \<longrightarrow> \<not> closes (dropWhile isWS s)) \<and> plain s)"
  by pat_completeness auto
termination
proof (relation "measure length", goal_cases)
  case (2 c s)
  then show ?case using string_ref_le [of s] by simp
qed auto

lemma isWS_neq: "isWS c \<Longrightarrow> c \<notin> {CHR ''/'', CHR ''}'', CHR '']'', CHR 0x22, CHR '',''}"
  by (auto simp: isWS_def isNL_def)

lemma plain_comma:
  "plain s \<Longrightarrow> comma_ref s = (takeWhile isWS s, dropWhile isWS s) \<and> plain (dropWhile isWS s)"
proof (induction s)
  case Nil
  show ?case by (simp add: comma_ref.simps comma_next_def)
next
  case (Cons c s)
  then show ?case
    using isWS_neq [of c]
    by (subst comma_ref.simps) (auto simp: comma_next_def split: if_splits)
qed

lemma trim_plain: "plain s \<Longrightarrow> trim s = s"
proof (induction s rule: trim.induct)
  case (2 c s)
  then show ?case using string_ref_append [of s] plain_comma [of s] by (auto split: if_splits)
qed simp



text \<open>
  A block comment closed by an even number of stars is not closed: the star that is looked at as the
  successor of another star is passed over. What follows is blanked up to the end of the file.
\<close>

lemma block_ref_no_star: "CHR ''*'' \<notin> set s \<Longrightarrow> block_ref s = (map (\<lambda>_. blank) s, [])"
  by (induction s rule: block_ref.induct) auto

lemma even_stars_swallow_file:
  assumes "CHR ''*'' \<notin> set rest"
  shows "prep (Inr (''/***/'' @ rest)) = Inr (''   * '' @ map (\<lambda>_. blank) rest)"
  using assms prep_loop_trim [of "[]" "''/***/'' @ rest"] block_ref_no_star [of "CHR ''/'' # rest"]
  by (simp add: prep_def comment_ref_def)

end
