(* ===== verification/Split.thy ===== *)
theory Split
  imports Go_Paths Json5 Selector
begin

text \<open>
  \<open>cmd/split.go\<close>: the command that writes one configuration file per node. It works on raw JSON, whose
  decoder and encoder are the record \<open>json\<close> of functions; an object is the map of its raw members. The file
  system is a map from paths to contents, with the errors of its operations as functions.
\<close>

section \<open>JSON\<close>

type_synonym 'raw fields = "(string, 'raw) gomap"

record 'raw json =
  js_decode :: "string \<Rightarrow> string + 'raw fields"
  js_object :: "'raw \<Rightarrow> string + 'raw fields"
  js_objects :: "'raw \<Rightarrow> string + 'raw fields list"
  js_string :: "'raw \<Rightarrow> string + string"
  js_int :: "'raw \<Rightarrow> string + int"
  js_of_object :: "'raw fields \<Rightarrow> string + 'raw"
  js_of_objects :: "'raw fields list \<Rightarrow> string + 'raw"
  js_of_string :: "string \<Rightarrow> string + 'raw"
  js_of_int :: "int \<Rightarrow> string + 'raw"
  js_indent :: "'raw fields \<Rightarrow> string + string"

text \<open>\<open>_ = json.Unmarshal(m[k], &v)\<close> for a string and an integer: errors and missing members leave the zero value.\<close>

definition field_string :: "'raw json \<Rightarrow> 'raw fields \<Rightarrow> string \<Rightarrow> string" where
  "field_string J m k =
     (case mload m k of None \<Rightarrow> '''' | Some raw \<Rightarrow> (case js_string J raw of Inl _ \<Rightarrow> '''' | Inr s \<Rightarrow> s))"

definition field_int :: "'raw json \<Rightarrow> 'raw fields \<Rightarrow> string \<Rightarrow> int" where
  "field_int J m k = (case mload m k of None \<Rightarrow> 0 | Some raw \<Rightarrow> (case js_int J raw of Inl _ \<Rightarrow> 0 | Inr i \<Rightarrow> i))"

text \<open>\<open>if encoded, err := json.Marshal(x); err == nil { m[k] = encoded }\<close>\<close>

definition store_encoded :: "string + 'raw \<Rightarrow> 'raw fields \<Rightarrow> string \<Rightarrow> 'raw fields" where
  "store_encoded encoded m k = (case encoded of Inl _ \<Rightarrow> m | Inr raw \<Rightarrow> mstore m k raw)"

section \<open>Names\<close>

text \<open>The number of bytes of the first rune of a non-empty string, as \<open>range\<close> decodes it.\<close>

definition rune_len :: "string \<Rightarrow> nat" where
  "rune_len s =
     (let b = (of_char (hd s) :: nat);
          in_range = (\<lambda>lo hi c. lo \<le> (of_char c :: nat) \<and> (of_char c :: nat) \<le> hi);
          accept = (\<lambda>n lo hi. n \<le> length s \<and> in_range lo hi (s ! 1) \<and> list_all (in_range 128 191) (drop 2 (take n s)))
      in if b < 128 then 1
         else if 194 \<le> b \<and> b \<le> 223 then (if accept 2 128 191 then 2 else 1)
         else if b = 224 then (if accept 3 160 191 then 3 else 1)
         else if b = 237 then (if accept 3 128 159 then 3 else 1)
         else if 225 \<le> b \<and> b \<le> 239 then (if accept 3 128 191 then 3 else 1)
         else if b = 240 then (if accept 4 144 191 then 4 else 1)
         else if 241 \<le> b \<and> b \<le> 243 then (if accept 4 128 191 then 4 else 1)
         else if b = 244 then (if accept 4 128 143 then 4 else 1)
         else 1)"

definition name_char :: "char \<Rightarrow> bool" where
  "name_char c \<longleftrightarrow>
     (let n = (of_char c :: nat)
      in 97 \<le> n \<and> n \<le> 122 \<or> 65 \<le> n \<and> n \<le> 90 \<or> 48 \<le> n \<and> n \<le> 57 \<or> c = CHR ''.'' \<or> c = CHR ''_'' \<or> c = CHR ''-'')"

function sanitize_loop :: "string \<Rightarrow> string" where
  "sanitize_loop [] = []"
| "sanitize_loop (c # s) =
     (if name_char c then c # sanitize_loop s else CHR ''_'' # sanitize_loop (drop (rune_len (c # s) - 1) s))"
  by pat_completeness auto
termination by (relation "measure length") auto

definition sanitizeSplitName :: "string \<Rightarrow> string" where
  "sanitizeSplitName name =
     (let out = strings_Trim (\<lambda>c. c = CHR ''.'' \<or> c = CHR ''_'' \<or> c = CHR ''-'') (sanitize_loop name)
      in if out = '''' then ''node'' else out)"

definition splitNodeName :: "'raw json \<Rightarrow> 'raw fields \<Rightarrow> string" where
  "splitNodeName J node =
     (let name = strings_TrimSpace (field_string J node ''Name'')
      in if name \<noteq> '''' then sanitizeSplitName name
         else
           let host = strings_TrimPrefix (strings_TrimPrefix (field_string J node ''ApiHost'') ''https://'') ''http://'';
               host = strings_TrimSuffix host ''/'';
               host = map (\<lambda>c. if c = CHR '':'' then CHR ''_'' else c) host
           in sanitizeSplitName (host @ ''-'' @ field_string J node ''NodeType'' @ ''-'' @ strconv_Itoa (field_int J node ''NodeID'')))"

definition uniqueSplitName :: "(string, int) gomap \<Rightarrow> string \<Rightarrow> (string, int) gomap \<times> string" where
  "uniqueSplitName used name =
     (let used = mstore used name (mget 0 used name + 1);
          n = mget 0 used name
      in (used, if 1 < n then name @ ''-'' @ strconv_Itoa n else name))"

definition splitDnsFileName :: "'raw json \<Rightarrow> string \<Rightarrow> 'raw fields \<Rightarrow> string" where
  "splitDnsFileName J name core =
     (let base = ''dns_'' @ name;
          coreName = field_string J core ''Name''
      in (if coreName \<noteq> '''' then base @ ''_'' @ sanitizeSplitName coreName else base) @ ''.json'')"

definition splitLogFileName :: "string \<Rightarrow> string \<Rightarrow> string" where
  "splitLogFileName name p =
     (let base = path_Base p; ext = path_Ext base in strings_TrimSuffix base ext @ ''-'' @ name @ ext)"

definition rewriteLogOutput :: "'raw json \<Rightarrow> 'raw \<Rightarrow> string \<Rightarrow> string \<Rightarrow> string + 'raw" where
  "rewriteLogOutput J logRaw outDir name =
     (case js_object J logRaw of
        Inl err \<Rightarrow> Inl (''decode Log error: '' @ err)
      | Inr logConfig \<Rightarrow>
          (let encode = (\<lambda>m. case js_of_object J m of Inl err \<Rightarrow> Inl (''encode Log error: '' @ err) | Inr raw \<Rightarrow> Inr raw)
           in case mload logConfig ''Output'' of
                None \<Rightarrow> encode logConfig
              | Some current \<Rightarrow>
                  (case js_string J current of
                     Inl err \<Rightarrow> Inl (''decode Log.Output error: '' @ err)
                   | Inr path \<Rightarrow>
                       if path \<noteq> ''''
                       then encode (store_encoded (js_of_string J (path_Join [outDir, ''log'', splitLogFileName name path])) logConfig ''Output'')
                       else encode logConfig)))"

section \<open>Cores\<close>

text \<open>The members in which the node names its core.\<close>

definition node_fields :: "'raw json \<Rightarrow> 'raw fields \<Rightarrow> 'raw fields" where
  "node_fields J node =
     (case mload node ''Options'' of
        None \<Rightarrow> node
      | Some raw \<Rightarrow> (case js_object J raw of Inl _ \<Rightarrow> node | Inr options \<Rightarrow> options))"

definition core_matches :: "'raw json \<Rightarrow> string \<Rightarrow> string \<Rightarrow> 'raw fields \<Rightarrow> bool" where
  "core_matches J coreName coreType core \<longleftrightarrow>
     (let name = field_string J core ''Name'';
          typ = field_string J core ''Type''
      in if coreName \<noteq> '''' then (if name = '''' then typ else name) = coreName
         else if coreType \<noteq> '''' then strings_EqualFold typ coreType
         else False)"

definition splitNodeCores :: "'raw json \<Rightarrow> 'raw fields \<Rightarrow> 'raw fields list \<Rightarrow> nat list" where
  "splitNodeCores J node cores =
     (let all = [0..<length cores]
      in if mload node ''Include'' \<noteq> None then all
         else
           let fields = node_fields J node;
               picked = filter (\<lambda>i. core_matches J (field_string J fields ''CoreName'') (field_string J fields ''Core'') (cores ! i)) all
           in if picked = [] then all else picked)"

section \<open>The files\<close>

record dnsCopy =
  dc_Source :: string
  dc_Target :: string

record splitFile =
  sf_Name :: string
  sf_Path :: string
  sf_Content :: string
  sf_Dns :: "dnsCopy list"

fun split_cores ::
  "'raw json \<Rightarrow> string \<Rightarrow> string \<Rightarrow> 'raw fields list \<Rightarrow> nat list \<Rightarrow> string + 'raw fields list \<times> dnsCopy list" where
  "split_cores J outDir name cores [] = Inr ([], [])"
| "split_cores J outDir name cores (ci # picked) =
     (let core = cores ! ci;
          next = (\<lambda>copied copies. case split_cores J outDir name cores picked of
                    Inl e \<Rightarrow> Inl e
                  | Inr (perCores, others) \<Rightarrow> Inr (copied # perCores, copies @ others))
      in case mload core ''DnsConfigPath'' of
           None \<Rightarrow> next core []
         | Some current \<Rightarrow>
             (case js_string J current of
                Inl err \<Rightarrow> Inl (''decode Cores['' @ nat_digits ci @ ''].DnsConfigPath error: '' @ err)
              | Inr path \<Rightarrow>
                  if path \<noteq> '''' then
                    let target = path_Join [outDir, ''dns'', splitDnsFileName J name core]
                    in next (store_encoded (js_of_string J target) core ''DnsConfigPath'') [\<lparr>dc_Source = path, dc_Target = target\<rparr>]
                  else next core []))"

text \<open>The document of one node, and the loop over the nodes.\<close>

definition split_doc ::
  "'raw json \<Rightarrow> string \<Rightarrow> 'raw fields \<Rightarrow> nat \<Rightarrow> 'raw fields list \<Rightarrow> string \<Rightarrow> 'raw fields \<Rightarrow> string + 'raw fields \<times> dnsCopy list" where
  "split_doc J outDir doc n cores name node =
     (case split_cores J outDir name cores (splitNodeCores J node cores) of
        Inl e \<Rightarrow> Inl e
      | Inr (perCores, copies) \<Rightarrow>
          (let out = store_encoded (js_of_int J (int n)) [] ''Instances'';
               rest = (\<lambda>out. Inr (store_encoded (js_of_objects J [node]) (store_encoded (js_of_objects J perCores) out ''Cores'') ''Nodes'', copies))
           in case mload doc ''Log'' of
                None \<Rightarrow> rest out
              | Some logRaw \<Rightarrow>
                  (case rewriteLogOutput J logRaw outDir name of
                     Inl e \<Rightarrow> Inl e
                   | Inr rewritten \<Rightarrow> rest (mstore out ''Log'' rewritten))))"

fun split_loop ::
  "'raw json \<Rightarrow> string \<Rightarrow> 'raw fields \<Rightarrow> nat \<Rightarrow> 'raw fields list \<Rightarrow> nat \<Rightarrow> (string, int) gomap \<Rightarrow> 'raw fields list \<Rightarrow> string + splitFile list" where
  "split_loop J outDir doc n cores i used [] = Inr []"
| "split_loop J outDir doc n cores i used (node # nodes) =
     (let (used, name) = uniqueSplitName used (splitNodeName J node)
      in case split_doc J outDir doc n cores name node of
           Inl e \<Rightarrow> Inl e
         | Inr (out, copies) \<Rightarrow>
             (case js_indent J out of
                Inl err \<Rightarrow> Inl (''marshal node '' @ nat_digits i @ '' error: '' @ err)
              | Inr content \<Rightarrow>
                  (case split_loop J outDir doc n cores (Suc i) used nodes of
                     Inl e \<Rightarrow> Inl e
                   | Inr files \<Rightarrow>
                       Inr (\<lparr>sf_Name = name, sf_Path = path_Join [outDir, name @ ''.json''], sf_Content = content @ [CHR 0x0A], sf_Dns = copies\<rparr> # files))))"

definition member_objects :: "'raw json \<Rightarrow> 'raw fields \<Rightarrow> string \<Rightarrow> string \<Rightarrow> string + 'raw fields list" where
  "member_objects J doc k what =
     (case mload doc k of
        None \<Rightarrow> Inr []
      | Some raw \<Rightarrow> (case js_objects J raw of Inl err \<Rightarrow> Inl (''decode '' @ what @ '' error: '' @ err) | Inr xs \<Rightarrow> Inr xs))"

definition buildSplitConfigs :: "'raw json \<Rightarrow> string \<Rightarrow> string \<Rightarrow> string + splitFile list" where
  "buildSplitConfigs J raw outDir =
     (case js_decode J raw of
        Inl err \<Rightarrow> Inl (''decode config error: '' @ err)
      | Inr doc \<Rightarrow>
          (case member_objects J doc ''Nodes'' ''nodes'' of
             Inl e \<Rightarrow> Inl e
           | Inr nodes \<Rightarrow>
               if nodes = [] then Inl ''the config has no nodes''
               else case member_objects J doc ''Cores'' ''cores'' of
                 Inl e \<Rightarrow> Inl e
               | Inr cores \<Rightarrow> split_loop J outDir doc (length nodes) cores 0 [] nodes))"

section \<open>Writing them\<close>

record split_os =
  os_mkdir :: "string \<Rightarrow> string option"
  os_read :: "string \<Rightarrow> string option"
  os_write :: "string \<Rightarrow> string option"

type_synonym file_system = "(string, string) gomap"

text \<open>\<open>os_read\<close> are errors other than a missing file; a read or write that fails changes nothing.\<close>

definition default_dns :: string where
  "default_dns = ''{'' @ [CHR 0x0A] @ ''  '' @ [CHR 0x22] @ ''servers'' @ [CHR 0x22] @ '': ['' @ [CHR 0x0A]
     @ ''    '' @ [CHR 0x22] @ ''1.1.1.1'' @ [CHR 0x22] @ '','' @ [CHR 0x0A] @ ''    '' @ [CHR 0x22] @ ''localhost'' @ [CHR 0x22, CHR 0x0A]
     @ ''  ],'' @ [CHR 0x0A] @ ''  '' @ [CHR 0x22] @ ''tag'' @ [CHR 0x22] @ '': '' @ [CHR 0x22] @ ''dns_inbound'' @ [CHR 0x22, CHR 0x0A] @ ''}'' @ [CHR 0x0A]"

definition write_file :: "split_os \<Rightarrow> file_system \<Rightarrow> string \<Rightarrow> string \<Rightarrow> file_system \<times> string option" where
  "write_file OS fs p content = (case os_write OS p of Some e \<Rightarrow> (fs, Some e) | None \<Rightarrow> (mstore fs p content, None))"

definition copySplitFile :: "split_os \<Rightarrow> file_system \<Rightarrow> string \<Rightarrow> string \<Rightarrow> bool \<Rightarrow> file_system \<times> string option" where
  "copySplitFile OS fs source target force =
     (if \<not> force \<and> mload fs target \<noteq> None then (fs, None)
      else case os_read OS source of
        Some e \<Rightarrow> (fs, Some e)
      | None \<Rightarrow> write_file OS fs target (case mload fs source of None \<Rightarrow> default_dns | Some content \<Rightarrow> content))"

fun copy_loop :: "split_os \<Rightarrow> string \<Rightarrow> bool \<Rightarrow> file_system \<Rightarrow> dnsCopy list \<Rightarrow> file_system \<times> string option" where
  "copy_loop OS configDir force fs [] = (fs, None)"
| "copy_loop OS configDir force fs (dns # rest) =
     (let sourcePath = (if path_IsAbs (dc_Source dns) then dc_Source dns else path_Join [configDir, dc_Source dns])
      in case copySplitFile OS fs sourcePath (dc_Target dns) force of
           (fs, Some e) \<Rightarrow> (fs, Some (''copy DNS config error: '' @ e))
         | (fs, None) \<Rightarrow> copy_loop OS configDir force fs rest)"

fun write_loop :: "split_os \<Rightarrow> string \<Rightarrow> bool \<Rightarrow> file_system \<Rightarrow> splitFile list \<Rightarrow> file_system \<times> string option" where
  "write_loop OS configDir force fs [] = (fs, None)"
| "write_loop OS configDir force fs (file # files) =
     (if \<not> force \<and> mload fs (sf_Path file) \<noteq> None then (fs, Some (sf_Path file @ '' exists, use -f to overwrite''))
      else case copy_loop OS configDir force fs (sf_Dns file) of
        (fs, Some e) \<Rightarrow> (fs, Some e)
      | (fs, None) \<Rightarrow>
          (case write_file OS fs (sf_Path file) (sf_Content file) of
             (fs, Some e) \<Rightarrow> (fs, Some (''write '' @ sf_Path file @ '' error: '' @ e))
           | (fs, None) \<Rightarrow> write_loop OS configDir force fs files))"

definition readSplitConfig :: "split_os \<Rightarrow> file_system \<Rightarrow> string \<Rightarrow> string + string" where
  "readSplitConfig OS fs p =
     (case mload fs p of
        None \<Rightarrow> Inl (''open '' @ p @ '' error: file does not exist'')
      | Some content \<Rightarrow>
          (case prep (case os_read OS p of None \<Rightarrow> Inr content | Some e \<Rightarrow> Inl e) of
             Inl err \<Rightarrow> Inl (''read '' @ p @ '' error: '' @ err)
           | Inr raw \<Rightarrow> Inr raw))"

definition runSplit :: "'raw json \<Rightarrow> split_os \<Rightarrow> file_system \<Rightarrow> string \<Rightarrow> string \<Rightarrow> bool \<Rightarrow> file_system \<times> (string + splitFile list)" where
  "runSplit J OS fs configPath outDir force =
     (case readSplitConfig OS fs configPath of
        Inl e \<Rightarrow> (fs, Inl e)
      | Inr raw \<Rightarrow>
          (case buildSplitConfigs J raw outDir of
             Inl err \<Rightarrow> (fs, Inl (''split '' @ configPath @ '' error: '' @ err))
           | Inr files \<Rightarrow>
               (case find (\<lambda>d. os_mkdir OS d \<noteq> None) [outDir, path_Join [outDir, ''log''], path_Join [outDir, ''dns'']] of
                  Some d \<Rightarrow> (fs, Inl (''create '' @ d @ '' error: '' @ (case os_mkdir OS d of None \<Rightarrow> '''' | Some e \<Rightarrow> e)))
                | None \<Rightarrow>
                    (case write_loop OS (path_Dir configPath) force fs files of
                       (fs, Some e) \<Rightarrow> (fs, Inl e)
                     | (fs, None) \<Rightarrow> (fs, Inr files)))))"

section \<open>Names are usable and, mostly, distinct\<close>

definition safe_name :: "string \<Rightarrow> bool" where
  "safe_name n \<longleftrightarrow> n \<noteq> '''' \<and> list_all name_char n \<and> hd n \<notin> set ''._-'' "

lemma sanitize_loop_chars: "list_all name_char (sanitize_loop s)"
  by (induction s rule: sanitize_loop.induct) (auto simp: name_char_def)

lemma list_all_dropWhile: "list_all p s \<Longrightarrow> list_all p (dropWhile q s)"
  by (induction s) auto

lemma list_all_rev: "list_all p (rev s) = list_all p s"
  by (simp add: list_all_iff)

lemma Trim_chars: "list_all p s \<Longrightarrow> list_all p (strings_Trim q s)"
  by (simp add: strings_Trim_def list_all_dropWhile list_all_rev)

lemma Trim_hd: "strings_Trim q s \<noteq> '''' \<Longrightarrow> \<not> q (hd (strings_Trim q s))"
proof -
  let ?t = "dropWhile q s"
  assume a: "strings_Trim q s \<noteq> ''''"
  have "strings_Trim q s @ rev (takeWhile q (rev ?t)) = ?t"
    unfolding strings_Trim_def by (metis rev_append rev_rev_ident takeWhile_dropWhile_id)
  then have "hd (strings_Trim q s) = hd ?t" using a by (metis hd_append2)
  moreover have "?t \<noteq> ''''" using a unfolding strings_Trim_def by (metis dropWhile.simps(1) rev.simps(1))
  ultimately show ?thesis using hd_dropWhile by metis
qed

lemma sanitize_safe: "safe_name (sanitizeSplitName s)"
proof -
  have "list_all name_char ''node''" by code_simp
  moreover have "list_all name_char (strings_Trim q (sanitize_loop s))" for q by (rule Trim_chars [OF sanitize_loop_chars])
  ultimately show ?thesis
    using Trim_hd [of "\<lambda>c. c = CHR ''.'' \<or> c = CHR ''_'' \<or> c = CHR ''-''" "sanitize_loop s"]
    by (auto simp: sanitizeSplitName_def safe_name_def Let_def)
qed

lemma splitNodeName_safe: "safe_name (splitNodeName J node)"
  by (simp add: splitNodeName_def Let_def sanitize_safe)

lemma digits_chars: "list_all name_char (nat_digits n)"
  using nat_digits_digits [of n] by (auto simp: list_all_iff is_digit_def name_char_def Let_def)

lemma safe_proper: "safe_name n \<Longrightarrow> list_all name_char x \<Longrightarrow> proper (n @ x)"
  by (cases n) (auto simp: safe_name_def proper_def list_all_iff name_char_def Let_def)

text \<open>The names given to the nodes, from their base names.\<close>

fun split_names :: "(string, int) gomap \<Rightarrow> string list \<Rightarrow> string list" where
  "split_names used [] = []"
| "split_names used (b # bs) = (case uniqueSplitName used b of (used, name) \<Rightarrow> name # split_names used bs)"

lemma split_loop_names:
  "split_loop J outDir doc n cores i used nodes = Inr files \<Longrightarrow>
   map sf_Name files = split_names used (map (splitNodeName J) nodes) \<and>
   map sf_Path files = map (\<lambda>f. path_Join [outDir, sf_Name f @ ''.json'']) files"
proof (induction nodes arbitrary: i used files)
  case (Cons node nodes)
  then show ?case by (fastforce split: prod.splits sum.splits)
qed simp

text \<open>The name of a node: its base name, with its number among the nodes of that base name.\<close>

definition numbered :: "string \<Rightarrow> nat \<Rightarrow> string" where
  "numbered b n = (if n \<le> 1 then b else b @ ''-'' @ nat_digits n)"

lemma split_names_nth:
  assumes "\<And>b. mget 0 used b = int (count_list pre b)"
  shows "split_names used bs = map (\<lambda>i. numbered (bs ! i) (count_list (pre @ take (Suc i) bs) (bs ! i))) [0..<length bs]"
  using assms
proof (induction bs arbitrary: used pre)
  case (Cons b bs)
  let ?used = "mstore used b (mget 0 used b + 1)"
  have step: "mget 0 ?used c = int (count_list (pre @ [b]) c)" for c using Cons.prems [of c] by (auto simp: mget_def)
  have "uniqueSplitName used b = (?used, numbered b (count_list (pre @ [b]) b))"
    using step [of b] Cons.prems [of b] by (auto simp: uniqueSplitName_def Let_def numbered_def strconv_Itoa_def mget_def nat_add_distrib)
  then show ?case
    using Cons.IH [OF step] by (simp add: upt_conv_Cons map_Suc_upt [symmetric] comp_def del: upt_Suc)
qed simp

lemma count_prefix_less:
  assumes "i < j" "j < length bs" "bs ! i = bs ! j"
  shows "count_list (take (Suc i) bs) (bs ! i) < count_list (take (Suc j) bs) (bs ! j)"
proof -
  have "take (Suc j) bs = take (Suc i) bs @ take (j - Suc i) (drop (Suc i) bs) @ [bs ! j]"
    using assms(1,2) by (metis Suc_leI append.assoc le_add_diff_inverse2 add.commute take_Suc_conv_app_nth take_add)
  then show ?thesis using assms(3) by simp
qed

lemma count_prefix_pos: "i < length bs \<Longrightarrow> 1 \<le> count_list (take (Suc i) bs) (bs ! i)"
  by (simp add: take_Suc_conv_app_nth)

lemma count_prefix_le: "count_list (take i bs) b \<le> count_list bs b"
  by (metis append_take_drop_id count_list_append le_add1)

lemma numbered_inject: "1 \<le> m \<Longrightarrow> 1 \<le> n \<Longrightarrow> numbered b m = numbered b n \<longleftrightarrow> m = n"
  using Itoa_inject [of "int m" "int n"] by (auto simp: numbered_def strconv_Itoa_def)

text \<open>No base name looks like a numbered one.\<close>

definition unambiguous :: "string list \<Rightarrow> bool" where
  "unambiguous bs \<longleftrightarrow> list_all (\<lambda>b. list_all (\<lambda>k. \<not> List.member bs (numbered b k)) [2..<Suc (count_list bs b)]) bs"

lemma unambiguousD: "unambiguous bs \<Longrightarrow> b \<in> set bs \<Longrightarrow> 1 < k \<Longrightarrow> k \<le> count_list bs b \<Longrightarrow> numbered b k \<notin> set bs"
  by (auto simp: unambiguous_def list_all_iff simp del: upt_Suc)

lemma numbered_other:
  assumes "numbered b m = numbered c n" "1 \<le> m" "1 \<le> n" "b \<noteq> c"
  shows "1 < m \<and> n = 1 \<or> 1 < n \<and> m = 1"
proof (rule ccontr)
  assume "\<not> ?thesis"
  then have mn: "1 < m" "1 < n" using assms by (auto simp: numbered_def split: if_splits)
  have dash: "CHR ''-'' \<notin> set (nat_digits k)" for k
    using nat_digits_digits [of k] digit_not_sign by (auto simp: list_all_iff)
  have "b @ CHR ''-'' # nat_digits m = c @ CHR ''-'' # nat_digits n" using assms(1) mn by (simp add: numbered_def)
  then show False using append_sep_inject_right [OF dash dash] assms(4) by blast
qed

lemma split_names_distinct:
  assumes "unambiguous bs"
  shows "distinct (split_names [] bs)"
proof -
  let ?n = "\<lambda>i. count_list (take (Suc i) bs) (bs ! i)"
  have names: "split_names [] bs = map (\<lambda>i. numbered (bs ! i) (?n i)) [0..<length bs]"
    using split_names_nth [of "[]" "[]" bs] by (simp add: mget_def mload_def)
  have ne: "numbered (bs ! i) (?n i) \<noteq> numbered (bs ! j) (?n j)" if ij: "i < j" "j < length bs" for i j
  proof
    assume e: "numbered (bs ! i) (?n i) = numbered (bs ! j) (?n j)"
    have pos: "1 \<le> ?n i" "1 \<le> ?n j" using count_prefix_pos [of i bs] count_prefix_pos [of j bs] ij by simp_all
    have le: "?n i \<le> count_list bs (bs ! i)" "?n j \<le> count_list bs (bs ! j)" by (rule count_prefix_le)+
    show False
    proof (cases "bs ! i = bs ! j")
      case True
      then show False using e numbered_inject [OF pos] count_prefix_less [OF ij True] by simp
    next
      case False
      have mem: "bs ! i \<in> set bs" "bs ! j \<in> set bs" using ij by auto
      show False using numbered_other [OF e pos False]
      proof
        assume a: "1 < ?n i \<and> ?n j = 1"
        then have "numbered (bs ! i) (?n i) = bs ! j" using e by (simp add: numbered_def)
        then show False using unambiguousD [OF assms mem(1) _ le(1)] mem(2) a by simp
      next
        assume a: "1 < ?n j \<and> ?n i = 1"
        then have "numbered (bs ! j) (?n j) = bs ! i" using e by (simp add: numbered_def)
        then show False using unambiguousD [OF assms mem(2) _ le(2)] mem(1) a by simp
      qed
    qed
  qed
  then show ?thesis
    unfolding names distinct_conv_nth by (metis (no_types, lifting) add_0 length_map length_upt minus_nat.diff_0 nat_neq_iff nth_map nth_upt)
qed

section \<open>No file overwrites another\<close>

lemma name_no_slash: "list_all name_char s \<Longrightarrow> slash \<notin> set s"
  by (auto simp: list_all_iff name_char_def Let_def)

lemma split_cores_targets:
  "split_cores J outDir name cores picked = Inr (perCores, copies) \<Longrightarrow> safe_name name \<Longrightarrow> c \<in> set copies \<Longrightarrow>
   \<exists>g. proper g \<and> dc_Target c = path_Join [outDir, ''dns'', g]"
proof (induction picked arbitrary: perCores copies)
  case (Cons ci picked)
  have "proper (splitDnsFileName J name core)" for core
  proof -
    have "list_all name_char name" "list_all name_char (sanitizeSplitName x)" for x
      using Cons.prems(2) sanitize_safe [of x] by (simp_all add: safe_name_def)
    then have "slash \<notin> set name" "slash \<notin> set (sanitizeSplitName x)" for x by (simp_all add: name_no_slash)
    then show ?thesis by (simp add: splitDnsFileName_def Let_def proper_def)
  qed
  then show ?case
    using Cons by (auto simp: Let_def split: option.splits sum.splits if_splits) blast
qed simp

lemma uniqueSplitName_safe:
  "uniqueSplitName used b = (used', name) \<Longrightarrow> safe_name b \<Longrightarrow> safe_name name"
proof -
  assume a: "uniqueSplitName used b = (used', name)" "safe_name b"
  have "list_all name_char (strconv_Itoa i)" if "0 \<le> i" for i using that digits_chars by (simp add: strconv_Itoa_def)
  moreover have "list_all name_char ''-''" by code_simp
  ultimately show ?thesis using a by (auto simp: uniqueSplitName_def Let_def safe_name_def split: if_splits)
qed

lemma split_loop_safe:
  "split_loop J outDir doc n cores i used nodes = Inr files \<Longrightarrow> f \<in> set files \<Longrightarrow>
   safe_name (sf_Name f) \<and> (\<forall>c \<in> set (sf_Dns f). \<exists>g. proper g \<and> dc_Target c = path_Join [outDir, ''dns'', g])"
proof (induction nodes arbitrary: i used files)
  case (Cons node nodes)
  obtain used' name where u: "uniqueSplitName used (splitNodeName J node) = (used', name)" by fastforce
  have safe: "safe_name name" by (rule uniqueSplitName_safe [OF u splitNodeName_safe])
  obtain out copies content rest where s: "split_doc J outDir doc n cores name node = Inr (out, copies)" "js_indent J out = Inr content"
    "split_loop J outDir doc n cores (Suc i) used' nodes = Inr rest"
    "files = \<lparr>sf_Name = name, sf_Path = path_Join [outDir, name @ ''.json''], sf_Content = content @ [CHR 0x0A], sf_Dns = copies\<rparr> # rest"
    using Cons.prems(1) u by (auto split: sum.splits)
  have "\<exists>perCores. split_cores J outDir name cores (splitNodeCores J node cores) = Inr (perCores, copies)"
    using s(1) by (auto simp: split_doc_def Let_def split: sum.splits option.splits)
  then have "\<exists>g. proper g \<and> dc_Target c = path_Join [outDir, ''dns'', g]" if "c \<in> set copies" for c
    using split_cores_targets safe that by blast
  then show ?case using Cons.IH [OF s(3)] Cons.prems(2) s(4) safe by auto
qed simp

lemma json_proper: "safe_name n \<Longrightarrow> proper (n @ ''.json'')"
  using safe_proper [of n "''.json''"] by (simp add: name_char_def)

text \<open>A file in the subdirectory for DNS files is none of the generated configurations.\<close>

lemma Join_three: "d \<noteq> '''' \<Longrightarrow> path_Join [d, x, y] = path_Join [d @ slash # x, y]"
  by (simp add: path_Join_def)

lemma render_parts:
  assumes "slash \<notin> set c" "slash \<notin> set d" "cs \<noteq> []" "ds \<noteq> []"
  shows "render r (cs @ [c]) = render r (ds @ [d]) \<longleftrightarrow> strings_Join cs ''/'' = strings_Join ds ''/'' \<and> c = d"
  using assms append_sep_inject_right [of slash c d] by (auto simp: render_def Join_snoc)

lemma dns_not_config:
  assumes "outDir \<noteq> ''''" "proper f" "proper g"
  shows "path_Join [outDir, ''dns'', g] \<noteq> path_Join [outDir, f]"
proof -
  let ?st = "rev (clean_stack outDir)" and ?r = "strings_HasPrefix outDir ''/''"
  have dns: "proper ''dns''" by (simp add: proper_def)
  have r: "strings_HasPrefix (outDir @ slash # ''dns'') ''/'' = ?r" using assms(1) by (cases outDir) (auto simp: strings_HasPrefix_def)
  have 1: "path_Join [outDir, ''dns'', g] = render ?r ((?st @ [''dns'']) @ [g])"
    using Join_dir_file [OF assms(3), of "outDir @ slash # ''dns''"] clean_stack_append [OF assms(1) dns] Join_three [OF assms(1)] r by simp
  have 2: "path_Join [outDir, f] = render ?r (?st @ [f])" using Join_dir_file [OF assms(2)] assms(1) by simp
  show ?thesis
  proof (cases "?st = []")
    case True
    have "''dns/'' @ g \<noteq> f" using assms(2) by (auto simp: proper_def)
    then show ?thesis unfolding 1 2 True by (auto simp: render_def)
  next
    case False
    then show ?thesis
      unfolding 1 2 using render_parts [of g f "?st @ [''dns'']" ?st ?r] assms(2,3) by (simp add: proper_def Join_snoc)
  qed
qed

lemma copy_loop_other:
  "copy_loop OS configDir force fs copies = (fs', e) \<Longrightarrow> p \<notin> dc_Target ` set copies \<Longrightarrow> mload fs' p = mload fs p"
proof (induction copies arbitrary: fs)
  case (Cons c copies)
  obtain fs1 e1 where c: "copySplitFile OS fs (if path_IsAbs (dc_Source c) then dc_Source c else path_Join [configDir, dc_Source c]) (dc_Target c) force = (fs1, e1)"
    by fastforce
  have "mload fs1 p = mload fs p"
    using c Cons.prems(2) by (auto simp: copySplitFile_def write_file_def split: if_splits option.splits)
  then show ?case using Cons c by (cases e1) (auto simp: Let_def)
qed simp

lemma write_loop_written:
  assumes "write_loop OS configDir force fs files = (fs', None)" and "distinct (map sf_Path files)"
    and "\<And>f g. f \<in> set files \<Longrightarrow> g \<in> set files \<Longrightarrow> sf_Path f \<notin> dc_Target ` set (sf_Dns g)"
  shows "(\<forall>f \<in> set files. mload fs' (sf_Path f) = Some (sf_Content f))
     \<and> (\<forall>p. p \<notin> sf_Path ` set files \<longrightarrow> p \<notin> (\<Union>f \<in> set files. dc_Target ` set (sf_Dns f)) \<longrightarrow> mload fs' p = mload fs p)"
  using assms
proof (induction files arbitrary: fs)
  case (Cons f files)
  obtain fs1 where c: "copy_loop OS configDir force fs (sf_Dns f) = (fs1, None)" "os_write OS (sf_Path f) = None"
    "write_loop OS configDir force (mstore fs1 (sf_Path f) (sf_Content f)) files = (fs', None)"
    using Cons.prems(1) by (auto simp: write_file_def split: if_splits prod.splits option.splits)
  have own: "sf_Path f \<notin> sf_Path ` set files" "sf_Path f \<notin> (\<Union>g \<in> set files. dc_Target ` set (sf_Dns g))"
    using Cons.prems(2,3) by auto
  have IH: "\<forall>g \<in> set files. mload fs' (sf_Path g) = Some (sf_Content g)"
    "\<And>p. p \<notin> sf_Path ` set files \<Longrightarrow> p \<notin> (\<Union>g \<in> set files. dc_Target ` set (sf_Dns g)) \<Longrightarrow>
       mload fs' p = mload (mstore fs1 (sf_Path f) (sf_Content f)) p"
    using Cons.IH [OF c(3)] Cons.prems(2,3) by auto
  have "mload fs' (sf_Path f) = Some (sf_Content f)" using IH(2) [OF own] by simp
  moreover have "mload fs' p = mload fs p" if "p \<notin> sf_Path ` set (f # files)" "p \<notin> (\<Union>g \<in> set (f # files). dc_Target ` set (sf_Dns g))" for p
    using IH(2) [of p] that copy_loop_other [OF c(1), of p] by simp
  ultimately show ?case using IH(1) by simp
qed simp


datatype example_raw = RStr string | RInt int | RObjs "(string \<times> example_raw) list list"

definition example_codec :: "example_raw fields \<Rightarrow> example_raw json" where
  "example_codec doc =
     \<lparr>js_decode = (\<lambda>_. Inr doc), js_object = (\<lambda>r. case r of RObjs [m] \<Rightarrow> Inr m | _ \<Rightarrow> Inl ''no object''),
      js_objects = (\<lambda>r. case r of RObjs ms \<Rightarrow> Inr ms | _ \<Rightarrow> Inl ''no array''), js_string = (\<lambda>r. case r of RStr s \<Rightarrow> Inr s | _ \<Rightarrow> Inl ''no string''),
      js_int = (\<lambda>r. case r of RInt i \<Rightarrow> Inr i | _ \<Rightarrow> Inl ''no number''), js_of_object = (\<lambda>m. Inr (RObjs [m])), js_of_objects = (\<lambda>ms. Inr (RObjs ms)),
      js_of_string = (\<lambda>s. Inr (RStr s)), js_of_int = (\<lambda>i. Inr (RInt i)), js_indent = (\<lambda>_. Inr ''{}'')\<rparr>"

definition example_doc :: "string list \<Rightarrow> example_raw fields" where
  "example_doc names =
     [(''Nodes'', RObjs (map (\<lambda>n. [(''Name'', RStr n)]) names)), (''Cores'', RObjs [[(''Type'', RStr ''xray''), (''DnsConfigPath'', RStr ''dns.json'')]])]"

definition example_os :: split_os where
  "example_os = \<lparr>os_mkdir = (\<lambda>_. None), os_read = (\<lambda>_. None), os_write = (\<lambda>_. None)\<rparr>"


text \<open>
  The numbered name of a repeated node can be the name of another node: two nodes then share a path, and
  with \<open>-f\<close> the second file replaces the first.
\<close>

lemma split_name_collision:
  "split_names [] [b, b, b @ ''-2''] = [b, b @ ''-2'', b @ ''-2'']"
  by (simp add: uniqueSplitName_def Let_def mget_def strconv_Itoa_def nat_digits.simps [of 2]) code_simp

section \<open>The core of a node is kept\<close>

lemma find_first_entry: "map_option (\<lambda>i. es ! i) (first_entry p es) = find p es"
  by (induction es) (auto simp: first_entry_simps option.map_comp comp_def)

lemma find_filter: "(\<And>x. x \<in> set xs \<Longrightarrow> p x \<Longrightarrow> q x) \<Longrightarrow> find p (filter q xs) = find p xs"
  by (induction xs) auto

lemma filter_upt_nth: "map ((!) xs) (filter (\<lambda>i. q (xs ! i)) [0..<length xs]) = filter q xs"
  by (metis (no_types, lifting) filter_map comp_apply filter_cong map_nth)

lemma find_map_config: "find p (map f xs) = map_option f (find (p \<circ> f) xs)"
  by (induction xs) auto

definition core_entry :: "CoreConfig \<Rightarrow> coreEntry" where
  "core_entry t = \<lparr>ce_key = (if co_Name t = '''' then co_Type t else co_Name t), ce_typ = strings_ToLower (co_Type t), ce_config = t, ce_core = None\<rparr>"

lemma new_entries_map: "new_entries cores c = Inr es \<Longrightarrow> es = map core_entry c"
  by (induction c arbitrary: es) (auto simp: Let_def core_entry_def split: if_splits sum.splits)

text \<open>The configuration a selector that has just been created picks for a node.\<close>

definition chosen_config :: "'c registry \<Rightarrow> CoreConfig list \<Rightarrow> 'raw NodeInfo \<Rightarrow> 'raw Options \<Rightarrow> CoreConfig option" where
  "chosen_config cores c info opt =
     (case NewSelector cores c of Inl _ \<Rightarrow> None | Inr s \<Rightarrow> map_option (\<lambda>i. ce_config (sel_entries s ! i)) (pickLocked cores s info opt))"

definition picks :: "'c registry \<Rightarrow> 'raw NodeInfo \<Rightarrow> 'raw Options \<Rightarrow> coreEntry \<Rightarrow> bool" where
  "picks cores info opt = (if op_CoreName opt \<noteq> '''' then (\<lambda>e. ce_key e = op_CoreName opt) else eligible cores info opt)"

lemma chosen_config_find:
  assumes "NewSelector cores c = Inr s"
  shows "chosen_config cores c info opt = find (picks cores info opt \<circ> core_entry) c"
proof -
  have es: "sel_entries s = map core_entry c" using assms new_entries_map by (fastforce simp: NewSelector_def split: if_splits sum.splits)
  have none: "first_entry (\<lambda>e. p e \<and> ce_core e \<noteq> None) (map core_entry c) = None" for p
    by (induction c) (simp_all add: first_entry_simps core_entry_def)
  have "pickLocked cores s info opt = first_entry (picks cores info opt) (sel_entries s)"
    by (simp add: pickLocked_def pick_name_first pick_loop_first picks_def es none [simplified] option.map_ident)
  then have "chosen_config cores c info opt = map_option ce_config (find (picks cores info opt) (map core_entry c))"
    using assms find_first_entry [of "map core_entry c" "picks cores info opt"]
    by (simp add: chosen_config_def es option.map_comp comp_def flip: find_first_entry)
  then show ?thesis by (simp add: find_map_config option.map_comp comp_def core_entry_def option.map_ident)
qed


definition example_parse :: "example_raw fields \<Rightarrow> CoreConfig" where
  "example_parse c = \<lparr>co_Type = field_string (example_codec []) c ''Type'', co_Name = field_string (example_codec []) c ''Name'',
     co_XrayConfig = None, co_SingConfig = None, co_Hysteria2Config = None\<rparr>"

definition example_registry :: "bool registry" where
  "example_registry = RegisterCore (RegisterCore [] ''xray'' (\<lambda>_. Inr False) [''vless'']) ''sing'' (\<lambda>_. Inr False) [''vless'']"


text \<open>
  A type spelled with capitals is where the two disagree: the splitter compares without case, while
  \<open>Options.UnmarshalJSON\<close> forgets such a type and the selector then goes by protocol.
\<close>

lemma split_drops_core_of_capital_type:
  "let cores = [[(''Type'', RStr ''sing'')], [(''Type'', RStr ''xray'')]]; node = [(''Core'', RStr ''Xray'')];
       opt = snd (Options_UnmarshalJSON (\<lambda>_ o0. (None, o0\<lparr>op_Core := ''Xray''\<rparr>)) (\<lambda>_ x. (None, x)) (\<lambda>_ x. (None, x)) None example_options)
   in op_Core opt = '''' \<and> splitNodeCores (example_codec []) node cores = [1]
      \<and> map_option co_Type (chosen_config example_registry (map example_parse cores) (empty_NodeInfo 1 ''vless'' :: string NodeInfo) opt) = Some ''sing''
      \<and> map_option co_Type (chosen_config example_registry [example_parse (cores ! 1)] (empty_NodeInfo 1 ''vless'' :: string NodeInfo) opt) = Some ''xray''"
  by code_simp

text \<open>A node in the nested form, whose members live in \<open>ApiConfig\<close> and \<open>Options\<close>, has none of the members of its name.\<close>

lemma nested_node_is_named_zero:
  "mload node ''Name'' = None \<Longrightarrow> mload node ''ApiHost'' = None \<Longrightarrow> mload node ''NodeType'' = None \<Longrightarrow> mload node ''NodeID'' = None \<Longrightarrow>
   splitNodeName J node = ''0''"
proof -
  assume a: "mload node ''Name'' = None" "mload node ''ApiHost'' = None" "mload node ''NodeType'' = None" "mload node ''NodeID'' = None"
  have "sanitizeSplitName (''--'' @ strconv_Itoa 0) = ''0''" by code_simp
  moreover have "strings_TrimSpace '''' = ''''" "strings_TrimPrefix '''' ''https://'' = ''''" "strings_TrimPrefix '''' ''http://'' = ''''"
    "strings_TrimSuffix '''' ''/'' = ''''" by code_simp+
  ultimately show ?thesis using a by (simp add: splitNodeName_def field_string_def field_int_def Let_def)
qed

end
