(* ===== verification/Conf_Load.thy ===== *)
theory Conf_Load
  imports Conf Json5 Go_Paths
begin

text \<open>
  Loading the configuration: \<open>conf/conf.go\<close>, \<open>NodeConfig.UnmarshalJSON\<close> of \<open>conf/node.go\<close> and the file watcher
  of \<open>conf/watch.go\<close>. The JSON package is a set of decoders that take the value to decode into; opening a
  file or a URL gives an error or a reader, which is an error or the bytes it delivers.
\<close>

section \<open>The configuration file\<close>

record LogConfig =
  lg_Level :: string
  lg_Output :: string

record Conf =
  cf_LogConfig :: LogConfig
  cf_CoresConfig :: "CoreConfig list"
  cf_NodeConfig :: "string NodeConfig list"
  cf_Instances :: int

definition conf_New :: Conf where
  "conf_New = \<lparr>cf_LogConfig = \<lparr>lg_Level = ''info'', lg_Output = ''''\<rparr>, cf_CoresConfig = [], cf_NodeConfig = [], cf_Instances = 0\<rparr>"

type_synonym opener = "string \<Rightarrow> string + (string + string)"

definition LoadFromPath :: "opener \<Rightarrow> (string \<Rightarrow> Conf \<Rightarrow> string option \<times> Conf) \<Rightarrow> string \<Rightarrow> Conf \<Rightarrow> string option \<times> Conf" where
  "LoadFromPath open unmarshal filePath p =
     (case open filePath of
        Inl err \<Rightarrow> (Some (''open config file error: '' @ err), p)
      | Inr f \<Rightarrow>
          (case prep f of
             Inl err \<Rightarrow> (Some (''read config file error: '' @ err), p)
           | Inr data \<Rightarrow>
               (case unmarshal data p of
                  (Some err, p) \<Rightarrow> (Some (''unmarshal config error: '' @ err), p)
                | (None, p) \<Rightarrow> (None, p))))"

section \<open>A node entry\<close>

record rawNodeConfig =
  rn_Include :: string
  rn_ApiRaw :: string
  rn_OptRaw :: string

record node_decoders =
  nd_raw :: "string \<Rightarrow> rawNodeConfig \<Rightarrow> string option \<times> rawNodeConfig"
  nd_api :: "string \<Rightarrow> ApiConfig \<Rightarrow> string option \<times> ApiConfig"
  nd_opt :: "string option \<Rightarrow> string Options \<Rightarrow> string option \<times> string Options"
  nd_xray :: "string option \<Rightarrow> XrayOptions \<Rightarrow> string option \<times> XrayOptions"
  nd_sing :: "string option \<Rightarrow> SingOptions \<Rightarrow> string option \<times> SingOptions"

definition default_api :: ApiConfig where
  "default_api = \<lparr>ac_PanelType = '''', ac_APIHost = ''http://127.0.0.1'', ac_NodeID = 0, ac_Key = '''', ac_NodeType = '''', ac_Timeout = 30,
     ac_RuleListPath = ''''\<rparr>"

text \<open>The zero value of the limits is an argument.\<close>

definition default_options :: "LimitConfig \<Rightarrow> string Options" where
  "default_options zero =
     \<lparr>op_Name = '''', op_Core = '''', op_CoreName = '''', op_ListenIP = ''0.0.0.0'', op_SendIP = ''0.0.0.0'', op_DeviceOnlineMinTraffic = 0,
      op_LimitConfig = zero, op_RawOptions = None, op_XrayOptions = None, op_SingOptions = None, op_Hysteria2ConfigPath = '''',
      op_CertConfig = Some NewCertConfig\<rparr>"

text \<open>The document behind \<open>Include\<close>: \<open>get\<close> is \<open>http.Get\<close>.\<close>

definition include_data :: "opener \<Rightarrow> opener \<Rightarrow> string \<Rightarrow> string + string" where
  "include_data get open incl =
     (let file = strings_TrimPrefix incl '':'';
          content = (\<lambda>r. case prep r of Inl err \<Rightarrow> Inl (''open include file error: '' @ err) | Inr data \<Rightarrow> Inr data)
      in if file = ''http'' \<or> file = ''https''
         then (case get file of Inl err \<Rightarrow> Inl err | Inr body \<Rightarrow> content body)
         else (case open incl of Inl err \<Rightarrow> Inl (''open include file error: '' @ err) | Inr f \<Rightarrow> content f))"

definition decode_node ::
  "node_decoders \<Rightarrow> LimitConfig \<Rightarrow> string \<Rightarrow> rawNodeConfig \<Rightarrow> string NodeConfig \<Rightarrow> string option \<times> string NodeConfig" where
  "decode_node D zero data rn n =
     (case nd_api D (if rn_ApiRaw rn \<noteq> '''' then rn_ApiRaw rn else data) default_api of
        (Some err, api) \<Rightarrow> (Some err, n\<lparr>nc_ApiConfig := api\<rparr>)
      | (None, api) \<Rightarrow>
          (case Options_UnmarshalJSON (nd_opt D) (nd_xray D) (nd_sing D)
                  (Some (if rn_OptRaw rn \<noteq> '''' then rn_OptRaw rn else data)) (default_options zero) of
             (err, opt) \<Rightarrow> (err, n\<lparr>nc_ApiConfig := api, nc_Options := opt\<rparr>)))"

definition NodeConfig_UnmarshalJSON ::
  "node_decoders \<Rightarrow> LimitConfig \<Rightarrow> opener \<Rightarrow> opener \<Rightarrow> string \<Rightarrow> string NodeConfig \<Rightarrow> string option \<times> string NodeConfig" where
  "NodeConfig_UnmarshalJSON D zero get open data n =
     (case nd_raw D data \<lparr>rn_Include = '''', rn_ApiRaw = '''', rn_OptRaw = ''''\<rparr> of
        (Some err, rn) \<Rightarrow> (Some err, n)
      | (None, rn) \<Rightarrow>
          if rn_Include rn \<noteq> '''' then
            (case include_data get open (rn_Include rn) of
               Inl err \<Rightarrow> (Some err, n)
             | Inr data \<Rightarrow>
                 (case nd_raw D data rn of
                    (Some err, rn) \<Rightarrow> (Some (''unmarshal include file error: '' @ err), n)
                  | (None, rn) \<Rightarrow> decode_node D zero data rn n))
          else decode_node D zero data rn n)"

text \<open>An \<open>Include\<close> that is a URL is never fetched: it is opened as a file of that name.\<close>

lemma include_url_opened_as_file:
  assumes "strings_HasPrefix incl ''http://'' \<or> strings_HasPrefix incl ''https://''"
  shows "include_data get open incl
     = (case open incl of
          Inl err \<Rightarrow> Inl (''open include file error: '' @ err)
        | Inr f \<Rightarrow> (case prep f of Inl err \<Rightarrow> Inl (''open include file error: '' @ err) | Inr data \<Rightarrow> Inr data))"
proof -
  have "strings_TrimPrefix incl '':'' = incl" "incl \<noteq> ''http''" "incl \<noteq> ''https''"
    using assms by (cases incl; auto simp: strings_HasPrefix_def strings_TrimPrefix_def)+
  then show ?thesis by (simp add: include_data_def Let_def)
qed

section \<open>The watcher\<close>

definition reloadDelay :: duration where "reloadDelay = 5 * time_Second"

record fs_event =
  ev_Chmod :: bool
  ev_Name :: string

text \<open>The goroutine of \<open>Watch\<close>: the time of the last event it acted on, and the times of the reloads it started.\<close>

record watcher =
  wa_pre :: "gotime option"
  wa_reloads :: "gotime list"

definition watch_event :: "gotime \<Rightarrow> fs_event \<Rightarrow> watcher \<Rightarrow> watcher" where
  "watch_event now e w =
     (if ev_Chmod e then w
      else if (case wa_pre w of None \<Rightarrow> False | Some pre \<Rightarrow> now < time_Add pre (10 * time_Second)) then w
      else w\<lparr>wa_pre := Some now, wa_reloads := wa_reloads w @ [now + reloadDelay]\<rparr>)"

definition new_watcher :: watcher where
  "new_watcher = \<lparr>wa_pre = None, wa_reloads = []\<rparr>"

definition reload_message :: "string \<Rightarrow> string \<Rightarrow> string \<Rightarrow> string" where
  "reload_message name xDnsPath sDnsPath =
     (let b = path_Base (strings_TrimSuffix name ''~'')
      in if b = path_Base xDnsPath \<or> b = path_Base sDnsPath then ''DNS file changed, reloading...'' else ''config file changed, reloading...'')"

text \<open>The files that are watched; \<open>add\<close> is \<open>watcher.Add\<close>.\<close>

definition watch_add :: "(string \<Rightarrow> string option) \<Rightarrow> string \<Rightarrow> string \<Rightarrow> string \<Rightarrow> string option" where
  "watch_add add filePath xDnsPath sDnsPath =
     (case add filePath of
        Some err \<Rightarrow> Some (''watch file error: '' @ err)
      | None \<Rightarrow>
          (case (if xDnsPath \<noteq> '''' then add xDnsPath else None) of
             Some err \<Rightarrow> Some (''watch dns file error: '' @ err)
           | None \<Rightarrow>
               (case (if sDnsPath \<noteq> '''' then add sDnsPath else None) of
                  Some err \<Rightarrow> Some (''watch dns file error: '' @ err)
                | None \<Rightarrow> None)))"

text \<open>A run of the watcher over the events, given with their times.\<close>

definition watch_run :: "(gotime \<times> fs_event) list \<Rightarrow> watcher" where
  "watch_run events = fold (\<lambda>(now, e). watch_event now e) events new_watcher"

text \<open>
  Every change is followed by a reload, except in one window: more than the delay but less than ten
  seconds after the last event that was acted on.
\<close>

definition covered :: "watcher \<Rightarrow> gotime \<Rightarrow> bool" where
  "covered w t \<longleftrightarrow> (\<exists>r \<in> set (wa_reloads w). t \<le> r)
     \<or> (\<exists>pre. wa_pre w = Some pre \<and> pre + reloadDelay < t \<and> t < pre + 10 * time_Second)"

definition paced :: "watcher \<Rightarrow> bool" where
  "paced w \<longleftrightarrow> sorted_wrt (\<lambda>r r'. r + 10 * time_Second \<le> r') (wa_reloads w)
     \<and> (case wa_pre w of None \<Rightarrow> wa_reloads w = [] | Some pre \<Rightarrow> wa_reloads w \<noteq> [] \<and> last (wa_reloads w) = pre + reloadDelay)"

lemma paced_last: "paced w \<Longrightarrow> wa_pre w = Some pre \<Longrightarrow> pre + reloadDelay \<in> set (wa_reloads w) \<and> (\<forall>r \<in> set (wa_reloads w). r \<le> pre + reloadDelay)"
proof -
  assume a: "paced w" "wa_pre w = Some pre"
  then have "wa_reloads w \<noteq> []" "last (wa_reloads w) = pre + reloadDelay" by (simp_all add: paced_def)
  then have rs: "wa_reloads w = butlast (wa_reloads w) @ [pre + reloadDelay]" by (metis append_butlast_last_id)
  have "sorted_wrt (\<lambda>r r'. r + 10 * time_Second \<le> r') (butlast (wa_reloads w) @ [pre + reloadDelay])" using a(1) rs by (simp add: paced_def)
  then have "\<forall>r \<in> set (butlast (wa_reloads w)). r \<le> pre + reloadDelay" by (auto simp: sorted_wrt_append time_Second_def)
  then show ?thesis by (subst (1 2) rs) auto
qed

lemma watch_event_paced: "paced w \<Longrightarrow> paced (watch_event now e w)"
proof -
  assume p: "paced w"
  show ?thesis
  proof (cases "watch_event now e w = w")
    case False
    then have w: "watch_event now e w = w\<lparr>wa_pre := Some now, wa_reloads := wa_reloads w @ [now + reloadDelay]\<rparr>"
      "\<And>pre. wa_pre w = Some pre \<Longrightarrow> pre + 10 * time_Second \<le> now"
      by (auto simp: watch_event_def time_Add_def split: if_splits option.splits)
    have "r + 10 * time_Second \<le> now + reloadDelay" if "r \<in> set (wa_reloads w)" for r
    proof (cases "wa_pre w")
      case None
      then show ?thesis using p that by (simp add: paced_def)
    next
      case (Some pre)
      then show ?thesis using paced_last [OF p Some] w(2) [OF Some] that by fastforce
    qed
    then show ?thesis using p w(1) by (simp add: paced_def sorted_wrt_append)
  qed (use p in simp)
qed

lemma watch_event_covered: "covered w t \<Longrightarrow> paced w \<Longrightarrow> t \<le> now \<Longrightarrow> covered (watch_event now e w) t"
  by (auto simp: covered_def watch_event_def reloadDelay_def time_Second_def split: option.splits)

lemma watch_event_own: "paced w \<Longrightarrow> \<not> ev_Chmod e \<Longrightarrow> covered (watch_event now e w) now"
proof (cases "wa_pre w")
  case (Some pre)
  assume "paced w" "\<not> ev_Chmod e"
  then show ?thesis
    using paced_last [of w pre] Some
    by (cases "now \<le> pre + reloadDelay") (auto simp: covered_def watch_event_def time_Add_def reloadDelay_def time_Second_def)
qed (auto simp: covered_def watch_event_def reloadDelay_def time_Second_def)

lemma watch_run_snoc: "watch_run (events @ [(now, e)]) = watch_event now e (watch_run events)"
  by (simp add: watch_run_def)

lemma watch_run_paced: "paced (watch_run events)"
proof (induction events rule: rev_induct)
  case Nil
  show ?case by (simp add: watch_run_def new_watcher_def paced_def)
next
  case (snoc x events)
  then show ?case using watch_event_paced by (cases x) (simp add: watch_run_snoc)
qed

lemma watch_run_covered:
  "sorted (map fst events) \<Longrightarrow> (t, e) \<in> set events \<Longrightarrow> \<not> ev_Chmod e \<Longrightarrow> covered (watch_run events) t"
proof (induction events rule: rev_induct)
  case (snoc x events)
  obtain now e' where x: "x = (now, e')" by fastforce
  show ?case
  proof (cases "(t, e) \<in> set events")
    case True
    have "t \<le> now" using snoc.prems(1) x True by (force simp: sorted_append)
    then show ?thesis
      using snoc.IH True snoc.prems x watch_event_covered [OF _ watch_run_paced] by (simp add: watch_run_snoc sorted_append)
  next
    case False
    then show ?thesis using snoc.prems x watch_event_own [OF watch_run_paced] by (simp add: watch_run_snoc)
  qed
qed simp

text \<open>
  C25. When the watcher reloads: after any sequence of events in time order, every change of a watched
  file is followed by a reload that starts after it, or it came more than five and less than ten
  seconds after the last event the watcher acted on; and reloads are at least ten seconds apart.
\<close>

theorem watcher_covers_changes:
  assumes "sorted (map fst events)"
  shows "(\<forall>(t, e) \<in> set events. \<not> ev_Chmod e \<longrightarrow>
       (\<exists>r \<in> set (wa_reloads (watch_run events)). t \<le> r)
       \<or> (\<exists>pre. wa_pre (watch_run events) = Some pre \<and> pre + 5 * time_Second < t \<and> t < pre + 10 * time_Second))
    \<and> sorted_wrt (\<lambda>r r'. r + 10 * time_Second \<le> r') (wa_reloads (watch_run events))"
  using watch_run_covered [OF assms] watch_run_paced [of events]
  by (auto simp: covered_def paced_def reloadDelay_def)

theorem watcher_covers_changes_witness:
  "let events = [(0, \<lparr>ev_Chmod = False, ev_Name = ''c''\<rparr>), (7 * time_Second, \<lparr>ev_Chmod = False, ev_Name = ''c''\<rparr>)]
   in wa_reloads (watch_run events) = [5 * time_Second]
      \<and> (\<exists>pre. wa_pre (watch_run events) = Some pre \<and> pre + 5 * time_Second < 7 * time_Second \<and> 7 * time_Second < pre + 10 * time_Second)"
proof -
  let ?e = "[(0, \<lparr>ev_Chmod = False, ev_Name = ''c''\<rparr>), (7 * time_Second, \<lparr>ev_Chmod = False, ev_Name = ''c''\<rparr>)]"
  have r: "wa_reloads (watch_run ?e) = [5 * time_Second]" by code_simp
  have s: "sorted (map fst ?e)" by (simp add: time_Second_def)
  have "\<not> 7 * time_Second \<le> 5 * time_Second" by (simp add: time_Second_def)
  then show ?thesis using watcher_covers_changes [OF s] r by (auto simp: Let_def)
qed

end
