(* ===== verification/Sysmem.thy ===== *)
theory Sysmem
  imports Go_Paths Conf
begin

text \<open>
  \<open>common/sysmem/sysmem.go\<close> and \<open>cmd/memlimit.go\<close>: the memory budget of the process, read from \<open>/proc\<close>
  and the control group files, and the soft limit each of several instances on one machine takes. The
  file system is a function from paths to the contents of readable files.
\<close>

section \<open>Reading the files\<close>

type_synonym files = "string \<Rightarrow> string option"

text \<open>\<open>strconv.ParseUint(s, 10, 64)\<close>, \<open>None\<close> on an error.\<close>

definition strconv_ParseUint :: "string \<Rightarrow> 64 word option" where
  "strconv_ParseUint s =
     (if s = '''' \<or> \<not> list_all is_digit s \<or> 2 ^ 64 \<le> digits_value s then None else Some (of_nat (digits_value s)))"

function strings_Fields :: "string \<Rightarrow> string list" where
  "strings_Fields s =
     (let t = dropWhile is_space s
      in if t = '''' then [] else takeWhile (\<lambda>c. \<not> is_space c) t # strings_Fields (dropWhile (\<lambda>c. \<not> is_space c) t))"
  by pat_completeness auto
termination
proof (relation "measure length", goal_cases)
  case (2 s t)
  obtain c u where t: "t = c # u" using 2(2) by (cases t) simp_all
  have "\<not> is_space c" using hd_dropWhile [of is_space s] 2 t by (metis list.sel(1) list.distinct(1))
  then have "length (dropWhile (\<lambda>c. \<not> is_space c) t) \<le> length u" using t by (simp add: length_dropWhile_le)
  moreover have "length t \<le> length s" using 2 by (simp add: length_dropWhile_le)
  ultimately show ?case using t by simp
qed simp

text \<open>
  The lines a \<open>bufio.Scanner\<close> delivers: without the line end and a carriage return before it, without a
  last empty line, and only up to a line that does not fit its buffer.
\<close>

definition drop_cr :: "string \<Rightarrow> string" where
  "drop_cr l = (if l \<noteq> '''' \<and> last l = CHR 0x0D then butlast l else l)"

definition scan_lines :: "string \<Rightarrow> string list" where
  "scan_lines s =
     (let ls = strings_Split (CHR 0x0A) s;
          ls = (if last ls = '''' then butlast ls else ls)
      in map drop_cr (takeWhile (\<lambda>l. length l < 65536) ls))"

fun mem_lines :: "string list \<Rightarrow> 64 word" where
  "mem_lines [] = 0"
| "mem_lines (l # ls) =
     (case strings_Fields l of
        name # value # _ \<Rightarrow>
          if name = ''MemTotal:'' then (case strconv_ParseUint value of None \<Rightarrow> 0 | Some kb \<Rightarrow> kb * 1024) else mem_lines ls
      | _ \<Rightarrow> mem_lines ls)"

definition memTotal :: "files \<Rightarrow> string \<Rightarrow> 64 word" where
  "memTotal fs root = (case fs (path_Join [root, ''proc'', ''meminfo'']) of None \<Rightarrow> 0 | Some d \<Rightarrow> mem_lines (scan_lines d))"

definition readLimit :: "files \<Rightarrow> string \<Rightarrow> 64 word" where
  "readLimit fs file =
     (case fs file of
        None \<Rightarrow> 0
      | Some d \<Rightarrow>
          (case strconv_ParseUint (strings_TrimSpace d) of
             None \<Rightarrow> 0
           | Some v \<Rightarrow> if 2 ^ 62 \<le> v then 0 else v))"

fun v2_line :: "string list \<Rightarrow> string" where
  "v2_line [] = ''''"
| "v2_line (l # ls) =
     (if strings_HasPrefix l ''0::'' then path_Clean (''/'' @ strings_TrimSpace (strings_TrimPrefix l ''0::'')) else v2_line ls)"

definition cgroupV2Path :: "files \<Rightarrow> string \<Rightarrow> string" where
  "cgroupV2Path fs root =
     (case fs (path_Join [root, ''proc'', ''self'', ''cgroup'']) of None \<Rightarrow> '''' | Some d \<Rightarrow> v2_line (strings_Split (CHR 0x0A) d))"

section \<open>The limit of the control group\<close>

definition consider_limit :: "files \<Rightarrow> string \<Rightarrow> 64 word \<Rightarrow> 64 word" where
  "consider_limit fs file limit = (let v = readLimit fs file in if 0 < v \<and> (limit = 0 \<or> v < limit) then v else limit)"

text \<open>The loop over the directories from \<open>dir\<close> up to the root; \<open>None\<close> if it did not end.\<close>

partial_function (option) cgroup_walk :: "files \<Rightarrow> string \<Rightarrow> string \<Rightarrow> 64 word \<Rightarrow> 64 word option" where
  "cgroup_walk fs cgRoot dir limit =
     (let limit = consider_limit fs (path_Join [cgRoot, dir, ''memory.max'']) limit
      in if dir = ''/'' \<or> dir = ''.'' then Some limit else cgroup_walk fs cgRoot (path_Dir dir) limit)"

definition cgroupLimit :: "files \<Rightarrow> string \<Rightarrow> 64 word option" where
  "cgroupLimit fs root =
     (let cgRoot = path_Join [root, ''sys'', ''fs'', ''cgroup''];
          p = cgroupV2Path fs root
      in map_option (\<lambda>limit. consider_limit fs (path_Join [cgRoot, ''memory'', ''memory.limit_in_bytes''])
             (consider_limit fs (path_Join [cgRoot, ''memory.max'']) limit))
           (if p \<noteq> '''' then cgroup_walk fs cgRoot p 0 else Some 0))"

definition sysmem_budget :: "files \<Rightarrow> string \<Rightarrow> 64 word option" where
  "sysmem_budget fs root =
     map_option (\<lambda>limit. let total = memTotal fs root in if 0 < limit \<and> (total = 0 \<or> limit < total) then limit else total)
       (cgroupLimit fs root)"

section \<open>The soft limit\<close>

definition minMemoryLimit :: "64 word" where "minMemoryLimit = word_of_int (64 * sysmem_MiB)"

definition memoryLimitFor :: "64 word \<Rightarrow> int \<Rightarrow> 64 word" where
  "memoryLimitFor budget instances =
     (let instances = (if instances < 1 then 1 else instances);
          limit = budget div 10 * 7 div word_of_int instances
      in if limit < minMemoryLimit then minMemoryLimit else limit)"

text \<open>\<open>applyMemoryLimit\<close>: the argument of \<open>debug.SetMemoryLimit\<close>, if it is called.\<close>

definition applyMemoryLimit :: "string \<Rightarrow> 64 word \<Rightarrow> int \<Rightarrow> int option" where
  "applyMemoryLimit gomemlimit budget instances =
     (if gomemlimit \<noteq> '''' then None
      else if budget = 0 then None
      else Some (sint (memoryLimitFor budget instances)))"

section \<open>The tightest limit\<close>

text \<open>The smallest positive limit, or 0 when there is none.\<close>

definition tightest :: "64 word list \<Rightarrow> 64 word" where
  "tightest ls = (case filter (\<lambda>v. 0 < v) ls of [] \<Rightarrow> 0 | vs \<Rightarrow> Min (set vs))"

lemma tightest_0: "tightest ls = 0 \<longleftrightarrow> (\<forall>v \<in> set ls. v = 0)"
proof (cases "filter (\<lambda>v. 0 < v) ls")
  case Nil
  then show ?thesis by (auto simp: tightest_def filter_empty_conv word_gt_0)
next
  case (Cons a vs)
  then have m: "Min (set (filter (\<lambda>v. 0 < v) ls)) \<in> set (filter (\<lambda>v. 0 < v) ls)" by (intro Min_in) simp_all
  moreover have "tightest ls = Min (set (filter (\<lambda>v. 0 < v) ls))" using Cons by (simp add: tightest_def)
  ultimately have "tightest ls \<in> set ls" "0 < tightest ls" by simp_all
  then show ?thesis by (auto simp: word_gt_0)
qed

lemma tightest_snoc: "tightest (ls @ [v]) = (if 0 < v \<and> (tightest ls = 0 \<or> v < tightest ls) then v else tightest ls)"
proof (cases "filter (\<lambda>v. 0 < v) ls")
  case Nil
  then show ?thesis by (simp add: tightest_def)
next
  case (Cons a vs)
  have fin: "finite (set (filter (\<lambda>v. 0 < v) ls))" "set (filter (\<lambda>v. 0 < v) ls) \<noteq> {}" using Cons by auto
  have t: "tightest ls = Min (set (filter (\<lambda>v. 0 < v) ls))" using Cons by (simp add: tightest_def)
  have pos: "tightest ls \<noteq> 0" using Min_in [OF fin] t by (auto simp: word_gt_0)
  show ?thesis
  proof (cases "0 < v")
    case True
    then have "tightest (ls @ [v]) = Min (insert v (set (filter (\<lambda>v. 0 < v) ls)))" using Cons by (simp add: tightest_def insert_commute)
    also have "\<dots> = min v (tightest ls)" using Min_insert [OF fin] t by simp
    finally show ?thesis using True pos by (auto simp: min_def)
  next
    case False
    then show ?thesis using Cons by (simp add: tightest_def)
  qed
qed

lemma consider_tightest: "consider_limit fs file (tightest ls) = tightest (ls @ [readLimit fs file])"
  by (simp add: consider_limit_def Let_def tightest_snoc)

text \<open>The directories of a rooted path, from the path itself up to the root.\<close>

fun ancestors :: "string list \<Rightarrow> string list" where
  "ancestors cs = map (\<lambda>k. rooted_path (take k cs)) (rev [0..<Suc (length cs)])"

declare ancestors.simps [simp del]

lemma ancestors_snoc: "ancestors (cs @ [c]) = rooted_path (cs @ [c]) # ancestors cs"
  by (simp add: ancestors.simps)

lemma rooted_path_ne: "proper c \<Longrightarrow> rooted_path (cs @ [c]) \<noteq> ''/'' \<and> rooted_path (cs @ [c]) \<noteq> ''.''"
  by (cases "cs = []") (auto simp: rooted_path_def Join_snoc proper_def)

lemma cgroup_walk_tightest:
  "list_all proper cs \<Longrightarrow>
   cgroup_walk fs cgRoot (rooted_path cs) (tightest ls)
     = Some (tightest (ls @ map (\<lambda>d. readLimit fs (path_Join [cgRoot, d, ''memory.max''])) (ancestors cs)))"
proof (induction cs arbitrary: ls rule: rev_induct)
  case Nil
  show ?case by (subst cgroup_walk.simps) (simp add: rooted_path_def ancestors.simps consider_tightest)
next
  case (snoc c cs)
  let ?d = "rooted_path (cs @ [c])"
  have "cgroup_walk fs cgRoot ?d (tightest ls)
      = cgroup_walk fs cgRoot (rooted_path cs) (tightest (ls @ [readLimit fs (path_Join [cgRoot, ?d, ''memory.max''])]))"
    using snoc.prems rooted_path_ne [of c cs] Dir_rooted_path [of cs c]
    by (subst cgroup_walk.simps) (simp add: Let_def consider_tightest)
  then show ?case using snoc by (simp add: ancestors_snoc)
qed

lemma v2_line_rooted: "v2_line ls = '''' \<or> (\<exists>cs. list_all proper cs \<and> v2_line ls = rooted_path cs)"
  using Clean_is_rooted_path by (induction ls) auto

text \<open>
  C27. Reading the memory budget always ends, and the limit of the control group is the smallest
  positive limit found in the group of the process, in any group above it, and in the version 1 file:
  a limit on a parent slice is never missed and \<open>max\<close> counts as no limit. The budget is the smaller of
  that limit and the physical memory, either of which may be unknown.
\<close>

theorem budget_is_tightest:
  "\<exists>dirs. (cgroupV2Path fs root = '''' \<and> dirs = [] \<or> (\<exists>cs. list_all proper cs \<and> cgroupV2Path fs root = rooted_path cs \<and> dirs = ancestors cs))
     \<and> (let cg = path_Join [root, ''sys'', ''fs'', ''cgroup''];
            files = map (\<lambda>d. path_Join [cg, d, ''memory.max'']) dirs
                      @ [path_Join [cg, ''memory.max''], path_Join [cg, ''memory'', ''memory.limit_in_bytes'']]
        in cgroupLimit fs root = Some (tightest (map (readLimit fs) files))
           \<and> sysmem_budget fs root = Some (tightest [memTotal fs root, tightest (map (readLimit fs) files)]))"
proof -
  let ?cg = "path_Join [root, ''sys'', ''fs'', ''cgroup'']"
  obtain dirs where d: "cgroupV2Path fs root = '''' \<and> dirs = [] \<or> (\<exists>cs. list_all proper cs \<and> cgroupV2Path fs root = rooted_path cs \<and> dirs = ancestors cs)"
  proof (cases "fs (path_Join [root, ''proc'', ''self'', ''cgroup''])")
    case (Some d)
    then show thesis using v2_line_rooted [of "strings_Split (CHR 0x0A) d"] that by (auto simp: cgroupV2Path_def)
  qed (use that [of "[]"] in \<open>simp add: cgroupV2Path_def\<close>)
  have "(if cgroupV2Path fs root \<noteq> '''' then cgroup_walk fs ?cg (cgroupV2Path fs root) 0 else Some 0)
      = Some (tightest (map (\<lambda>d. readLimit fs (path_Join [?cg, d, ''memory.max''])) dirs))"
    using d cgroup_walk_tightest [where ls = "[]" and cgRoot = ?cg and fs = fs] by (auto simp: tightest_def rooted_path_def)
  then have c: "cgroupLimit fs root = Some (tightest (map (readLimit fs) (map (\<lambda>d. path_Join [?cg, d, ''memory.max'']) dirs
      @ [path_Join [?cg, ''memory.max''], path_Join [?cg, ''memory'', ''memory.limit_in_bytes'']])))"
    by (simp add: cgroupLimit_def Let_def consider_tightest comp_def)
  have two: "tightest [t, l] = (if 0 < l \<and> (t = 0 \<or> l < t) then l else t)" for t l
    using tightest_snoc [of "[t]" l] by (simp add: tightest_def word_gt_0)
  have b: "sysmem_budget fs root = Some (tightest [memTotal fs root, limit])" if "cgroupLimit fs root = Some limit" for limit
    using that by (simp add: sysmem_budget_def two Let_def)
  show ?thesis unfolding Let_def using d c b [OF c] by blast
qed

text \<open>
  The soft limits of all instances of a machine together stay within 70% of its budget, unless the
  floor of 64 MiB per instance applies, and the number given to the runtime is positive.
\<close>

theorem memory_limit_shared:
  assumes "unat budget < 2 ^ 63" and "instances < 2 ^ 63"
  shows "unat (memoryLimitFor budget instances) = max (64 * 2 ^ 20) (unat budget div 10 * 7 div nat (max 1 instances))
    \<and> (unat (memoryLimitFor budget instances) = 64 * 2 ^ 20
       \<or> nat (max 1 instances) * unat (memoryLimitFor budget instances) * 10 \<le> 7 * unat budget)
    \<and> (budget \<noteq> 0 \<longrightarrow> (\<exists>n > 0. applyMemoryLimit '''' budget instances = Some n))"
proof -
  define i where "i = nat (max 1 instances)"
  define limit where "limit = budget div 10 * 7 div (of_nat i :: 64 word)"
  have i: "(if instances < 1 then 1 else instances) = int i" "0 < i" "i < 2 ^ 63" using assms(2) by (auto simp: i_def)
  have ui: "unat (of_nat i :: 64 word) = i" using i(3) by (simp add: unat_of_nat take_bit_nat_eq_self)
  have m: "unat (budget div 10 * 7) = unat budget div 10 * 7"
  proof -
    have "unat budget div 10 * 7 < 2 ^ 64" using assms(1) by simp
    then show ?thesis using unat_mult_lem [of "budget div 10" 7] by (simp add: unat_div)
  qed
  have l: "unat limit = unat budget div 10 * 7 div i" by (simp add: limit_def unat_div m ui)
  have mm: "unat minMemoryLimit = 64 * 2 ^ 20" by (simp add: minMemoryLimit_def sysmem_MiB_def)
  have M: "memoryLimitFor budget instances = (if limit < minMemoryLimit then minMemoryLimit else limit)"
    using i(1) by (simp add: memoryLimitFor_def Let_def limit_def)
  then have 1: "unat (memoryLimitFor budget instances) = max (64 * 2 ^ 20) (unat budget div 10 * 7 div i)"
    using l mm by (auto simp: word_less_nat_alt max_def)
  have "i * (unat budget div 10 * 7 div i) \<le> unat budget div 10 * 7" by simp
  then have "i * (unat budget div 10 * 7 div i) * 10 \<le> 7 * unat budget" by linarith
  then have 2: "unat (memoryLimitFor budget instances) = 64 * 2 ^ 20 \<or> i * unat (memoryLimitFor budget instances) * 10 \<le> 7 * unat budget"
    using 1 by (auto simp: max_def)
  have "unat budget div 10 * 7 div i \<le> unat budget" using div_le_dividend [of "unat budget div 10 * 7" i] by linarith
  then have "0 < unat (memoryLimitFor budget instances)" "unat (memoryLimitFor budget instances) < 2 ^ 63" using 1 assms(1) by auto
  then have u: "0 < uint (memoryLimitFor budget instances)" "uint (memoryLimitFor budget instances) < 2 ^ 63"
    using of_nat_less_iff [of "unat (memoryLimitFor budget instances)" "2 ^ 63", where 'a = int]
      of_nat_less_iff [of 0 "unat (memoryLimitFor budget instances)", where 'a = int]
    unfolding uint_nat [symmetric] by simp_all
  have "sint (memoryLimitFor budget instances) = uint (memoryLimitFor budget instances)"
    unfolding sint_uint by (rule signed_take_bit_int_eq_self) (use u in simp_all)
  then have "0 < sint (memoryLimitFor budget instances)" using u(1) by simp
  then show ?thesis using 1 2 by (simp add: applyMemoryLimit_def flip: i_def)
qed

theorem memory_limit_shared_witness:
  "unat (memoryLimitFor (word_of_int (2048 * 1048576)) 4) = 375809637 \<and> 4 * 375809637 * 10 \<le> 7 * (2048 * 1048576 :: nat)"
proof -
  have "unat (word_of_int (2048 * 1048576) :: 64 word) = 2048 * 1048576" by simp
  then show ?thesis using memory_limit_shared [of "word_of_int (2048 * 1048576)" 4] by simp
qed

end
