(* ===== verification/Server.thy ===== *)
theory Server
  imports Conf_Load Node Selector Sysmem
begin

text \<open>
  \<open>cmd/server.go\<close>, \<open>common/startlock\<close> and \<open>cmd/coreversion.go\<close>: starting the server process and reloading it
  when the watcher of \<open>Conf_Load\<close> says so. The selector is the core the controllers talk to; a nil
  core is \<open>None\<close>, and a call on it is a panic.
\<close>

section \<open>Taking turns at startup\<close>

text \<open>
  \<open>acquire\<close>: attempt \<open>k\<close> to lock the file has the result \<open>flock k\<close> and is followed by a look at the
  clock, \<open>clock k\<close>. \<open>None\<close> would mean that the loop does not end.
\<close>

datatype flock_result = Locked | WouldBlock | FlockError

definition pollInterval :: duration where "pollInterval = 200 * 1000000"

partial_function (option) acquire_loop :: "(nat \<Rightarrow> flock_result) \<Rightarrow> (nat \<Rightarrow> gotime) \<Rightarrow> gotime \<Rightarrow> nat \<Rightarrow> bool option" where
  "acquire_loop flock clock deadline k =
     (case flock k of
        Locked \<Rightarrow> Some True
      | FlockError \<Rightarrow> Some False
      | WouldBlock \<Rightarrow> if \<not> time_Before (clock k) deadline then Some False else acquire_loop flock clock deadline (Suc k))"

definition startlock_Acquire :: "bool \<Rightarrow> (nat \<Rightarrow> flock_result) \<Rightarrow> (nat \<Rightarrow> gotime) \<Rightarrow> gotime \<Rightarrow> duration \<Rightarrow> bool option" where
  "startlock_Acquire opened flock clock now wait =
     (if \<not> opened then Some False else acquire_loop flock clock (time_Add now wait) 0)"

section \<open>Versions of the linked cores\<close>

record go_module =
  md_Path :: string
  md_Version :: string
  md_Replace :: "string option"

definition coreModules :: "(string, string) gomap" where
  "coreModules = [(''hysteria2'', ''github.com/apernet/hysteria/core/v2''), (''sing'', ''github.com/sagernet/sing-box''),
     (''xray'', ''github.com/xtls/xray-core'')]"

definition module_version :: "go_module option \<Rightarrow> (string, string) gomap \<Rightarrow> (string, string) gomap" where
  "module_version dep versions =
     (case dep of
        None \<Rightarrow> versions
      | Some d \<Rightarrow>
          mstore versions (md_Path d)
            (case md_Replace d of Some v \<Rightarrow> if v \<noteq> '''' \<and> v \<noteq> ''(devel)'' then v else md_Version d | None \<Rightarrow> md_Version d))"

definition core_line :: "(string, string) gomap \<Rightarrow> (string, string) gomap \<Rightarrow> string \<Rightarrow> string list" where
  "core_line versions reported name =
     (case mload coreModules name of
        None \<Rightarrow> []
      | Some m \<Rightarrow>
          let version = mget '''' versions m; v = mget '''' reported name
          in if version = '''' then [] else [name @ '' '' @ (if v \<noteq> '''' then v else version)])"

definition coreVersionLines :: "go_module option list \<Rightarrow> string list \<Rightarrow> (string, string) gomap \<Rightarrow> string list" where
  "coreVersionLines deps registered reported =
     sort (concat (map (core_line (fold module_version deps []) reported) registered))"

section \<open>The server\<close>

datatype log_level = TraceLevel | DebugLevel | InfoLevel | WarnLevel | ErrorLevel | FatalLevel | PanicLevel

text \<open>The second result says that the level is unknown, which is logged.\<close>

definition setLogLevel :: "string \<Rightarrow> log_level \<times> bool" where
  "setLogLevel level =
     (let l = strings_ToLower (strings_TrimSpace level)
      in if l = '''' \<or> l = ''info'' then (InfoLevel, False)
         else if l = ''trace'' then (TraceLevel, False)
         else if l = ''debug'' then (DebugLevel, False)
         else if l = ''warn'' \<or> l = ''warning'' then (WarnLevel, False)
         else if l = ''error'' then (ErrorLevel, False)
         else if l = ''fatal'' then (FatalLevel, False)
         else if l = ''panic'' then (PanicLevel, False)
         else (InfoLevel, True))"

record ('re, 'c) server_env =
  se_cores :: "'c registry"
  se_methods :: "('c, string) Core"
  se_node :: "('re, string, 'c Selector) env"
  se_open :: opener
  se_unmarshal :: "string \<Rightarrow> Conf \<Rightarrow> string option \<times> Conf"

record ('re, 'b, 'c) server =
  sv_conf :: Conf
  sv_vc :: "'c Selector option"
  sv_nodes :: "('re, 'b, string, 'c Selector) Node"
  sv_limiters :: "('re, 'b) limiters"
  sv_level :: log_level
  sv_memory :: "int option"

text \<open>
  \<open>runServer\<close> up to the wait for a signal. The start lock only delays the start; the log file and
  the deduplication of log entries are those of the logger. A node that does not start ends the
  process, whose deferred \<open>Close\<close> is part of its end.
\<close>

definition runServer ::
  "('re, 'c) server_env \<Rightarrow> string \<Rightarrow> 64 word \<Rightarrow> bool \<Rightarrow> (string \<Rightarrow> string option) \<Rightarrow> string \<Rightarrow> string \<Rightarrow> string \<Rightarrow> gotime
   \<Rightarrow> (string + ('re, 'b, 'c) server) go" where
  "runServer R gomemlimit mem watch add config xdns sdns now =
     (case LoadFromPath (se_open R) (se_unmarshal R) config conf_New of
        (Some err, _) \<Rightarrow> Some (Inl (''load config file failed: '' @ err))
      | (None, c) \<Rightarrow>
          (case NewCore (se_cores R) (cf_CoresConfig c) of
             Inl err \<Rightarrow> Some (Inl (''new core failed: '' @ err))
           | Inr vc \<Rightarrow>
               (case Selector_Start (se_cores R) (se_methods R) vc of
                  None \<Rightarrow> None
                | Some (vc, Some err) \<Rightarrow> Some (Inl (''start core failed: '' @ err))
                | Some (vc, None) \<Rightarrow>
                    (case Node_Start (se_node R) now Node_New (cf_NodeConfig c) (vc, []) of
                       None \<Rightarrow> None
                     | Some (nodes, sh, Some err) \<Rightarrow>
                         map_option (\<lambda>_. Inl (''run nodes failed: '' @ err)) (Selector_Close (se_methods R) (fst sh))
                     | Some (nodes, sh, None) \<Rightarrow>
                         (case (if watch then watch_add add config xdns sdns else None) of
                            Some err \<Rightarrow> map_option (\<lambda>_. Inl (''start watch failed: '' @ err)) (Selector_Close (se_methods R) (fst sh))
                          | None \<Rightarrow>
                              Some (Inr \<lparr>sv_conf = c, sv_vc = Some (fst sh), sv_nodes = nodes, sv_limiters = snd sh,
                                sv_level = fst (setLogLevel (lg_Level (cf_LogConfig c))),
                                sv_memory = applyMemoryLimit gomemlimit mem (cf_Instances c)\<rparr>))))))"

text \<open>
  The function that the watcher calls, with the error it logs. \<open>NewCore\<close> assigns the variable \<open>vc\<close>
  also when it fails, and then the core is nil.
\<close>

definition reload_server ::
  "('re, 'c) server_env \<Rightarrow> gotime \<Rightarrow> ('re, 'b, 'c) server \<Rightarrow> (('re, 'b, 'c) server \<times> string option) go" where
  "reload_server R now S =
     (case sv_vc S of
        None \<Rightarrow> None
      | Some vc \<Rightarrow>
          (case Node_Close (se_node R) (sv_nodes S) (vc, sv_limiters S) of
             (nodes, vc, limiters) \<Rightarrow>
               (let S = S\<lparr>sv_nodes := nodes, sv_vc := Some vc, sv_limiters := limiters\<rparr>
                in case Selector_Close (se_methods R) vc of
                     None \<Rightarrow> None
                   | Some (vc, errs) \<Rightarrow>
                       if errs \<noteq> [] then Some (S\<lparr>sv_vc := Some vc\<rparr>, Some ''Restart node failed'')
                       else case NewCore (se_cores R) (cf_CoresConfig (sv_conf S)) of
                         Inl err \<Rightarrow> Some (S\<lparr>sv_vc := None\<rparr>, Some ''New core failed'')
                       | Inr vc \<Rightarrow>
                           (case Selector_Start (se_cores R) (se_methods R) vc of
                              None \<Rightarrow> None
                            | Some (vc, Some err) \<Rightarrow> Some (S\<lparr>sv_vc := Some vc\<rparr>, Some ''Start core failed'')
                            | Some (vc, None) \<Rightarrow>
                                (case Node_Start (se_node R) now nodes (cf_NodeConfig (sv_conf S)) (vc, limiters) of
                                   None \<Rightarrow> None
                                 | Some (nodes, (vc, limiters), e) \<Rightarrow>
                                     Some (S\<lparr>sv_nodes := nodes, sv_vc := Some vc, sv_limiters := limiters\<rparr>,
                                           map_option (\<lambda>_. ''Run nodes failed'') e))))))"

text \<open>The goroutine of the watcher: load the file over a fresh configuration, then call \<open>reload\<close>, error or not.\<close>

definition watch_reload ::
  "('re, 'c) server_env \<Rightarrow> string \<Rightarrow> gotime \<Rightarrow> ('re, 'b, 'c) server \<Rightarrow> (('re, 'b, 'c) server \<times> string option) go" where
  "watch_reload R filePath now S =
     reload_server R now (S\<lparr>sv_conf := snd (LoadFromPath (se_open R) (se_unmarshal R) filePath conf_New)\<rparr>)"

section \<open>Properties\<close>

text \<open>The clock is read once per attempt, and the attempts are a poll interval apart.\<close>

lemma clock_advances:
  assumes "\<And>k. clock k + pollInterval \<le> clock (Suc k)"
  shows "clock 0 + int k * pollInterval \<le> clock k"
proof (induction k)
  case (Suc k)
  then show ?case using assms [of k] by (simp add: algebra_simps)
qed simp

lemma acquire_loop_decides:
  assumes "\<And>j. k \<le> j \<Longrightarrow> j < n \<Longrightarrow> flock j = WouldBlock \<and> clock j < deadline" and "k \<le> n"
    and "flock n \<noteq> WouldBlock \<or> deadline \<le> clock n"
  shows "acquire_loop flock clock deadline k = Some (flock n = Locked)"
  using assms
proof (induction "n - k" arbitrary: k)
  case 0
  then have "k = n" by simp
  then show ?case using 0 by (subst acquire_loop.simps) (auto simp: time_Before_def split: flock_result.split)
next
  case (Suc m)
  then have k: "k < n" "flock k = WouldBlock" "clock k < deadline" by auto
  have "acquire_loop flock clock deadline (Suc k) = Some (flock n = Locked)"
    by (rule Suc.hyps(1)) (use Suc k in auto)
  then show ?case using k by (subst acquire_loop.simps) (simp add: time_Before_def)
qed

text \<open>
  C26. An instance that waits for the others to start always goes on: with a clock that advances by at
  least the poll interval between attempts, \<open>Acquire\<close> returns after at most one attempt per interval
  of the waiting time and one more, with the lock exactly when its last attempt took it.
\<close>

theorem startlock_gives_up:
  assumes "\<And>k. clock k + pollInterval \<le> clock (Suc k)" and "now \<le> clock 0" and "0 \<le> wait"
  shows "\<exists>n. n \<le> nat (wait div pollInterval) + 1 \<and> (\<forall>j < n. flock j = WouldBlock)
     \<and> startlock_Acquire True flock clock now wait = Some (flock n = Locked)"
proof -
  define stop where "stop n \<longleftrightarrow> flock n \<noteq> WouldBlock \<or> now + wait \<le> clock n" for n
  let ?m = "nat (wait div pollInterval) + 1"
  have pos: "0 < pollInterval" by (simp add: pollInterval_def)
  have "int ?m * pollInterval = (wait div pollInterval) * pollInterval + pollInterval"
    using assms(3) pos by (simp add: pos_imp_zdiv_nonneg_iff algebra_simps)
  also have "\<dots> \<ge> wait"
    using div_mult_mod_eq [of wait pollInterval] pos_mod_bound [OF pos, of wait] by linarith
  finally have "wait \<le> int ?m * pollInterval" .
  then have "stop ?m" using clock_advances [where clock = clock and k = ?m, OF assms(1)] assms(2) unfolding stop_def by linarith
  define n where "n = (LEAST n. stop n)"
  have n: "stop n" "n \<le> ?m" using LeastI [of stop ?m] Least_le [of stop ?m] \<open>stop ?m\<close> by (auto simp: n_def)
  have before: "flock j = WouldBlock \<and> clock j < now + wait" if "j < n" for j
    using not_less_Least [of j stop] that by (auto simp: n_def stop_def)
  have "acquire_loop flock clock (now + wait) 0 = Some (flock n = Locked)"
    by (rule acquire_loop_decides) (use before n(1) in \<open>auto simp: stop_def\<close>)
  then show ?thesis using n(2) before by (intro exI [of _ n]) (simp add: startlock_Acquire_def time_Add_def)
qed

theorem startlock_gives_up_witness:
  "startlock_Acquire True (\<lambda>_. WouldBlock) (\<lambda>k. int k * 200000000) 0 300000000 = Some False"
proof -
  have "(300000000 :: int) div pollInterval = 1" by (simp add: pollInterval_def)
  then show ?thesis
    using startlock_gives_up [of "\<lambda>k. int k * 200000000" 0 300000000 "\<lambda>_. WouldBlock"] by (auto simp: pollInterval_def algebra_simps)
qed

text \<open>A reload that fails leaves no controller running, and one that succeeds runs one per configured node.\<close>

lemma start_nodes_length:
  "start_nodes E now nodes cs sh = Some (sh', Inr cs') \<Longrightarrow> length cs' = length cs + length nodes"
proof (induction nodes arbitrary: cs sh)
  case (Cons node nodes)
  obtain s l where "sh = (s, l)" by fastforce
  then show ?case using Cons by (fastforce split: sum.splits prod.splits option.splits)
qed simp

lemma reload_outcome:
  "reload_server R now S = Some (S', e) \<Longrightarrow>
   length (no_controllers (sv_nodes S')) = (if e = None then length (cf_NodeConfig (sv_conf S)) else 0) \<and> sv_conf S' = sv_conf S"
proof -
  assume a: "reload_server R now S = Some (S', e)"
  obtain vc where vc: "sv_vc S = Some vc" using a by (auto simp: reload_server_def split: option.splits)
  obtain nodes vc' limiters where c: "Node_Close (se_node R) (sv_nodes S) (vc, sv_limiters S) = (nodes, vc', limiters)"
    by (metis prod_cases3)
  have "no_controllers nodes = []" using c by (auto simp: Node_Close_def)
  then show ?thesis
    using a vc c start_nodes_length [of "se_node R" now "cf_NodeConfig (sv_conf S)" "[]"]
    by (auto simp: reload_server_def Let_def Node_Start_def split: option.splits sum.splits if_splits prod.splits)
qed

text \<open>
  Saving a broken configuration takes the server down for good. When the watcher cannot load the
  file (it is missing or malformed, so no core is configured), it still calls the reload: all
  controllers are closed and the core becomes nil. The next reload, whatever the repaired file says,
  calls \<open>Close\<close> on the nil core and panics.
\<close>

theorem broken_config_crashes_server:
  assumes "sv_vc S = Some vc"
    and "cf_CoresConfig (snd (LoadFromPath (se_open R) (se_unmarshal R) filePath conf_New)) = []"
    and "Node_Close (se_node R) (sv_nodes S) (vc, sv_limiters S) = (nodes, vc', limiters)"
    and "Selector_Close (se_methods R) vc' = Some (vc'', [])"
  shows "\<exists>S'. watch_reload R filePath now S = Some (S', Some ''New core failed'')
     \<and> no_controllers (sv_nodes S') = [] \<and> sv_vc S' = None
     \<and> (\<forall>opener unmarshal later. watch_reload (R\<lparr>se_open := opener, se_unmarshal := unmarshal\<rparr>) filePath later S' = None)"
proof -
  have "no_controllers nodes = []" using assms(3) by (auto simp: Node_Close_def)
  then show ?thesis
    using assms by (simp add: watch_reload_def reload_server_def Let_def NewCore_def NewSelector_def)
qed

definition example_server :: "(string, int, bool) server" where
  "example_server = \<lparr>sv_conf = conf_New, sv_vc = Some example_selector, sv_nodes = Node_New, sv_limiters = [], sv_level = InfoLevel, sv_memory = None\<rparr>"

definition example_server_env :: "(string, bool) server_env" where
  "example_server_env = \<lparr>se_cores = example_cores, se_methods = example_core,
     se_node = \<lparr>env_AddNode = (\<lambda>s _ _ _. (s, None)), env_DelNode = (\<lambda>s _. (s, None)),
       env_AddUsers = (\<lambda>s _ _ _. (s, None)), env_DelUsers = (\<lambda>s _ _ _. (s, None)),
       env_GetUserTraffic = (\<lambda>s _ _ _. (s, 0, 0)), env_RestoreUserTraffic = (\<lambda>s _ _ _ _. s),
       env_GetNodeInfo = (\<lambda>api. Some (api, Inl ''down'')), env_GetUserList = (\<lambda>api. Some (api, Inl ''down'')),
       env_GetUserAlive = (\<lambda>api. (api, [])), env_ReportNodeOnlineUsers = (\<lambda>_ _. None),
       env_ReportUserTraffic = (\<lambda>_ _. None), env_IsExist = (\<lambda>_. True), env_createCert = (\<lambda>_. None),
       env_selfCert = (\<lambda>_ _ _. None), env_compile = Some\<rparr>,
     se_open = (\<lambda>_. Inl ''no such file''), se_unmarshal = (\<lambda>_ c. (None, c))\<rparr>"

theorem broken_config_crashes_server_witness:
  "\<exists>S'. watch_reload example_server_env ''c'' 0 example_server = Some (S', Some ''New core failed'') \<and> sv_vc S' = None
     \<and> (\<forall>opener unmarshal later. watch_reload (example_server_env\<lparr>se_open := opener, se_unmarshal := unmarshal\<rparr>) ''c'' later S' = None)"
proof -
  have vc: "sv_vc example_server = Some example_selector" by (simp add: example_server_def)
  have l: "cf_CoresConfig (snd (LoadFromPath (se_open example_server_env) (se_unmarshal example_server_env) ''c'' conf_New)) = []"
    by (simp add: example_server_env_def LoadFromPath_def conf_New_def)
  have n: "Node_Close (se_node example_server_env) (sv_nodes example_server) (example_selector, sv_limiters example_server) = (Node_New, example_selector, [])"
    by (simp add: example_server_def Node_Close_def Node_New_def)
  have "case Selector_Close example_core example_selector of Some (_, []) \<Rightarrow> True | _ \<Rightarrow> False" by code_simp
  then obtain vc'' where c: "Selector_Close (se_methods example_server_env) example_selector = Some (vc'', [])"
    by (auto simp: example_server_env_def split: option.splits prod.splits list.splits)
  show ?thesis using broken_config_crashes_server [OF vc l n c, of 0] by blast
qed

end
