(* ===== verification/Loghook.thy ===== *)
theory Loghook
  imports Go_Strings
begin

text \<open>
  \<open>common/loghook/loghook.go\<close>: the formatter that collapses repeated log entries. Levels of logrus
  are numbers, the most severe first; \<open>levelString\<close> is \<open>Level.String\<close>, \<open>fmtv\<close> prints a field value with
  \<open>%v\<close> and \<open>inner\<close> is the wrapped formatter.
\<close>

section \<open>Durations as text\<close>

text \<open>\<open>Duration.String\<close>: \<open>frac u p\<close> are the last \<open>p\<close> digits of \<open>u\<close> behind a point, without trailing zeros.\<close>

definition frac :: "int \<Rightarrow> nat \<Rightarrow> string" where
  "frac u p =
     (let ds = strconv_Itoa (u mod 10 ^ p);
          ds = rev (dropWhile (\<lambda>c. c = CHR ''0'') (rev (replicate (p - length ds) (CHR ''0'') @ ds)))
      in if ds = '''' then '''' else CHR ''.'' # ds)"

definition duration_String :: "duration \<Rightarrow> string" where
  "duration_String d =
     (let u = \<bar>d\<bar>;
          body =
            (if u = 0 then ''0s''
             else if u < 1000 then strconv_Itoa u @ ''ns''
             else if u < 1000000 then strconv_Itoa (u div 1000) @ frac u 3 @ [CHR 0xC2, CHR 0xB5] @ ''s''
             else if u < 1000000000 then strconv_Itoa (u div 1000000) @ frac u 6 @ ''ms''
             else
               let secs = u div 1000000000;
                   s = strconv_Itoa (secs mod 60) @ frac u 9 @ ''s'';
                   m = strconv_Itoa (secs div 60 mod 60) @ ''m'' @ s
               in if secs < 60 then s else if secs < 3600 then m else strconv_Itoa (secs div 3600) @ ''h'' @ m)
      in if d < 0 then CHR ''-'' # body else body)"

section \<open>The deduper\<close>

definition DefaultWindow :: duration where "DefaultWindow = time_Minute"

definition retention :: duration where "retention = 10 * time_Minute"

record 'v log_entry =
  en_Level :: nat
  en_Message :: string
  en_Data :: "(string, 'v) gomap"

record log_record =
  lr_first :: gotime
  lr_last :: gotime
  lr_suppressed :: "64 word"

record Deduper =
  dd_window :: duration
  dd_minLevel :: nat
  dd_entries :: "(string, log_record) gomap"
  dd_lastPrune :: "gotime option"

definition Deduper_New :: "duration \<Rightarrow> nat \<Rightarrow> Deduper" where
  "Deduper_New window minLevel =
     \<lparr>dd_window = (if window \<le> 0 then DefaultWindow else window), dd_minLevel = minLevel, dd_entries = [], dd_lastPrune = None\<rparr>"

definition entryKey :: "(nat \<Rightarrow> string) \<Rightarrow> ('v \<Rightarrow> string) \<Rightarrow> 'v log_entry \<Rightarrow> string" where
  "entryKey levelString fmtv entry =
     levelString (en_Level entry) @ [CHR 0x00] @ en_Message entry
     @ concat (map (\<lambda>key. [CHR 0x00] @ key @ ''='' @ (case mload (en_Data entry) key of None \<Rightarrow> '''' | Some v \<Rightarrow> fmtv v))
         (sort (map fst (en_Data entry))))"

definition prune :: "gotime \<Rightarrow> Deduper \<Rightarrow> Deduper" where
  "prune now d =
     (if (case dd_lastPrune d of None \<Rightarrow> False | Some t \<Rightarrow> time_Sub now t < dd_window d) then d
      else d\<lparr>dd_lastPrune := Some now,
             dd_entries := mrange_delete (\<lambda>_ r. retention \<le> time_Sub now (lr_last r)) (dd_entries d)\<rparr>)"

definition collapsed_note :: "nat \<Rightarrow> duration \<Rightarrow> string" where
  "collapsed_note n window =
     '' (the same message was logged '' @ nat_digits n @ '' more times in the previous '' @ duration_String window @ '')''"

text \<open>\<open>Suppress\<close>: the deduper, the entry (its message may change), and whether it is a repeat.\<close>

definition Suppress ::
  "(nat \<Rightarrow> string) \<Rightarrow> ('v \<Rightarrow> string) \<Rightarrow> gotime \<Rightarrow> Deduper option \<Rightarrow> 'v log_entry \<Rightarrow> Deduper option \<times> 'v log_entry \<times> bool" where
  "Suppress levelString fmtv now dd entry =
     (case dd of
        None \<Rightarrow> (None, entry, False)
      | Some d \<Rightarrow>
          if dd_minLevel d < en_Level entry then (Some d, entry, False)
          else
            let key = entryKey levelString fmtv entry;
                d = prune now d;
                put = (\<lambda>r. Some (d\<lparr>dd_entries := mstore (dd_entries d) key r\<rparr>))
            in case mload (dd_entries d) key of
                 None \<Rightarrow> (put \<lparr>lr_first = now, lr_last = now, lr_suppressed = 0\<rparr>, entry, False)
               | Some r \<Rightarrow>
                   if time_Sub now (lr_first r) < dd_window d
                   then (put (r\<lparr>lr_last := now, lr_suppressed := lr_suppressed r + 1\<rparr>), entry, True)
                   else
                     (put \<lparr>lr_first = now, lr_last = now, lr_suppressed = 0\<rparr>,
                      if 0 < lr_suppressed r
                      then entry\<lparr>en_Message := en_Message entry @ collapsed_note (unat (lr_suppressed r)) (dd_window d)\<rparr>
                      else entry,
                      False))"

text \<open>\<open>Formatter.Format\<close>: \<open>None\<close> as text means that nothing is written.\<close>

record 'v Formatter =
  fo_Inner :: "('v log_entry \<Rightarrow> string) option"
  fo_Dedupe :: "Deduper option"

definition Formatter_Format ::
  "(nat \<Rightarrow> string) \<Rightarrow> ('v \<Rightarrow> string) \<Rightarrow> ('v log_entry \<Rightarrow> string) \<Rightarrow> gotime \<Rightarrow> 'v Formatter \<Rightarrow> 'v log_entry \<Rightarrow> 'v Formatter \<times> string option" where
  "Formatter_Format levelString fmtv text now f entry =
     (case Suppress levelString fmtv now (fo_Dedupe f) entry of
        (d, entry, True) \<Rightarrow> (f\<lparr>fo_Dedupe := d\<rparr>, None)
      | (d, entry, False) \<Rightarrow>
          let inner = (case fo_Inner f of None \<Rightarrow> text | Some i \<Rightarrow> i)
          in (f\<lparr>fo_Dedupe := d, fo_Inner := Some inner\<rparr>, Some (inner entry)))"

definition loghook_Install :: "('v log_entry \<Rightarrow> string) option \<Rightarrow> duration \<Rightarrow> nat \<Rightarrow> 'v Formatter" where
  "loghook_Install formatter window minLevel = \<lparr>fo_Inner = formatter, fo_Dedupe = Some (Deduper_New window minLevel)\<rparr>"

section \<open>What is written\<close>

text \<open>A history of logged entries, the newest first: time, key, and whether it was suppressed.\<close>

type_synonym log_history = "(gotime \<times> string \<times> bool) list"

definition last_written :: "log_history \<Rightarrow> string \<Rightarrow> gotime option" where
  "last_written h k = map_option fst (find (\<lambda>(_, k', s). k' = k \<and> \<not> s) h)"

definition last_event :: "log_history \<Rightarrow> string \<Rightarrow> gotime option" where
  "last_event h k = map_option fst (find (\<lambda>(_, k', _). k' = k) h)"

text \<open>The entries with the key suppressed since it was written last.\<close>

definition repeats :: "log_history \<Rightarrow> string \<Rightarrow> nat" where
  "repeats h k = length (filter (\<lambda>(_, k', _). k' = k) (takeWhile (\<lambda>(_, k', s). k' = k \<longrightarrow> s) h))"

inductive logged :: "(nat \<Rightarrow> string) \<Rightarrow> ('v \<Rightarrow> string) \<Rightarrow> duration \<Rightarrow> nat \<Rightarrow> Deduper \<Rightarrow> log_history \<Rightarrow> bool"
  for levelString fmtv window minLevel where
  logged_new: "logged levelString fmtv window minLevel (Deduper_New window minLevel) []"
| logged_entry: "logged levelString fmtv window minLevel d h \<Longrightarrow> \<forall>e \<in> set h. fst e \<le> now \<Longrightarrow>
    Suppress levelString fmtv now (Some d) entry = (Some d', entry', s) \<Longrightarrow> en_Level entry \<le> minLevel \<Longrightarrow>
    logged levelString fmtv window minLevel d' ((now, entryKey levelString fmtv entry, s) # h)"

lemma history_simps:
  "last_written ((t, k', s) # h) k = (if k' = k \<and> \<not> s then Some t else last_written h k)"
  "last_event ((t, k', s) # h) k = (if k' = k then Some t else last_event h k)"
  "repeats ((t, k', s) # h) k = (if k' = k then if s then Suc (repeats h k) else 0 else repeats h k)"
  "last_written [] k = None" "last_event [] k = None" "repeats [] k = 0"
  by (simp_all add: last_written_def last_event_def repeats_def)

text \<open>A remembered record describes the history of its key; a forgotten key was silent for the retention period.\<close>

definition record_ok :: "log_history \<Rightarrow> gotime \<Rightarrow> string \<Rightarrow> log_record option \<Rightarrow> bool" where
  "record_ok h now k x =
     (case x of
        Some r \<Rightarrow> last_written h k = Some (lr_first r) \<and> last_event h k = Some (lr_last r) \<and> lr_suppressed r = of_nat (repeats h k)
                 \<and> lr_first r \<le> lr_last r \<and> lr_last r \<le> now
      | None \<Rightarrow> (\<forall>t. last_event h k = Some t \<longrightarrow> t + retention \<le> now))"

definition deduper_inv :: "duration \<Rightarrow> nat \<Rightarrow> log_history \<Rightarrow> gotime \<Rightarrow> Deduper \<Rightarrow> bool" where
  "deduper_inv window minLevel h now d \<longleftrightarrow>
     mwf (dd_entries d) \<and> dd_window d = (if window \<le> 0 then DefaultWindow else window) \<and> dd_minLevel d = minLevel
     \<and> (\<forall>k. record_ok h now k (mload (dd_entries d) k)
            \<and> (\<forall>t. last_written h k = Some t \<longrightarrow> (\<exists>t'. last_event h k = Some t' \<and> t \<le> t' \<and> t' \<le> now)))"

lemma record_ok_later: "record_ok h now k x \<Longrightarrow> now \<le> now' \<Longrightarrow> record_ok h now' k x"
  by (auto simp: record_ok_def split: option.splits)

lemma deduper_inv_later: "deduper_inv w m h now d \<Longrightarrow> now \<le> now' \<Longrightarrow> deduper_inv w m h now' d"
  unfolding deduper_inv_def by (meson record_ok_later order_trans)

lemma time_Sub_le: "retention \<le> time_Sub now t \<longleftrightarrow> retention \<le> now - t"
  by (auto simp: time_Sub_def retention_def time_consts max_i64_def min_i64_def)

lemma time_Sub_less: "0 < w \<Longrightarrow> w \<le> retention \<Longrightarrow> time_Sub now t < w \<longleftrightarrow> now - t < w"
  by (auto simp: time_Sub_def retention_def time_consts max_i64_def min_i64_def)

lemma prune_inv: "deduper_inv w m h now d \<Longrightarrow> deduper_inv w m h now (prune now d)"
proof (cases "case dd_lastPrune d of None \<Rightarrow> False | Some t \<Rightarrow> time_Sub now t < dd_window d")
  case False
  assume i: "deduper_inv w m h now d"
  have "record_ok h now k (mload (mrange_delete (\<lambda>_ r. retention \<le> time_Sub now (lr_last r)) (dd_entries d)) k)" for k
  proof -
    have "mwf (dd_entries d)" "record_ok h now k (mload (dd_entries d) k)" using i by (simp_all add: deduper_inv_def)
    then show ?thesis by (auto simp: record_ok_def time_Sub_le split: option.splits)
  qed
  then show ?thesis using i False by (simp add: prune_def deduper_inv_def)
qed (simp add: prune_def)

lemma deduper_window: "deduper_inv w m h now d \<Longrightarrow> w \<le> retention \<Longrightarrow> 0 < dd_window d \<and> dd_window d \<le> retention"
  by (auto simp: deduper_inv_def DefaultWindow_def retention_def time_consts)

text \<open>One call, described by the history.\<close>

lemma Suppress_step:
  assumes inv: "deduper_inv w m h now d" and "w \<le> retention" and "en_Level entry \<le> m"
    and call: "Suppress levelString fmtv now (Some d) entry = (Some d', entry', s)"
  defines "k \<equiv> entryKey levelString fmtv entry"
  shows "deduper_inv w m ((now, k, s) # h) now d'"
    and "s \<longleftrightarrow> (\<exists>t. last_written h k = Some t \<and> now - t < dd_window d)"
    and "\<not> s \<Longrightarrow> entry' = entry\<lparr>en_Message := en_Message entry @ collapsed_note (unat (of_nat (repeats h k) :: 64 word)) (dd_window d)\<rparr>
       \<or> entry' = entry \<and> ((of_nat (repeats h k) :: 64 word) = 0 \<or> (\<exists>t. last_event h k = Some t \<and> t + retention \<le> now))"
proof -
  let ?d = "prune now d"
  have pinv: "deduper_inv w m h now ?d" by (rule prune_inv [OF inv])
  have same: "dd_window ?d = dd_window d" "\<not> dd_minLevel d < en_Level entry" using inv pinv assms(3) by (auto simp: deduper_inv_def)
  note win = deduper_window [OF pinv assms(2)]
  have ok: "record_ok h now k (mload (dd_entries ?d) k)"
    and le: "\<And>t. last_written h k = Some t \<Longrightarrow> \<exists>t'. last_event h k = Some t' \<and> t \<le> t' \<and> t' \<le> now"
    using pinv by (auto simp: deduper_inv_def)
  have upd: "deduper_inv w m ((now, k, s') # h) now (?d\<lparr>dd_entries := mstore (dd_entries ?d) k r\<rparr>)"
    if "record_ok ((now, k, s') # h) now k (Some r)" for s' r
  proof -
    have "record_ok ((now, k, s') # h) now j (mload (mstore (dd_entries ?d) k r) j)" for j
      using that pinv by (cases "j = k") (auto simp: deduper_inv_def record_ok_def history_simps cong: option.case_cong)
    moreover have "\<exists>t'. last_event ((now, k, s') # h) j = Some t' \<and> t \<le> t' \<and> t' \<le> now"
      if "last_written ((now, k, s') # h) j = Some t" for j t
      using that pinv le by (cases "j = k") (fastforce simp: deduper_inv_def history_simps split: if_splits)+
    ultimately show ?thesis using pinv by (simp add: deduper_inv_def)
  qed
  consider (fresh) "mload (dd_entries ?d) k = None"
    | (repeated) r where "mload (dd_entries ?d) k = Some r" "time_Sub now (lr_first r) < dd_window d"
    | (window) r where "mload (dd_entries ?d) k = Some r" "\<not> time_Sub now (lr_first r) < dd_window d"
    by (cases "mload (dd_entries ?d) k") auto
  then have "deduper_inv w m ((now, k, s) # h) now d' \<and> (s \<longleftrightarrow> (\<exists>t. last_written h k = Some t \<and> now - t < dd_window d))
    \<and> (\<not> s \<longrightarrow> entry' = entry\<lparr>en_Message := en_Message entry @ collapsed_note (unat (of_nat (repeats h k) :: 64 word)) (dd_window d)\<rparr>
       \<or> entry' = entry \<and> ((of_nat (repeats h k) :: 64 word) = 0 \<or> (\<exists>t. last_event h k = Some t \<and> t + retention \<le> now)))"
  proof cases
    case fresh
    have c: "d' = ?d\<lparr>dd_entries := mstore (dd_entries ?d) k \<lparr>lr_first = now, lr_last = now, lr_suppressed = 0\<rparr>\<rparr>" "entry' = entry" "\<not> s"
      using call fresh same by (auto simp: Suppress_def Let_def k_def)
    have quiet: "\<forall>t. last_event h k = Some t \<longrightarrow> t + retention \<le> now" using ok fresh by (simp add: record_ok_def)
    have "repeats h k = 0" if "last_event h k = None"
      using that by (induction h) (auto simp: history_simps split: if_splits)
    then have rep: "(of_nat (repeats h k) :: 64 word) = 0 \<or> (\<exists>t. last_event h k = Some t \<and> t + retention \<le> now)"
      using quiet by (cases "last_event h k") auto
    have "\<not> (\<exists>t. last_written h k = Some t \<and> now - t < dd_window d)"
    proof
      assume "\<exists>t. last_written h k = Some t \<and> now - t < dd_window d"
      then obtain t t' where "now - t < dd_window d" "last_event h k = Some t'" "t \<le> t'" using le by blast
      then show False using quiet win same(1) by fastforce
    qed
    moreover have "deduper_inv w m ((now, k, False) # h) now d'" unfolding c(1) by (rule upd) (simp add: record_ok_def history_simps)
    ultimately show ?thesis using c(2,3) rep by simp
  next
    case repeated
    have c: "d' = ?d\<lparr>dd_entries := mstore (dd_entries ?d) k (r\<lparr>lr_last := now, lr_suppressed := lr_suppressed r + 1\<rparr>)\<rparr>" "s"
      using call repeated same by (auto simp: Suppress_def Let_def k_def)
    have "deduper_inv w m ((now, k, True) # h) now d'"
      unfolding c(1) by (rule upd) (use ok repeated in \<open>simp add: record_ok_def history_simps\<close>)
    then show ?thesis using c(2) ok repeated win same(1) by (simp add: record_ok_def time_Sub_less)
  next
    case window
    have c: "d' = ?d\<lparr>dd_entries := mstore (dd_entries ?d) k \<lparr>lr_first = now, lr_last = now, lr_suppressed = 0\<rparr>\<rparr>" "\<not> s"
      "entry' = (if 0 < lr_suppressed r
         then entry\<lparr>en_Message := en_Message entry @ collapsed_note (unat (lr_suppressed r)) (dd_window d)\<rparr> else entry)"
      using call window same by (auto simp: Suppress_def Let_def k_def)
    have "deduper_inv w m ((now, k, False) # h) now d'"
      unfolding c(1) by (rule upd) (simp add: record_ok_def history_simps)
    then show ?thesis using c(2,3) ok window win same(1) by (simp add: record_ok_def time_Sub_less word_gt_0)
  qed
  then show "deduper_inv w m ((now, k, s) # h) now d'" "s \<longleftrightarrow> (\<exists>t. last_written h k = Some t \<and> now - t < dd_window d)"
    "\<not> s \<Longrightarrow> entry' = entry\<lparr>en_Message := en_Message entry @ collapsed_note (unat (of_nat (repeats h k) :: 64 word)) (dd_window d)\<rparr>
       \<or> entry' = entry \<and> ((of_nat (repeats h k) :: 64 word) = 0 \<or> (\<exists>t. last_event h k = Some t \<and> t + retention \<le> now))"
    by blast+
qed

lemma logged_inv:
  assumes "logged levelString fmtv window minLevel d h" and "window \<le> retention" and "\<forall>e \<in> set h. fst e \<le> now"
  shows "deduper_inv window minLevel h now d"
  using assms(1,3)
proof (induction arbitrary: now rule: logged.induct)
  case logged_new
  show ?case by (simp add: deduper_inv_def Deduper_New_def record_ok_def history_simps mload_def mwf_def)
next
  case (logged_entry d h t entry d' entry' s)
  have "deduper_inv window minLevel ((t, entryKey levelString fmtv entry, s) # h) t d'"
    using Suppress_step(1) [OF logged_entry.IH assms(2)] logged_entry by blast
  then show ?case using deduper_inv_later logged_entry.prems by fastforce
qed


definition example_log_entry :: "string log_entry" where
  "example_log_entry = \<lparr>en_Level = 2, en_Message = ''panel unreachable'', en_Data = [(''tag'', ''n'')]\<rparr>"


end
