(* ===== verification/Spec2Isabelle.thy ===== *)
theory Spec2Isabelle
  imports Limiter Sing_Hook Controller_Reload Selector_Traffic Node Task Xray_Connections Xray_Server Sing_Node Hy2_Server Lego Panel_Status Commands Split Server Loghook
begin

text \<open>
  A verification development of V2bX, a node agent for proxy panels.

  \<^bold>\<open>The program.\<close> One process serves the nodes of its configuration. Each node has a controller
  (\<open>node/\<close>) that pulls its description and its users from a panel (\<open>api/panel\<close>), installs them in a
  proxy core (\<open>core/xray\<close>, \<open>core/sing\<close>, \<open>core/hy2\<close>, chosen by \<open>core/selector.go\<close>), and reports traffic
  and online devices back. The cores ask the limiter of the node (\<open>limiter/\<close>) before they serve a
  connection, and count bytes in \<open>common/counter\<close>. Periodic work is done by \<open>common/task\<close>. The process itself
  (\<open>cmd/\<close>, \<open>conf/\<close>) reads a JSON5 file, starts the cores and the nodes, watches the file and reloads.

  \<^bold>\<open>Conventions.\<close> A method \<open>T.M\<close> is the definition \<open>T_M\<close>, its receiver an argument that is returned updated.
  Fields carry a prefix of their struct. The clock is the argument \<open>now\<close> (nanoseconds). A panic is \<open>None\<close> of the
  type \<open>'a go\<close>, an error is \<open>Inl\<close> or \<open>Some message\<close>. Go's \<open>int\<close> is \<open>int\<close> with the wrap-around written where
  it can occur; byte counters are \<open>64 word\<close>. A Go map is an association list in an unspecified order
  (\<open>gomap\<close>), and results that could depend on the order are proved not to. Third-party code is an
  argument: a record of functions (\<open>env\<close>, \<open>decoders\<close>, \<open>stats_ops\<close>, \<open>proxy_ops\<close>, \<open>Core\<close>, \<open>dispatcher_env\<close>, \<open>json\<close>,
  \<open>server_env\<close>) whose assumed laws are hypotheses of the theorems. Code under a mutex is one atomic
  step; where threads interleave (connections, the task timer) the steps form an inductive relation.

  \<^bold>\<open>Library.\<close>
  \<^item> \<open>Go_Prelude\<close>: machine integers, time, panics, Go maps with the locale \<open>go_map_spec\<close> (interpreted by
    \<open>gm\<close>). \<open>Go_Strings\<close>: packages \<open>strings\<close>, \<open>strconv\<close>, \<open>net\<close>. \<open>Go_Paths\<close>: packages \<open>path\<close> and
    \<open>filepath\<close>, with the normal form of rooted paths.
  \<^item> \<open>Json5\<close> (\<open>common/json5\<close>): the reader that blanks comments and trailing commas; it never
    moves a byte and leaves plain JSON alone.
  \<^item> \<open>Crypt\<close> (\<open>common/crypt\<close>): base64 with its round trip, the AES helpers, clamping of X25519 keys.

  \<^bold>\<open>Limits and devices.\<close>
  \<^item> \<open>Netutil\<close> (\<open>common/netutil\<close>, \<open>common/format\<close>): the identity of a client device.
  \<^item> \<open>Online_Registry\<close> (\<open>limiter/online_registry.go\<close>): reference counts and time to live. The locale
    \<open>device_registry\<close> states what the clients rely on; \<open>reg\<close> interprets it. A device with an open
    connection is always in the snapshot.
  \<^item> \<open>Conn_Limiter\<close> (\<open>limiter/conn.go\<close>): the counters equal the numbers of open connections in every run,
    and the limits are respected.
  \<^item> \<open>Limiter\<close> (\<open>limiter.go\<close>, \<open>dynamic.go\<close>, \<open>rule.go\<close>, \<open>clear.go\<close>): \<open>CheckLimit\<close> rejects exactly in the documented
    cases, a rejection records nothing, no call panics.

  \<^bold>\<open>Cores.\<close>
  \<^item> \<open>Counter\<close>, \<open>Core_Traffic\<close>: the billing contract of a core as the locale \<open>core_traffic\<close>, interpreted for the
    sing hook (\<open>sing\<close>) and hysteria (\<open>hy2\<close>), and by \<open>sublocale\<close> for Xray over any statistics manager
    (\<open>stats_manager\<close>, interpreted by \<open>map_manager\<close>) and for the selector (\<open>core_methods\<close>, \<open>running_cores\<close>,
    interpreted by \<open>map_cores\<close>).
  \<^item> \<open>Sing_Hook\<close> (\<open>core/sing/hook.go\<close>), \<open>Hy2\<close> (\<open>core/hy2\<close>): the life of a connection, admission, release.
  \<^item> \<open>Xray_User\<close> (users and traffic), \<open>Xray_Dispatcher\<close>, \<open>Xray_Connections\<close> (\<open>app/dispatcher\<close>, \<open>common/rate\<close>):
    sniffing loses no byte, every connection gives back its slot, and over all interleavings a user
    has at most the configured number of live connections.
  \<^item> \<open>Xray_Inbound\<close>, \<open>Xray_Server\<close> (\<open>core/xray/inbound.go\<close>, \<open>ss.go\<close>, \<open>node.go\<close>, \<open>xray.go\<close>, \<open>dns.go\<close>): the inbound of every protocol,
    built down to the call of Xray, with the cases in which building panics; the start of the server; the life
    of a node over the handler managers of Xray (locales \<open>handler_manager\<close> and \<open>node_managers\<close>).
  \<^item> \<open>Sing_Node\<close> (\<open>core/sing/node.go\<close>, \<open>naive.go\<close>, \<open>user.go\<close>, \<open>sing.go\<close>): inbound options, users, and the naive inbounds that are made
    anew with every change of users; the locale \<open>inbound_box\<close> is the inbound manager of sing-box.
  \<^item> \<open>Geo_Loader\<close>, \<open>Hy2_Config\<close>, \<open>Hy2_Server\<close> (\<open>core/hy2\<close>): the geo databases with their fall-back, the server configuration
    with its limits, and the life of a node over UDP sockets (locale \<open>udp_sockets\<close>).
  \<^item> \<open>Selector\<close> (\<open>core/core.go\<close>, \<open>selector.go\<close>): the choice of the core equals a declarative reference.
    \<open>Selector_Traffic\<close>: the whole process bills every byte exactly once, across reports that fail.

  \<^bold>\<open>Nodes and panel.\<close>
  \<^item> \<open>Panel_Types\<close>, \<open>Panel_Client\<close> (\<open>api/panel\<close>): the node description of every protocol, caching by hash and
    ETag, reports that are sent at most once. \<open>Panel_Status\<close>: the decoder of the alive list, the status of the system
    (\<open>common/serverstatus\<close>) and its report.
  \<^item> \<open>Node_User\<close>, \<open>Controller\<close>, \<open>Controller_Report\<close>, \<open>Controller_Reload\<close>, \<open>Node\<close> (\<open>node/\<close>): the controller keeps
    limiter, core and its own list in step. The locale \<open>controller_frame\<close> carries a relation through all
    operations of the controller; \<open>users\<close>, \<open>kept\<close>, \<open>windows\<close> and \<open>tags\<close> interpret it.
  \<^item> \<open>Lego\<close> (\<open>node/lego.go\<close>, \<open>node/cert.go\<close>, \<open>common/file\<close>): accounts and certificates on an explicit disk, when a certificate is
    renewed, and that the files of a node are there; the locale \<open>account_codec\<close> is the encoding of an account.
  \<^item> \<open>Task\<close> (\<open>common/task\<close>): a machine of interleaved threads; mutual exclusion of the body and progress.

  \<^bold>\<open>The process.\<close>
  \<^item> \<open>Conf\<close>, \<open>Conf_Load\<close> (\<open>conf/\<close>): structs and defaults, loading, included files, and the watcher as a machine on
    timed events: which changes lead to a reload.
  \<^item> \<open>Server\<close> (\<open>cmd/server.go\<close>, \<open>common/startlock\<close>, \<open>cmd/coreversion.go\<close>): start, reload, the start lock.
  \<^item> \<open>Split\<close> (\<open>cmd/split.go\<close>): one configuration per node, each keeping the core the node would get.
  \<^item> \<open>Sysmem\<close> (\<open>common/sysmem\<close>, \<open>cmd/memlimit.go\<close>): the memory budget. \<open>Loghook\<close> (\<open>common/loghook\<close>):
    collapsing of repeated log entries.
  \<^item> \<open>Commands\<close> (\<open>cmd/action_linux.go\<close>, \<open>install_linux.go\<close>, \<open>x25519.go\<close>, \<open>synctime.go\<close>, \<open>common/exec\<close>): the commands that manage
    the service, over a machine state that shell commands change.

  \<^bold>\<open>Loops.\<close> Loops over data are structural. Those that are not (\<open>cgroup_walk\<close>, \<open>acquire_loop\<close>, \<open>decodeAliveMap\<close>) are
  \<open>partial_function (option)\<close>, and that they return is part of their theorems. No fuel is used.

  \<^bold>\<open>Not modelled.\<close> The directory \<open>third_party\<close> and the packages of Xray, sing-box, hysteria and the ACME client, which are
  arguments; generated code (\<open>config.pb.go\<close>) and lists of imports (\<open>distro/all\<close>); registration of the commands
  (\<open>cmd/cmd.go\<close>, \<open>cmd/version.go\<close>); the system call that sets the clock (\<open>common/systime\<close>); the text and the fields of log entries
  where nothing depends on them. Floating point values are rationals. The scheduler is only as fair as a
  theorem says.
\<close>

end
